(* ===== verification/Prelude.thy ===== *)
theory Prelude
  imports Main "HOL-Library.Finite_Map" "HOL-Library.Word"
begin

text \<open>
  Shared vocabulary of the development.

  A Go \<open>map\<close> and a database table keyed by its primary key are both a finite map
  \<open>('k, 'v) fmap\<close>.  The loops and SQL statements of the source act on such a map row by row,
  so a handful of bulk operations cover them all: \<open>fmkeep\<close> (delete every row that fails a
  test), \<open>fmmap_keys\<close> (update every row), \<open>fmany\<close> (is there a row with a property) and
  \<open>fmsize\<close> (how many rows).  The lookup lemma of each is a simp rule, so that proofs about the
  stores never unfold the bulk operations.

  Errors are the left summand of \<open>'e + 'a\<close>.  Times are nanoseconds since Go's zero time, as
  \<open>int\<close>.  The collection \<open>inv_intros\<close> gathers the preservation lemmas of the components'
  invariants.
\<close>

named_theorems inv_intros \<open>preservation lemmas of the component invariants\<close>

type_synonym byte = "8 word"
type_synonym time = int

section \<open>Bulk operations on finite maps\<close>

definition fmkeep :: "('k \<Rightarrow> 'v \<Rightarrow> bool) \<Rightarrow> ('k, 'v) fmap \<Rightarrow> ('k, 'v) fmap" where
  "fmkeep P m = fmfilter (\<lambda>k. case fmlookup m k of None \<Rightarrow> False | Some v \<Rightarrow> P k v) m"

definition fmany :: "('k \<Rightarrow> 'v \<Rightarrow> bool) \<Rightarrow> ('k, 'v) fmap \<Rightarrow> bool" where
  "fmany P m \<longleftrightarrow> \<not> fmpred (\<lambda>k v. \<not> P k v) m"

definition fmsize :: "('k, 'v) fmap \<Rightarrow> nat" where
  "fmsize m = fcard (fmdom m)"

lemma fmlookup_fmkeep [simp]:
  "fmlookup (fmkeep P m) k =
     (case fmlookup m k of None \<Rightarrow> None | Some v \<Rightarrow> if P k v then Some v else None)"
  by (simp add: fmkeep_def split: option.splits)

lemma fmlookup_fmkeep_Some:
  "fmlookup (fmkeep P m) k = Some v \<longleftrightarrow> fmlookup m k = Some v \<and> P k v"
  by (auto split: option.splits if_splits)

lemma fmlookup_fmkeep_None:
  "fmlookup (fmkeep P m) k = None \<longleftrightarrow> (\<forall>v. fmlookup m k = Some v \<longrightarrow> \<not> P k v)"
  by (simp split: option.splits)

lemma fmany_iff: "fmany P m \<longleftrightarrow> (\<exists>k v. fmlookup m k = Some v \<and> P k v)"
  by (auto simp: fmany_def fmpred_iff)

lemma fmanyI: "fmlookup m k = Some v \<Longrightarrow> P k v \<Longrightarrow> fmany P m"
  by (auto simp: fmany_iff)

lemma fmkeep_empty [simp]: "fmkeep P fmempty = fmempty"
  by (rule fmap_ext) simp

lemma fmany_empty [simp]: "\<not> fmany P fmempty"
  by (simp add: fmany_iff)

lemma fmany_upd [simp]:
  "fmany P (fmupd k v m) \<longleftrightarrow> P k v \<or> fmany (\<lambda>k' v'. k' \<noteq> k \<and> P k' v') m"
  by (auto simp: fmany_iff split: if_splits)

lemma fmkeep_upd [simp]:
  "fmkeep P (fmupd k v m) = (if P k v then fmupd k v (fmkeep P m) else fmdrop k (fmkeep P m))"
  by (rule fmap_ext) (auto split: option.splits)

lemma fmkeep_fmkeep [simp]: "fmkeep P (fmkeep Q m) = fmkeep (\<lambda>k v. Q k v \<and> P k v) m"
  by (rule fmap_ext) (auto split: option.splits)

lemma fmkeep_all: "(\<And>k v. fmlookup m k = Some v \<Longrightarrow> P k v) \<Longrightarrow> fmkeep P m = m"
  by (rule fmap_ext) (auto split: option.splits)

lemma fmsize_empty [simp]: "fmsize fmempty = 0"
  by (simp add: fmsize_def)

lemma fmsize_upd: "fmsize (fmupd k v m) = (if fmlookup m k = None then Suc (fmsize m) else fmsize m)"
  by (auto simp: fmsize_def fcard_finsert_if fmlookup_dom_iff)

lemma fmsize_fmkeep: "fmsize (fmkeep P m) \<le> fmsize m"
  unfolding fmsize_def by (rule fcard_mono) (auto simp: fmlookup_dom_iff split: option.splits if_splits)

lemma fmsize_fmmap_keys [simp]: "fmsize (fmmap_keys f m) = fmsize m"
  by (simp add: fmsize_def)

section \<open>Options and results\<close>

definition opt_guard :: "bool \<Rightarrow> unit option" where
  "opt_guard b = (if b then Some () else None)"

fun isl_of :: "'e + 'a \<Rightarrow> bool" where
  "isl_of (Inl _) = True"
| "isl_of (Inr _) = False"

section \<open>Lists\<close>

fun dedup_on :: "('a \<Rightarrow> 'k) \<Rightarrow> 'k set \<Rightarrow> 'a list \<Rightarrow> 'a list" where
  "dedup_on key seen [] = []"
| "dedup_on key seen (x # xs) =
     (if key x \<in> seen then dedup_on key seen xs
      else x # dedup_on key (insert (key x) seen) xs)"

lemma set_dedup_on_subset: "set (dedup_on key seen xs) \<subseteq> set xs"
  by (induction xs arbitrary: seen) auto

lemma keys_dedup_on: "key ` set (dedup_on key seen xs) = key ` set xs - seen"
  by (induction xs arbitrary: seen) (auto simp: image_iff)

lemma distinct_dedup_on: "distinct (map key (dedup_on key seen xs))"
proof (induction xs arbitrary: seen)
  case (Cons x xs)
  have "key x \<notin> key ` set (dedup_on key (insert (key x) seen) xs)"
    by (simp only: keys_dedup_on) simp
  with Cons show ?case by auto
qed simp

lemma length_dedup_on: "length (dedup_on key seen xs) \<le> length xs"
  by (induction xs arbitrary: seen) (auto intro: le_SucI)

end
