(* ===== verification/Go_Std.thy ===== *)
theory Go_Std
  imports Prelude
begin

text \<open>
  The parts of Go's standard library that the modelled code calls: \<open>strings.Fields\<close>,
  \<open>TrimSpace\<close>, \<open>ToLower\<close>, \<open>EqualFold\<close>, \<open>Join\<close> and \<open>HasPrefix\<close>, and
  \<open>base64.RawURLEncoding\<close> and \<open>crypto/sha256\<close>.  A Go string is a list of bytes, written as an
  Isabelle \<open>string\<close> (its characters are the bytes 0 to 255), so the multi-byte UTF-8 spaces of
  \<open>unicode.IsSpace\<close> appear here as byte sequences.  Case folding is ASCII folding: bytes from
  128 on are left alone.
\<close>

unbundle bit_operations_syntax

section \<open>Prefixes, joining, case\<close>

definition has_prefix :: "string \<Rightarrow> string \<Rightarrow> bool" where
  "has_prefix p s \<longleftrightarrow> take (length p) s = p"

fun join :: "string \<Rightarrow> string list \<Rightarrow> string" where
  "join sep [] = []"
| "join sep [x] = x"
| "join sep (x # y # xs) = x @ sep @ join sep (y # xs)"

definition lower_byte :: "char \<Rightarrow> char" where
  "lower_byte c = (if 65 \<le> (of_char c :: nat) \<and> (of_char c :: nat) \<le> 90
                   then char_of ((of_char c :: nat) + 32) else c)"

definition to_lower :: "string \<Rightarrow> string" where
  "to_lower s = map lower_byte s"

definition equal_fold :: "string \<Rightarrow> string \<Rightarrow> bool" where
  "equal_fold a b \<longleftrightarrow> to_lower a = to_lower b"

text \<open>\<open>strings.Index\<close>: the text before the first occurrence and the text after it.\<close>

fun find_sub :: "string \<Rightarrow> string \<Rightarrow> (string \<times> string) option" where
  "find_sub p [] = (if p = [] then Some ([], []) else None)"
| "find_sub p (c # cs) =
     (if has_prefix p (c # cs) then Some ([], drop (length p) (c # cs))
      else map_option (\<lambda>(a, b). (c # a, b)) (find_sub p cs))"

text \<open>\<open>strings.Split\<close> at a one-byte separator.\<close>

fun split_on :: "char \<Rightarrow> string \<Rightarrow> string list" where
  "split_on c [] = [[]]"
| "split_on c (x # xs) =
     (if x = c then [] # split_on c xs
      else (case split_on c xs of [] \<Rightarrow> [[x]] | p # ps \<Rightarrow> (x # p) # ps))"

lemma split_on_ne [simp]: "split_on c s \<noteq> []"
  by (induction c s rule: split_on.induct) (auto split: list.splits)

lemma split_on_append: "split_on c (a @ c # b) = split_on c a @ split_on c b"
proof (induction a)
  case (Cons x a)
  then show ?case by (cases "split_on c a") (auto split: list.splits)
qed simp

lemma has_prefix_append [simp]: "has_prefix p (p @ s)"
  by (simp add: has_prefix_def)

lemma has_prefix_iff: "has_prefix p s \<longleftrightarrow> (\<exists>t. s = p @ t)"
  unfolding has_prefix_def by (metis append_eq_conv_conj append_take_drop_id)

lemma find_sub_Some: "find_sub p s = Some (a, b) \<Longrightarrow> s = a @ p @ b"
  by (induction p s arbitrary: a rule: find_sub.induct)
     (auto split: if_splits simp: has_prefix_iff)

lemma find_sub_None: "find_sub p s = None \<Longrightarrow> s \<noteq> a @ p @ b"
proof (induction p s arbitrary: a rule: find_sub.induct)
  case (2 p c cs)
  then have no: "\<not> has_prefix p (c # cs)" and rest: "find_sub p cs = None" by (auto split: if_splits)
  show ?case
  proof (cases a)
    case Nil
    then show ?thesis using no by (auto simp: has_prefix_iff)
  next
    case (Cons x xs)
    then show ?thesis using "2.IH" no rest by auto
  qed
qed (auto split: if_splits)

lemma equal_fold_refl [simp]: "equal_fold a a"
  by (simp add: equal_fold_def)

lemma equal_fold_sym: "equal_fold a b \<Longrightarrow> equal_fold b a"
  by (simp add: equal_fold_def)

lemma equal_fold_trans: "equal_fold a b \<Longrightarrow> equal_fold b c \<Longrightarrow> equal_fold a c"
  by (simp add: equal_fold_def)

section \<open>White space\<close>

text \<open>
  The number of bytes of the white-space rune a string starts with, 0 if it starts with another
  rune: the six ASCII spaces, U+0085, U+00A0, U+1680, U+2000 to U+200A, U+2028, U+2029, U+202F,
  U+205F and U+3000.  No continuation byte starts one of these sequences, so scanning byte by byte
  finds the runes \<open>strings.Fields\<close> finds.
\<close>

definition space_len :: "string \<Rightarrow> nat" where
  "space_len s = (let b = map (of_char :: char \<Rightarrow> nat) (take 3 s) in
     case b of
       [] \<Rightarrow> 0
     | x # r \<Rightarrow>
         if x = 32 \<or> (9 \<le> x \<and> x \<le> 13) then 1
         else if x = 194 \<and> (case r of y # _ \<Rightarrow> y = 133 \<or> y = 160 | [] \<Rightarrow> False) then 2
         else if (case r of
             [y, z] \<Rightarrow> (x = 225 \<and> y = 154 \<and> z = 128)
               \<or> (x = 226 \<and> y = 128 \<and> ((128 \<le> z \<and> z \<le> 138) \<or> z = 168 \<or> z = 169 \<or> z = 175))
               \<or> (x = 226 \<and> y = 129 \<and> z = 159)
               \<or> (x = 227 \<and> y = 128 \<and> z = 128)
           | _ \<Rightarrow> False) then 3
         else 0)"

lemma space_len_Nil [simp]: "space_len [] = 0"
  by (simp add: space_len_def)

lemma space_len_le: "space_len s \<le> length s"
  by (cases s; cases "tl s"; cases "tl (tl s)")
     (auto simp: space_len_def Let_def split: list.splits)

lemma space_len_blank [simp]: "space_len (CHR '' '' # s) = 1"
  by (simp add: space_len_def Let_def)

function fields_acc :: "string \<Rightarrow> string \<Rightarrow> string list" where
  "fields_acc cur [] = (if cur = [] then [] else [rev cur])"
| "fields_acc cur (c # cs) =
     (let n = space_len (c # cs) in
      if n = 0 then fields_acc (c # cur) cs
      else (if cur = [] then [] else [rev cur]) @ fields_acc [] (drop n (c # cs)))"
  by pat_completeness auto
termination
  by (relation "measure (\<lambda>(cur, s). length s)") auto

declare fields_acc.simps(2) [simp del]

definition str_fields :: "string \<Rightarrow> string list" where
  "str_fields s = fields_acc [] s"

function trim_left :: "string \<Rightarrow> string" where
  "trim_left s = (if space_len s = 0 then s else trim_left (drop (space_len s) s))"
  by pat_completeness auto
termination
  by (relation "measure length") (use space_len_Nil in \<open>auto intro!: diff_less simp: length_greater_0_conv\<close>)

declare trim_left.simps [simp del]

fun trim_right :: "string \<Rightarrow> string" where
  "trim_right [] = []"
| "trim_right (c # cs) = (if trim_left (c # cs) = [] then [] else c # trim_right cs)"

definition trim_space :: "string \<Rightarrow> string" where
  "trim_space s = trim_right (trim_left s)"

text \<open>A token: not empty, and no white-space rune starts inside it.\<close>

definition is_token :: "string \<Rightarrow> bool" where
  "is_token t \<longleftrightarrow> t \<noteq> [] \<and> (\<forall>i < length t. space_len (drop i t) = 0)"

lemma space_len_append:
  "t \<noteq> [] \<Longrightarrow> space_len t = 0 \<Longrightarrow> space_len (t @ CHR '' '' # r) = 0"
  by (cases t; cases "tl t"; cases "tl (tl t)")
     (auto simp: space_len_def Let_def split: if_splits list.splits)

lemma fields_acc_token:
  assumes "\<forall>i < length t. space_len (drop i t) = 0"
  shows "fields_acc cur (t @ CHR '' '' # r) =
    (if rev cur @ t = [] then [] else [rev cur @ t]) @ fields_acc [] r"
  using assms
proof (induction t arbitrary: cur)
  case Nil
  then show ?case by (simp add: fields_acc.simps(2) Let_def)
next
  case (Cons c t)
  have z: "space_len (c # t) = 0" using Cons.prems by auto
  have zz: "space_len (c # t @ CHR '' '' # r) = 0"
    using space_len_append [of "c # t" r] z by simp
  have rest: "\<forall>i < length t. space_len (drop i t) = 0" using Cons.prems by (metis Suc_less_eq drop_Suc_Cons length_Cons)
  show ?case using Cons.IH [OF rest, of "c # cur"] by (simp add: fields_acc.simps(2) Let_def zz)
qed

lemma fields_acc_last:
  assumes "\<forall>i < length t. space_len (drop i t) = 0"
  shows "fields_acc cur t = (if rev cur @ t = [] then [] else [rev cur @ t])"
  using assms
proof (induction t arbitrary: cur)
  case (Cons c t)
  have z: "space_len (c # t) = 0" using Cons.prems by auto
  have rest: "\<forall>i < length t. space_len (drop i t) = 0" using Cons.prems by (metis Suc_less_eq drop_Suc_Cons length_Cons)
  show ?case using Cons.IH [OF rest, of "c # cur"] by (simp add: fields_acc.simps(2) Let_def z)
qed simp

text \<open>Joining tokens with single blanks and splitting again gives the tokens back.\<close>

lemma str_fields_join: "list_all is_token ts \<Longrightarrow> str_fields (join '' '' ts) = ts"
proof (induction "'' ''" ts rule: join.induct)
  case (2 x)
  then show ?case by (simp add: str_fields_def is_token_def fields_acc_last)
next
  case (3 x y xs)
  then have "fields_acc [] (join '' '' (y # xs)) = y # xs" by (simp add: str_fields_def)
  with 3 show ?case by (simp add: str_fields_def is_token_def fields_acc_token)
qed (simp add: str_fields_def)

section \<open>UTF-8\<close>

text \<open>
  The runes a \<open>range\<close> loop over a string yields: a valid UTF-8 sequence gives its code point, any
  other byte the replacement character.  \<open>first_rune\<close> gives a rune and its width.
\<close>

definition cont_byte :: "nat \<Rightarrow> bool" where
  "cont_byte b \<longleftrightarrow> 128 \<le> b \<and> b \<le> 191"

definition rune4 :: "nat \<Rightarrow> nat \<Rightarrow> nat \<Rightarrow> nat \<Rightarrow> nat \<times> nat" where
  "rune4 a b c d =
     (if a < 128 then (a, 1)
      else if 194 \<le> a \<and> a \<le> 223 \<and> cont_byte b then ((a - 192) * 64 + (b - 128), 2)
      else if 224 \<le> a \<and> a \<le> 239 \<and> cont_byte b \<and> cont_byte c
          \<and> (a = 224 \<longrightarrow> 160 \<le> b) \<and> (a = 237 \<longrightarrow> b \<le> 159)
        then ((a - 224) * 4096 + (b - 128) * 64 + (c - 128), 3)
      else if 240 \<le> a \<and> a \<le> 244 \<and> cont_byte b \<and> cont_byte c \<and> cont_byte d
          \<and> (a = 240 \<longrightarrow> 144 \<le> b) \<and> (a = 244 \<longrightarrow> b \<le> 143)
        then ((a - 240) * 262144 + (b - 128) * 4096 + (c - 128) * 64 + (d - 128), 4)
      else (65533, 1))"

definition first_rune :: "nat list \<Rightarrow> nat \<times> nat" where
  "first_rune bs = (case bs @ [0, 0, 0] of a # b # c # d # _ \<Rightarrow> rune4 a b c d | _ \<Rightarrow> (65533, 1))"

lemma first_rune_width: "0 < snd (first_rune bs)"
  by (auto simp: first_rune_def rune4_def split: list.splits)

function decode_utf8 :: "nat list \<Rightarrow> nat list" where
  "decode_utf8 bs =
     (if bs = [] then [] else let (r, w) = first_rune bs in r # decode_utf8 (drop w bs))"
  by pat_completeness auto
termination
  by (relation "measure length") (use first_rune_width in \<open>auto intro!: diff_less simp: prod_eq_iff\<close>)

declare decode_utf8.simps [simp del]

definition utf8_runes :: "string \<Rightarrow> nat list" where
  "utf8_runes s = decode_utf8 (map of_char s)"

section \<open>Base64 (RawURLEncoding) and SHA-256\<close>

definition bytes_of :: "string \<Rightarrow> byte list" where
  "bytes_of s = map of_char s"

definition b64_alphabet :: string where
  "b64_alphabet = ''ABCDEFGHIJKLMNOPQRSTUVWXYZabcdefghijklmnopqrstuvwxyz0123456789-_''"

definition b64_digit :: "byte \<Rightarrow> char" where
  "b64_digit w = b64_alphabet ! unat (w AND 63)"

fun base64url :: "byte list \<Rightarrow> string" where
  "base64url (a # b # c # r) =
     b64_digit (drop_bit 2 a)
     # b64_digit (push_bit 4 a OR drop_bit 4 b)
     # b64_digit (push_bit 2 b OR drop_bit 6 c)
     # b64_digit c # base64url r"
| "base64url [a, b] =
     [b64_digit (drop_bit 2 a), b64_digit (push_bit 4 a OR drop_bit 4 b), b64_digit (push_bit 2 b)]"
| "base64url [a] = [b64_digit (drop_bit 2 a), b64_digit (push_bit 4 a)]"
| "base64url [] = []"

definition sha_k :: "32 word list" where
  "sha_k = [
     1116352408, 1899447441, 3049323471, 3921009573, 961987163, 1508970993, 2453635748,
     2870763221, 3624381080, 310598401, 607225278, 1426881987, 1925078388, 2162078206,
     2614888103, 3248222580, 3835390401, 4022224774, 264347078, 604807628, 770255983,
     1249150122, 1555081692, 1996064986, 2554220882, 2821834349, 2952996808, 3210313671,
     3336571891, 3584528711, 113926993, 338241895, 666307205, 773529912, 1294757372,
     1396182291, 1695183700, 1986661051, 2177026350, 2456956037, 2730485921, 2820302411,
     3259730800, 3345764771, 3516065817, 3600352804, 4094571909, 275423344, 430227734,
     506948616, 659060556, 883997877, 958139571, 1322822218, 1537002063, 1747873779,
     1955562222, 2024104815, 2227730452, 2361852424, 2428436474, 2756734187, 3204031479,
     3329325298]"

definition sha_init :: "32 word list" where
  "sha_init = [
     1779033703, 3144134277, 1013904242, 2773480762, 1359893119, 2600822924, 528734635,
     1541459225]"

definition rotr32 :: "nat \<Rightarrow> 32 word \<Rightarrow> 32 word" where
  "rotr32 n x = drop_bit n x OR push_bit (32 - n) x"

fun sha_schedule :: "nat \<Rightarrow> 32 word list \<Rightarrow> 32 word list" where
  "sha_schedule 0 ws = ws"
| "sha_schedule (Suc n) ws =
     (let x = ws ! 14; y = ws ! 1 in
      sha_schedule n
        (((rotr32 17 y XOR rotr32 19 y XOR drop_bit 10 y) + ws ! 6
          + (rotr32 7 x XOR rotr32 18 x XOR drop_bit 3 x) + ws ! 15) # ws))"

fun sha_round :: "32 word list \<Rightarrow> 32 word \<times> 32 word \<Rightarrow> 32 word list" where
  "sha_round [a, b, c, d, e, f, g, h] (k, w) =
     (let t1 = h + (rotr32 6 e XOR rotr32 11 e XOR rotr32 25 e) + ((e AND f) XOR (NOT e AND g)) + k + w;
          t2 = (rotr32 2 a XOR rotr32 13 a XOR rotr32 22 a) + ((a AND b) XOR (a AND c) XOR (b AND c))
      in [t1 + t2, a, b, c, d + t1, e, f, g])"
| "sha_round st _ = st"

definition sha_block :: "32 word list \<Rightarrow> 32 word list \<Rightarrow> 32 word list" where
  "sha_block H ws = map2 (+) H (foldl sha_round H (zip sha_k (rev (sha_schedule 48 (rev ws)))))"

fun sha_words :: "byte list \<Rightarrow> 32 word list" where
  "sha_words (a # b # c # d # r) =
     (push_bit 24 (ucast a) OR push_bit 16 (ucast b) OR push_bit 8 (ucast c) OR ucast d) # sha_words r"
| "sha_words _ = []"

definition sha_pad :: "byte list \<Rightarrow> byte list" where
  "sha_pad m = (let l = length m; bits = (word_of_nat l * 8 :: 64 word) in
     m @ [0x80] @ replicate ((119 - l mod 64) mod 64) 0
       @ map (\<lambda>i. ucast (drop_bit i bits)) [56, 48, 40, 32, 24, 16, 8, 0])"

fun sha_blocks :: "nat \<Rightarrow> 32 word list \<Rightarrow> 32 word list \<Rightarrow> 32 word list" where
  "sha_blocks 0 H ws = H"
| "sha_blocks (Suc n) H ws =
     (if ws = [] then H else sha_blocks n (sha_block H (take 16 ws)) (drop 16 ws))"

definition sha256 :: "byte list \<Rightarrow> byte list" where
  "sha256 m = (let ws = sha_words (sha_pad m) in
     concat (map (\<lambda>w. [ucast (drop_bit 24 w), ucast (drop_bit 16 w), ucast (drop_bit 8 w), ucast w])
       (sha_blocks (length ws) sha_init ws)))"

end
