(* ===== verification/OAuth_Types.thy ===== *)
theory OAuth_Types
  imports Go_Std
begin

text \<open>
  The data of \<open>pkg/oauth\<close> (\<open>store_types.go\<close>, the constants of \<open>store.go\<close>) and the
  interface \<open>oauthStore\<close> as a record of operations over an arbitrary store state \<open>'s\<close>.  Both
  implementations, the in-memory store and the PostgreSQL store, are values of that record.

  Every operation gets an \<open>env\<close>: the clock readings it makes (in the order it makes them), the
  random strings it draws (in order), and whether the database fails it.
\<close>

record principal =
  Provider :: string
  Subject :: string
  Email :: string
  EmailVerified :: bool

text \<open>An \<open>Authorizer\<close> returns nil (here True) or an error (False).\<close>

type_synonym authorizer = "principal \<Rightarrow> bool"

definition AllowAllAuthorizer :: authorizer where
  "AllowAllAuthorizer p = True"

text \<open>\<open>LastActivity\<close> is Go's zero time (here 0) until the client is first used.\<close>

record client =
  cl_ID :: string
  cl_SecretHash :: "byte list"
  cl_RedirectURIs :: "string list"
  cl_Name :: string
  cl_Public :: bool
  cl_CreatedAt :: time
  cl_LastActivity :: time
  cl_MetadataRefreshedAt :: "time option"
  cl_Authorized :: bool

record auth_code =
  ac_Code :: string
  ac_ClientID :: string
  ac_RedirectURI :: string
  ac_CodeChallenge :: string
  ac_ChallengeMethod :: string
  ac_Scope :: string
  ac_ExpiresAt :: time
  ac_Principal :: principal

record token_entry =
  te_Token :: string
  te_ClientID :: string
  te_Scope :: string
  te_ExpiresAt :: time
  te_FamilyID :: string
  te_Principal :: principal

record refresh_entry =
  re_Token :: string
  re_ClientID :: string
  re_Scope :: string
  re_ExpiresAt :: time
  re_FamilyID :: string
  re_Principal :: principal

section \<open>Constants\<close>

definition second_ns :: int where "second_ns = 1000000000"

definition tokenIdleTTL :: int where "tokenIdleTTL = 30 * 24 * 3600 * second_ns"
definition accessTokenTTL :: int where "accessTokenTTL = tokenIdleTTL"
definition refreshTokenTTL :: int where "refreshTokenTTL = tokenIdleTTL"
definition authCodeTTL :: int where "authCodeTTL = 10 * 60 * second_ns"
definition maxClients :: nat where "maxClients = 50"
definition clientIdleTTL :: int where "clientIdleTTL = 24 * 3600 * second_ns"
definition cimdMetadataTTL :: int where "cimdMetadataTTL = 24 * 3600 * second_ns"

text \<open>\<open>int(d.Seconds())\<close> of a non-negative duration.\<close>

definition seconds_of :: "int \<Rightarrow> int" where "seconds_of d = d div second_ns"

lemma ttl_pos [simp]: "0 < tokenIdleTTL" "0 < authCodeTTL" "0 < clientIdleTTL" "0 < cimdMetadataTTL"
  by (simp_all add: tokenIdleTTL_def authCodeTTL_def clientIdleTTL_def cimdMetadataTTL_def second_ns_def)

lemma ttl_eq [simp]: "accessTokenTTL = tokenIdleTTL" "refreshTokenTTL = tokenIdleTTL"
  by (simp_all add: accessTokenTTL_def refreshTokenTTL_def)

section \<open>Environment, errors, results\<close>

record env =
  now1 :: time
  now2 :: time
  now3 :: time
  rnd1 :: string
  rnd2 :: string
  rnd3 :: string
  db_fault :: bool

datatype store_err = ErrClientCapReached | ErrStore

text \<open>The fields of \<open>oauthex.ClientRegistrationMetadata\<close> the stores read.\<close>

record client_meta =
  RedirectURIs :: "string list"
  ClientName :: string

record reg_response =
  rr_Meta :: client_meta
  rr_ClientID :: string
  rr_ClientSecret :: string
  rr_IssuedAt :: time

text \<open>What \<open>exchangeCode\<close> and \<open>rotateRefresh\<close> return when \<open>ok\<close> is true.\<close>

record token_grant =
  tg_scope :: string
  tg_access :: string
  tg_refresh :: string
  tg_expires_in :: int

definition hashToken :: "string \<Rightarrow> byte list" where
  "hashToken token = sha256 (bytes_of token)"

text \<open>
  The token hash is a parameter \<open>H\<close> of everything below (the code's is \<open>hashToken\<close>), so that no
  theorem rests on a property of SHA-256 that is not stated.
\<close>

definition verifyPKCE :: "(string \<Rightarrow> byte list) \<Rightarrow> string \<Rightarrow> string \<Rightarrow> bool" where
  "verifyPKCE H codeVerifier codeChallenge \<longleftrightarrow> base64url (H codeVerifier) = codeChallenge"

section \<open>The oauthStore interface\<close>

record 's oauth_store =
  os_registerClient :: "env \<Rightarrow> client_meta \<Rightarrow> 's \<Rightarrow> 's \<times> (store_err + reg_response)"
  os_lookupClient :: "env \<Rightarrow> string \<Rightarrow> 's \<Rightarrow> store_err + client option"
  os_registerCIMDClient :: "env \<Rightarrow> string \<Rightarrow> client_meta \<Rightarrow> 's \<Rightarrow> 's \<times> (store_err + unit)"
  os_createCode :: "env \<Rightarrow> string \<Rightarrow> string \<Rightarrow> string \<Rightarrow> string \<Rightarrow> string \<Rightarrow> principal \<Rightarrow> 's
      \<Rightarrow> 's \<times> (store_err + string)"
  os_exchangeCode :: "env \<Rightarrow> string \<Rightarrow> string \<Rightarrow> string \<Rightarrow> string \<Rightarrow> 's
      \<Rightarrow> 's \<times> (store_err + token_grant option)"
  os_lookupToken :: "env \<Rightarrow> string \<Rightarrow> 's \<Rightarrow> 's \<times> (store_err + token_entry option)"
  os_renewToken :: "env \<Rightarrow> string \<Rightarrow> 's \<Rightarrow> 's \<times> (store_err + token_entry option)"
  os_rotateRefresh :: "env \<Rightarrow> string \<Rightarrow> string \<Rightarrow> authorizer option \<Rightarrow> 's
      \<Rightarrow> 's \<times> (store_err + token_grant option)"
  os_evict :: "env \<Rightarrow> 's \<Rightarrow> 's \<times> (store_err + unit)"

text \<open>One call on a store, and what it returned.\<close>

datatype store_op =
    RegisterClient env client_meta
  | RegisterCIMD env string client_meta
  | CreateCode env string string string string string principal
  | ExchangeCode env string string string string
  | LookupToken env string
  | RenewToken env string
  | RotateRefresh env string string "authorizer option"
  | Evict env

datatype store_res =
    RClient "store_err + reg_response"
  | RUnit "store_err + unit"
  | RCode "store_err + string"
  | RGrant "store_err + token_grant option"
  | RToken "store_err + token_entry option"

fun store_step :: "'s oauth_store \<Rightarrow> store_op \<Rightarrow> 's \<Rightarrow> 's \<times> store_res" where
  "store_step S (RegisterClient e m) s = map_prod id RClient (os_registerClient S e m s)"
| "store_step S (RegisterCIMD e c m) s = map_prod id RUnit (os_registerCIMDClient S e c m s)"
| "store_step S (CreateCode e c r ch m sc p) s = map_prod id RCode (os_createCode S e c r ch m sc p s)"
| "store_step S (ExchangeCode e k c r v) s = map_prod id RGrant (os_exchangeCode S e k c r v s)"
| "store_step S (LookupToken e t) s = map_prod id RToken (os_lookupToken S e t s)"
| "store_step S (RenewToken e t) s = map_prod id RToken (os_renewToken S e t s)"
| "store_step S (RotateRefresh e t c a) s = map_prod id RGrant (os_rotateRefresh S e t c a s)"
| "store_step S (Evict e) s = map_prod id RUnit (os_evict S e s)"

fun op_env :: "store_op \<Rightarrow> env" where
  "op_env (RegisterClient e _) = e"
| "op_env (RegisterCIMD e _ _) = e"
| "op_env (CreateCode e _ _ _ _ _ _) = e"
| "op_env (ExchangeCode e _ _ _ _) = e"
| "op_env (LookupToken e _) = e"
| "op_env (RenewToken e _) = e"
| "op_env (RotateRefresh e _ _ _) = e"
| "op_env (Evict e) = e"

text \<open>A run: the calls in the order their critical sections (transactions) are taken.\<close>

fun store_run :: "'s oauth_store \<Rightarrow> store_op list \<Rightarrow> 's \<Rightarrow> 's \<times> store_res list" where
  "store_run S [] s = (s, [])"
| "store_run S (x # xs) s =
     (let (s1, r) = store_step S x s; (s2, rs) = store_run S xs s1 in (s2, r # rs))"

lemma store_run_append:
  "store_run S (xs @ ys) s =
     (let (s1, r1) = store_run S xs s; (s2, r2) = store_run S ys s1 in (s2, r1 @ r2))"
  by (induction xs arbitrary: s) (auto simp: split_beta)

lemma length_store_run: "length (snd (store_run S xs s)) = length xs"
  by (induction xs arbitrary: s) (auto simp: split_beta)

text \<open>The clock readings of a call, in order and not before \<open>t\<close>; the strings it draws.\<close>

definition clock_env :: "time \<Rightarrow> env \<Rightarrow> bool" where
  "clock_env t e \<longleftrightarrow> t \<le> now1 e \<and> now1 e \<le> now2 e \<and> now2 e \<le> now3 e"

definition rnds :: "env \<Rightarrow> string set" where
  "rnds e = {rnd1 e, rnd2 e, rnd3 e}"

text \<open>The code a call mints, if it does.\<close>

fun new_code :: "store_op \<Rightarrow> string option" where
  "new_code (CreateCode e _ _ _ _ _ _) = Some (rnd1 e)"
| "new_code _ = None"

text \<open>
  A well-timed run: the clock does not go back, and every call draws strings that are fresh, by the
  given test, both in the state it finds and in an earlier state \<open>s0\<close>.
\<close>

fun good_run ::
  "'s oauth_store \<Rightarrow> ('s \<Rightarrow> env \<Rightarrow> bool) \<Rightarrow> 's \<Rightarrow> time \<Rightarrow> store_op list \<Rightarrow> 's \<Rightarrow> bool" where
  "good_run S fresh s0 t [] s \<longleftrightarrow> True"
| "good_run S fresh s0 t (x # xs) s \<longleftrightarrow> fresh s0 (op_env x) \<and> fresh s (op_env x) \<and> clock_env t (op_env x)
     \<and> good_run S fresh s0 (now3 (op_env x)) xs (fst (store_step S x s))"

lemma good_run_fresh: "good_run S fresh s0 t xs s \<Longrightarrow> x \<in> set xs \<Longrightarrow> fresh s0 (op_env x)"
  by (induction xs arbitrary: t s) auto

end
