(* ===== verification/OAuth_Store.thy ===== *)
theory OAuth_Store
  imports OAuth_Types
begin

text \<open>
  The in-memory store (\<open>pkg/oauth/store.go\<close>).  Its mutex makes each method one atomic step, so
  a method is a function from the state to the new state and the result.  The state's five Go maps
  are finite maps; a pointer stored in a map is its pointee, since every pointer is written back
  under the key it was read from and only copies leave the store.
\<close>

record store =
  clients :: "(string, client) fmap"
  codes :: "(string, auth_code) fmap"
  tokens :: "(string, token_entry) fmap"
  refresh :: "(string, refresh_entry) fmap"
  consumed :: "(string, string) fmap"

definition newStore :: store where
  "newStore = \<lparr>clients = fmempty, codes = fmempty, tokens = fmempty, refresh = fmempty,
     consumed = fmempty\<rparr>"

section \<open>Clients\<close>

definition registerClient ::
  "(string \<Rightarrow> byte list) \<Rightarrow> env \<Rightarrow> client_meta \<Rightarrow> store \<Rightarrow> store \<times> (store_err + reg_response)" where
  "registerClient H e meta s =
     (if maxClients \<le> fmsize (clients s) then (s, Inl ErrClientCapReached)
      else
        let id = rnd1 e; secret = rnd2 e; now = now1 e;
            c = \<lparr>cl_ID = id, cl_SecretHash = H secret, cl_RedirectURIs = RedirectURIs meta,
                 cl_Name = ClientName meta, cl_Public = False, cl_CreatedAt = now,
                 cl_LastActivity = 0, cl_MetadataRefreshedAt = None, cl_Authorized = False\<rparr>
        in (s\<lparr>clients := fmupd id c (clients s)\<rparr>,
            Inr \<lparr>rr_Meta = meta, rr_ClientID = id, rr_ClientSecret = secret, rr_IssuedAt = now\<rparr>))"

definition lookupClient :: "string \<Rightarrow> store \<Rightarrow> client option" where
  "lookupClient clientID s = fmlookup (clients s) clientID"

definition registerCIMDClient ::
  "env \<Rightarrow> string \<Rightarrow> client_meta \<Rightarrow> store \<Rightarrow> store \<times> (store_err + unit)" where
  "registerCIMDClient e clientID meta s =
     (if fmlookup (clients s) clientID = None \<and> maxClients \<le> fmsize (clients s)
      then (s, Inl ErrClientCapReached)
      else
        let now = now1 e in
        (s\<lparr>clients := fmupd clientID
            \<lparr>cl_ID = clientID, cl_SecretHash = [], cl_RedirectURIs = RedirectURIs meta,
             cl_Name = ClientName meta, cl_Public = True, cl_CreatedAt = now,
             cl_LastActivity = 0, cl_MetadataRefreshedAt = Some now, cl_Authorized = False\<rparr>
            (clients s)\<rparr>, Inr ()))"

text \<open>\<open>if c := s.clients[id]; c != nil { c.LastActivity = now }\<close>\<close>

definition touch_client :: "string \<Rightarrow> time \<Rightarrow> store \<Rightarrow> store" where
  "touch_client clientID now s =
     (case fmlookup (clients s) clientID of
        None \<Rightarrow> s
      | Some c \<Rightarrow> s\<lparr>clients := fmupd clientID (c\<lparr>cl_LastActivity := now\<rparr>) (clients s)\<rparr>)"

section \<open>Authorization codes\<close>

definition createCode ::
  "env \<Rightarrow> string \<Rightarrow> string \<Rightarrow> string \<Rightarrow> string \<Rightarrow> string \<Rightarrow> principal \<Rightarrow> store \<Rightarrow> store \<times> string" where
  "createCode e clientID redirectURI codeChallenge challengeMethod scope p s =
     (let code = rnd1 e; now = now1 e;
          ac = \<lparr>ac_Code = code, ac_ClientID = clientID, ac_RedirectURI = redirectURI,
                ac_CodeChallenge = codeChallenge, ac_ChallengeMethod = challengeMethod,
                ac_Scope = scope, ac_ExpiresAt = now + authCodeTTL, ac_Principal = p\<rparr>
      in (touch_client clientID now (s\<lparr>codes := fmupd code ac (codes s)\<rparr>), code))"

definition consumeCode :: "env \<Rightarrow> string \<Rightarrow> store \<Rightarrow> store \<times> auth_code option" where
  "consumeCode e code s =
     (case fmlookup (codes s) code of
        None \<Rightarrow> (s, None)
      | Some ac \<Rightarrow>
          let s' = s\<lparr>codes := fmdrop code (codes s)\<rparr> in
          if ac_ExpiresAt ac < now1 e then (s', None) else (s', Some ac))"

section \<open>Token pairs\<close>

text \<open>Both maps of a new pair, shared by \<open>createTokenPairLocked\<close> and \<open>rotateRefresh\<close>.\<close>

definition insert_pair ::
  "string \<Rightarrow> string \<Rightarrow> string \<Rightarrow> string \<Rightarrow> string \<Rightarrow> principal \<Rightarrow> int \<Rightarrow> time \<Rightarrow> store \<Rightarrow> store" where
  "insert_pair at rt clientID scope familyID p atTTL now s =
     s\<lparr>tokens := fmupd at \<lparr>te_Token = at, te_ClientID = clientID, te_Scope = scope,
         te_ExpiresAt = now + atTTL, te_FamilyID = familyID, te_Principal = p\<rparr> (tokens s),
       refresh := fmupd rt \<lparr>re_Token = rt, re_ClientID = clientID, re_Scope = scope,
         re_ExpiresAt = now + refreshTokenTTL, re_FamilyID = familyID, re_Principal = p\<rparr> (refresh s)\<rparr>"

text \<open>The random strings and the clock reading are the ones the caller's \<open>env\<close> leaves for it.\<close>

definition createTokenPairLocked ::
  "string \<Rightarrow> string \<Rightarrow> string \<Rightarrow> time \<Rightarrow> string \<Rightarrow> string \<Rightarrow> string \<Rightarrow> principal \<Rightarrow> int \<Rightarrow> store
     \<Rightarrow> store \<times> string \<times> string \<times> int" where
  "createTokenPairLocked fresh_family at rt now clientID scope familyID p atTTL s =
     (let fam = (if familyID = [] then fresh_family else familyID) in
      (touch_client clientID now (insert_pair at rt clientID scope fam p atTTL now s),
       at, rt, seconds_of atTTL))"

definition createTokenPair ::
  "env \<Rightarrow> string \<Rightarrow> string \<Rightarrow> string \<Rightarrow> principal \<Rightarrow> store \<Rightarrow> store \<times> string \<times> string \<times> int" where
  "createTokenPair e clientID scope familyID p s =
     createTokenPairLocked (rnd1 e) (rnd2 e) (rnd3 e) (now1 e) clientID scope familyID p accessTokenTTL s"

text \<open>With a TTL of the caller's, in a new family and for no principal (the Go zero value).\<close>

definition createTokenPairWithTTL ::
  "env \<Rightarrow> string \<Rightarrow> string \<Rightarrow> int \<Rightarrow> store \<Rightarrow> store \<times> string \<times> string \<times> int" where
  "createTokenPairWithTTL e clientID scope atTTL s =
     (touch_client clientID (now1 e)
        (insert_pair (rnd2 e) (rnd3 e) clientID scope (rnd1 e)
          \<lparr>Provider = [], Subject = [], Email = [], EmailVerified = False\<rparr> atTTL (now1 e) s),
      rnd2 e, rnd3 e, seconds_of atTTL)"

definition exchangeCode ::
  "(string \<Rightarrow> byte list) \<Rightarrow> env \<Rightarrow> string \<Rightarrow> string \<Rightarrow> string \<Rightarrow> string \<Rightarrow> store
     \<Rightarrow> store \<times> token_grant option" where
  "exchangeCode H e code clientID redirectURI codeVerifier s =
     (case fmlookup (codes s) code of
        None \<Rightarrow> (s, None)
      | Some ac \<Rightarrow>
          let s1 = s\<lparr>codes := fmdrop code (codes s)\<rparr> in
          if ac_ExpiresAt ac < now1 e \<or> ac_ClientID ac \<noteq> clientID \<or> ac_RedirectURI ac \<noteq> redirectURI
             \<or> \<not> verifyPKCE H codeVerifier (ac_CodeChallenge ac)
          then (s1, None)
          else
            let (s2, at, rt, ttl) =
                  createTokenPairLocked (rnd1 e) (rnd2 e) (rnd3 e) (now2 e)
                    clientID (ac_Scope ac) [] (ac_Principal ac) accessTokenTTL s1
            in (s2, Some \<lparr>tg_scope = ac_Scope ac, tg_access = at, tg_refresh = rt, tg_expires_in = ttl\<rparr>))"

section \<open>Access tokens\<close>

definition lookupToken :: "env \<Rightarrow> string \<Rightarrow> store \<Rightarrow> store \<times> token_entry option" where
  "lookupToken e accessToken s =
     (case fmlookup (tokens s) accessToken of
        None \<Rightarrow> (s, None)
      | Some te \<Rightarrow>
          if te_ExpiresAt te < now1 e then (s\<lparr>tokens := fmdrop accessToken (tokens s)\<rparr>, None)
          else (s, Some te))"

text \<open>The loop over \<open>s.refresh\<close>: expired entries of the family go, live ones move to the new expiry.\<close>

definition renew_refresh :: "string \<Rightarrow> time \<Rightarrow> time \<Rightarrow> (string, refresh_entry) fmap \<Rightarrow> (string, refresh_entry) fmap" where
  "renew_refresh f now expiresAt m =
     fmmap_keys (\<lambda>_ re. if re_FamilyID re = f then re\<lparr>re_ExpiresAt := expiresAt\<rparr> else re)
       (fmkeep (\<lambda>_ re. \<not> (re_FamilyID re = f \<and> re_ExpiresAt re < now)) m)"

definition renewToken :: "env \<Rightarrow> string \<Rightarrow> store \<Rightarrow> store \<times> token_entry option" where
  "renewToken e accessToken s =
     (case fmlookup (tokens s) accessToken of
        None \<Rightarrow> (s, None)
      | Some te \<Rightarrow>
          let now = now1 e in
          if te_ExpiresAt te < now then (s\<lparr>tokens := fmdrop accessToken (tokens s)\<rparr>, None)
          else
            let expiresAt = now + tokenIdleTTL;
                te' = te\<lparr>te_ExpiresAt := expiresAt\<rparr>;
                s1 = s\<lparr>tokens := fmupd accessToken te' (tokens s),
                       refresh := renew_refresh (te_FamilyID te) now expiresAt (refresh s)\<rparr>
            in (touch_client (te_ClientID te) now s1, Some te'))"

section \<open>Refresh rotation and revocation\<close>

definition revokeFamilyLocked :: "string \<Rightarrow> store \<Rightarrow> store" where
  "revokeFamilyLocked familyID s =
     s\<lparr>tokens := fmkeep (\<lambda>_ v. te_FamilyID v \<noteq> familyID) (tokens s),
       refresh := fmkeep (\<lambda>_ v. re_FamilyID v \<noteq> familyID) (refresh s),
       consumed := fmkeep (\<lambda>_ fid. fid \<noteq> familyID) (consumed s)\<rparr>"

definition rotateRefresh ::
  "env \<Rightarrow> string \<Rightarrow> string \<Rightarrow> authorizer option \<Rightarrow> store \<Rightarrow> store \<times> token_grant option" where
  "rotateRefresh e refreshToken clientID authorizer s =
     (case fmlookup (refresh s) refreshToken of
        None \<Rightarrow>
          (case fmlookup (consumed s) refreshToken of
             None \<Rightarrow> (s, None)
           | Some familyID \<Rightarrow> (revokeFamilyLocked familyID s, None))
      | Some re \<Rightarrow>
          if re_ClientID re \<noteq> clientID then (s, None)
          else if re_ExpiresAt re < now1 e
          then (s\<lparr>refresh := fmdrop refreshToken (refresh s)\<rparr>, None)
          else if (case authorizer of None \<Rightarrow> False | Some auth \<Rightarrow> \<not> auth (re_Principal re)) then (s, None)
          else
            let s1 = s\<lparr>refresh := fmdrop refreshToken (refresh s)\<rparr> in
            if re_ExpiresAt re < now2 e then (s1, None)
            else
              let s2 = s1\<lparr>consumed := fmupd refreshToken (re_FamilyID re) (consumed s1)\<rparr>;
                  at = rnd1 e; rt = rnd2 e; now = now3 e
              in (touch_client clientID now
                    (insert_pair at rt clientID (re_Scope re) (re_FamilyID re) (re_Principal re)
                      accessTokenTTL now s2),
                  Some \<lparr>tg_scope = re_Scope re, tg_access = at, tg_refresh = rt,
                        tg_expires_in = seconds_of accessTokenTTL\<rparr>))"

section \<open>Eviction\<close>

definition evict_client :: "time \<Rightarrow> store \<Rightarrow> string \<Rightarrow> client \<Rightarrow> bool" where
  "evict_client now s k c \<longleftrightarrow>
     \<not> (cl_Authorized c
        \<or> fmany (\<lambda>_ v. ac_ClientID v = k) (codes s)
        \<or> fmany (\<lambda>_ v. te_ClientID v = k) (tokens s)
        \<or> fmany (\<lambda>_ v. re_ClientID v = k) (refresh s))
     \<and> (if cl_LastActivity c = 0 then cl_CreatedAt c else cl_LastActivity c) < now - clientIdleTTL"

definition evict_entries :: "time \<Rightarrow> store \<Rightarrow> store" where
  "evict_entries now s =
     s\<lparr>codes := fmkeep (\<lambda>_ v. \<not> ac_ExpiresAt v < now) (codes s),
       tokens := fmkeep (\<lambda>_ v. \<not> te_ExpiresAt v < now) (tokens s),
       refresh := fmkeep (\<lambda>_ v. \<not> re_ExpiresAt v < now) (refresh s)\<rparr>"

definition evict :: "env \<Rightarrow> store \<Rightarrow> store" where
  "evict e s =
     (let now = now1 e;
          s1 = evict_entries now s;
          s2 = s1\<lparr>consumed := fmkeep (\<lambda>_ fid. fmany (\<lambda>_ v. re_FamilyID v = fid) (refresh s1)) (consumed s1)\<rparr>
      in s2\<lparr>clients := fmkeep (\<lambda>k c. \<not> evict_client now s2 k c) (clients s2)\<rparr>)"

text \<open>The store as a value of the interface: the in-memory store never returns a store error.\<close>

definition memory_store :: "(string \<Rightarrow> byte list) \<Rightarrow> store oauth_store" where
  "memory_store H =
     \<lparr>os_registerClient = registerClient H,
      os_lookupClient = (\<lambda>_ c s. Inr (lookupClient c s)),
      os_registerCIMDClient = registerCIMDClient,
      os_createCode = (\<lambda>e c r ch m sc p s. map_prod id Inr (createCode e c r ch m sc p s)),
      os_exchangeCode = (\<lambda>e k c r v s. map_prod id Inr (exchangeCode H e k c r v s)),
      os_lookupToken = (\<lambda>e t s. map_prod id Inr (lookupToken e t s)),
      os_renewToken = (\<lambda>e t s. map_prod id Inr (renewToken e t s)),
      os_rotateRefresh = (\<lambda>e t c a s. map_prod id Inr (rotateRefresh e t c a s)),
      os_evict = (\<lambda>e s. (evict e s, Inr ()))\<rparr>"

lemma memory_store_sel [simp]:
  "os_registerClient (memory_store H) = registerClient H"
  "os_lookupClient (memory_store H) e c s = Inr (lookupClient c s)"
  "os_registerCIMDClient (memory_store H) = registerCIMDClient"
  "os_createCode (memory_store H) e c r ch m sc p s = map_prod id Inr (createCode e c r ch m sc p s)"
  "os_exchangeCode (memory_store H) e k c r v s = map_prod id Inr (exchangeCode H e k c r v s)"
  "os_lookupToken (memory_store H) e tk s = map_prod id Inr (lookupToken e tk s)"
  "os_renewToken (memory_store H) e tk s = map_prod id Inr (renewToken e tk s)"
  "os_rotateRefresh (memory_store H) e tk c a s = map_prod id Inr (rotateRefresh e tk c a s)"
  "os_evict (memory_store H) e s = (evict e s, Inr ())"
  by (simp_all add: memory_store_def)

end
