(* ===== verification/OAuth_Store_Inv.thy ===== *)
theory OAuth_Store_Inv
  imports OAuth_Store
begin

text \<open>
  The invariant of the in-memory store and its preservation by every method.  Beyond key agreement
  it says that a token family has at most one live refresh token, that a consumed refresh token is
  no longer live, that all entries of a family carry the same client, scope and principal, and that
  an access token that has not expired is backed by a refresh token of its family that lives at
  least as long.  The last clause is what the renewal loop of \<open>renewToken\<close> is for.
\<close>

definition keys_ok :: "store \<Rightarrow> bool" where
  "keys_ok s \<longleftrightarrow>
     (\<forall>k v. fmlookup (codes s) k = Some v \<longrightarrow> ac_Code v = k)
     \<and> (\<forall>k v. fmlookup (tokens s) k = Some v \<longrightarrow> te_Token v = k)
     \<and> (\<forall>k v. fmlookup (refresh s) k = Some v \<longrightarrow> re_Token v = k)"

definition one_live :: "store \<Rightarrow> bool" where
  "one_live s \<longleftrightarrow>
     (\<forall>k1 k2 r1 r2. fmlookup (refresh s) k1 = Some r1 \<longrightarrow> fmlookup (refresh s) k2 = Some r2
        \<longrightarrow> re_FamilyID r1 = re_FamilyID r2 \<longrightarrow> k1 = k2)"

definition consumed_dead :: "store \<Rightarrow> bool" where
  "consumed_dead s \<longleftrightarrow> (\<forall>k f. fmlookup (consumed s) k = Some f \<longrightarrow> fmlookup (refresh s) k = None)"

definition family_agrees :: "store \<Rightarrow> bool" where
  "family_agrees s \<longleftrightarrow>
     (\<forall>k r te re. fmlookup (tokens s) k = Some te \<longrightarrow> fmlookup (refresh s) r = Some re
        \<longrightarrow> te_FamilyID te = re_FamilyID re
        \<longrightarrow> te_ClientID te = re_ClientID re \<and> te_Scope te = re_Scope re \<and> te_Principal te = re_Principal re)"

definition backed :: "time \<Rightarrow> store \<Rightarrow> token_entry \<Rightarrow> bool" where
  "backed now s te \<longleftrightarrow> te_ExpiresAt te < now \<or>
     (\<exists>r re. fmlookup (refresh s) r = Some re \<and> re_FamilyID re = te_FamilyID te
        \<and> te_ExpiresAt te \<le> re_ExpiresAt re)"

definition sessions_backed :: "time \<Rightarrow> store \<Rightarrow> bool" where
  "sessions_backed now s \<longleftrightarrow> (\<forall>k te. fmlookup (tokens s) k = Some te \<longrightarrow> backed now s te)"

definition expiry_bounded :: "time \<Rightarrow> store \<Rightarrow> bool" where
  "expiry_bounded now s \<longleftrightarrow>
     (\<forall>k re. fmlookup (refresh s) k = Some re \<longrightarrow> re_ExpiresAt re \<le> now + tokenIdleTTL)"

definition mem_inv :: "time \<Rightarrow> store \<Rightarrow> bool" where
  "mem_inv now s \<longleftrightarrow> keys_ok s \<and> one_live s \<and> consumed_dead s \<and> family_agrees s
     \<and> sessions_backed now s \<and> expiry_bounded now s"

lemmas mem_inv_defs = mem_inv_def keys_ok_def one_live_def consumed_dead_def family_agrees_def
  sessions_backed_def backed_def expiry_bounded_def

lemma mem_invI:
  assumes "\<And>k v. fmlookup (codes s) k = Some v \<Longrightarrow> ac_Code v = k"
    and "\<And>k v. fmlookup (tokens s) k = Some v \<Longrightarrow> te_Token v = k"
    and "\<And>k v. fmlookup (refresh s) k = Some v \<Longrightarrow> re_Token v = k"
    and "\<And>k1 k2 r1 r2. fmlookup (refresh s) k1 = Some r1 \<Longrightarrow> fmlookup (refresh s) k2 = Some r2
      \<Longrightarrow> re_FamilyID r1 = re_FamilyID r2 \<Longrightarrow> k1 = k2"
    and "\<And>k f. fmlookup (consumed s) k = Some f \<Longrightarrow> fmlookup (refresh s) k = None"
    and "\<And>k r te re. fmlookup (tokens s) k = Some te \<Longrightarrow> fmlookup (refresh s) r = Some re
      \<Longrightarrow> te_FamilyID te = re_FamilyID re
      \<Longrightarrow> te_ClientID te = re_ClientID re \<and> te_Scope te = re_Scope re \<and> te_Principal te = re_Principal re"
    and "\<And>k te. fmlookup (tokens s) k = Some te \<Longrightarrow> backed now s te"
    and "\<And>k re. fmlookup (refresh s) k = Some re \<Longrightarrow> re_ExpiresAt re \<le> now + tokenIdleTTL"
  shows "mem_inv now s"
  unfolding mem_inv_def keys_ok_def one_live_def consumed_dead_def family_agrees_def
    sessions_backed_def expiry_bounded_def
  using assms by blast

lemma mem_invD:
  assumes "mem_inv now s"
  shows "fmlookup (codes s) k = Some ac \<Longrightarrow> ac_Code ac = k"
    and "fmlookup (tokens s) k = Some te \<Longrightarrow> te_Token te = k"
    and "fmlookup (refresh s) k = Some re \<Longrightarrow> re_Token re = k"
    and "fmlookup (refresh s) k1 = Some r1 \<Longrightarrow> fmlookup (refresh s) k2 = Some r2
      \<Longrightarrow> re_FamilyID r1 = re_FamilyID r2 \<Longrightarrow> k1 = k2"
    and "fmlookup (consumed s) k = Some f \<Longrightarrow> fmlookup (refresh s) k = None"
    and "fmlookup (tokens s) k = Some te \<Longrightarrow> fmlookup (refresh s) r = Some re
      \<Longrightarrow> te_FamilyID te = re_FamilyID re
      \<Longrightarrow> te_ClientID te = re_ClientID re \<and> te_Scope te = re_Scope re \<and> te_Principal te = re_Principal re"
    and "fmlookup (tokens s) k = Some te \<Longrightarrow> backed now s te"
    and "fmlookup (refresh s) k = Some re \<Longrightarrow> re_ExpiresAt re \<le> now + tokenIdleTTL"
  using assms unfolding mem_inv_def keys_ok_def one_live_def consumed_dead_def family_agrees_def
    sessions_backed_def expiry_bounded_def by blast+

text \<open>Strings in use as a code, a token or a family; a fresh random string is none of them.\<close>

definition used :: "store \<Rightarrow> string \<Rightarrow> bool" where
  "used s x \<longleftrightarrow>
     fmlookup (codes s) x \<noteq> None \<or> fmlookup (tokens s) x \<noteq> None \<or> fmlookup (refresh s) x \<noteq> None
     \<or> fmlookup (consumed s) x \<noteq> None
     \<or> fmany (\<lambda>_ v. te_FamilyID v = x) (tokens s) \<or> fmany (\<lambda>_ v. re_FamilyID v = x) (refresh s)
     \<or> fmany (\<lambda>_ f. f = x) (consumed s)"

definition fresh_env :: "store \<Rightarrow> env \<Rightarrow> bool" where
  "fresh_env s e \<longleftrightarrow>
     distinct [rnd1 e, rnd2 e, rnd3 e] \<and> rnd1 e \<noteq> [] \<and> \<not> used s (rnd1 e) \<and> \<not> used s (rnd2 e)
     \<and> \<not> used s (rnd3 e)"

section \<open>Frame lemmas\<close>

lemma touch_client_frame [simp]:
  "codes (touch_client c t s) = codes s" "tokens (touch_client c t s) = tokens s"
  "refresh (touch_client c t s) = refresh s" "consumed (touch_client c t s) = consumed s"
  by (simp_all add: touch_client_def split: option.splits)

lemma insert_pair_frame [simp]:
  "codes (insert_pair at rt c sc f p ttl t s) = codes s"
  "clients (insert_pair at rt c sc f p ttl t s) = clients s"
  "consumed (insert_pair at rt c sc f p ttl t s) = consumed s"
  by (simp_all add: insert_pair_def)

lemma insert_pair_refreshE:
  assumes "fmlookup (refresh (insert_pair at rt c sc f p ttl t s)) r = Some v"
  obtains "r = rt" "v = \<lparr>re_Token = rt, re_ClientID = c, re_Scope = sc,
      re_ExpiresAt = t + tokenIdleTTL, re_FamilyID = f, re_Principal = p\<rparr>"
  | "r \<noteq> rt" "fmlookup (refresh s) r = Some v"
  using assms by (auto simp: insert_pair_def split: if_splits)

lemma insert_pair_tokensE:
  assumes "fmlookup (tokens (insert_pair at rt c sc f p ttl t s)) k = Some v"
  obtains "k = at" "v = \<lparr>te_Token = at, te_ClientID = c, te_Scope = sc,
      te_ExpiresAt = t + ttl, te_FamilyID = f, te_Principal = p\<rparr>"
  | "k \<noteq> at" "fmlookup (tokens s) k = Some v"
  using assms by (auto simp: insert_pair_def split: if_splits)

lemma mem_inv_cong:
  "codes s = codes s' \<Longrightarrow> tokens s = tokens s' \<Longrightarrow> refresh s = refresh s' \<Longrightarrow> consumed s = consumed s'
     \<Longrightarrow> mem_inv t s = mem_inv t s'"
  by (simp add: mem_inv_defs)

lemma mem_inv_touch [simp]: "mem_inv t (touch_client c n s) = mem_inv t s"
  by (rule mem_inv_cong) simp_all

lemma mem_inv_clients [simp]: "mem_inv t (s\<lparr>clients := m\<rparr>) = mem_inv t s"
  by (rule mem_inv_cong) simp_all

lemma backedI:
  "fmlookup (refresh s) r = Some re \<Longrightarrow> re_FamilyID re = te_FamilyID te
     \<Longrightarrow> te_ExpiresAt te \<le> re_ExpiresAt re \<Longrightarrow> backed now s te"
  by (auto simp: backed_def)

lemma backedE:
  assumes "backed now s te" and "\<not> te_ExpiresAt te < now"
  obtains r re where "fmlookup (refresh s) r = Some re" "re_FamilyID re = te_FamilyID te"
    "te_ExpiresAt te \<le> re_ExpiresAt re"
  using assms by (auto simp: backed_def)

lemma backed_later: "backed t s te \<Longrightarrow> t \<le> t' \<Longrightarrow> backed t' s te"
  by (auto simp: backed_def)

lemma mem_inv_later:
  assumes inv: "mem_inv t s" and le: "t \<le> t'"
  shows "mem_inv t' s"
proof -
  have "sessions_backed t' s"
    using inv backed_later [OF _ le] by (simp add: mem_inv_def sessions_backed_def)
  moreover have "expiry_bounded t' s"
    using inv le unfolding mem_inv_def expiry_bounded_def by (meson add_right_mono order_trans)
  ultimately show ?thesis using inv by (simp add: mem_inv_def)
qed

lemma mem_inv_newStore [inv_intros]: "mem_inv t newStore"
  by (simp add: mem_inv_defs newStore_def)

lemma backed_mono:
  assumes "backed t s te"
    and "\<And>r re. fmlookup (refresh s) r = Some re \<Longrightarrow> re_FamilyID re = te_FamilyID te \<Longrightarrow>
      \<exists>r' re'. fmlookup (refresh s') r' = Some re' \<and> re_FamilyID re' = re_FamilyID re
        \<and> re_ExpiresAt re \<le> re_ExpiresAt re'"
  shows "backed t s' te"
  using assms unfolding backed_def by (metis order_trans)

section \<open>Preservation, one lemma per change of the state\<close>

lemma backed_frame:
  "backed t s te \<Longrightarrow> refresh s' = refresh s \<Longrightarrow> backed t s' te"
  by (simp add: backed_def)

lemma mem_inv_drop_code [inv_intros]: "mem_inv t s \<Longrightarrow> mem_inv t (s\<lparr>codes := fmdrop k (codes s)\<rparr>)"
  by (rule mem_invI) (auto dest: mem_invD intro: backed_frame split: if_splits)

lemma mem_inv_put_code [inv_intros]:
  "mem_inv t s \<Longrightarrow> ac_Code ac = k \<Longrightarrow> mem_inv t (s\<lparr>codes := fmupd k ac (codes s)\<rparr>)"
  by (rule mem_invI) (auto dest: mem_invD intro: backed_frame split: if_splits)

lemma mem_inv_drop_token [inv_intros]: "mem_inv t s \<Longrightarrow> mem_inv t (s\<lparr>tokens := fmdrop k (tokens s)\<rparr>)"
  by (rule mem_invI) (auto dest: mem_invD intro: backed_frame split: if_splits)

text \<open>An expired refresh token can go: every access token of its family has expired as well.\<close>

lemma backed_drop_expired:
  assumes "backed t s te" "fmlookup (refresh s) k = Some re" "re_ExpiresAt re < t"
    "\<And>r. r \<noteq> k \<Longrightarrow> fmlookup (refresh s') r = fmlookup (refresh s) r"
  shows "backed t s' te"
proof (cases "te_ExpiresAt te < t")
  case False
  with assms(1) obtain r v where v: "fmlookup (refresh s) r = Some v" "re_FamilyID v = te_FamilyID te"
      "te_ExpiresAt te \<le> re_ExpiresAt v"
    by (rule backedE)
  with False assms have "r \<noteq> k" by auto
  then have "fmlookup (refresh s') r = Some v" using v assms(4) by simp
  with v show ?thesis by (auto intro: backedI)
qed (simp add: backed_def)

lemma mem_inv_drop_refresh [inv_intros]:
  assumes inv: "mem_inv t s" and k: "fmlookup (refresh s) k = Some re" and dead: "re_ExpiresAt re < t"
  shows "mem_inv t (s\<lparr>refresh := fmdrop k (refresh s)\<rparr>)"
  by (rule mem_invI)
    (use k dead in \<open>auto dest: mem_invD [OF inv] intro: backed_drop_expired split: if_splits\<close>)

text \<open>A first pair of a fresh family.\<close>

lemma mem_inv_new_family [inv_intros]:
  assumes inv: "mem_inv t s" and now: "now \<le> t" and fresh: "\<not> used s f" "\<not> used s at" "\<not> used s rt"
  shows "mem_inv t (insert_pair at rt c sc f p tokenIdleTTL now s)" (is "mem_inv t ?s")
proof -
  have ft: "\<And>k v. fmlookup (tokens s) k = Some v \<Longrightarrow> te_FamilyID v \<noteq> f"
    and fr: "\<And>k v. fmlookup (refresh s) k = Some v \<Longrightarrow> re_FamilyID v \<noteq> f"
    and rt: "fmlookup (refresh s) rt = None" "fmlookup (consumed s) rt = None"
    using fresh by (auto simp: used_def fmany_iff)
  show ?thesis
  proof (rule mem_invI, goal_cases)
    case (4 k1 k2 r1 r2)
    from 4(1,2) show ?case
      by (elim insert_pair_refreshE) (use 4(3) fr mem_invD(4) [OF inv] in \<open>force+\<close>)
  next
    case (6 k r te re)
    from 6(1,2) show ?case
      by (elim insert_pair_refreshE insert_pair_tokensE)
        (use 6(3) ft fr mem_invD(6) [OF inv] in \<open>force+\<close>)
  next
    case (7 k te)
    show ?case
    proof (cases "k = at")
      case True
      with 7 show ?thesis by (intro backedI [of _ rt]) (auto simp: insert_pair_def)
    next
      case False
      with 7 have "backed t s te" using mem_invD(7) [OF inv] by (simp add: insert_pair_def)
      then show ?thesis
      proof (rule backed_mono)
        fix r re assume "fmlookup (refresh s) r = Some re"
        with rt show "\<exists>r' re'. fmlookup (refresh ?s) r' = Some re' \<and> re_FamilyID re' = re_FamilyID re
            \<and> re_ExpiresAt re \<le> re_ExpiresAt re'"
          by (intro exI [of _ r]) (auto simp: insert_pair_def)
      qed
    qed
  next
    case (8 k re)
    then show ?case using now mem_invD(8) [OF inv] by (auto simp: insert_pair_def split: if_splits)
  qed (use rt mem_invD [OF inv] in \<open>auto simp: insert_pair_def split: if_splits\<close>)
qed

text \<open>Rotation: the pair's refresh token moves to the consumed map and a new pair takes over.\<close>

lemma mem_inv_rotate [inv_intros]:
  assumes inv: "mem_inv t s" and old: "fmlookup (refresh s) k = Some re"
    and now: "now \<le> t" "re_ExpiresAt re \<le> now + tokenIdleTTL"
    and fresh: "\<not> used s at" "\<not> used s rt"
  shows "mem_inv t (insert_pair at rt (re_ClientID re) (re_Scope re) (re_FamilyID re) (re_Principal re)
     tokenIdleTTL now
     (s\<lparr>refresh := fmdrop k (refresh s), consumed := fmupd k (re_FamilyID re) (consumed s)\<rparr>))"
    (is "mem_inv t ?s")
proof -
  have rt: "fmlookup (refresh s) rt = None" "fmlookup (consumed s) rt = None" "rt \<noteq> k"
    using fresh old by (auto simp: used_def)
  have only: "r = k" if "fmlookup (refresh s) r = Some v" "re_FamilyID v = re_FamilyID re" for r v
    using mem_invD(4) [OF inv] old that by blast
  show ?thesis
  proof (rule mem_invI, goal_cases)
    case (4 k1 k2 r1 r2)
    from 4(1,2) show ?case
      by (elim insert_pair_refreshE)
        (use 4(3) only mem_invD(4) [OF inv] in \<open>auto split: if_splits\<close>)
  next
    case (6 x r te v)
    from 6(2) show ?case
    proof (rule insert_pair_refreshE, goal_cases)
      case 1
      from 6(1) show ?case
        by (rule insert_pair_tokensE) (use 1 6(3) mem_invD(6) [OF inv _ old] in auto)
    next
      case 2
      then have v: "fmlookup (refresh s) r = Some v" "r \<noteq> k" by (auto split: if_splits)
      from 6(1) show ?case
        by (rule insert_pair_tokensE) (use 6(3) v only mem_invD(6) [OF inv _ v(1)] in auto)
    qed
  next
    case (7 x te)
    show ?case
    proof (cases "x = at")
      case True
      with 7 show ?thesis by (intro backedI [of _ rt]) (auto simp: insert_pair_def)
    next
      case False
      with 7 have "backed t s te" using mem_invD(7) [OF inv] by (simp add: insert_pair_def)
      then show ?thesis
      proof (rule backed_mono)
        fix r v assume v: "fmlookup (refresh s) r = Some v" "re_FamilyID v = te_FamilyID te"
        show "\<exists>r' re'. fmlookup (refresh ?s) r' = Some re' \<and> re_FamilyID re' = re_FamilyID v
            \<and> re_ExpiresAt v \<le> re_ExpiresAt re'"
        proof (cases "r = k")
          case True
          with v old now show ?thesis by (intro exI [of _ rt]) (auto simp: insert_pair_def)
        next
          case False
          with v rt show ?thesis by (intro exI [of _ r]) (auto simp: insert_pair_def)
        qed
      qed
    qed
  next
    case (8 x v)
    then show ?case using now mem_invD(8) [OF inv] by (auto simp: insert_pair_def split: if_splits)
  qed (use rt mem_invD [OF inv] in \<open>auto simp: insert_pair_def split: if_splits\<close>)
qed

text \<open>Renewal moves the access token and the live refresh token of its family together.\<close>

lemma renew_refresh_lookup:
  "fmlookup (renew_refresh f now x m) r =
     (case fmlookup m r of
        None \<Rightarrow> None
      | Some re \<Rightarrow> if re_FamilyID re = f
                   then (if re_ExpiresAt re < now then None else Some (re\<lparr>re_ExpiresAt := x\<rparr>))
                   else Some re)"
  by (auto simp: renew_refresh_def split: option.splits)

lemma renew_refresh_SomeE:
  assumes "fmlookup (renew_refresh f now x m) r = Some v"
  obtains re where "fmlookup m r = Some re" "re_FamilyID v = re_FamilyID re" "re_Token v = re_Token re"
    "re_ClientID v = re_ClientID re" "re_Scope v = re_Scope re" "re_Principal v = re_Principal re"
    "re_FamilyID re = f \<Longrightarrow> \<not> re_ExpiresAt re < now \<and> re_ExpiresAt v = x"
    "re_FamilyID re \<noteq> f \<Longrightarrow> v = re"
  using assms by (auto simp: renew_refresh_lookup split: option.splits if_splits)

lemma mem_inv_renew [inv_intros]:
  assumes inv: "mem_inv now s" and tok: "fmlookup (tokens s) k = Some te"
    and live: "\<not> te_ExpiresAt te < now"
  shows "mem_inv now (s\<lparr>tokens := fmupd k (te\<lparr>te_ExpiresAt := now + tokenIdleTTL\<rparr>) (tokens s),
     refresh := renew_refresh (te_FamilyID te) now (now + tokenIdleTTL) (refresh s)\<rparr>)"
    (is "mem_inv now ?s")
proof -
  let ?f = "te_FamilyID te"
  let ?x = "now + tokenIdleTTL"
  obtain r0 re0 where r0: "fmlookup (refresh s) r0 = Some re0" "re_FamilyID re0 = ?f"
      "te_ExpiresAt te \<le> re_ExpiresAt re0"
    using backedE [OF mem_invD(7) [OF inv tok] live] by blast
  then have r0': "fmlookup (refresh ?s) r0 = Some (re0\<lparr>re_ExpiresAt := ?x\<rparr>)"
    using live by (simp add: renew_refresh_lookup)
  have only: "r = r0" if "fmlookup (refresh s) r = Some v" "re_FamilyID v = ?f" for r v
    using mem_invD(4) [OF inv] r0 that by metis
  show ?thesis
  proof (rule mem_invI, goal_cases)
    case (4 k1 k2 r1 r2)
    from 4(1,2) obtain v1 v2 where "fmlookup (refresh s) k1 = Some v1" "re_FamilyID r1 = re_FamilyID v1"
        "fmlookup (refresh s) k2 = Some v2" "re_FamilyID r2 = re_FamilyID v2"
      by (auto elim!: renew_refresh_SomeE)
    with 4(3) mem_invD(4) [OF inv] show ?case by metis
  next
    case (6 x r t v)
    from 6(2) obtain u where u: "fmlookup (refresh s) r = Some u" "re_FamilyID v = re_FamilyID u"
        "re_ClientID v = re_ClientID u" "re_Scope v = re_Scope u" "re_Principal v = re_Principal u"
      by (auto elim!: renew_refresh_SomeE)
    with 6 tok mem_invD(6) [OF inv _ u(1)] show ?case by (auto split: if_splits)
  next
    case (7 y t)
    show ?case
    proof (cases "y = k")
      case True
      with 7 r0' r0 show ?thesis by (intro backedI [OF r0']) auto
    next
      case False
      with 7 have "backed now s t" using mem_invD(7) [OF inv] by simp
      then show ?thesis
      proof (rule backed_mono)
        fix r v assume v: "fmlookup (refresh s) r = Some v" "re_FamilyID v = te_FamilyID t"
        show "\<exists>r' re'. fmlookup (refresh ?s) r' = Some re' \<and> re_FamilyID re' = re_FamilyID v
            \<and> re_ExpiresAt v \<le> re_ExpiresAt re'"
        proof (cases "re_FamilyID v = ?f")
          case True
          with v(1) r0 r0' only mem_invD(8) [OF inv v(1)] show ?thesis by (intro exI [of _ r0]) auto
        next
          case False
          with v show ?thesis by (intro exI [of _ r]) (auto simp: renew_refresh_lookup)
        qed
      qed
    qed
  next
    case (8 x v)
    from 8 obtain u where "fmlookup (refresh s) x = Some u" "re_ExpiresAt v = ?x \<or> v = u"
      by (auto elim!: renew_refresh_SomeE)
    with mem_invD(8) [OF inv] show ?case by auto
  qed (use tok mem_invD [OF inv] in \<open>auto simp: renew_refresh_lookup split: if_splits option.splits\<close>)
qed

section \<open>Every method keeps the invariant\<close>

lemma clock_envD: "clock_env t e \<Longrightarrow> t \<le> now1 e" "clock_env t e \<Longrightarrow> t \<le> now2 e" "clock_env t e \<Longrightarrow> t \<le> now3 e"
  "clock_env t e \<Longrightarrow> now1 e \<le> now2 e" "clock_env t e \<Longrightarrow> now2 e \<le> now3 e" "clock_env t e \<Longrightarrow> now1 e \<le> now3 e"
  by (auto simp: clock_env_def)

lemma fresh_envD: "fresh_env s e \<Longrightarrow> \<not> used s (rnd1 e)" "fresh_env s e \<Longrightarrow> \<not> used s (rnd2 e)"
  "fresh_env s e \<Longrightarrow> \<not> used s (rnd3 e)" "fresh_env s e \<Longrightarrow> rnd1 e \<noteq> []"
  by (auto simp: fresh_env_def)

lemma used_drop_code: "\<not> used s x \<Longrightarrow> \<not> used (s\<lparr>codes := fmdrop k (codes s)\<rparr>) x"
  by (simp add: used_def)

lemma mem_inv_registerClient [inv_intros]: "mem_inv t s \<Longrightarrow> mem_inv t (fst (registerClient H e m s))"
  by (simp add: registerClient_def Let_def)

lemma mem_inv_registerCIMD [inv_intros]: "mem_inv t s \<Longrightarrow> mem_inv t (fst (registerCIMDClient e c m s))"
  by (simp add: registerCIMDClient_def Let_def)

lemma mem_inv_createCode [inv_intros]:
  "mem_inv t s \<Longrightarrow> mem_inv t (fst (createCode e c r ch m sc p s))"
  by (simp add: createCode_def Let_def mem_inv_put_code)

lemma mem_inv_consumeCode [inv_intros]: "mem_inv t s \<Longrightarrow> mem_inv t (fst (consumeCode e k s))"
  by (simp add: consumeCode_def Let_def mem_inv_drop_code split: option.splits)

lemma mem_inv_exchangeCode [inv_intros]:
  assumes "mem_inv t s" "fresh_env s e" "now2 e \<le> t"
  shows "mem_inv t (fst (exchangeCode H e k c r v s))"
  using assms
  by (auto simp: exchangeCode_def createTokenPairLocked_def Let_def
      split: option.splits intro!: inv_intros used_drop_code dest: fresh_envD)

lemma mem_inv_lookupToken [inv_intros]: "mem_inv t s \<Longrightarrow> mem_inv t (fst (lookupToken e k s))"
  by (simp add: lookupToken_def mem_inv_drop_token split: option.splits)

lemma mem_inv_renewToken [inv_intros]:
  "mem_inv (now1 e) s \<Longrightarrow> mem_inv (now1 e) (fst (renewToken e k s))"
  by (simp add: renewToken_def Let_def mem_inv_drop_token mem_inv_renew split: option.splits)

lemma mem_inv_revoke [inv_intros]:
  assumes inv: "mem_inv t s"
  shows "mem_inv t (revokeFamilyLocked f s)"
proof (rule mem_invI, goal_cases)
  case (4 k1 k2 r1 r2)
  then show ?case using mem_invD(4) [OF inv, of k1 r1 k2 r2]
    by (simp add: revokeFamilyLocked_def fmlookup_fmkeep_Some del: fmlookup_fmkeep)
next
  case (6 k r te re)
  then show ?case using mem_invD(6) [OF inv, of k te r re]
    by (simp add: revokeFamilyLocked_def fmlookup_fmkeep_Some del: fmlookup_fmkeep)
next
  case (7 k te)
  then have te: "fmlookup (tokens s) k = Some te" "te_FamilyID te \<noteq> f"
    by (simp_all add: revokeFamilyLocked_def fmlookup_fmkeep_Some del: fmlookup_fmkeep)
  from mem_invD(7) [OF inv te(1)] show ?case
  proof (rule backed_mono)
    fix r re assume "fmlookup (refresh s) r = Some re" "re_FamilyID re = te_FamilyID te"
    with te(2) show "\<exists>r' re'. fmlookup (refresh (revokeFamilyLocked f s)) r' = Some re'
        \<and> re_FamilyID re' = re_FamilyID re \<and> re_ExpiresAt re \<le> re_ExpiresAt re'"
      by (intro exI [of _ r]) (simp add: revokeFamilyLocked_def)
  qed
qed (use mem_invD [OF inv] in \<open>auto simp: revokeFamilyLocked_def split: option.splits if_splits\<close>)

lemma mem_inv_rotateRefresh [inv_intros]:
  assumes inv: "mem_inv t s" and fresh: "fresh_env s e" and clk: "clock_env t e"
  shows "mem_inv (now3 e) (fst (rotateRefresh e k c a s))"
proof -
  have i1: "mem_inv (now1 e) s" and i2: "mem_inv (now2 e) s" and i3: "mem_inv (now3 e) s"
    using inv clk by (auto intro: mem_inv_later dest: clock_envD)
  show ?thesis
  proof (cases "fmlookup (refresh s) k")
    case None
    then show ?thesis using i3 by (auto simp: rotateRefresh_def split: option.splits intro: inv_intros)
  next
    case (Some re)
    note drop = mem_inv_drop_refresh [OF i3 Some]
    have "mem_inv (now3 e) (s\<lparr>refresh := fmdrop k (refresh s)\<rparr>)"
      if "re_ExpiresAt re < now1 e \<or> re_ExpiresAt re < now2 e"
      using drop that clk by (auto dest: clock_envD)
    moreover have "re_ExpiresAt re \<le> now3 e + tokenIdleTTL"
      using mem_invD(8) [OF i3 Some] .
    then have "mem_inv (now3 e) (insert_pair (rnd1 e) (rnd2 e) (re_ClientID re) (re_Scope re)
        (re_FamilyID re) (re_Principal re) tokenIdleTTL (now3 e)
        (s\<lparr>refresh := fmdrop k (refresh s), consumed := fmupd k (re_FamilyID re) (consumed s)\<rparr>))"
      using mem_inv_rotate [OF i3 Some order_refl] fresh by (simp add: fresh_envD)
    ultimately show ?thesis
      using Some i3 by (auto simp: rotateRefresh_def Let_def split: option.splits)
  qed
qed

lemma mem_inv_evict_entries [inv_intros]:
  assumes inv: "mem_inv now s"
  shows "mem_inv now (evict_entries now s)"
proof (rule mem_invI, goal_cases)
  case (4 k1 k2 r1 r2)
  then show ?case using mem_invD(4) [OF inv, of k1 r1 k2 r2]
    by (simp add: evict_entries_def fmlookup_fmkeep_Some del: fmlookup_fmkeep)
next
  case (6 k r te re)
  then show ?case using mem_invD(6) [OF inv, of k te r re]
    by (simp add: evict_entries_def fmlookup_fmkeep_Some del: fmlookup_fmkeep)
next
  case (7 k te)
  then have te: "fmlookup (tokens s) k = Some te" "\<not> te_ExpiresAt te < now"
    by (simp_all add: evict_entries_def fmlookup_fmkeep_Some del: fmlookup_fmkeep)
  from backedE [OF mem_invD(7) [OF inv te(1)] te(2)] obtain r re
    where "fmlookup (refresh s) r = Some re" "re_FamilyID re = te_FamilyID te"
      "te_ExpiresAt te \<le> re_ExpiresAt re" .
  with te(2) show ?case by (intro backedI [of _ r re]) (auto simp: evict_entries_def)
qed (use mem_invD [OF inv] in \<open>auto simp: evict_entries_def split: option.splits if_splits\<close>)

lemma mem_inv_keep_consumed [inv_intros]:
  "mem_inv t s \<Longrightarrow> mem_inv t (s\<lparr>consumed := fmkeep P (consumed s)\<rparr>)"
  by (rule mem_invI) (auto dest: mem_invD intro: backed_frame split: option.splits if_splits)

lemma mem_inv_evict [inv_intros]: "mem_inv (now1 e) s \<Longrightarrow> mem_inv (now1 e) (evict e s)"
  by (simp add: evict_def Let_def mem_inv_evict_entries mem_inv_keep_consumed)

section \<open>Runs\<close>

lemma mem_inv_step [inv_intros]:
  assumes inv: "mem_inv t s" and fresh: "fresh_env s (op_env x)" and clk: "clock_env t (op_env x)"
  shows "mem_inv (now3 (op_env x)) (fst (store_step (memory_store H) x s))"
proof -
  let ?e = "op_env x"
  have le: "now1 ?e \<le> now3 ?e" "now2 ?e \<le> now3 ?e" using clk by (auto dest: clock_envD)
  have i1: "mem_inv (now1 ?e) s" and i3: "mem_inv (now3 ?e) s"
    using inv clk by (auto intro: mem_inv_later dest: clock_envD)
  show ?thesis
  proof (cases x)
    case (RotateRefresh e k c a)
    then show ?thesis using mem_inv_rotateRefresh [OF inv] fresh clk by simp
  next
    case (RenewToken e k)
    then show ?thesis
      using mem_inv_later [OF mem_inv_renewToken le(1)] i1 by simp
  next
    case (Evict e)
    then show ?thesis using mem_inv_later [OF mem_inv_evict le(1)] i1 by simp
  qed (use i3 fresh le in \<open>simp_all add: inv_intros\<close>)
qed

text \<open>A well-timed run: each call reads a clock that does not go back and draws fresh strings.\<close>

fun run_ok :: "(string \<Rightarrow> byte list) \<Rightarrow> time \<Rightarrow> store_op list \<Rightarrow> store \<Rightarrow> bool" where
  "run_ok H t [] s \<longleftrightarrow> True"
| "run_ok H t (x # xs) s \<longleftrightarrow> fresh_env s (op_env x) \<and> clock_env t (op_env x)
     \<and> run_ok H (now3 (op_env x)) xs (fst (store_step (memory_store H) x s))"

fun run_clock :: "time \<Rightarrow> store_op list \<Rightarrow> time" where
  "run_clock t [] = t"
| "run_clock t (x # xs) = run_clock (now3 (op_env x)) xs"

lemma mem_inv_run [inv_intros]:
  "mem_inv t s \<Longrightarrow> run_ok H t xs s \<Longrightarrow> mem_inv (run_clock t xs) (fst (store_run (memory_store H) xs s))"
proof (induction xs arbitrary: t s)
  case (Cons x xs)
  then have "mem_inv (now3 (op_env x)) (fst (store_step (memory_store H) x s))"
    by (auto intro: mem_inv_step)
  with Cons show ?case by (simp add: split_beta)
qed simp

end
