(* ===== verification/OAuth_Contract.thy ===== *)
theory OAuth_Contract
  imports OAuth_Types
begin

text \<open>
  What the server relies on of an \<open>oauthStore\<close>: authorization codes and refresh tokens are
  single-use, and presenting a refresh token that was already rotated kills its token family.

  The contract speaks of a store through views: \<open>key\<close> is what a secret is stored under (the secret
  itself or its hash), \<open>has_code s k\<close> and \<open>live s k\<close> say that a code or a refresh token can be
  redeemed, \<open>owns s k f\<close> that an access token belongs to family \<open>f\<close>, \<open>spent s t c f\<close> that
  client \<open>c\<close>'s refresh token \<open>t\<close> of family \<open>f\<close> was rotated, \<open>dead s f\<close> that nothing of
  family \<open>f\<close> can be used any more.  Both implementations interpret it.
\<close>

locale code_contract =
  fixes S :: "'s oauth_store"
    and key :: "string \<Rightarrow> 'k"
    and has_code :: "'s \<Rightarrow> 'k \<Rightarrow> bool"
  assumes code_needed:
      "snd (os_exchangeCode S e k c r v s) = Inr (Some g) \<Longrightarrow> has_code s (key k)"
    and code_spent:
      "snd (os_exchangeCode S e k c r v s) = Inr res \<Longrightarrow>
         \<not> has_code (fst (os_exchangeCode S e k c r v s)) (key k)"
    and code_stays:
      "\<not> has_code s q \<Longrightarrow> (\<And>k. new_code x = Some k \<Longrightarrow> key k \<noteq> q) \<Longrightarrow>
         \<not> has_code (fst (store_step S x s)) q"
begin

lemma code_stays_run:
  assumes "\<not> has_code s q"
    and "\<forall>x \<in> set xs. \<forall>k. new_code x = Some k \<longrightarrow> key k \<noteq> q"
  shows "\<not> has_code (fst (store_run S xs s)) q"
  using assms
proof (induction xs arbitrary: s)
  case (Cons x xs)
  have "\<not> has_code (fst (store_step S x s)) q"
    by (rule code_stays) (use Cons.prems in auto)
  with Cons show ?case by (simp add: split_beta)
qed simp

text \<open>A code is exchanged at most once, whatever happens in between.\<close>

lemma code_single_use:
  assumes first: "snd (os_exchangeCode S e k c r v s) = Inr res"
    and s1: "s1 = fst (os_exchangeCode S e k c r v s)"
    and others: "\<forall>x \<in> set xs. \<forall>k'. new_code x = Some k' \<longrightarrow> key k' \<noteq> key k"
    and s2: "s2 = fst (store_run S xs s1)"
  shows "snd (os_exchangeCode S e' k c' r' v' s2) \<noteq> Inr (Some g)"
proof
  assume "snd (os_exchangeCode S e' k c' r' v' s2) = Inr (Some g)"
  then have "has_code s2 (key k)" by (rule code_needed)
  moreover have "\<not> has_code s1 (key k)" using code_spent [OF first] s1 by simp
  then have "\<not> has_code s2 (key k)" unfolding s2 by (rule code_stays_run) (rule others)
  ultimately show False by simp
qed

end

locale family_contract =
  fixes S :: "'s oauth_store"
    and key :: "string \<Rightarrow> 'k"
    and inv :: "time \<Rightarrow> 's \<Rightarrow> bool"
    and fresh :: "'s \<Rightarrow> env \<Rightarrow> bool"
    and live :: "'s \<Rightarrow> 'k \<Rightarrow> bool"
    and owns :: "'s \<Rightarrow> 'k \<Rightarrow> string \<Rightarrow> bool"
    and spent :: "'s \<Rightarrow> string \<Rightarrow> string \<Rightarrow> string \<Rightarrow> bool"
    and dead :: "'s \<Rightarrow> string \<Rightarrow> bool"
  assumes inv_step:
      "inv t s \<Longrightarrow> fresh s (op_env x) \<Longrightarrow> clock_env t (op_env x) \<Longrightarrow>
         inv (now3 (op_env x)) (fst (store_step S x s))"
    and rotate_spends:
      "snd (os_rotateRefresh S e rt c a s) = Inr (Some g) \<Longrightarrow> fresh s e \<Longrightarrow>
         \<exists>f. spent (fst (os_rotateRefresh S e rt c a s)) rt c f
            \<and> owns (fst (os_rotateRefresh S e rt c a s)) (key (tg_access g)) f"
    and live_needed:
      "snd (os_rotateRefresh S e rt c a s) = Inr (Some g) \<Longrightarrow> live s (key rt)"
    and spent_not_live: "inv t s \<Longrightarrow> spent s rt c f \<Longrightarrow> \<not> live s (key rt)"
    and live_step: "live (fst (store_step S x s)) k \<Longrightarrow> live s k \<or> k \<in> key ` rnds (op_env x)"
    and spent_fresh: "spent s rt c f \<Longrightarrow> fresh s e \<Longrightarrow> key rt \<notin> key ` rnds e"
    and spent_stays:
      "inv t s \<Longrightarrow> clock_env t (op_env x) \<Longrightarrow> fresh s (op_env x) \<Longrightarrow> spent s rt c f \<Longrightarrow>
         spent (fst (store_step S x s)) rt c f \<or> dead (fst (store_step S x s)) f"
    and replay_kills:
      "spent s rt c f \<Longrightarrow> inv t s \<Longrightarrow> snd (os_rotateRefresh S e rt c a s) = Inr res \<Longrightarrow>
         dead (fst (os_rotateRefresh S e rt c a s)) f"
    and dead_stays: "dead s f \<Longrightarrow> rnd1 (op_env x) \<noteq> f \<Longrightarrow> dead (fst (store_step S x s)) f"
    and dead_token:
      "dead s f \<Longrightarrow> snd (os_lookupToken S e at s) = Inr (Some te) \<Longrightarrow> te_FamilyID te \<noteq> f"
    and owns_lookup:
      "snd (os_lookupToken S e at s) = Inr (Some te) \<Longrightarrow> owns s (key at) (te_FamilyID te)"
    and owns_unique: "owns s k f \<Longrightarrow> owns s k f' \<Longrightarrow> f = f'"
    and owns_step:
      "owns (fst (store_step S x s)) k f \<Longrightarrow> owns s k f \<or> k \<in> key ` rnds (op_env x)"
    and owns_fresh: "owns s k f \<Longrightarrow> fresh s e \<Longrightarrow> rnd1 e \<noteq> f \<and> k \<notin> key ` rnds e"
begin

lemma good_run_inv:
  "good_run S fresh s0 t xs s \<Longrightarrow> inv t s \<Longrightarrow> \<exists>t'. inv t' (fst (store_run S xs s))"
proof (induction xs arbitrary: t s)
  case (Cons x xs)
  then have "inv (now3 (op_env x)) (fst (store_step S x s))" by (auto intro: inv_step)
  with Cons show ?case by (fastforce simp: split_beta)
qed auto

lemma not_live_run:
  "\<not> live s k \<Longrightarrow> \<forall>x \<in> set xs. k \<notin> key ` rnds (op_env x) \<Longrightarrow> \<not> live (fst (store_run S xs s)) k"
proof (induction xs arbitrary: s)
  case (Cons x xs)
  have "\<not> live (fst (store_step S x s)) k"
    using live_step [of x s k] Cons.prems by auto
  with Cons show ?case by (simp add: split_beta)
qed simp

lemma dead_run:
  "dead s f \<Longrightarrow> \<forall>x \<in> set xs. rnd1 (op_env x) \<noteq> f \<Longrightarrow> dead (fst (store_run S xs s)) f"
proof (induction xs arbitrary: s)
  case (Cons x xs)
  then have "dead (fst (store_step S x s)) f" by (auto intro: dead_stays)
  with Cons show ?case by (simp add: split_beta)
qed simp

lemma owns_run:
  "\<forall>g. owns s k g \<longrightarrow> g = f \<Longrightarrow> \<forall>x \<in> set xs. k \<notin> key ` rnds (op_env x) \<Longrightarrow>
     owns (fst (store_run S xs s)) k g \<Longrightarrow> g = f"
proof (induction xs arbitrary: s)
  case (Cons x xs)
  have "\<forall>g. owns (fst (store_step S x s)) k g \<longrightarrow> g = f"
    using owns_step [of x s k] Cons.prems by auto
  with Cons show ?case by (simp add: split_beta)
qed auto

lemma spent_run:
  "good_run S fresh s0 t xs s \<Longrightarrow> inv t s \<Longrightarrow> spent s rt c f \<or> dead s f \<Longrightarrow>
     \<forall>x \<in> set xs. rnd1 (op_env x) \<noteq> f \<Longrightarrow>
     spent (fst (store_run S xs s)) rt c f \<or> dead (fst (store_run S xs s)) f"
proof (induction xs arbitrary: t s)
  case (Cons x xs)
  let ?s = "fst (store_step S x s)"
  have "spent ?s rt c f \<or> dead ?s f"
    using Cons.prems spent_stays [of t s x rt c f] dead_stays [of s f x] by auto
  moreover have "inv (now3 (op_env x)) ?s" using Cons.prems by (auto intro: inv_step)
  ultimately show ?case using Cons.IH [of "now3 (op_env x)" ?s] Cons.prems by (simp add: split_beta)
qed simp

text \<open>A refresh token that was rotated is never accepted again.\<close>

lemma refresh_single_use:
  assumes "inv t s" and "fresh s e" and "clock_env t e"
    and rot: "snd (os_rotateRefresh S e rt c a s) = Inr (Some g)"
    and s1: "s1 = fst (os_rotateRefresh S e rt c a s)"
    and run: "good_run S fresh s1 (now3 e) xs s1"
  shows "snd (os_rotateRefresh S e' rt c' a' (fst (store_run S xs s1))) \<noteq> Inr (Some g')"
proof -
  obtain f where sp: "spent s1 rt c f" using rotate_spends [of e rt c a s g] assms by auto
  have "inv (now3 e) s1" using inv_step [of t s "RotateRefresh e rt c a"] assms by simp
  from spent_not_live [OF this sp] have "\<not> live s1 (key rt)" .
  then have "\<not> live (fst (store_run S xs s1)) (key rt)"
    by (rule not_live_run) (use good_run_fresh [OF run] spent_fresh [OF sp] in blast)
  then show ?thesis using live_needed by blast
qed

text \<open>Presenting it again revokes the family: the access token its rotation gave out never verifies again.\<close>

lemma replay_revokes:
  assumes "inv t s" and "fresh s e" and "clock_env t e"
    and rot: "snd (os_rotateRefresh S e rt c a s) = Inr (Some g)"
    and s1: "s1 = fst (os_rotateRefresh S e rt c a s)"
    and run: "good_run S fresh s1 (now3 e) xs s1"
    and replay: "snd (os_rotateRefresh S e2 rt c a2 (fst (store_run S xs s1))) = Inr res"
    and s3: "s3 = fst (os_rotateRefresh S e2 rt c a2 (fst (store_run S xs s1)))"
    and e2: "fresh s1 e2"
    and later: "\<forall>y \<in> set ys. fresh s1 (op_env y)"
  shows "snd (os_lookupToken S e3 (tg_access g) (fst (store_run S ys s3))) \<noteq> Inr (Some te)"
proof
  let ?s2 = "fst (store_run S xs s1)"
  obtain f where sp: "spent s1 rt c f" and own: "owns s1 (key (tg_access g)) f"
    using rotate_spends [of e rt c a s g] assms by auto
  have i1: "inv (now3 e) s1" using inv_step [of t s "RotateRefresh e rt c a"] assms by simp
  have f1: "\<And>x. x \<in> set xs \<Longrightarrow> rnd1 (op_env x) \<noteq> f \<and> key (tg_access g) \<notin> key ` rnds (op_env x)"
    using good_run_fresh [OF run] owns_fresh [OF own] by blast
  have f2: "rnd1 e2 \<noteq> f" "key (tg_access g) \<notin> key ` rnds e2" using owns_fresh [OF own e2] by auto
  have f3: "\<And>y. y \<in> set ys \<Longrightarrow> rnd1 (op_env y) \<noteq> f \<and> key (tg_access g) \<notin> key ` rnds (op_env y)"
    using later owns_fresh [OF own] by blast
  obtain t2 where i2: "inv t2 ?s2" using good_run_inv [OF run i1] by blast
  have "spent ?s2 rt c f \<or> dead ?s2 f"
    by (rule spent_run [OF run i1]) (use sp f1 in auto)
  then have "dead s3 f"
    using replay_kills [of ?s2 rt c f t2 e2 a2 res] replay s3 i2 dead_stays [of ?s2 f "RotateRefresh e2 rt c a2"] f2
    by auto
  then have d: "dead (fst (store_run S ys s3)) f" by (rule dead_run) (use f3 in auto)
  have o3: "\<forall>g'. owns s3 (key (tg_access g)) g' \<longrightarrow> g' = f"
  proof (intro allI impI)
    fix g' assume "owns s3 (key (tg_access g)) g'"
    then have "owns ?s2 (key (tg_access g)) g'"
      using owns_step [of "RotateRefresh e2 rt c a2" ?s2] s3 f2 by fastforce
    then show "g' = f" using owns_run [of s1 "key (tg_access g)" f xs g'] owns_unique [OF own] f1 by blast
  qed
  assume l: "snd (os_lookupToken S e3 (tg_access g) (fst (store_run S ys s3))) = Inr (Some te)"
  have "te_FamilyID te = f"
    by (rule owns_run [OF o3 _ owns_lookup [OF l]]) (use f3 in auto)
  with dead_token [OF d l] show False by simp
qed

end

end
