(* ===== verification/OAuth_Store_Props.thy ===== *)
theory OAuth_Store_Props
  imports OAuth_Store_Inv OAuth_Contract
begin

text \<open>
  The in-memory store meets the contract of \<open>OAuth_Contract\<close>, and the properties that follow:
  single use of codes and refresh tokens, revocation on replay, and the session guarantee that a
  verifying access token can always be refreshed.
\<close>

definition mem_owns :: "store \<Rightarrow> string \<Rightarrow> string \<Rightarrow> bool" where
  "mem_owns s k f \<longleftrightarrow> (case fmlookup (tokens s) k of None \<Rightarrow> False | Some te \<Rightarrow> te_FamilyID te = f)"

definition mem_spent :: "store \<Rightarrow> string \<Rightarrow> string \<Rightarrow> string \<Rightarrow> bool" where
  "mem_spent s rt c f \<longleftrightarrow> fmlookup (consumed s) rt = Some f"

definition mem_dead :: "store \<Rightarrow> string \<Rightarrow> bool" where
  "mem_dead s f \<longleftrightarrow> \<not> fmany (\<lambda>_ v. te_FamilyID v = f) (tokens s)
     \<and> \<not> fmany (\<lambda>_ v. re_FamilyID v = f) (refresh s) \<and> \<not> fmany (\<lambda>_ g. g = f) (consumed s)"

lemmas mem_ops = registerClient_def registerCIMDClient_def createCode_def exchangeCode_def
  createTokenPairLocked_def insert_pair_def lookupToken_def renewToken_def renew_refresh_lookup
  rotateRefresh_def revokeFamilyLocked_def evict_def evict_entries_def

section \<open>How each method changes the views\<close>

lemma mem_code_stays:
  assumes "fmlookup (codes s) q = None" and "new_code x \<noteq> Some q"
  shows "fmlookup (codes (fst (store_step (memory_store H) x s))) q = None"
  using assms
  by (cases x) (auto simp: mem_ops Let_def split: option.splits if_splits)

lemma mem_live_step:
  assumes "fmlookup (refresh (fst (store_step (memory_store H) x s))) k \<noteq> None"
  shows "fmlookup (refresh s) k \<noteq> None \<or> k \<in> rnds (op_env x)"
  using assms
  by (cases x) (auto simp: mem_ops Let_def rnds_def split: option.splits if_splits)

lemma mem_owns_step:
  assumes "mem_owns (fst (store_step (memory_store H) x s)) k f"
  shows "mem_owns s k f \<or> k \<in> rnds (op_env x)"
  using assms
  by (cases x)
    (auto simp: mem_ops Let_def rnds_def mem_owns_def split: option.splits if_splits)

text \<open>The families in the state, and how a call can add one: only as its first random string.\<close>

definition mem_family :: "store \<Rightarrow> string \<Rightarrow> bool" where
  "mem_family s f \<longleftrightarrow> \<not> mem_dead s f"

lemma mem_family_iff: "mem_family s f \<longleftrightarrow>
    (\<exists>k v. fmlookup (tokens s) k = Some v \<and> te_FamilyID v = f)
    \<or> (\<exists>k v. fmlookup (refresh s) k = Some v \<and> re_FamilyID v = f)
    \<or> (\<exists>k. fmlookup (consumed s) k = Some f)"
  by (auto simp: mem_family_def mem_dead_def fmany_iff)

lemma mem_familyI:
  "fmlookup (tokens s) k = Some te \<Longrightarrow> te_FamilyID te = f \<Longrightarrow> mem_family s f"
  "fmlookup (refresh s) k = Some re \<Longrightarrow> re_FamilyID re = f \<Longrightarrow> mem_family s f"
  "fmlookup (consumed s) k = Some f \<Longrightarrow> mem_family s f"
  by (auto simp: mem_family_iff)

lemma mem_family_step:
  assumes "mem_family (fst (store_step (memory_store H) x s)) f"
  shows "mem_family s f \<or> f = rnd1 (op_env x)"
proof -
  let ?s = "fst (store_step (memory_store H) x s)"
  consider k v where "fmlookup (tokens ?s) k = Some v" "te_FamilyID v = f"
    | k v where "fmlookup (refresh ?s) k = Some v" "re_FamilyID v = f"
    | k where "fmlookup (consumed ?s) k = Some f"
    using assms by (auto simp: mem_family_iff)
  then show ?thesis
  proof cases
    case 1
    then show ?thesis
      by (cases x) (auto simp: mem_ops Let_def split: option.splits if_splits
          intro: mem_familyI)
  next
    case 2
    then show ?thesis
      by (cases x) (auto simp: mem_ops Let_def split: option.splits if_splits
          intro: mem_familyI)
  next
    case 3
    then show ?thesis
      by (cases x) (auto simp: mem_ops Let_def split: option.splits if_splits
          intro: mem_familyI)
  qed
qed

lemma mem_dead_stays:
  "mem_dead s f \<Longrightarrow> rnd1 (op_env x) \<noteq> f \<Longrightarrow> mem_dead (fst (store_step (memory_store H) x s)) f"
  using mem_family_step [of H x s f] by (auto simp: mem_family_def)

lemma mem_revoke_dead: "mem_dead (revokeFamilyLocked f s) f"
  by (auto simp: mem_dead_def revokeFamilyLocked_def fmany_iff split: option.splits if_splits)

text \<open>
  A replay record survives every call until its family is gone altogether: eviction drops it only
  when the family has no live refresh token left, and then no access token of it is left either.
\<close>

lemma mem_spent_stays:
  assumes inv: "mem_inv t s" and clk: "clock_env t (op_env x)" and sp: "mem_spent s rt c f"
    and fresh: "fresh_env s (op_env x)"
  shows "mem_spent (fst (store_step (memory_store H) x s)) rt c f
    \<or> mem_dead (fst (store_step (memory_store H) x s)) f"
proof (cases x)
  case (Evict e)
  let ?s1 = "evict_entries (now1 e) s"
  have i: "mem_inv (now1 e) ?s1"
    using inv clk Evict by (auto intro: mem_inv_evict_entries mem_inv_later dest: clock_envD)
  show ?thesis
  proof (cases "fmany (\<lambda>_ v. re_FamilyID v = f) (refresh ?s1)")
    case True
    then show ?thesis using sp Evict
      by (simp add: evict_def Let_def mem_spent_def evict_entries_def)
  next
    case False
    have "te_FamilyID te \<noteq> f" if te: "fmlookup (tokens ?s1) k = Some te" for k te
    proof
      assume "te_FamilyID te = f"
      moreover have "\<not> te_ExpiresAt te < now1 e"
        using te by (auto simp: evict_entries_def split: option.splits if_splits)
      then obtain r re where "fmlookup (refresh ?s1) r = Some re" "re_FamilyID re = te_FamilyID te"
        using backedE [OF mem_invD(7) [OF i te]] by blast
      ultimately show False using False by (auto simp: fmany_iff)
    qed
    with False have "mem_dead (evict e s) f"
      by (auto simp: mem_dead_def evict_def Let_def fmany_iff split: option.splits if_splits)
    then show ?thesis using Evict by simp
  qed
next
  case (RotateRefresh e k c' a)
  show ?thesis
  proof (cases "fmlookup (refresh s) k")
    case (Some re)
    have "fmlookup (refresh s) rt = None" using mem_invD(5) [OF inv] sp by (simp add: mem_spent_def)
    with Some have "k \<noteq> rt" by auto
    with Some sp show ?thesis using RotateRefresh
      by (simp add: rotateRefresh_def Let_def mem_spent_def)
  next
    case None
    show ?thesis
    proof (cases "fmlookup (consumed s) k = Some f")
      case True
      with None show ?thesis using RotateRefresh mem_revoke_dead by (simp add: rotateRefresh_def)
    next
      case False
      with None sp show ?thesis using RotateRefresh
        by (auto simp: rotateRefresh_def mem_spent_def revokeFamilyLocked_def split: option.splits)
    qed
  qed
qed (use sp in \<open>simp_all add: mem_ops Let_def mem_spent_def split: option.splits\<close>)

lemma mem_rotate_spends:
  assumes "snd (rotateRefresh e rt c a s) = Some g" and "fresh_env s e"
  shows "\<exists>f. mem_spent (fst (rotateRefresh e rt c a s)) rt c f
    \<and> mem_owns (fst (rotateRefresh e rt c a s)) (tg_access g) f"
  using assms
  by (auto simp: rotateRefresh_def Let_def mem_spent_def mem_owns_def insert_pair_def
      split: option.splits if_splits)

lemma mem_replay_kills:
  assumes "mem_spent s rt c f" and "mem_inv t s"
  shows "mem_dead (fst (rotateRefresh e rt c' a s)) f"
  using assms mem_invD(5) [of t s rt f]
  by (simp add: rotateRefresh_def mem_spent_def mem_revoke_dead)

lemma mem_owns_used: "mem_owns s k f \<Longrightarrow> used s k \<and> used s f"
  unfolding mem_owns_def used_def by (auto simp: fmany_iff split: option.splits)

lemma fresh_env_used: "fresh_env s e \<Longrightarrow> used s x \<Longrightarrow> x \<notin> rnds e"
  by (auto simp: fresh_env_def rnds_def)

interpretation mem_codes: code_contract "memory_store H" id "\<lambda>s k. fmlookup (codes s) k \<noteq> None" for H
proof (unfold_locales, goal_cases)
  case (1 e k c r v s g)
  then show ?case by (auto simp: exchangeCode_def split: option.splits)
next
  case (2 e k c r v s res)
  then show ?case
    by (auto simp: exchangeCode_def createTokenPairLocked_def Let_def split: option.splits)
next
  case (3 s q x)
  then have "new_code x \<noteq> Some q" by auto
  with 3 show ?case using mem_code_stays by simp
qed

interpretation mem_fam: family_contract "memory_store H" id mem_inv fresh_env
  "\<lambda>s k. fmlookup (refresh s) k \<noteq> None" mem_owns mem_spent mem_dead for H
proof (unfold_locales, goal_cases)
  case (1 t s x)
  then show ?case by (rule mem_inv_step)
next
  case (2 e rt c a s g)
  then show ?case using mem_rotate_spends [of e rt c a s g] by simp
next
  case (3 e rt c a s g)
  then show ?case by (auto simp: rotateRefresh_def split: option.splits)
next
  case (4 t s rt c f)
  then show ?case using mem_invD(5) [of t s rt f] by (simp add: mem_spent_def)
next
  case (5 x s k)
  then show ?case using mem_live_step [of H x s k] by simp
next
  case (6 s rt c f e)
  then have "used s rt" by (simp add: mem_spent_def used_def)
  with 6 show ?case using fresh_env_used [of s e rt] by auto
next
  case (7 t s x rt c f)
  then show ?case by (intro mem_spent_stays)
next
  case (8 s rt c f t e a res)
  then show ?case using mem_replay_kills [of s rt c f t e c a] by simp
next
  case (9 s f x)
  then show ?case by (intro mem_dead_stays)
next
  case (10 s f e at te)
  then show ?case
    by (auto simp: mem_dead_def fmany_iff lookupToken_def split: option.splits if_splits)
next
  case (11 e at s te)
  then show ?case by (auto simp: mem_owns_def lookupToken_def split: option.splits if_splits)
next
  case (12 s k f f')
  then show ?case by (auto simp: mem_owns_def split: option.splits)
next
  case (13 x s k f)
  then show ?case using mem_owns_step [of H x s k f] by simp
next
  case (14 s k f e)
  then show ?case using mem_owns_used [of s k f] fresh_env_used [of s e] by (auto simp: rnds_def)
qed

end
