(* ===== verification/OAuth_Pg.thy ===== *)
theory OAuth_Pg
  imports OAuth_Types
begin

text \<open>
  The PostgreSQL store (\<open>pkg/oauth/postgres_store.go\<close>) over the tables of
  \<open>sql/auth/schema.sql\<close>.  A table is a finite map from its primary key to the remaining columns;
  each SQL statement is a function on the database, with the schema's CHECK, PRIMARY KEY and FOREIGN
  KEY constraints as the conditions under which it fails, and ON DELETE CASCADE written out.  A
  method is one transaction: \<open>pg_tx\<close> keeps the old database when a statement (or the connection,
  \<open>db_fault\<close>) fails.  \<open>now1\<close> is the transaction's \<open>now()\<close>, \<open>now2\<close> the \<open>clock_timestamp()\<close>
  read with the locked row.  Row locks serialise transactions on the same family, so transactions
  are atomic steps.  Hashes are 32 bytes (\<open>octet_length\<close> checks), as SHA-256 makes them.
\<close>

section \<open>Tables\<close>

record identity_row =
  i_provider :: string
  i_subject :: string
  i_email_normalized :: "string option"
  i_email_verified :: bool
  i_updated_at :: time

record client_row =
  c_secret_hash :: "byte list option"
  c_redirect_uris :: "string list"
  c_name :: string
  c_is_public :: bool
  c_is_static :: bool
  c_created_at :: time
  c_updated_at :: time
  c_last_activity_at :: time
  c_metadata_refreshed_at :: "time option"

record code_row =
  k_identity_id :: nat
  k_client_id :: string
  k_redirect_uri :: string
  k_code_challenge :: string
  k_challenge_method :: string
  k_scope :: "string list"
  k_expires_at :: time

record family_row =
  f_identity_id :: nat
  f_client_id :: string
  f_scope :: "string list"
  f_created_at :: time
  f_last_activity_at :: time
  f_expires_at :: time
  f_revoked_at :: "time option"

record access_row =
  a_family_id :: string
  a_created_at :: time
  a_expires_at :: time
  a_last_used_at :: "time option"

record refresh_row =
  r_family_id :: string
  r_created_at :: time
  r_expires_at :: time
  r_consumed_at :: "time option"

record pgdb =
  identities :: "(nat, identity_row) fmap"
  identity_ids :: "nat list"
  oauth_clients :: "(string, client_row) fmap"
  auth_codes :: "(byte list, code_row) fmap"
  families :: "(string, family_row) fmap"
  access_tokens :: "(byte list, access_row) fmap"
  refresh_tokens :: "(byte list, refresh_row) fmap"

text \<open>\<open>identity_ids\<close> lists the identity keys in the order they were generated.\<close>

definition empty_db :: pgdb where
  "empty_db = \<lparr>identities = fmempty, identity_ids = [], oauth_clients = fmempty, auth_codes = fmempty,
     families = fmempty, access_tokens = fmempty, refresh_tokens = fmempty\<rparr>"

section \<open>Constraints of the schema\<close>

definition blank :: "string \<Rightarrow> bool" where
  "blank s \<longleftrightarrow> list_all (\<lambda>c. c = CHR '' '') s"

definition identity_ok :: "identity_row \<Rightarrow> bool" where
  "identity_ok r \<longleftrightarrow> \<not> blank (i_provider r) \<and> \<not> blank (i_subject r)
     \<and> i_email_normalized r \<noteq> Some []
     \<and> (\<not> i_email_verified r \<or> i_email_normalized r \<noteq> None)"

definition client_ok :: "string \<Rightarrow> client_row \<Rightarrow> bool" where
  "client_ok k r \<longleftrightarrow> \<not> blank k \<and> c_redirect_uris r \<noteq> []
     \<and> (if c_is_public r then c_secret_hash r = None
        else case c_secret_hash r of None \<Rightarrow> False | Some h \<Rightarrow> h \<noteq> [])"

definition code_ok :: "pgdb \<Rightarrow> code_row \<Rightarrow> bool" where
  "code_ok db r \<longleftrightarrow> k_code_challenge r \<noteq> [] \<and> k_challenge_method r = ''S256''
     \<and> fmlookup (identities db) (k_identity_id r) \<noteq> None
     \<and> fmlookup (oauth_clients db) (k_client_id r) \<noteq> None"

definition family_ok :: "pgdb \<Rightarrow> string \<Rightarrow> family_row \<Rightarrow> bool" where
  "family_ok db k r \<longleftrightarrow> \<not> blank k
     \<and> fmlookup (identities db) (f_identity_id r) \<noteq> None
     \<and> fmlookup (oauth_clients db) (f_client_id r) \<noteq> None"

section \<open>Statements\<close>

definition ins_client :: "string \<Rightarrow> client_row \<Rightarrow> pgdb \<Rightarrow> pgdb option" where
  "ins_client k r db =
     (if client_ok k r \<and> fmlookup (oauth_clients db) k = None
      then Some (db\<lparr>oauth_clients := fmupd k r (oauth_clients db)\<rparr>) else None)"

definition ins_code :: "byte list \<Rightarrow> code_row \<Rightarrow> pgdb \<Rightarrow> pgdb option" where
  "ins_code k r db =
     (if code_ok db r \<and> fmlookup (auth_codes db) k = None
      then Some (db\<lparr>auth_codes := fmupd k r (auth_codes db)\<rparr>) else None)"

definition ins_family :: "string \<Rightarrow> family_row \<Rightarrow> pgdb \<Rightarrow> pgdb option" where
  "ins_family k r db =
     (if family_ok db k r \<and> fmlookup (families db) k = None
      then Some (db\<lparr>families := fmupd k r (families db)\<rparr>) else None)"

definition ins_access :: "byte list \<Rightarrow> access_row \<Rightarrow> pgdb \<Rightarrow> pgdb option" where
  "ins_access k r db =
     (if fmlookup (families db) (a_family_id r) \<noteq> None \<and> fmlookup (access_tokens db) k = None
      then Some (db\<lparr>access_tokens := fmupd k r (access_tokens db)\<rparr>) else None)"

text \<open>The unique index \<open>uq_auth_refresh_token_live_family\<close> allows one unconsumed row per family.\<close>

definition ins_refresh :: "byte list \<Rightarrow> refresh_row \<Rightarrow> pgdb \<Rightarrow> pgdb option" where
  "ins_refresh k r db =
     (if fmlookup (families db) (r_family_id r) \<noteq> None \<and> fmlookup (refresh_tokens db) k = None
         \<and> \<not> (r_consumed_at r = None
              \<and> fmany (\<lambda>_ v. r_family_id v = r_family_id r \<and> r_consumed_at v = None) (refresh_tokens db))
      then Some (db\<lparr>refresh_tokens := fmupd k r (refresh_tokens db)\<rparr>) else None)"

definition upd_client :: "string \<Rightarrow> (client_row \<Rightarrow> client_row) \<Rightarrow> pgdb \<Rightarrow> pgdb" where
  "upd_client k g db = db\<lparr>oauth_clients := fmmap_keys (\<lambda>x r. if x = k then g r else r) (oauth_clients db)\<rparr>"

definition touch_oauth_client :: "string \<Rightarrow> time \<Rightarrow> pgdb \<Rightarrow> pgdb" where
  "touch_oauth_client k t db = upd_client k (\<lambda>r. r\<lparr>c_last_activity_at := t, c_updated_at := t\<rparr>) db"

definition upd_family :: "string \<Rightarrow> (family_row \<Rightarrow> family_row) \<Rightarrow> pgdb \<Rightarrow> pgdb" where
  "upd_family k g db = db\<lparr>families := fmmap_keys (\<lambda>x r. if x = k then g r else r) (families db)\<rparr>"

definition upd_access :: "byte list \<Rightarrow> (access_row \<Rightarrow> access_row) \<Rightarrow> pgdb \<Rightarrow> pgdb" where
  "upd_access k g db = db\<lparr>access_tokens := fmmap_keys (\<lambda>x r. if x = k then g r else r) (access_tokens db)\<rparr>"

definition upd_refresh ::
  "(byte list \<Rightarrow> refresh_row \<Rightarrow> bool) \<Rightarrow> (refresh_row \<Rightarrow> refresh_row) \<Rightarrow> pgdb \<Rightarrow> pgdb" where
  "upd_refresh P g db = db\<lparr>refresh_tokens := fmmap_keys (\<lambda>x r. if P x r then g r else r) (refresh_tokens db)\<rparr>"

text \<open>Deleting families cascades to their access and refresh tokens.\<close>

definition fam_selected :: "(string \<Rightarrow> family_row \<Rightarrow> bool) \<Rightarrow> pgdb \<Rightarrow> string \<Rightarrow> bool" where
  "fam_selected P db f \<longleftrightarrow> (case fmlookup (families db) f of None \<Rightarrow> False | Some r \<Rightarrow> P f r)"

definition del_families :: "(string \<Rightarrow> family_row \<Rightarrow> bool) \<Rightarrow> pgdb \<Rightarrow> pgdb" where
  "del_families P db =
     db\<lparr>families := fmkeep (\<lambda>k r. \<not> P k r) (families db),
        access_tokens := fmkeep (\<lambda>_ a. \<not> fam_selected P db (a_family_id a)) (access_tokens db),
        refresh_tokens := fmkeep (\<lambda>_ r. \<not> fam_selected P db (r_family_id r)) (refresh_tokens db)\<rparr>"

text \<open>Deleting clients cascades to their codes and families.\<close>

definition del_clients :: "(string \<Rightarrow> client_row \<Rightarrow> bool) \<Rightarrow> pgdb \<Rightarrow> pgdb" where
  "del_clients P db =
     (let gone = (\<lambda>c. case fmlookup (oauth_clients db) c of None \<Rightarrow> False | Some r \<Rightarrow> P c r);
          db1 = del_families (\<lambda>_ r. gone (f_client_id r)) db
      in db1\<lparr>auth_codes := fmkeep (\<lambda>_ k. \<not> gone (k_client_id k)) (auth_codes db1),
             oauth_clients := fmkeep (\<lambda>c r. \<not> P c r) (oauth_clients db1)\<rparr>)"

section \<open>Helpers of the store\<close>

definition evictExpired :: "time \<Rightarrow> pgdb \<Rightarrow> pgdb" where
  "evictExpired now db =
     (let db1 = db\<lparr>auth_codes := fmkeep (\<lambda>_ r. \<not> k_expires_at r \<le> now) (auth_codes db)\<rparr>;
          db2 = db1\<lparr>access_tokens := fmkeep (\<lambda>_ r. \<not> a_expires_at r \<le> now) (access_tokens db1)\<rparr>;
          db3 = del_families (\<lambda>_ r. f_expires_at r \<le> now) db2
      in del_clients (\<lambda>k c. \<not> c_is_static c \<and> c_last_activity_at c < now - clientIdleTTL
             \<and> \<not> fmany (\<lambda>_ r. k_client_id r = k) (auth_codes db3)
             \<and> \<not> fmany (\<lambda>_ r. f_client_id r = k \<and> f_revoked_at r = None \<and> now < f_expires_at r) (families db3))
           db3)"

definition normalize_email :: "principal \<Rightarrow> string option" where
  "normalize_email p = (let n = to_lower (trim_space (Email p)) in if n = [] then None else Some n)"

definition find_identity :: "string \<Rightarrow> string \<Rightarrow> pgdb \<Rightarrow> nat option" where
  "find_identity provider subject db =
     List.find (\<lambda>i. case fmlookup (identities db) i of None \<Rightarrow> False
       | Some r \<Rightarrow> i_provider r = provider \<and> i_subject r = subject) (identity_ids db)"

definition upsertIdentity :: "time \<Rightarrow> principal \<Rightarrow> pgdb \<Rightarrow> (pgdb \<times> nat) option" where
  "upsertIdentity now p db =
     (let email = normalize_email p;
          new = \<lparr>i_provider = Provider p, i_subject = Subject p, i_email_normalized = email,
                 i_email_verified = (EmailVerified p \<and> email \<noteq> None), i_updated_at = now\<rparr>
      in if \<not> identity_ok new then None
         else case find_identity (Provider p) (Subject p) db of
           Some i \<Rightarrow>
             Some (db\<lparr>identities := fmmap_keys (\<lambda>x r. if x = i then
                 r\<lparr>i_email_normalized := (if email = None then i_email_normalized r else email),
                   i_email_verified := (if email = None then i_email_verified r else i_email_verified new),
                   i_updated_at := now\<rparr> else r) (identities db)\<rparr>, i)
         | None \<Rightarrow>
             let i = length (identity_ids db) in
             Some (db\<lparr>identities := fmupd i new (identities db), identity_ids := identity_ids db @ [i]\<rparr>, i))"

definition insertTokenPair ::
  "string \<Rightarrow> nat \<Rightarrow> string \<Rightarrow> string list \<Rightarrow> byte list \<Rightarrow> byte list \<Rightarrow> time \<Rightarrow> time \<Rightarrow> pgdb \<Rightarrow> pgdb option" where
  "insertTokenPair familyID identityID clientID scopes at_hash rt_hash createdAt expiresAt db =
     (case ins_family familyID \<lparr>f_identity_id = identityID, f_client_id = clientID, f_scope = scopes,
             f_created_at = createdAt, f_last_activity_at = createdAt, f_expires_at = expiresAt,
             f_revoked_at = None\<rparr> db of
        None \<Rightarrow> None
      | Some db1 \<Rightarrow>
        (case ins_access at_hash \<lparr>a_family_id = familyID, a_created_at = createdAt,
               a_expires_at = expiresAt, a_last_used_at = None\<rparr> db1 of
           None \<Rightarrow> None
         | Some db2 \<Rightarrow>
           (case ins_refresh rt_hash \<lparr>r_family_id = familyID, r_created_at = createdAt,
                  r_expires_at = expiresAt, r_consumed_at = None\<rparr> db2 of
              None \<Rightarrow> None
            | Some db3 \<Rightarrow> Some (touch_oauth_client clientID createdAt db3))))"

text \<open>A transaction: rolled back on any error.\<close>

definition pg_tx :: "env \<Rightarrow> pgdb \<Rightarrow> (pgdb \<times> 'a) option \<Rightarrow> pgdb \<times> (store_err + 'a)" where
  "pg_tx e db body =
     (if db_fault e then (db, Inl ErrStore)
      else case body of None \<Rightarrow> (db, Inl ErrStore) | Some (db', a) \<Rightarrow> (db', Inr a))"

section \<open>The methods\<close>

definition pg_registerClient ::
  "(string \<Rightarrow> byte list) \<Rightarrow> env \<Rightarrow> client_meta \<Rightarrow> pgdb \<Rightarrow> pgdb \<times> (store_err + reg_response)" where
  "pg_registerClient H e meta db =
     (let db1 = evictExpired (now1 e) db in
      if \<not> db_fault e \<and> maxClients \<le> fmsize (oauth_clients db1) then (db, Inl ErrClientCapReached)
      else
        let clientID = rnd1 e; clientSecret = rnd2 e in
        pg_tx e db (map_option (\<lambda>db2. (db2,
            \<lparr>rr_Meta = meta, rr_ClientID = clientID, rr_ClientSecret = clientSecret, rr_IssuedAt = now2 e\<rparr>))
          (ins_client clientID
             \<lparr>c_secret_hash = Some (H clientSecret), c_redirect_uris = RedirectURIs meta,
              c_name = ClientName meta, c_is_public = False, c_is_static = False,
              c_created_at = now1 e, c_updated_at = now1 e, c_last_activity_at = now1 e,
              c_metadata_refreshed_at = None\<rparr> db1)))"

definition pg_lookupClient :: "env \<Rightarrow> string \<Rightarrow> pgdb \<Rightarrow> store_err + client option" where
  "pg_lookupClient e clientID db =
     (if db_fault e then Inl ErrStore
      else Inr (map_option (\<lambda>r.
        \<lparr>cl_ID = clientID, cl_SecretHash = (case c_secret_hash r of None \<Rightarrow> [] | Some h \<Rightarrow> h),
         cl_RedirectURIs = c_redirect_uris r, cl_Name = c_name r, cl_Public = c_is_public r,
         cl_CreatedAt = c_created_at r, cl_LastActivity = c_last_activity_at r,
         cl_MetadataRefreshedAt = c_metadata_refreshed_at r, cl_Authorized = c_is_static r\<rparr>)
        (fmlookup (oauth_clients db) clientID)))"

definition pg_registerCIMDClient ::
  "env \<Rightarrow> string \<Rightarrow> client_meta \<Rightarrow> pgdb \<Rightarrow> pgdb \<times> (store_err + unit)" where
  "pg_registerCIMDClient e clientID meta db =
     (let db1 = evictExpired (now1 e) db; now = now1 e in
      case fmlookup (oauth_clients db1) clientID of
        None \<Rightarrow>
          if \<not> db_fault e \<and> maxClients \<le> fmsize (oauth_clients db1) then (db, Inl ErrClientCapReached)
          else pg_tx e db (map_option (\<lambda>db2. (db2, ()))
            (ins_client clientID
               \<lparr>c_secret_hash = None, c_redirect_uris = RedirectURIs meta, c_name = ClientName meta,
                c_is_public = True, c_is_static = False, c_created_at = now, c_updated_at = now,
                c_last_activity_at = now, c_metadata_refreshed_at = Some now\<rparr> db1))
      | Some _ \<Rightarrow>
          pg_tx e db
            (if RedirectURIs meta = [] then None
             else Some (upd_client clientID (\<lambda>r. r\<lparr>c_secret_hash := None,
                 c_redirect_uris := RedirectURIs meta, c_name := ClientName meta, c_is_public := True,
                 c_metadata_refreshed_at := Some now, c_updated_at := now, c_last_activity_at := now\<rparr>) db1, ())))"

definition pg_createCode ::
  "(string \<Rightarrow> byte list) \<Rightarrow> env \<Rightarrow> string \<Rightarrow> string \<Rightarrow> string \<Rightarrow> string \<Rightarrow> string \<Rightarrow> principal \<Rightarrow> pgdb
     \<Rightarrow> pgdb \<times> (store_err + string)" where
  "pg_createCode H e clientID redirectURI codeChallenge challengeMethod scope p db =
     pg_tx e db
       (case upsertIdentity (now1 e) p db of
          None \<Rightarrow> None
        | Some (db1, identityID) \<Rightarrow>
            let code = rnd1 e in
            map_option (\<lambda>db2. (touch_oauth_client clientID (now1 e) db2, code))
              (ins_code (H code)
                 \<lparr>k_identity_id = identityID, k_client_id = clientID, k_redirect_uri = redirectURI,
                  k_code_challenge = codeChallenge, k_challenge_method = challengeMethod,
                  k_scope = str_fields scope, k_expires_at = now1 e + authCodeTTL\<rparr> db1))"

definition pg_exchangeCode ::
  "(string \<Rightarrow> byte list) \<Rightarrow> env \<Rightarrow> string \<Rightarrow> string \<Rightarrow> string \<Rightarrow> string \<Rightarrow> pgdb
     \<Rightarrow> pgdb \<times> (store_err + token_grant option)" where
  "pg_exchangeCode H e code clientID redirectURI codeVerifier db =
     pg_tx e db
       (case fmlookup (auth_codes db) (H code) of
          None \<Rightarrow> Some (db, None)
        | Some r \<Rightarrow>
            let db1 = db\<lparr>auth_codes := fmdrop (H code) (auth_codes db)\<rparr>; dbNow = now2 e in
            if \<not> (dbNow < k_expires_at r \<and> k_client_id r = clientID \<and> k_redirect_uri r = redirectURI
                  \<and> verifyPKCE H codeVerifier (k_code_challenge r))
            then Some (db1, None)
            else
              let familyID = rnd1 e; at = rnd2 e; rt = rnd3 e in
              map_option (\<lambda>db2. (db2, Some \<lparr>tg_scope = join '' '' (k_scope r), tg_access = at,
                  tg_refresh = rt, tg_expires_in = seconds_of accessTokenTTL\<rparr>))
                (insertTokenPair familyID (k_identity_id r) clientID (k_scope r) (H at) (H rt)
                   dbNow (dbNow + tokenIdleTTL) db1))"

text \<open>The identity columns as a principal.\<close>

definition row_principal :: "identity_row \<Rightarrow> principal" where
  "row_principal i = \<lparr>Provider = i_provider i, Subject = i_subject i,
     Email = (case i_email_normalized i of None \<Rightarrow> [] | Some m \<Rightarrow> m), EmailVerified = i_email_verified i\<rparr>"

text \<open>The join of a family with its identity, \<open>FOR UPDATE OF f\<close>.\<close>

definition family_join :: "string \<Rightarrow> pgdb \<Rightarrow> (family_row \<times> identity_row) option" where
  "family_join f db =
     (case fmlookup (families db) f of
        None \<Rightarrow> None
      | Some fr \<Rightarrow> map_option (\<lambda>i. (fr, i)) (fmlookup (identities db) (f_identity_id fr)))"

definition entry_of :: "string \<Rightarrow> string \<Rightarrow> time \<Rightarrow> family_row \<Rightarrow> identity_row \<Rightarrow> token_entry" where
  "entry_of accessToken f expires fr i =
     \<lparr>te_Token = accessToken, te_ClientID = f_client_id fr, te_Scope = join '' '' (f_scope fr),
      te_ExpiresAt = expires, te_FamilyID = f, te_Principal = row_principal i\<rparr>"

definition pg_lookupToken ::
  "(string \<Rightarrow> byte list) \<Rightarrow> env \<Rightarrow> string \<Rightarrow> pgdb \<Rightarrow> store_err + token_entry option" where
  "pg_lookupToken H e accessToken db =
     (if db_fault e then Inl ErrStore
      else Inr
        (case fmlookup (access_tokens db) (H accessToken) of
           None \<Rightarrow> None
         | Some a \<Rightarrow>
             case family_join (a_family_id a) db of
               None \<Rightarrow> None
             | Some (fr, i) \<Rightarrow>
                 if now1 e < a_expires_at a \<and> now1 e < f_expires_at fr \<and> f_revoked_at fr = None
                 then Some (entry_of accessToken (a_family_id a) (a_expires_at a) fr i)
                 else None))"

definition pg_renewToken ::
  "(string \<Rightarrow> byte list) \<Rightarrow> env \<Rightarrow> string \<Rightarrow> pgdb \<Rightarrow> pgdb \<times> (store_err + token_entry option)" where
  "pg_renewToken H e accessToken db =
     pg_tx e db
       (case fmlookup (access_tokens db) (H accessToken) of
          None \<Rightarrow> Some (db, None)
        | Some a \<Rightarrow>
            let f = a_family_id a; dbNow = now2 e in
            case family_join f db of
              None \<Rightarrow> Some (db, None)
            | Some (fr, i) \<Rightarrow>
                if f_revoked_at fr \<noteq> None \<or> \<not> dbNow < f_expires_at fr then Some (db, None)
                else if \<not> dbNow < a_expires_at a then Some (db, None)
                else
                  let newExpiry = dbNow + tokenIdleTTL;
                      db1 = upd_access (H accessToken)
                              (\<lambda>r. r\<lparr>a_expires_at := newExpiry, a_last_used_at := Some dbNow\<rparr>) db;
                      db2 = upd_family f (\<lambda>r. r\<lparr>f_expires_at := newExpiry, f_last_activity_at := dbNow\<rparr>) db1;
                      db3 = upd_refresh (\<lambda>_ r. r_family_id r = f \<and> r_consumed_at r = None \<and> dbNow < r_expires_at r)
                              (\<lambda>r. r\<lparr>r_expires_at := newExpiry\<rparr>) db2
                  in Some (touch_oauth_client (f_client_id fr) dbNow db3,
                           Some (entry_of accessToken f newExpiry fr i)))"

definition pg_rotateRefresh ::
  "(string \<Rightarrow> byte list) \<Rightarrow> env \<Rightarrow> string \<Rightarrow> string \<Rightarrow> authorizer option \<Rightarrow> pgdb
     \<Rightarrow> pgdb \<times> (store_err + token_grant option)" where
  "pg_rotateRefresh H e refreshToken clientID authorizer db =
     pg_tx e db
       (case fmlookup (refresh_tokens db) (H refreshToken) of
          None \<Rightarrow> Some (db, None)
        | Some r \<Rightarrow>
            let f = r_family_id r; dbNow = now2 e in
            case family_join f db of
              None \<Rightarrow> Some (db, None)
            | Some (fr, i) \<Rightarrow>
                if f_client_id fr \<noteq> clientID then Some (db, None)
                else if r_consumed_at r \<noteq> None
                then Some (upd_family f (\<lambda>x. x\<lparr>
                       f_revoked_at := (if f_revoked_at x = None then Some dbNow else f_revoked_at x),
                       f_last_activity_at := dbNow\<rparr>) db, None)
                else if f_revoked_at fr \<noteq> None \<or> \<not> dbNow < r_expires_at r \<or> \<not> dbNow < f_expires_at fr
                then Some (db, None)
                else if (case authorizer of None \<Rightarrow> False | Some auth \<Rightarrow> \<not> auth (row_principal i))
                then Some (db, None)
                else
                  let at = rnd1 e; rt = rnd2 e; newExpiry = dbNow + tokenIdleTTL;
                      db1 = upd_refresh (\<lambda>k _. k = H refreshToken) (\<lambda>x. x\<lparr>r_consumed_at := Some dbNow\<rparr>) db
                  in case ins_access (H at) \<lparr>a_family_id = f, a_created_at = dbNow,
                            a_expires_at = newExpiry, a_last_used_at = None\<rparr> db1 of
                       None \<Rightarrow> None
                     | Some db2 \<Rightarrow>
                       (case ins_refresh (H rt) \<lparr>r_family_id = f, r_created_at = dbNow,
                              r_expires_at = newExpiry, r_consumed_at = None\<rparr> db2 of
                          None \<Rightarrow> None
                        | Some db3 \<Rightarrow>
                            Some (touch_oauth_client clientID dbNow
                                    (upd_family f (\<lambda>x. x\<lparr>f_expires_at := newExpiry,
                                       f_last_activity_at := dbNow\<rparr>) db3),
                                  Some \<lparr>tg_scope = join '' '' (f_scope fr), tg_access = at,
                                        tg_refresh = rt, tg_expires_in = seconds_of accessTokenTTL\<rparr>)))"

definition pg_evict :: "env \<Rightarrow> pgdb \<Rightarrow> pgdb \<times> (store_err + unit)" where
  "pg_evict e db = pg_tx e db (Some (evictExpired (now1 e) db, ()))"

definition postgres_store :: "(string \<Rightarrow> byte list) \<Rightarrow> pgdb oauth_store" where
  "postgres_store H =
     \<lparr>os_registerClient = pg_registerClient H,
      os_lookupClient = pg_lookupClient,
      os_registerCIMDClient = pg_registerCIMDClient,
      os_createCode = pg_createCode H,
      os_exchangeCode = pg_exchangeCode H,
      os_lookupToken = (\<lambda>e t db. (db, pg_lookupToken H e t db)),
      os_renewToken = pg_renewToken H,
      os_rotateRefresh = pg_rotateRefresh H,
      os_evict = pg_evict\<rparr>"

end
