(* ===== verification/OAuth_Pg_Props.thy ===== *)
theory OAuth_Pg_Props
  imports OAuth_Pg OAuth_Contract
begin

text \<open>
  The PostgreSQL store meets the same contract as the in-memory one, under the hash of the secrets
  instead of the secrets.
\<close>

section \<open>Frames\<close>

lemma pg_tx_fst:
  "fst (pg_tx e db body) = (if db_fault e then db else case body of None \<Rightarrow> db | Some (d, _) \<Rightarrow> d)"
  by (simp add: pg_tx_def split: option.splits)

lemma pg_tx_snd:
  "snd (pg_tx e db body) = Inr a \<longleftrightarrow> \<not> db_fault e \<and> (\<exists>d. body = Some (d, a))"
  by (auto simp: pg_tx_def split: option.splits)

lemma touch_frame [simp]:
  "identities (touch_oauth_client c t db) = identities db"
  "auth_codes (touch_oauth_client c t db) = auth_codes db"
  "families (touch_oauth_client c t db) = families db"
  "access_tokens (touch_oauth_client c t db) = access_tokens db"
  "refresh_tokens (touch_oauth_client c t db) = refresh_tokens db"
  by (simp_all add: touch_oauth_client_def upd_client_def)

lemma upd_client_frame [simp]:
  "identities (upd_client c h db) = identities db"
  "auth_codes (upd_client c h db) = auth_codes db"
  "families (upd_client c h db) = families db"
  "access_tokens (upd_client c h db) = access_tokens db"
  "refresh_tokens (upd_client c h db) = refresh_tokens db"
  by (simp_all add: upd_client_def)

lemma family_join_touch [simp]:
  "family_join f (touch_oauth_client c t db) = family_join f db"
  by (simp add: family_join_def split: option.splits)

text \<open>Deletion only removes rows, and keeps the tokens of the families it keeps.\<close>

definition submap :: "('k, 'v) fmap \<Rightarrow> ('k, 'v) fmap \<Rightarrow> bool" where
  "submap m n \<longleftrightarrow> (\<forall>k v. fmlookup m k = Some v \<longrightarrow> fmlookup n k = Some v)"

lemma submap_refl [simp]: "submap m m" and submap_keep [simp]: "submap (fmkeep P m) m"
  by (auto simp: submap_def split: option.splits if_splits)

lemma submap_trans: "submap a b \<Longrightarrow> submap b c \<Longrightarrow> submap a c"
  by (simp add: submap_def)

lemma submapD: "submap m n \<Longrightarrow> fmlookup m k = Some v \<Longrightarrow> fmlookup n k = Some v"
  by (simp add: submap_def)

lemma submapD_None: "submap m n \<Longrightarrow> fmlookup n k = None \<Longrightarrow> fmlookup m k = None"
  by (cases "fmlookup m k") (auto simp: submap_def)

definition tokens_follow :: "pgdb \<Rightarrow> pgdb \<Rightarrow> bool" where
  "tokens_follow db' db \<longleftrightarrow>
     (\<forall>k v. fmlookup (refresh_tokens db) k = Some v \<longrightarrow> fmlookup (families db') (r_family_id v) \<noteq> None
        \<longrightarrow> fmlookup (refresh_tokens db') k = Some v)"

definition shrinks :: "pgdb \<Rightarrow> pgdb \<Rightarrow> bool" where
  "shrinks db' db \<longleftrightarrow> identities db' = identities db
     \<and> submap (auth_codes db') (auth_codes db) \<and> submap (families db') (families db)
     \<and> submap (access_tokens db') (access_tokens db) \<and> submap (refresh_tokens db') (refresh_tokens db)
     \<and> tokens_follow db' db"

lemma shrinks_refl [simp]: "shrinks db db"
  by (simp add: shrinks_def tokens_follow_def)

lemma shrinks_cong:
  "shrinks d db \<Longrightarrow> identities d' = identities d \<Longrightarrow> auth_codes d' = auth_codes d
     \<Longrightarrow> families d' = families d \<Longrightarrow> access_tokens d' = access_tokens d
     \<Longrightarrow> refresh_tokens d' = refresh_tokens d \<Longrightarrow> shrinks d' db"
  by (simp add: shrinks_def tokens_follow_def)

lemma shrinks_clients [simp]: "shrinks (d\<lparr>oauth_clients := m\<rparr>) db = shrinks d db"
  by (simp add: shrinks_def tokens_follow_def)

lemma shrinks_touch [simp]:
  "shrinks (touch_oauth_client c t d) db = shrinks d db"
  "shrinks (upd_client c h d) db = shrinks d db"
  by (simp_all add: touch_oauth_client_def upd_client_def)

lemma shrinks_trans:
  assumes cb: "shrinks c b" and ba: "shrinks b a"
  shows "shrinks c a"
proof -
  have "tokens_follow c a"
    unfolding tokens_follow_def
  proof (intro allI impI)
    fix k v assume a: "fmlookup (refresh_tokens a) k = Some v" "fmlookup (families c) (r_family_id v) \<noteq> None"
    then obtain y where y: "fmlookup (families c) (r_family_id v) = Some y" by blast
    have "submap (families c) (families b)" using cb by (simp add: shrinks_def)
    from submapD [OF this y] have "fmlookup (families b) (r_family_id v) \<noteq> None" by simp
    with a ba have "fmlookup (refresh_tokens b) k = Some v" by (simp add: shrinks_def tokens_follow_def)
    with a(2) cb show "fmlookup (refresh_tokens c) k = Some v" by (simp add: shrinks_def tokens_follow_def)
  qed
  with assms show ?thesis by (auto simp: shrinks_def intro: submap_trans)
qed

lemma shrinks_del_families: "shrinks (del_families P db) db"
  by (auto simp: shrinks_def del_families_def tokens_follow_def fam_selected_def split: option.splits if_splits)

lemma shrinks_del_clients: "shrinks (del_clients P db) db"
proof -
  let ?gone = "\<lambda>c. case fmlookup (oauth_clients db) c of None \<Rightarrow> False | Some r \<Rightarrow> P c r"
  let ?d = "del_families (\<lambda>_ r. ?gone (f_client_id r)) db"
  have "shrinks (del_clients P db) ?d"
    by (simp add: del_clients_def Let_def shrinks_def tokens_follow_def)
  then show ?thesis by (rule shrinks_trans) (rule shrinks_del_families)
qed

lemma shrinks_evict: "shrinks (evictExpired now db) db"
proof -
  let ?d2 = "db\<lparr>auth_codes := fmkeep (\<lambda>_ r. \<not> k_expires_at r \<le> now) (auth_codes db),
    access_tokens := fmkeep (\<lambda>_ r. \<not> a_expires_at r \<le> now) (access_tokens db)\<rparr>"
  have "shrinks ?d2 db" by (simp add: shrinks_def tokens_follow_def)
  moreover have "shrinks (del_families (\<lambda>_ r. f_expires_at r \<le> now) ?d2) ?d2"
    by (rule shrinks_del_families)
  ultimately show ?thesis unfolding evictExpired_def Let_def
    by simp (meson shrinks_del_clients shrinks_trans)
qed

section \<open>Views\<close>

definition pg_live :: "pgdb \<Rightarrow> byte list \<Rightarrow> bool" where
  "pg_live db k \<longleftrightarrow> (case fmlookup (refresh_tokens db) k of None \<Rightarrow> False | Some r \<Rightarrow> r_consumed_at r = None)"

definition pg_owns :: "pgdb \<Rightarrow> byte list \<Rightarrow> string \<Rightarrow> bool" where
  "pg_owns db k f \<longleftrightarrow> (case fmlookup (access_tokens db) k of None \<Rightarrow> False | Some a \<Rightarrow> a_family_id a = f)"

definition pg_dead :: "pgdb \<Rightarrow> string \<Rightarrow> bool" where
  "pg_dead db f \<longleftrightarrow> (case fmlookup (families db) f of None \<Rightarrow> True | Some r \<Rightarrow> f_revoked_at r \<noteq> None)"

definition pg_spent :: "(string \<Rightarrow> byte list) \<Rightarrow> pgdb \<Rightarrow> string \<Rightarrow> string \<Rightarrow> string \<Rightarrow> bool" where
  "pg_spent H db rt c f \<longleftrightarrow>
     (case fmlookup (refresh_tokens db) (H rt) of None \<Rightarrow> False
      | Some r \<Rightarrow> r_consumed_at r \<noteq> None \<and> r_family_id r = f)
     \<and> (case family_join f db of None \<Rightarrow> False | Some (fr, i) \<Rightarrow> f_client_id fr = c)"

definition pg_fresh :: "(string \<Rightarrow> byte list) \<Rightarrow> pgdb \<Rightarrow> env \<Rightarrow> bool" where
  "pg_fresh H db e \<longleftrightarrow>
     fmlookup (families db) (rnd1 e) = None
     \<and> \<not> fmany (\<lambda>_ a. a_family_id a = rnd1 e) (access_tokens db)
     \<and> (\<forall>x \<in> rnds e. fmlookup (access_tokens db) (H x) = None \<and> fmlookup (refresh_tokens db) (H x) = None)"

definition postgres_code :: "pgdb \<Rightarrow> byte list \<Rightarrow> bool" where
  "postgres_code db k \<longleftrightarrow> fmlookup (auth_codes db) k \<noteq> None"

lemma postgres_store_sel [simp]:
  "os_registerClient (postgres_store H) = pg_registerClient H"
  "os_lookupClient (postgres_store H) = pg_lookupClient"
  "os_registerCIMDClient (postgres_store H) = pg_registerCIMDClient"
  "os_createCode (postgres_store H) = pg_createCode H"
  "os_exchangeCode (postgres_store H) = pg_exchangeCode H"
  "os_lookupToken (postgres_store H) e t db = (db, pg_lookupToken H e t db)"
  "os_renewToken (postgres_store H) = pg_renewToken H"
  "os_rotateRefresh (postgres_store H) = pg_rotateRefresh H"
  "os_evict (postgres_store H) = pg_evict"
  by (simp_all add: postgres_store_def)

section \<open>What a call can change\<close>

text \<open>The new state of every method, by cases; each is a shrunken database or an edit of a few rows.\<close>

lemmas pg_rows = ins_client_def ins_code_def ins_family_def ins_access_def ins_refresh_def
  upd_family_def upd_access_def upd_refresh_def insertTokenPair_def

lemma upsert_frame:
  assumes "upsertIdentity now p db = Some (db1, i)"
  shows "auth_codes db1 = auth_codes db" "families db1 = families db"
    "access_tokens db1 = access_tokens db" "refresh_tokens db1 = refresh_tokens db"
    "oauth_clients db1 = oauth_clients db"
    "fmlookup (identities db) j \<noteq> None \<Longrightarrow> fmlookup (identities db1) j \<noteq> None"
  using assms by (auto simp: upsertIdentity_def Let_def split: if_splits option.splits)

lemma admin_shrinks:
  assumes "x = RegisterClient e m \<or> x = RegisterCIMD e c m \<or> x = Evict e"
  shows "shrinks (fst (store_step (postgres_store H) x db)) db"
proof -
  have e: "shrinks (evictExpired (now1 e) db) db" by (rule shrinks_evict)
  show ?thesis
    using assms e
    by (auto simp: pg_registerClient_def pg_registerCIMDClient_def pg_evict_def Let_def pg_tx_fst
        ins_client_def split: option.splits)
qed


lemma step_cases [case_names admin create exchange renew rotate]:
  assumes "shrinks (fst (store_step (postgres_store H) x db)) db \<Longrightarrow> thesis"
    and "\<And>e c r ch m sc p. x = CreateCode e c r ch m sc p \<Longrightarrow> thesis"
    and "\<And>e k c r v. x = ExchangeCode e k c r v \<Longrightarrow> thesis"
    and "\<And>e at. x = RenewToken e at \<Longrightarrow> thesis"
    and "\<And>e rt c a. x = RotateRefresh e rt c a \<Longrightarrow> thesis"
  shows thesis
proof (cases x)
  case (RegisterClient e m)
  show ?thesis by (rule assms(1), rule admin_shrinks, rule disjI1, rule RegisterClient)
next
  case (RegisterCIMD e c m)
  show ?thesis by (rule assms(1), rule admin_shrinks, rule disjI2, rule disjI1, rule RegisterCIMD)
next
  case (LookupToken e t)
  then show ?thesis using assms(1) by simp
next
  case (Evict e)
  show ?thesis by (rule assms(1), rule admin_shrinks, rule disjI2, rule disjI2, rule Evict)
qed (fact assms(2-5))+

lemma pg_code_stays:
  assumes "\<not> postgres_code s q" and "\<And>k. new_code x = Some k \<Longrightarrow> H k \<noteq> q"
  shows "\<not> postgres_code (fst (store_step (postgres_store H) x s)) q"
proof (cases rule: step_cases [of H x s])
  case admin
  then show ?thesis using assms submapD_None by (auto simp: postgres_code_def shrinks_def)
next
  case (create e c r ch m sc p)
  then show ?thesis using assms
    by (auto simp: pg_createCode_def pg_tx_fst postgres_code_def ins_code_def Let_def upsert_frame
        split: option.splits if_splits)
next
  case (exchange e k c r v)
  then show ?thesis using assms
    by (auto simp: pg_exchangeCode_def pg_tx_fst postgres_code_def pg_rows Let_def
        split: option.splits if_splits)
next
  case (renew e at)
  then show ?thesis using assms
    by (auto simp: pg_renewToken_def pg_tx_fst postgres_code_def pg_rows Let_def
        split: option.splits if_splits)
next
  case (rotate e rt c a)
  then show ?thesis using assms
    by (auto simp: pg_rotateRefresh_def pg_tx_fst postgres_code_def pg_rows Let_def
        split: option.splits if_splits)
qed

interpretation pg_codes: code_contract "postgres_store H" H postgres_code for H
proof (unfold_locales, goal_cases)
  case (1 e k c r v s g)
  then show ?case
    by (auto simp: pg_exchangeCode_def pg_tx_snd postgres_code_def split: option.splits)
next
  case (2 e k c r v s res)
  then show ?case
    by (auto simp: pg_exchangeCode_def pg_tx_snd pg_tx_fst postgres_code_def pg_rows Let_def
        split: option.splits if_splits)
next
  case (3 s q x)
  then show ?case by (rule pg_code_stays)
qed


section \<open>Token families\<close>

lemma pg_live_step:
  assumes "pg_live (fst (store_step (postgres_store H) x s)) q"
  shows "pg_live s q \<or> q \<in> H ` rnds (op_env x)"
proof (cases rule: step_cases [of H x s])
  case admin
  then show ?thesis using assms submapD
    by (fastforce simp: pg_live_def shrinks_def split: option.splits)
next
  case (create e c r ch m sc p)
  then show ?thesis using assms
    by (auto simp: pg_createCode_def pg_tx_fst pg_live_def ins_code_def Let_def upsert_frame
        split: option.splits if_splits)
next
  case (exchange e k c r v)
  then show ?thesis using assms
    by (auto simp: pg_exchangeCode_def pg_tx_fst pg_live_def pg_rows Let_def rnds_def
        split: option.splits if_splits)
next
  case (renew e at)
  then show ?thesis using assms
    by (auto simp: pg_renewToken_def pg_tx_fst pg_live_def pg_rows Let_def
        split: option.splits if_splits)
next
  case (rotate e rt c a)
  then show ?thesis using assms
    by (auto simp: pg_rotateRefresh_def pg_tx_fst pg_live_def pg_rows Let_def rnds_def
        split: option.splits if_splits)
qed

lemma pg_owns_step:
  assumes "pg_owns (fst (store_step (postgres_store H) x s)) q f"
  shows "pg_owns s q f \<or> q \<in> H ` rnds (op_env x)"
proof (cases rule: step_cases [of H x s])
  case admin
  then show ?thesis using assms submapD
    by (fastforce simp: pg_owns_def shrinks_def split: option.splits)
next
  case (create e c r ch m sc p)
  then show ?thesis using assms
    by (auto simp: pg_createCode_def pg_tx_fst pg_owns_def ins_code_def Let_def upsert_frame
        split: option.splits if_splits)
next
  case (exchange e k c r v)
  then show ?thesis using assms
    by (auto simp: pg_exchangeCode_def pg_tx_fst pg_owns_def pg_rows Let_def rnds_def
        split: option.splits if_splits)
next
  case (renew e at)
  then show ?thesis using assms
    by (auto simp: pg_renewToken_def pg_tx_fst pg_owns_def pg_rows Let_def
        split: option.splits if_splits)
next
  case (rotate e rt c a)
  then show ?thesis using assms
    by (auto simp: pg_rotateRefresh_def pg_tx_fst pg_owns_def pg_rows Let_def rnds_def
        split: option.splits if_splits)
qed

text \<open>Only \<open>ins_family\<close> can bring a dead family back, and only under a new identifier.\<close>

lemma pg_dead_frame [simp]:
  "pg_dead (touch_oauth_client c t db) f = pg_dead db f"
  "pg_dead (upd_access k h db) f = pg_dead db f"
  "pg_dead (upd_refresh Q g db) f = pg_dead db f"
  "pg_dead (db\<lparr>auth_codes := m\<rparr>) f = pg_dead db f"
  by (simp_all add: pg_dead_def upd_access_def upd_refresh_def)

lemma pg_dead_upd_family:
  "(\<And>r. f_revoked_at r \<noteq> None \<Longrightarrow> f_revoked_at (g r) \<noteq> None) \<Longrightarrow> pg_dead db f \<Longrightarrow>
     pg_dead (upd_family k g db) f"
  by (auto simp: pg_dead_def upd_family_def split: option.splits)

lemma pg_dead_ins:
  "ins_code k c db = Some db1 \<Longrightarrow> pg_dead db1 f = pg_dead db f"
  "ins_access k a db = Some db1 \<Longrightarrow> pg_dead db1 f = pg_dead db f"
  "ins_refresh k r db = Some db1 \<Longrightarrow> pg_dead db1 f = pg_dead db f"
  "ins_family k' fr db = Some db1 \<Longrightarrow> f \<noteq> k' \<Longrightarrow> pg_dead db1 f = pg_dead db f"
  by (auto simp: pg_dead_def ins_code_def ins_access_def ins_refresh_def ins_family_def split: if_splits)

lemma pg_dead_pair:
  "insertTokenPair k i c sc ah rh t1 t2 db = Some db1 \<Longrightarrow> f \<noteq> k \<Longrightarrow> pg_dead db1 f = pg_dead db f"
  by (auto simp: insertTokenPair_def pg_dead_ins split: option.splits)

lemma pg_dead_stays:
  assumes "pg_dead s f" and "rnd1 (op_env x) \<noteq> f"
  shows "pg_dead (fst (store_step (postgres_store H) x s)) f"
proof (cases rule: step_cases [of H x s])
  case admin
  then show ?thesis using assms submapD
    by (fastforce simp: pg_dead_def shrinks_def split: option.splits)
next
  case (create e c r ch m sc p)
  then show ?thesis using assms
    by (auto simp: pg_createCode_def pg_tx_fst pg_dead_def ins_code_def Let_def upsert_frame
        split: option.splits if_splits)
next
  case (exchange e k c r v)
  then show ?thesis using assms
    by (auto simp: pg_exchangeCode_def pg_tx_fst Let_def dest: pg_dead_pair [where f = f]
        split: option.split)
next
  case (renew e at)
  then show ?thesis using assms
    by (auto simp: pg_renewToken_def pg_tx_fst Let_def intro!: pg_dead_upd_family split: option.split)
next
  case (rotate e rt c a)
  then show ?thesis using assms
    by (auto simp: pg_rotateRefresh_def pg_tx_fst Let_def pg_dead_ins
        intro!: pg_dead_upd_family split: option.split)
qed

text \<open>The two halves of \<open>pg_spent\<close>, each with its frame.\<close>

definition row_spent :: "pgdb \<Rightarrow> byte list \<Rightarrow> string \<Rightarrow> bool" where
  "row_spent db q f \<longleftrightarrow> (case fmlookup (refresh_tokens db) q of None \<Rightarrow> False
      | Some r \<Rightarrow> r_consumed_at r \<noteq> None \<and> r_family_id r = f)"

definition fam_client :: "pgdb \<Rightarrow> string \<Rightarrow> string \<Rightarrow> bool" where
  "fam_client db f c \<longleftrightarrow>
     (\<exists>fr. fmlookup (families db) f = Some fr \<and> f_client_id fr = c
        \<and> fmlookup (identities db) (f_identity_id fr) \<noteq> None)"

lemma pg_spent_iff: "pg_spent H db rt c f \<longleftrightarrow> row_spent db (H rt) f \<and> fam_client db f c"
  by (auto simp: pg_spent_def row_spent_def fam_client_def family_join_def split: option.splits)

lemma fam_client_frame [simp]:
  "fam_client (touch_oauth_client k t db) f c = fam_client db f c"
  "fam_client (upd_access q h db) f c = fam_client db f c"
  "fam_client (upd_refresh Q g db) f c = fam_client db f c"
  "fam_client (db\<lparr>auth_codes := m\<rparr>) f c = fam_client db f c"
  by (simp_all add: fam_client_def upd_access_def upd_refresh_def)

lemma row_spent_frame [simp]:
  "row_spent (touch_oauth_client k t db) q f = row_spent db q f"
  "row_spent (upd_access q' h db) q f = row_spent db q f"
  "row_spent (upd_family k h' db) q f = row_spent db q f"
  "row_spent (db\<lparr>auth_codes := m\<rparr>) q f = row_spent db q f"
  by (simp_all add: row_spent_def upd_access_def upd_family_def)

lemma fam_client_upd_family:
  "(\<And>r. f_client_id (g r) = f_client_id r \<and> f_identity_id (g r) = f_identity_id r) \<Longrightarrow>
     fam_client (upd_family k g db) f c = fam_client db f c"
  by (cases "fmlookup (families db) f") (auto simp: fam_client_def upd_family_def)

lemma row_spent_upd_refresh:
  "(\<And>x r. Q x r \<Longrightarrow> r_family_id (g r) = r_family_id r
      \<and> (r_consumed_at r \<noteq> None \<longrightarrow> r_consumed_at (g r) \<noteq> None)) \<Longrightarrow> row_spent db q f \<Longrightarrow>
     row_spent (upd_refresh Q g db) q f"
  by (auto simp: row_spent_def upd_refresh_def split: option.splits)

lemma fam_client_ins:
  "ins_code k cr db = Some db1 \<Longrightarrow> fam_client db1 f c = fam_client db f c"
  "ins_access k a db = Some db1 \<Longrightarrow> fam_client db1 f c = fam_client db f c"
  "ins_refresh k r db = Some db1 \<Longrightarrow> fam_client db1 f c = fam_client db f c"
  "ins_family k' fr db = Some db1 \<Longrightarrow> fam_client db f c \<Longrightarrow> fam_client db1 f c"
  by (auto simp: fam_client_def ins_code_def ins_access_def ins_refresh_def ins_family_def split: if_splits)

lemma row_spent_ins:
  "ins_code k cr db = Some db1 \<Longrightarrow> row_spent db1 q f = row_spent db q f"
  "ins_access k a db = Some db1 \<Longrightarrow> row_spent db1 q f = row_spent db q f"
  "ins_refresh k r db = Some db1 \<Longrightarrow> row_spent db q f \<Longrightarrow> row_spent db1 q f"
  "ins_family k' fr db = Some db1 \<Longrightarrow> row_spent db1 q f = row_spent db q f"
  by (auto simp: row_spent_def ins_code_def ins_access_def ins_refresh_def ins_family_def
      split: if_splits option.splits)

lemma row_spent_pair:
  "ins_refresh k r d2 = Some d3 \<Longrightarrow> ins_access k' a d = Some d2 \<Longrightarrow> row_spent d q f \<Longrightarrow> row_spent d3 q f"
  by (simp add: row_spent_ins)

lemma pg_spent_pair:
  "insertTokenPair k i cl sc ah rh t1 t2 db = Some db1 \<Longrightarrow> pg_spent H db rt c f \<Longrightarrow> pg_spent H db1 rt c f"
  by (auto simp: insertTokenPair_def pg_spent_iff row_spent_ins fam_client_ins split: option.splits)

lemma pg_spent_upsert:
  assumes "upsertIdentity now p db = Some (db1, i)" and "pg_spent H db rt c f"
  shows "pg_spent H db1 rt c f"
  using assms upsert_frame [OF assms(1)] by (auto simp: pg_spent_iff row_spent_def fam_client_def)

lemma pg_spent_shrinks:
  assumes "shrinks db' db" and "pg_spent H db rt c f"
  shows "pg_spent H db' rt c f \<or> pg_dead db' f"
proof (cases "fmlookup (families db') f")
  case None
  then show ?thesis by (simp add: pg_dead_def)
next
  case (Some fr)
  then have fr: "fmlookup (families db) f = Some fr"
    using assms(1) submapD [of "families db'" "families db"] by (simp add: shrinks_def)
  obtain r where r: "fmlookup (refresh_tokens db) (H rt) = Some r" "r_consumed_at r \<noteq> None" "r_family_id r = f"
    using assms(2) by (auto simp: pg_spent_iff row_spent_def split: option.splits)
  then have "fmlookup (refresh_tokens db') (H rt) = Some r"
    using assms(1) Some by (simp add: shrinks_def tokens_follow_def)
  with assms r fr Some show ?thesis by (auto simp: pg_spent_iff row_spent_def fam_client_def shrinks_def)
qed

lemma pg_spent_stays:
  assumes sp: "pg_spent H s rt c f"
  shows "pg_spent H (fst (store_step (postgres_store H) x s)) rt c f
    \<or> pg_dead (fst (store_step (postgres_store H) x s)) f"
proof (cases rule: step_cases [of H x s])
  case admin
  then show ?thesis using sp by (rule pg_spent_shrinks)
next
  case (create e cl r ch m sc p)
  have "pg_spent H (fst (pg_createCode H e cl r ch m sc p s)) rt c f"
  proof (cases "upsertIdentity (now1 e) p s")
    case None
    then show ?thesis using sp by (simp add: pg_createCode_def pg_tx_fst)
  next
    case (Some y)
    obtain db1 i where y: "y = (db1, i)" by (cases y)
    have "pg_spent H db1 rt c f" using pg_spent_upsert Some y sp by blast
    then show ?thesis using sp unfolding pg_createCode_def pg_tx_fst Some y
      by (auto simp: Let_def pg_spent_iff row_spent_ins fam_client_ins split: option.split)
  qed
  then show ?thesis using create by simp
next
  case (exchange e k cl r v)
  have "pg_spent H (s\<lparr>auth_codes := m\<rparr>) rt c f" for m using sp by (simp add: pg_spent_iff)
  then have "pg_spent H (fst (pg_exchangeCode H e k cl r v s)) rt c f"
    using sp by (auto simp: pg_exchangeCode_def pg_tx_fst Let_def split: option.split
        dest: pg_spent_pair [where H = H and rt = rt and c = c and f = f])
  then show ?thesis using exchange by simp
next
  case (renew e at)
  then have "pg_spent H (fst (store_step (postgres_store H) x s)) rt c f"
    using sp by (auto simp: pg_renewToken_def pg_tx_fst Let_def pg_spent_iff fam_client_upd_family
        intro!: row_spent_upd_refresh split: option.split)
  then show ?thesis ..
next
  case (rotate e k cl a)
  have r: "row_spent s (H rt) f" and fc: "fam_client s f c" using sp by (simp_all add: pg_spent_iff)
  have "row_spent (upd_refresh (\<lambda>q _. q = H k) (\<lambda>x. x\<lparr>r_consumed_at := Some t\<rparr>) s) (H rt) f" for t
    by (rule row_spent_upd_refresh) (simp_all add: r)
  then have "pg_spent H (fst (pg_rotateRefresh H e k cl a s)) rt c f"
    using r fc by (auto simp: pg_rotateRefresh_def pg_tx_fst Let_def pg_spent_iff fam_client_upd_family
        fam_client_ins(2,3) split: option.split intro: row_spent_pair)
  then show ?thesis using rotate by simp
qed

text \<open>What a successful rotation found and did.\<close>

lemma pg_rotate_ok:
  assumes "pg_rotateRefresh H e rt c a s = (s', Inr (Some g))"
  obtains r fr i db2 db3 where "fmlookup (refresh_tokens s) (H rt) = Some r" "r_consumed_at r = None"
    "now2 e < r_expires_at r"
    "family_join (r_family_id r) s = Some (fr, i)" "f_client_id fr = c" "f_revoked_at fr = None"
    "ins_access (H (rnd1 e)) \<lparr>a_family_id = r_family_id r, a_created_at = now2 e,
       a_expires_at = now2 e + tokenIdleTTL, a_last_used_at = None\<rparr>
       (upd_refresh (\<lambda>k _. k = H rt) (\<lambda>x. x\<lparr>r_consumed_at := Some (now2 e)\<rparr>) s) = Some db2"
    "ins_refresh (H (rnd2 e)) \<lparr>r_family_id = r_family_id r, r_created_at = now2 e,
       r_expires_at = now2 e + tokenIdleTTL, r_consumed_at = None\<rparr> db2 = Some db3"
    "s' = touch_oauth_client c (now2 e) (upd_family (r_family_id r) (\<lambda>x. x\<lparr>
        f_expires_at := now2 e + tokenIdleTTL, f_last_activity_at := now2 e\<rparr>) db3)"
    "g = \<lparr>tg_scope = join '' '' (f_scope fr), tg_access = rnd1 e, tg_refresh = rnd2 e,
          tg_expires_in = seconds_of accessTokenTTL\<rparr>"
  using assms
  by (simp add: pg_rotateRefresh_def pg_tx_def Let_def split: option.split_asm if_split_asm prod.split_asm)

lemma pg_rotate_spends:
  assumes "pg_rotateRefresh H e rt c a s = (s', Inr (Some g))"
  shows "\<exists>f. pg_spent H s' rt c f \<and> pg_owns s' (H (tg_access g)) f"
  using assms
proof (rule pg_rotate_ok)
  fix r fr i db2 db3
  let ?db1 = "upd_refresh (\<lambda>k _. k = H rt) (\<lambda>x. x\<lparr>r_consumed_at := Some (now2 e)\<rparr>) s"
  assume r: "fmlookup (refresh_tokens s) (H rt) = Some r"
    and j: "family_join (r_family_id r) s = Some (fr, i)" "f_client_id fr = c"
    and i1: "ins_access (H (rnd1 e)) \<lparr>a_family_id = r_family_id r, a_created_at = now2 e,
       a_expires_at = now2 e + tokenIdleTTL, a_last_used_at = None\<rparr> ?db1 = Some db2"
    and i2: "ins_refresh (H (rnd2 e)) \<lparr>r_family_id = r_family_id r, r_created_at = now2 e,
       r_expires_at = now2 e + tokenIdleTTL, r_consumed_at = None\<rparr> db2 = Some db3"
    and s': "s' = touch_oauth_client c (now2 e) (upd_family (r_family_id r) (\<lambda>x. x\<lparr>
        f_expires_at := now2 e + tokenIdleTTL, f_last_activity_at := now2 e\<rparr>) db3)"
    and g: "g = \<lparr>tg_scope = join '' '' (f_scope fr), tg_access = rnd1 e, tg_refresh = rnd2 e,
          tg_expires_in = seconds_of accessTokenTTL\<rparr>"
  have "row_spent ?db1 (H rt) (r_family_id r)" using r by (simp add: row_spent_def upd_refresh_def)
  then have r3: "row_spent db3 (H rt) (r_family_id r)" by (rule row_spent_pair [OF i2 i1])
  have "fam_client ?db1 (r_family_id r) c"
    using j by (auto simp: family_join_def fam_client_def upd_refresh_def split: option.splits)
  then have f3: "fam_client db3 (r_family_id r) c" using fam_client_ins i1 i2 by simp
  have "pg_owns s' (H (tg_access g)) (r_family_id r)"
    using i1 i2 by (auto simp: s' g pg_owns_def ins_access_def ins_refresh_def upd_family_def split: if_splits)
  with r3 f3 show ?thesis by (auto simp: s' pg_spent_iff fam_client_upd_family)
qed

lemma pg_replay_kills:
  assumes "pg_spent H s rt c f" and "snd (pg_rotateRefresh H e rt c a s) = Inr res"
  shows "pg_dead (fst (pg_rotateRefresh H e rt c a s)) f"
proof -
  obtain r where r: "fmlookup (refresh_tokens s) (H rt) = Some r" "r_consumed_at r \<noteq> None" "r_family_id r = f"
    using assms by (auto simp: pg_spent_def split: option.splits)
  obtain fr i where j: "family_join f s = Some (fr, i)" "f_client_id fr = c"
    using assms by (auto simp: pg_spent_def split: option.splits)
  have "\<not> db_fault e" using assms(2) by (auto simp: pg_rotateRefresh_def pg_tx_def)
  with r j show ?thesis
    by (auto simp: pg_rotateRefresh_def pg_tx_fst pg_dead_def upd_family_def Let_def split: option.split)
qed

interpretation pg_fam: family_contract "postgres_store H" H "\<lambda>_ _. True" "pg_fresh H"
  pg_live pg_owns "pg_spent H" pg_dead for H
proof (unfold_locales, goal_cases)
  case (2 e rt c a s g)
  then show ?case
    using pg_rotate_spends [of H e rt c a s "fst (pg_rotateRefresh H e rt c a s)" g]
    by (cases "pg_rotateRefresh H e rt c a s") simp
next
  case (3 e rt c a s g)
  then show ?case
    by (cases "pg_rotateRefresh H e rt c a s") (auto elim!: pg_rotate_ok simp: pg_live_def)
next
  case (4 t s rt c f)
  then show ?case by (auto simp: pg_spent_def pg_live_def split: option.splits)
next
  case (5 x s k)
  then show ?case using pg_live_step by blast
next
  case (6 s rt c f e)
  then show ?case by (auto simp: pg_spent_def pg_fresh_def split: option.splits)
next
  case (7 t s x rt c f)
  then show ?case by (intro pg_spent_stays)
next
  case (8 s rt c f t e a res)
  then show ?case using pg_replay_kills [of H s rt c f e a res] by simp
next
  case (9 s f x)
  then show ?case by (intro pg_dead_stays)
next
  case (10 s f e at te)
  then show ?case
    by (auto simp: pg_dead_def pg_lookupToken_def family_join_def entry_of_def
        split: option.splits if_splits)
next
  case (11 e at s te)
  then show ?case
    by (auto simp: pg_owns_def pg_lookupToken_def entry_of_def split: option.splits if_splits)
next
  case (12 s k f f')
  then show ?case by (auto simp: pg_owns_def split: option.splits)
next
  case (13 x s k f)
  then show ?case using pg_owns_step by blast
next
  case (14 s k f e)
  then obtain x where x: "fmlookup (access_tokens s) k = Some x" "a_family_id x = f"
    by (auto simp: pg_owns_def split: option.splits)
  then have "rnd1 e \<noteq> f" using 14 fmanyI [OF x(1), of "\<lambda>_ a. a_family_id a = rnd1 e"]
    by (auto simp: pg_fresh_def)
  with x 14 show ?case by (auto simp: pg_fresh_def)
qed simp

end
