(* ===== verification/OAuth_Claims.thy ===== *)
theory OAuth_Claims
  imports OAuth_Store_Props OAuth_Pg_Props
begin

text \<open>
  The properties of the two token stores, each with a concrete run that meets its hypotheses.
\<close>

section \<open>Concrete runs\<close>

definition demo_env :: "time \<Rightarrow> string \<Rightarrow> string \<Rightarrow> string \<Rightarrow> env" where
  "demo_env t a b c = \<lparr>now1 = t, now2 = t, now3 = t, rnd1 = a, rnd2 = b, rnd3 = c, db_fault = False\<rparr>"

definition demo_user :: principal where
  "demo_user = \<lparr>Provider = ''p'', Subject = ''s'', Email = [], EmailVerified = False\<rparr>"

text \<open>A code is created and exchanged: access token \<open>a\<close>, refresh token \<open>r\<close>, family \<open>f\<close>.\<close>

definition demo_ops :: "store_op list" where
  "demo_ops =
     [CreateCode (demo_env 1 ''k'' ''x1'' ''x2'') ''c'' ''u'' (base64url (bytes_of ''v'')) ''S256'' ''m'' demo_user,
      ExchangeCode (demo_env 2 ''f'' ''a'' ''r'') ''k'' ''c'' ''u'' ''v'']"

definition demo_mem :: store where
  "demo_mem = fst (store_run (memory_store bytes_of) demo_ops newStore)"

definition demo_pg :: pgdb where
  "demo_pg = fst (store_run (postgres_store bytes_of) demo_ops
     (empty_db\<lparr>oauth_clients := fmupd ''c'' \<lparr>c_secret_hash = None, c_redirect_uris = [''u''], c_name = ''n'',
        c_is_public = True, c_is_static = False, c_created_at = 0, c_updated_at = 0,
        c_last_activity_at = 0, c_metadata_refreshed_at = None\<rparr> fmempty\<rparr>))"

lemma demo_ok: "run_ok bytes_of 0 demo_ops newStore"
  by code_simp

lemma demo_mem_inv: "mem_inv 2 demo_mem"
proof -
  have "mem_inv (run_clock 0 demo_ops) demo_mem"
    unfolding demo_mem_def by (rule mem_inv_run [OF mem_inv_newStore demo_ok])
  then show ?thesis by (simp add: demo_ops_def demo_env_def)
qed

text \<open>The pair is rotated at time 3: access token \<open>a2\<close>, refresh token \<open>r2\<close>.\<close>

definition demo_rot :: env where
  "demo_rot = demo_env 3 ''a2'' ''r2'' ''z2''"

definition demo_grant :: token_grant where
  "demo_grant = \<lparr>tg_scope = ''m'', tg_access = ''a2'', tg_refresh = ''r2'', tg_expires_in = 2592000\<rparr>"

definition demo_mem1 :: store where
  "demo_mem1 = fst (os_rotateRefresh (memory_store bytes_of) demo_rot ''r'' ''c'' None demo_mem)"

definition demo_pg1 :: pgdb where
  "demo_pg1 = fst (os_rotateRefresh (postgres_store bytes_of) demo_rot ''r'' ''c'' None demo_pg)"

definition demo_between :: "store_op list" where
  "demo_between = [RenewToken (demo_env 4 ''y1'' ''y2'' ''y3'') ''a2'', Evict (demo_env 5 ''y4'' ''y5'' ''y6'')]"

text \<open>The states a server reaches, and the time they are reached at.\<close>

definition mem_after :: "(string \<Rightarrow> byte list) \<Rightarrow> store_op list \<Rightarrow> store" where
  "mem_after H pre = fst (store_run (memory_store H) pre newStore)"

lemma mem_after_inv: "run_ok H 0 pre newStore \<Longrightarrow> mem_inv (run_clock 0 pre) (mem_after H pre)"
  unfolding mem_after_def by (rule mem_inv_run [OF mem_inv_newStore])

section \<open>Replay revokes the family\<close>

text \<open>
  C1 (in-memory store).  After any well-timed calls \<open>pre\<close> a client rotates refresh token \<open>rt\<close>
  and gets the access token in \<open>g\<close>; after any well-timed calls \<open>xs\<close> it presents \<open>rt\<close> again.
  Whatever that call returns, and whatever calls \<open>ys\<close> follow, the access token of the rotation
  never verifies again.
\<close>

theorem mem_replay_revokes:
  assumes "run_ok H 0 pre newStore" and "s = mem_after H pre"
    and "fresh_env s e" and "clock_env (run_clock 0 pre) e"
    and "snd (os_rotateRefresh (memory_store H) e rt c a s) = Inr (Some g)"
    and "sb = fst (os_rotateRefresh (memory_store H) e rt c a s)"
    and "good_run (memory_store H) fresh_env sb (now3 e) xs sb"
    and "fresh_env sb eb"
    and "sd = fst (os_rotateRefresh (memory_store H) eb rt c ab (fst (store_run (memory_store H) xs sb)))"
    and "\<forall>y \<in> set ys. fresh_env sb (op_env y)"
  shows "snd (os_lookupToken (memory_store H) ec (tg_access g) (fst (store_run (memory_store H) ys sd)))
    = Inr None"
proof -
  let ?sc = "fst (store_run (memory_store H) xs sb)"
  have "mem_inv (run_clock 0 pre) s" using mem_after_inv assms(1,2) by simp
  note r = mem_fam.replay_revokes [OF this assms(3-7) _ assms(9,8,10)]
  have "snd (os_rotateRefresh (memory_store H) eb rt c ab ?sc) = Inr (snd (rotateRefresh eb rt c ab ?sc))"
    by simp
  from r [OF this] show ?thesis
    by (cases "snd (lookupToken ec (tg_access g) (fst (store_run (memory_store H) ys sd)))") auto
qed

theorem mem_replay_revokes_witness:
  "snd (os_lookupToken (memory_store bytes_of) (demo_env 7 ''w1'' ''w2'' ''w3'') ''a2''
     (fst (os_rotateRefresh (memory_store bytes_of) (demo_env 6 ''v1'' ''v2'' ''v3'') ''r'' ''c'' None
       (fst (store_run (memory_store bytes_of) demo_between demo_mem1))))) = Inr None"
  using mem_replay_revokes [where H = bytes_of and pre = demo_ops and s = demo_mem and e = demo_rot
      and rt = "''r''" and c = "''c''" and a = None and g = demo_grant and sb = demo_mem1
      and xs = demo_between and eb = "demo_env 6 ''v1'' ''v2'' ''v3''" and ab = None and ys = "[]"
      and ec = "demo_env 7 ''w1'' ''w2'' ''w3''",
      OF demo_ok demo_mem_def [folded mem_after_def] _ _ _ demo_mem1_def _ _ refl]
  by code_simp

text \<open>
  C2 (PostgreSQL store).  The same, from any database: the presented tokens are looked up by their
  hashes, and a call the database fails (no result) is not counted as a replay.
\<close>

theorem pg_replay_revokes:
  assumes "pg_fresh H s e" and "clock_env t e"
    and "snd (os_rotateRefresh (postgres_store H) e rt c a s) = Inr (Some g)"
    and "sb = fst (os_rotateRefresh (postgres_store H) e rt c a s)"
    and "good_run (postgres_store H) (pg_fresh H) sb (now3 e) xs sb"
    and "pg_fresh H sb eb"
    and "snd (os_rotateRefresh (postgres_store H) eb rt c ab (fst (store_run (postgres_store H) xs sb))) = Inr res"
    and "sd = fst (os_rotateRefresh (postgres_store H) eb rt c ab (fst (store_run (postgres_store H) xs sb)))"
    and "\<forall>y \<in> set ys. pg_fresh H sb (op_env y)"
  shows "snd (os_lookupToken (postgres_store H) ec (tg_access g) (fst (store_run (postgres_store H) ys sd)))
    \<noteq> Inr (Some te)"
  by (rule pg_fam.replay_revokes [OF TrueI assms(1-5,7,8,6,9)])

theorem pg_replay_revokes_witness:
  "\<forall>te. snd (os_lookupToken (postgres_store bytes_of) (demo_env 7 ''w1'' ''w2'' ''w3'') ''a2''
     (fst (os_rotateRefresh (postgres_store bytes_of) (demo_env 6 ''v1'' ''v2'' ''v3'') ''r'' ''c'' None
       (fst (store_run (postgres_store bytes_of) demo_between demo_pg1))))) \<noteq> Inr (Some te)"
proof
  fix te
  show "snd (os_lookupToken (postgres_store bytes_of) (demo_env 7 ''w1'' ''w2'' ''w3'') ''a2''
     (fst (os_rotateRefresh (postgres_store bytes_of) (demo_env 6 ''v1'' ''v2'' ''v3'') ''r'' ''c'' None
       (fst (store_run (postgres_store bytes_of) demo_between demo_pg1))))) \<noteq> Inr (Some te)"
    using pg_replay_revokes [where H = bytes_of and s = demo_pg and t = 2 and e = demo_rot
      and rt = "''r''" and c = "''c''" and a = None and g = demo_grant and sb = demo_pg1
      and xs = demo_between and eb = "demo_env 6 ''v1'' ''v2'' ''v3''" and ab = None and ys = "[]"
      and res = None and te = te and ec = "demo_env 7 ''w1'' ''w2'' ''w3''",
      OF _ _ _ demo_pg1_def _ _ _ refl]
    by code_simp
qed

section \<open>Single use\<close>

text \<open>
  In-memory store: a refresh token that was rotated is never accepted again, by any client,
  after any well-timed calls.
\<close>

lemma mem_refresh_single_use:
  assumes "run_ok H 0 pre newStore" and "s = mem_after H pre"
    and "fresh_env s e" and "clock_env (run_clock 0 pre) e"
    and "snd (os_rotateRefresh (memory_store H) e rt c a s) = Inr (Some g)"
    and "sb = fst (os_rotateRefresh (memory_store H) e rt c a s)"
    and "good_run (memory_store H) fresh_env sb (now3 e) xs sb"
  shows "snd (os_rotateRefresh (memory_store H) eb rt c' ab (fst (store_run (memory_store H) xs sb)))
    = Inr None"
proof -
  have "mem_inv (run_clock 0 pre) s" using mem_after_inv assms(1,2) by simp
  from mem_fam.refresh_single_use [OF this assms(3-7)] show ?thesis
    by (cases "snd (rotateRefresh eb rt c' ab (fst (store_run (memory_store H) xs sb)))") auto
qed

lemma mem_refresh_single_use_witness:
  "snd (os_rotateRefresh (memory_store bytes_of) (demo_env 6 ''v1'' ''v2'' ''v3'') ''r'' ''c'' None
       (fst (store_run (memory_store bytes_of) demo_between demo_mem1))) = Inr None"
  using mem_refresh_single_use [where H = bytes_of and pre = demo_ops and s = demo_mem and e = demo_rot
      and rt = "''r''" and c = "''c''" and a = None and g = demo_grant and sb = demo_mem1
      and xs = demo_between and eb = "demo_env 6 ''v1'' ''v2'' ''v3''" and ab = None and c' = "''c''",
      OF demo_ok demo_mem_def [folded mem_after_def] _ _ _ demo_mem1_def]
  by code_simp

text \<open>PostgreSQL store: the same, from any database.\<close>

lemma pg_refresh_single_use:
  assumes "pg_fresh H s e" and "clock_env t e"
    and "snd (os_rotateRefresh (postgres_store H) e rt c a s) = Inr (Some g)"
    and "sb = fst (os_rotateRefresh (postgres_store H) e rt c a s)"
    and "good_run (postgres_store H) (pg_fresh H) sb (now3 e) xs sb"
  shows "snd (os_rotateRefresh (postgres_store H) eb rt c' ab (fst (store_run (postgres_store H) xs sb)))
    \<noteq> Inr (Some g')"
  by (rule pg_fam.refresh_single_use [OF TrueI assms])

lemma pg_refresh_single_use_witness:
  "\<forall>g'. snd (os_rotateRefresh (postgres_store bytes_of) (demo_env 6 ''v1'' ''v2'' ''v3'') ''r'' ''c'' None
       (fst (store_run (postgres_store bytes_of) demo_between demo_pg1))) \<noteq> Inr (Some g')"
proof
  fix g'
  show "snd (os_rotateRefresh (postgres_store bytes_of) (demo_env 6 ''v1'' ''v2'' ''v3'') ''r'' ''c'' None
       (fst (store_run (postgres_store bytes_of) demo_between demo_pg1))) \<noteq> Inr (Some g')"
    using pg_refresh_single_use [where H = bytes_of and s = demo_pg and t = 2 and e = demo_rot
      and rt = "''r''" and c = "''c''" and a = None and g = demo_grant and sb = demo_pg1
      and xs = demo_between and eb = "demo_env 6 ''v1'' ''v2'' ''v3''" and ab = None and c' = "''c''"
      and g' = g', OF _ _ _ demo_pg1_def]
    by code_simp
qed

text \<open>
  C3 (in-memory store).  Once a code was presented, with the right verifier or not, no later
  exchange of it succeeds, whatever calls that mint other codes happen in between.
\<close>

theorem mem_code_single_use:
  assumes "sb = fst (os_exchangeCode (memory_store H) e k c r v s)"
    and "\<forall>x \<in> set xs. \<forall>k'. new_code x = Some k' \<longrightarrow> k' \<noteq> k"
  shows "snd (os_exchangeCode (memory_store H) eb k c' r' v' (fst (store_run (memory_store H) xs sb)))
    = Inr None"
proof -
  have "snd (os_exchangeCode (memory_store H) e k c r v s) = Inr (snd (exchangeCode H e k c r v s))" by simp
  from mem_codes.code_single_use [OF this assms(1) _ refl] assms(2) show ?thesis
    by (cases "snd (exchangeCode H eb k c' r' v' (fst (store_run (memory_store H) xs sb)))") auto
qed

theorem mem_code_single_use_witness:
  "snd (os_exchangeCode (memory_store bytes_of) (demo_env 3 ''f3'' ''a3'' ''r3'') ''k'' ''c'' ''u'' ''v''
     (fst (store_run (memory_store bytes_of) demo_between
       (fst (os_exchangeCode (memory_store bytes_of) (demo_env 2 ''f'' ''a'' ''r'') ''k'' ''c'' ''u'' ''wrong''
         (fst (store_run (memory_store bytes_of) [hd demo_ops] newStore))))))) = Inr None"
  by (rule mem_code_single_use [OF refl]) (simp add: demo_between_def)

text \<open>C4 (PostgreSQL store).  The same for a presentation the database did not fail.\<close>

theorem pg_code_single_use:
  assumes "snd (os_exchangeCode (postgres_store H) e k c r v s) = Inr res"
    and "sb = fst (os_exchangeCode (postgres_store H) e k c r v s)"
    and "\<forall>x \<in> set xs. \<forall>k'. new_code x = Some k' \<longrightarrow> H k' \<noteq> H k"
  shows "snd (os_exchangeCode (postgres_store H) eb k c' r' v' (fst (store_run (postgres_store H) xs sb)))
    \<noteq> Inr (Some g)"
  by (rule pg_codes.code_single_use [OF assms refl])

theorem pg_code_single_use_witness:
  "\<forall>g. snd (os_exchangeCode (postgres_store bytes_of) (demo_env 3 ''f3'' ''a3'' ''r3'') ''k'' ''c'' ''u'' ''v''
     (fst (store_run (postgres_store bytes_of) demo_between
       (fst (os_exchangeCode (postgres_store bytes_of) (demo_env 2 ''f'' ''a'' ''r'') ''k'' ''c'' ''u'' ''wrong''
         (fst (store_run (postgres_store bytes_of) [hd demo_ops] demo_pg))))))) \<noteq> Inr (Some g)"
proof
  fix g
  have "snd (os_exchangeCode (postgres_store bytes_of) (demo_env 2 ''f'' ''a'' ''r'') ''k'' ''c'' ''u'' ''wrong''
         (fst (store_run (postgres_store bytes_of) [hd demo_ops] demo_pg))) = Inr None"
    by code_simp
  then show "snd (os_exchangeCode (postgres_store bytes_of) (demo_env 3 ''f3'' ''a3'' ''r3'') ''k'' ''c'' ''u'' ''v''
     (fst (store_run (postgres_store bytes_of) demo_between
       (fst (os_exchangeCode (postgres_store bytes_of) (demo_env 2 ''f'' ''a'' ''r'') ''k'' ''c'' ''u'' ''wrong''
         (fst (store_run (postgres_store bytes_of) [hd demo_ops] demo_pg))))))) \<noteq> Inr (Some g)"
    by (rule pg_code_single_use [OF _ refl]) (simp add: demo_between_def)
qed

section \<open>Sessions\<close>

text \<open>
  C5 (in-memory store).  Whatever well-timed calls were made, a client whose access token verifies
  can refresh: some live refresh token of the client rotates, until the access token expires, if the
  authorizer still accepts the principal, and the new pair keeps the scope.
\<close>

theorem mem_session_refreshable:
  assumes "run_ok H 0 pre newStore" and "run_clock 0 pre \<le> now1 e"
    and "lookupToken e tok (mem_after H pre) = (s, Some te)"
    and "now1 eb \<le> te_ExpiresAt te" and "now2 eb \<le> te_ExpiresAt te"
    and "case a of None \<Rightarrow> True | Some auth \<Rightarrow> auth (te_Principal te)"
  shows "\<exists>rt g. snd (rotateRefresh eb rt (te_ClientID te) a s) = Some g \<and> tg_scope g = te_Scope te"
proof -
  have inv: "mem_inv (run_clock 0 pre) (mem_after H pre)" using assms(1) by (rule mem_after_inv)
  from assms(3) have s: "s = mem_after H pre" and te: "fmlookup (tokens s) tok = Some te"
    and "\<not> te_ExpiresAt te < now1 e" by (auto simp: lookupToken_def split: option.splits if_splits)
  then have "\<not> te_ExpiresAt te < run_clock 0 pre" using assms(2) by simp
  from backedE [OF mem_invD(7) [OF inv te [unfolded s]] this] obtain r re
    where re: "fmlookup (refresh s) r = Some re" "re_FamilyID re = te_FamilyID te"
      "te_ExpiresAt te \<le> re_ExpiresAt re" unfolding s .
  have "te_ClientID te = re_ClientID re \<and> te_Scope te = re_Scope re \<and> te_Principal te = re_Principal re"
    using mem_invD(6) [OF inv te [unfolded s] re(1) [unfolded s]] re(2) by simp
  with re assms(4-6) have "\<exists>g. snd (rotateRefresh eb r (te_ClientID te) a s) = Some g \<and> tg_scope g = te_Scope te"
    by (auto simp: rotateRefresh_def Let_def split: option.splits)
  then show ?thesis by blast
qed

theorem mem_session_refreshable_witness:
  "\<exists>rt g. snd (rotateRefresh demo_rot rt ''c'' None demo_mem) = Some g \<and> tg_scope g = ''m''"
proof -
  have l: "lookupToken (demo_env 3 ''y1'' ''y2'' ''y3'') ''a'' (mem_after bytes_of demo_ops)
    = (mem_after bytes_of demo_ops, Some \<lparr>te_Token = ''a'', te_ClientID = ''c'', te_Scope = ''m'',
        te_ExpiresAt = 2 + tokenIdleTTL, te_FamilyID = ''f'', te_Principal = demo_user\<rparr>)"
    by code_simp
  have "run_clock 0 demo_ops \<le> now1 (demo_env 3 ''y1'' ''y2'' ''y3'')" by code_simp
  from mem_session_refreshable [OF demo_ok this l, of demo_rot None] show ?thesis
    by (simp add: demo_rot_def demo_env_def mem_after_def demo_mem_def tokenIdleTTL_def second_ns_def)
qed

end
