(* ===== verification/Go_Url.thy ===== *)
theory Go_Url
  imports Go_Std
begin

text \<open>
  What the code uses of \<open>net/url\<close> and \<open>net.IP\<close>: \<open>url.Parse\<close> with the fields Scheme, User, Host
  and Path, \<open>Hostname\<close> and \<open>Port\<close>, and the address classes of \<open>net.IP\<close>.  Strings are bytes.
  The test that a bracketed host is a well-formed IPv6 literal is left out: such a host is never a
  loopback name, and only the resolver's answer to it matters.
\<close>

section \<open>Splitting\<close>

fun cut :: "char \<Rightarrow> string \<Rightarrow> string \<times> string" where
  "cut c [] = ([], [])"
| "cut c (x # xs) = (if x = c then ([], xs) else let (a, b) = cut c xs in (x # a, b))"

fun last_index :: "char \<Rightarrow> string \<Rightarrow> nat option" where
  "last_index c [] = None"
| "last_index c (x # xs) = (case last_index c xs of Some i \<Rightarrow> Some (Suc i)
     | None \<Rightarrow> if x = c then Some 0 else None)"

fun first_index :: "char \<Rightarrow> string \<Rightarrow> nat option" where
  "first_index c [] = None"
| "first_index c (x # xs) = (if x = c then Some 0 else map_option Suc (first_index c xs))"

abbreviation ord :: "char \<Rightarrow> nat" where "ord c \<equiv> of_char c"

definition is_alpha :: "char \<Rightarrow> bool" where
  "is_alpha c \<longleftrightarrow> (65 \<le> ord c \<and> ord c \<le> 90) \<or> (97 \<le> ord c \<and> ord c \<le> 122)"

definition is_digit :: "char \<Rightarrow> bool" where
  "is_digit c \<longleftrightarrow> 48 \<le> ord c \<and> ord c \<le> 57"

definition is_alnum :: "char \<Rightarrow> bool" where
  "is_alnum c \<longleftrightarrow> is_alpha c \<or> is_digit c"

section \<open>Unescaping\<close>

definition unhex :: "char \<Rightarrow> nat option" where
  "unhex c = (if is_digit c then Some (ord c - 48)
     else if 97 \<le> ord c \<and> ord c \<le> 102 then Some (ord c - 87)
     else if 65 \<le> ord c \<and> ord c \<le> 70 then Some (ord c - 55)
     else None)"

text \<open>\<open>%XX\<close> sequences, in a path: any byte; other bytes stand for themselves.\<close>

fun unescape_path :: "string \<Rightarrow> string option" where
  "unescape_path [] = Some []"
| "unescape_path (c # cs) =
     (if c = CHR ''%'' then
        (case cs of
           a # b # r \<Rightarrow>
             (case (unhex a, unhex b) of
                (Some x, Some y) \<Rightarrow> map_option ((#) (char_of (16 * x + y))) (unescape_path r)
              | _ \<Rightarrow> None)
         | _ \<Rightarrow> None)
      else map_option ((#) c) (unescape_path cs))"

text \<open>In a host, only bytes from 128 on (and \<open>%25\<close>) may be escaped, and some ASCII is refused.\<close>

definition host_byte :: "char \<Rightarrow> bool" where
  "host_byte c \<longleftrightarrow> is_alnum c \<or> 128 \<le> ord c \<or> c \<in> set ''!$&()*+,;=:[]<>-_.~'' \<or> ord c = 39 \<or> ord c = 34"

fun unescape_host :: "string \<Rightarrow> string option" where
  "unescape_host [] = Some []"
| "unescape_host (c # cs) =
     (if c = CHR ''%'' then
        (case cs of
           a # b # r \<Rightarrow>
             (case (unhex a, unhex b) of
                (Some x, Some y) \<Rightarrow>
                  if x < 8 \<and> \<not> (x = 2 \<and> y = 5) then None
                  else map_option ((#) (char_of (16 * x + y))) (unescape_host r)
              | _ \<Rightarrow> None)
         | _ \<Rightarrow> None)
      else if host_byte c then map_option ((#) c) (unescape_host cs) else None)"

section \<open>The URL\<close>

record url =
  u_Scheme :: string
  u_HasUser :: bool
  u_Host :: string
  u_Path :: string

text \<open>\<open>getScheme\<close>: None is an error; a string without a scheme is its own rest.\<close>

fun scheme_len :: "bool \<Rightarrow> string \<Rightarrow> nat option option" where
  "scheme_len first [] = Some None"
| "scheme_len first (c # cs) =
     (if is_alpha c then map_option (map_option Suc) (scheme_len False cs)
      else if is_digit c \<or> c \<in> set ''+-.'' then
        (if first then Some None else map_option (map_option Suc) (scheme_len False cs))
      else if c = CHR '':'' then (if first then None else Some (Some 0))
      else Some None)"

definition get_scheme :: "string \<Rightarrow> (string \<times> string) option" where
  "get_scheme s = (case scheme_len True s of None \<Rightarrow> None
     | Some None \<Rightarrow> Some ([], s)
     | Some (Some n) \<Rightarrow> Some (to_lower (take n s), drop (Suc n) s))"

definition valid_optional_port :: "string \<Rightarrow> bool" where
  "valid_optional_port p \<longleftrightarrow> (case p of [] \<Rightarrow> True | c # cs \<Rightarrow> c = CHR '':'' \<and> list_all is_digit cs)"

definition parse_host :: "string \<Rightarrow> string option" where
  "parse_host h =
     (if has_prefix ''['' h then
        (case last_index (CHR '']'') h of None \<Rightarrow> None
         | Some i \<Rightarrow> if valid_optional_port (drop (Suc i) h) then unescape_host h else None)
      else
        (case first_index (CHR '':'') h of None \<Rightarrow> unescape_host h
         | Some i \<Rightarrow> if valid_optional_port (drop i h) then unescape_host h else None))"

definition userinfo_byte :: "char \<Rightarrow> bool" where
  "userinfo_byte c \<longleftrightarrow> is_alnum c \<or> c \<in> set ''-._:~!$&()*+,;=%@'' \<or> ord c = 39"

definition parse_authority :: "string \<Rightarrow> (bool \<times> string) option" where
  "parse_authority a =
     (case last_index (CHR ''@'') a of
        None \<Rightarrow> map_option (\<lambda>h. (False, h)) (parse_host a)
      | Some i \<Rightarrow>
          if list_all userinfo_byte (take i a) \<and> unescape_path (take i a) \<noteq> None
          then map_option (\<lambda>h. (True, h)) (parse_host (drop (Suc i) a)) else None)"

text \<open>The part after the scheme, with fragment and query cut off.\<close>

definition parse_rest :: "string \<Rightarrow> string \<Rightarrow> url option" where
  "parse_rest scheme rest =
     (if \<not> has_prefix ''/'' rest \<and> scheme \<noteq> []
      then Some \<lparr>u_Scheme = scheme, u_HasUser = False, u_Host = [], u_Path = []\<rparr>
      else if \<not> has_prefix ''/'' rest \<and> CHR '':'' \<in> set (fst (cut (CHR ''/'') rest)) then None
      else if has_prefix ''//'' rest \<and> (scheme \<noteq> [] \<or> \<not> has_prefix ''///'' rest) then
        (let a = drop 2 rest; i = (case first_index (CHR ''/'') a of None \<Rightarrow> length a | Some i \<Rightarrow> i) in
         case (parse_authority (take i a), unescape_path (drop i a)) of
           (Some (user, host), Some path) \<Rightarrow>
             Some \<lparr>u_Scheme = scheme, u_HasUser = user, u_Host = host, u_Path = path\<rparr>
         | _ \<Rightarrow> None)
      else map_option (\<lambda>path. \<lparr>u_Scheme = scheme, u_HasUser = False, u_Host = [], u_Path = path\<rparr>)
             (unescape_path rest))"

definition url_parse :: "string \<Rightarrow> url option" where
  "url_parse raw =
     (let (main, frag) = cut (CHR ''#'') raw in
      if unescape_path frag = None then None
      else if list_ex (\<lambda>c. ord c < 32 \<or> ord c = 127) main then None
      else if main = ''*'' then Some \<lparr>u_Scheme = [], u_HasUser = False, u_Host = [], u_Path = ''*''\<rparr>
      else case get_scheme main of None \<Rightarrow> None
        | Some (scheme, rest) \<Rightarrow> parse_rest scheme (fst (cut (CHR ''?'') rest)))"

definition split_host_port :: "string \<Rightarrow> string \<times> string" where
  "split_host_port hp =
     (let (h, p) = (case last_index (CHR '':'') hp of None \<Rightarrow> (hp, [])
            | Some i \<Rightarrow> if valid_optional_port (drop i hp) then (take i hp, drop (Suc i) hp) else (hp, []))
      in (if has_prefix ''['' h \<and> h \<noteq> [] \<and> last h = CHR '']'' then butlast (tl h) else h, p))"

definition u_hostname :: "url \<Rightarrow> string" where "u_hostname u = fst (split_host_port (u_Host u))"
definition u_port :: "url \<Rightarrow> string" where "u_port u = snd (split_host_port (u_Host u))"

section \<open>HTML escaping\<close>

fun html_escape_char :: "char \<Rightarrow> string" where
  "html_escape_char c =
     (if c = CHR ''&'' then ''&amp;''
      else if ord c = 39 then ''&#39;''
      else if c = CHR ''<'' then ''&lt;''
      else if c = CHR ''>'' then ''&gt;''
      else if ord c = 34 then ''&#34;''
      else [c])"

definition html_escape :: "string \<Rightarrow> string" where
  "html_escape s = concat (map html_escape_char s)"

lemma html_escape_append [simp]: "html_escape (s @ t) = html_escape s @ html_escape t"
  by (simp add: html_escape_def)

definition html_safe :: "char \<Rightarrow> bool" where
  "html_safe c \<longleftrightarrow> c \<noteq> CHR ''<'' \<and> c \<noteq> CHR ''>'' \<and> ord c \<noteq> 34 \<and> ord c \<noteq> 39"

lemma html_escape_char_safe: "list_all html_safe (html_escape_char c)"
  by (simp add: html_safe_def)

lemma html_escape_safe: "list_all html_safe (html_escape s)"
  by (induction s) (simp_all add: html_escape_def html_escape_char_safe del: html_escape_char.simps)

end
