(* ===== verification/Safe_Fetch.thy ===== *)
theory Safe_Fetch
  imports Go_Url OAuth_Types
begin

text \<open>
  The guarded fetch of client metadata documents (\<open>pkg/oauth/safefetch.go\<close>).  The network is a
  parameter: what the resolver answers for a host, what a GET sent to an address and port answers,
  and how the JSON of the document decodes (its \<open>client_id\<close> and registration fields).
\<close>

section \<open>net.IP\<close>

text \<open>An address is its 4 or 16 bytes; \<open>To4\<close> also reads the IPv4-mapped form.\<close>

definition v4InV6Prefix :: "byte list" where
  "v4InV6Prefix = replicate 10 0 @ [255, 255]"

definition To4 :: "byte list \<Rightarrow> byte list option" where
  "To4 ip = (if length ip = 4 then Some ip
     else if length ip = 16 \<and> take 12 ip = v4InV6Prefix then Some (drop 12 ip) else None)"

definition IsLoopback :: "byte list \<Rightarrow> bool" where
  "IsLoopback ip = (case To4 ip of Some v \<Rightarrow> v ! 0 = 127 | None \<Rightarrow> ip = replicate 15 0 @ [1])"

definition IsLinkLocalUnicast :: "byte list \<Rightarrow> bool" where
  "IsLinkLocalUnicast ip = (case To4 ip of Some v \<Rightarrow> v ! 0 = 169 \<and> v ! 1 = 254
     | None \<Rightarrow> length ip = 16 \<and> ip ! 0 = 0xfe \<and> ip ! 1 AND 0xc0 = 0x80)"

definition IsLinkLocalMulticast :: "byte list \<Rightarrow> bool" where
  "IsLinkLocalMulticast ip = (case To4 ip of Some v \<Rightarrow> v ! 0 = 224 \<and> v ! 1 = 0 \<and> v ! 2 = 0
     | None \<Rightarrow> length ip = 16 \<and> ip ! 0 = 0xff \<and> ip ! 1 AND 0x0f = 0x02)"

definition IsMulticast :: "byte list \<Rightarrow> bool" where
  "IsMulticast ip = (case To4 ip of Some v \<Rightarrow> v ! 0 AND 0xf0 = 0xe0
     | None \<Rightarrow> length ip = 16 \<and> ip ! 0 = 0xff)"

definition IsUnspecified :: "byte list \<Rightarrow> bool" where
  "IsUnspecified ip \<longleftrightarrow> To4 ip = Some [0, 0, 0, 0] \<or> ip = replicate 16 0"

definition IsPrivate :: "byte list \<Rightarrow> bool" where
  "IsPrivate ip = (case To4 ip of
     Some v \<Rightarrow> v ! 0 = 10 \<or> (v ! 0 = 172 \<and> v ! 1 AND 0xf0 = 16) \<or> (v ! 0 = 192 \<and> v ! 1 = 168)
   | None \<Rightarrow> length ip = 16 \<and> ip ! 0 AND 0xfe = 0xfc)"

section \<open>The guard\<close>

definition isPrivate :: "byte list \<Rightarrow> bool" where
  "isPrivate ip = IsPrivate ip"

definition vetIP :: "byte list \<Rightarrow> string option" where
  "vetIP ip =
     (if IsLoopback ip then Some ''loopback address''
      else if IsLinkLocalUnicast ip then Some ''link-local address''
      else if IsLinkLocalMulticast ip then Some ''link-local multicast address''
      else if IsMulticast ip then Some ''multicast address''
      else if IsUnspecified ip then Some ''unspecified address''
      else if isPrivate ip then Some ''private address''
      else None)"

definition cimdMaxBody :: nat where
  "cimdMaxBody = 64 * 1024"

record network =
  nw_resolve :: "string \<Rightarrow> byte list list option"
  nw_get :: "byte list \<Rightarrow> string \<Rightarrow> string \<Rightarrow> (nat \<times> string) option"
  nw_decode :: "string \<Rightarrow> (string \<times> client_meta) option"

text \<open>The ways the fetch fails, in the order the code tests them.\<close>

datatype fetch_err =
    ParseURL | NotHTTPS | HasUserinfo | NoHostname | ResolveFailed | NoAddresses
  | SSRF "byte list" string | GetFailed | RedirectRefused nat | BadStatus nat | TooLarge
  | DecodeFailed | ClientIDMismatch string | NoRedirectURIs

text \<open>The loop over the resolved addresses: the first bad one fails the fetch.\<close>

fun vet_all :: "byte list list \<Rightarrow> fetch_err + byte list list" where
  "vet_all [] = Inr []"
| "vet_all (a # as) =
     (case vetIP a of
        Some err \<Rightarrow> Inl (SSRF a err)
      | None \<Rightarrow> (case vet_all as of Inl e \<Rightarrow> Inl e | Inr vetted \<Rightarrow> Inr (a # vetted)))"

definition check_document :: "string \<Rightarrow> (nat \<times> string) option \<Rightarrow> (string \<Rightarrow> (string \<times> client_meta) option)
    \<Rightarrow> fetch_err + client_meta" where
  "check_document metadataURL resp decode =
     (case resp of
        None \<Rightarrow> Inl GetFailed
      | Some (status, full) \<Rightarrow>
          if 300 \<le> status \<and> status < 400 then Inl (RedirectRefused status)
          else if status \<noteq> 200 then Inl (BadStatus status)
          else
            let body = take (cimdMaxBody + 1) full in
            if cimdMaxBody < length body then Inl TooLarge
            else case decode body of
                None \<Rightarrow> Inl DecodeFailed
              | Some (doc_id, meta) \<Rightarrow>
                  if doc_id \<noteq> metadataURL then Inl (ClientIDMismatch doc_id)
                  else if RedirectURIs meta = [] then Inl NoRedirectURIs
                  else Inr meta)"

definition fetchClientMetadataWithResolver :: "network \<Rightarrow> string \<Rightarrow> fetch_err + client_meta" where
  "fetchClientMetadataWithResolver net metadataURL =
     (case url_parse metadataURL of
        None \<Rightarrow> Inl ParseURL
      | Some u \<Rightarrow>
          if u_Scheme u \<noteq> ''https'' then Inl NotHTTPS
          else if u_HasUser u then Inl HasUserinfo
          else
            let host = u_hostname u in
            if host = [] then Inl NoHostname
            else case nw_resolve net host of
                None \<Rightarrow> Inl ResolveFailed
              | Some addrs \<Rightarrow>
                  if addrs = [] then Inl NoAddresses
                  else case vet_all addrs of
                      Inl e \<Rightarrow> Inl e
                    | Inr vetted \<Rightarrow>
                        let port = (if u_port u = [] then ''443'' else u_port u)
                        in check_document metadataURL (nw_get net (vetted ! 0) port metadataURL)
                             (nw_decode net))"

text \<open>\<open>fetchClientMetadata\<close> is the same with the system resolver, which the network stands for.\<close>

definition fetchClientMetadata :: "network \<Rightarrow> string \<Rightarrow> fetch_err + client_meta" where
  "fetchClientMetadata net metadataURL = fetchClientMetadataWithResolver net metadataURL"

section \<open>Lemmas\<close>

lemma vet_all_ok: "vet_all as = Inr vs \<longleftrightarrow> vs = as \<and> (\<forall>a \<in> set as. vetIP a = None)"
  by (induction as arbitrary: vs) (auto split: option.splits sum.splits)

lemma check_document_ok:
  "check_document url resp decode = Inr meta \<longleftrightarrow>
     (\<exists>body. resp = Some (200, body) \<and> length body \<le> cimdMaxBody \<and> decode body = Some (url, meta)
        \<and> RedirectURIs meta \<noteq> [])"
  by (auto simp: check_document_def Let_def split: option.splits if_splits)












section \<open>Properties\<close>


text \<open>
  C11.  A metadata document is accepted exactly when its URL is https without userinfo, every address
  its host resolves to passes the guard, the GET was sent to the first of those addresses and answered
  200 (so no redirect was followed) with at most 64 KiB, and the document names the URL it was fetched
  from as its \<open>client_id\<close> and has a redirect URI.
\<close>

theorem fetch_accepts_iff:
  "fetchClientMetadata net url = Inr meta \<longleftrightarrow>
     (\<exists>u addrs body. url_parse url = Some u \<and> u_Scheme u = ''https'' \<and> \<not> u_HasUser u
        \<and> u_hostname u \<noteq> [] \<and> nw_resolve net (u_hostname u) = Some addrs \<and> addrs \<noteq> []
        \<and> list_all (\<lambda>a. vetIP a = None) addrs
        \<and> nw_get net (hd addrs) (if u_port u = [] then ''443'' else u_port u) url = Some (200, body)
        \<and> length body \<le> 65536 \<and> nw_decode net body = Some (url, meta) \<and> RedirectURIs meta \<noteq> [])"
proof (cases "url_parse url")
  case None
  then show ?thesis by (simp add: fetchClientMetadata_def fetchClientMetadataWithResolver_def)
next
  case (Some u)
  have m: "cimdMaxBody = 65536" by (simp add: cimdMaxBody_def)
  show ?thesis
  proof (cases "u_Scheme u = ''https'' \<and> \<not> u_HasUser u \<and> u_hostname u \<noteq> []")
    case False
    with Some show ?thesis
      by (auto simp: fetchClientMetadata_def fetchClientMetadataWithResolver_def Let_def)
  next
    case ok: True
    show ?thesis
    proof (cases "nw_resolve net (u_hostname u)")
      case None
      with Some ok show ?thesis
        by (auto simp: fetchClientMetadata_def fetchClientMetadataWithResolver_def Let_def)
    next
      case addrs: (Some as)
      show ?thesis
      proof (cases "vet_all as")
        case (Inl e)
        then have "\<not> list_all (\<lambda>a. vetIP a = None) as"
          using vet_all_ok [of as as] by (auto simp: list_all_iff)
        with Some ok addrs Inl show ?thesis
          by (auto simp: fetchClientMetadata_def fetchClientMetadataWithResolver_def Let_def)
      next
        case (Inr vs)
        with vet_all_ok [of as vs] have "vs = as" "list_all (\<lambda>a. vetIP a = None) as"
          by (auto simp: list_all_iff)
        with Some ok addrs Inr show ?thesis
          by (auto simp: fetchClientMetadata_def fetchClientMetadataWithResolver_def Let_def
              check_document_ok m hd_conv_nth)
      qed
    qed
  qed
qed

end
