(* ===== verification/OAuth_Handlers.thy ===== *)
theory OAuth_Handlers
  imports OAuth_Types Safe_Fetch
begin

text \<open>
  The HTTP handlers (\<open>pkg/oauth/handlers.go\<close>) and the server around them (\<open>oauth.go\<close>), over
  any implementation of the \<open>oauthStore\<close> interface.  A handler is a function from the decoded
  request and the store's state to the new state and the response it writes.

  Parameters: \<open>bcrypt\<close> (\<open>CompareHashAndPassword\<close> accepts), the rate limiter's answer
  \<open>rq_allow\<close>, the network, and each store call's own \<open>env\<close>.  A form is the function that reads
  its first values (missing keys read as the empty string); a body that does not parse is None.
\<close>

type_synonym form = "string \<Rightarrow> string"

record server =
  srv_issuer :: string
  srv_operatorHash :: string
  srv_authorizer :: authorizer

record req_env =
  rq_lookup :: env
  rq_now :: time
  rq_allow :: bool
  rq_net :: network
  rq_cimd :: env
  rq_lookup2 :: env
  rq_op :: env

record auth_server_meta =
  Issuer :: string
  AuthorizationEndpoint :: string
  TokenEndpoint :: string
  RegistrationEndpoint :: string
  JWKSURI :: string
  ResponseTypesSupported :: "string list"
  GrantTypesSupported :: "string list"
  TokenEndpointAuthMethodsSupported :: "string list"
  ScopesSupported :: "string list"
  CodeChallengeMethodsSupported :: "string list"
  ServiceDocumentation :: string
  ClientIDMetadataDocumentSupported :: bool

text \<open>
  What a handler writes.  \<open>LoginForm\<close> holds the nine escaped arguments of the form template,
  \<open>Redirect\<close> the redirect URI and the query parameters set on it.
\<close>

datatype response =
    OAuthError nat string string
  | HttpError nat string
  | ErrorPage nat
  | LoginForm "string list"
  | Redirect string "(string \<times> string) list"
  | TokenResponse string string int string
  | Registered reg_response
  | Metadata auth_server_meta
  | ProtectedResource string
  | Body string
  | NoContent
  | NotFound

section \<open>Metadata and registration\<close>

definition authServerMetadataHandler :: "server \<Rightarrow> string \<Rightarrow> response" where
  "authServerMetadataHandler srv meth =
     (if meth = ''OPTIONS'' then NoContent
      else Metadata
        \<lparr>Issuer = srv_issuer srv,
         AuthorizationEndpoint = srv_issuer srv @ ''/oauth/authorize'',
         TokenEndpoint = srv_issuer srv @ ''/oauth/token'',
         RegistrationEndpoint = srv_issuer srv @ ''/oauth/register'',
         JWKSURI = srv_issuer srv @ ''/oauth/jwks'',
         ResponseTypesSupported = [''code''],
         GrantTypesSupported = [''authorization_code'', ''refresh_token''],
         TokenEndpointAuthMethodsSupported = [''none'', ''client_secret_post''],
         ScopesSupported = [''mcp:read''],
         CodeChallengeMethodsSupported = [''S256''],
         ServiceDocumentation = ''https://github.com/dannyota/compliary'',
         ClientIDMetadataDocumentSupported = True\<rparr>)"

definition jwksHandler :: response where
  "jwksHandler = Body ''{\"keys\":[]}''"

definition registerHandler ::
  "'s oauth_store \<Rightarrow> req_env \<Rightarrow> client_meta option \<Rightarrow> 's \<Rightarrow> 's \<times> response" where
  "registerHandler S rq body s =
     (case body of
        None \<Rightarrow> (s, OAuthError 400 ''invalid_client_metadata'' ''malformed request body'')
      | Some meta \<Rightarrow>
          if RedirectURIs meta = []
          then (s, OAuthError 400 ''invalid_client_metadata'' ''redirect_uris is required'')
          else case os_registerClient S (rq_op rq) meta s of
              (s', Inl ErrClientCapReached) \<Rightarrow>
                (s', OAuthError 503 ''temporarily_unavailable'' ''too many registered clients'')
            | (s', Inl _) \<Rightarrow> (s', OAuthError 500 ''server_error'' ''registration failed'')
            | (s', Inr resp) \<Rightarrow> (s', Registered resp))"

section \<open>Clients\<close>

definition clientMetadataFresh :: "client \<Rightarrow> string \<Rightarrow> time \<Rightarrow> bool" where
  "clientMetadataFresh c clientID now =
     (if \<not> cl_Public c \<or> \<not> has_prefix ''https://'' clientID then True
      else case cl_MetadataRefreshedAt c of None \<Rightarrow> False | Some t \<Rightarrow> now < t + cimdMetadataTTL)"

definition resolveClient ::
  "'s oauth_store \<Rightarrow> req_env \<Rightarrow> string \<Rightarrow> 's \<Rightarrow> 's \<times> (store_err + client option)" where
  "resolveClient S rq clientID s =
     (case os_lookupClient S (rq_lookup rq) clientID s of
        Inl err \<Rightarrow> (s, Inl err)
      | Inr found \<Rightarrow>
          if (case found of None \<Rightarrow> False | Some c \<Rightarrow> clientMetadataFresh c clientID (rq_now rq))
          then (s, Inr found)
          else if \<not> has_prefix ''https://'' clientID then (s, Inr None)
          else if \<not> rq_allow rq then (s, Inr None)
          else case fetchClientMetadata (rq_net rq) clientID of
              Inl _ \<Rightarrow> (s, Inr None)
            | Inr meta \<Rightarrow>
                (case os_registerCIMDClient S (rq_cimd rq) clientID meta s of
                   (s', Inl ErrClientCapReached) \<Rightarrow> (s', Inr None)
                 | (s', Inl err) \<Rightarrow> (s', Inl err)
                 | (s', Inr _) \<Rightarrow> (s', os_lookupClient S (rq_lookup2 rq) clientID s')))"

definition loopback_host :: "string \<Rightarrow> bool" where
  "loopback_host h \<longleftrightarrow> h = ''localhost'' \<or> h = ''127.0.0.1''"

definition matchRedirectURI :: "string list \<Rightarrow> string \<Rightarrow> bool" where
  "matchRedirectURI registered presented =
     (if presented \<in> set registered then True
      else case url_parse presented of
          None \<Rightarrow> False
        | Some pu \<Rightarrow>
            if \<not> loopback_host (u_hostname pu) then False
            else list_ex (\<lambda>reg. case url_parse reg of
                     None \<Rightarrow> False
                   | Some ru \<Rightarrow> loopback_host (u_hostname ru) \<and> u_Scheme ru = u_Scheme pu
                       \<and> u_Path ru = u_Path pu) registered)"

definition supportedScopes :: "string set" where
  "supportedScopes = {''mcp:read''}"

definition validScope :: "string \<Rightarrow> bool" where
  "validScope scope = list_all (\<lambda>x. x \<in> supportedScopes) (str_fields scope)"

section \<open>The authorization endpoint\<close>

definition authorizeGet ::
  "'s oauth_store \<Rightarrow> req_env \<Rightarrow> form \<Rightarrow> 's \<Rightarrow> 's \<times> response" where
  "authorizeGet S rq q s =
     (let responseType = q ''response_type''; clientID = q ''client_id'';
          redirectURI = q ''redirect_uri''; codeChallenge = q ''code_challenge'';
          challengeMethod = q ''code_challenge_method''; state = q ''state'';
          resource = q ''resource'' in
      if responseType \<noteq> ''code''
      then (s, HttpError 400 (''unsupported_response_type: must be '' @ [CHR 0x27] @ ''code'' @ [CHR 0x27]))
      else if challengeMethod \<noteq> ''S256''
      then (s, HttpError 400 ''invalid_request: code_challenge_method must be S256'')
      else if codeChallenge = []
      then (s, HttpError 400 ''invalid_request: code_challenge is required'')
      else case resolveClient S rq clientID s of
          (s', Inl _) \<Rightarrow> (s', HttpError 500 ''server_error: client lookup failed'')
        | (s', Inr None) \<Rightarrow> (s', HttpError 400 ''invalid_request: unknown client_id'')
        | (s', Inr (Some c)) \<Rightarrow>
            if \<not> matchRedirectURI (cl_RedirectURIs c) redirectURI
            then (s', HttpError 400 ''invalid_request: redirect_uri not registered'')
            else
              let scope = (if q ''scope'' = [] then ''mcp:read'' else q ''scope'') in
              if \<not> validScope scope
              then (s', HttpError 400 ''invalid_scope: unsupported scope requested'')
              else (s', LoginForm (map html_escape [responseType, clientID, redirectURI,
                      codeChallenge, challengeMethod, state, scope, cl_Name c, resource])))"

definition local_operator :: principal where
  "local_operator = \<lparr>Provider = ''local'', Subject = ''operator'', Email = [], EmailVerified = False\<rparr>"

definition authorizePost ::
  "(string \<Rightarrow> string \<Rightarrow> bool) \<Rightarrow> 's oauth_store \<Rightarrow> server \<Rightarrow> req_env \<Rightarrow> form option \<Rightarrow> 's
     \<Rightarrow> 's \<times> response" where
  "authorizePost bcrypt S srv rq parsed s =
     (case parsed of
        None \<Rightarrow> (s, HttpError 400 ''invalid_request: malformed form'')
      | Some q \<Rightarrow>
        let password = q ''password''; clientID = q ''client_id'';
            redirectURI = q ''redirect_uri''; codeChallenge = q ''code_challenge'';
            challengeMethod = q ''code_challenge_method''; state = q ''state'' in
        if challengeMethod \<noteq> ''S256''
        then (s, HttpError 400 ''invalid_request: code_challenge_method must be S256'')
        else if codeChallenge = []
        then (s, HttpError 400 ''invalid_request: code_challenge is required'')
        else if \<not> bcrypt (srv_operatorHash srv) password then (s, ErrorPage 403)
        else if \<not> srv_authorizer srv local_operator then (s, ErrorPage 403)
        else case resolveClient S rq clientID s of
            (s', Inl _) \<Rightarrow> (s', HttpError 500 ''server_error: client lookup failed'')
          | (s', Inr None) \<Rightarrow> (s', HttpError 400 ''invalid_request: unknown client_id'')
          | (s', Inr (Some c)) \<Rightarrow>
              if \<not> matchRedirectURI (cl_RedirectURIs c) redirectURI
              then (s', HttpError 400 ''invalid_request: redirect_uri not registered'')
              else
                let scope = (if q ''scope'' = [] then ''mcp:read'' else q ''scope'') in
                if \<not> validScope scope
                then (s', HttpError 400 ''invalid_scope: unsupported scope requested'')
                else case os_createCode S (rq_op rq) clientID redirectURI codeChallenge
                            challengeMethod scope local_operator s' of
                    (s2, Inl _) \<Rightarrow> (s2, HttpError 500 ''server_error: authorization could not be saved'')
                  | (s2, Inr code) \<Rightarrow>
                      if url_parse redirectURI = None
                      then (s2, HttpError 400 ''invalid_request: bad redirect_uri'')
                      else (s2, Redirect redirectURI
                              ([(''code'', code)] @ (if state \<noteq> [] then [(''state'', state)] else [])
                               @ [(''iss'', srv_issuer srv)])))"

section \<open>The token endpoint\<close>

definition authenticateClient ::
  "(string \<Rightarrow> byte list) \<Rightarrow> 's oauth_store \<Rightarrow> req_env \<Rightarrow> form \<Rightarrow> 's
     \<Rightarrow> store_err + (client option \<times> string)" where
  "authenticateClient H S rq q s =
     (case os_lookupClient S (rq_lookup rq) (q ''client_id'') s of
        Inl err \<Rightarrow> Inl err
      | Inr None \<Rightarrow> Inr (None, ''unknown client_id'')
      | Inr (Some c) \<Rightarrow>
          if cl_Public c then Inr (Some c, [])
          else if cl_SecretHash c \<noteq> H (q ''client_secret'') then Inr (None, ''bad client_secret'')
          else Inr (Some c, []))"

definition writeTokenResponse :: "token_grant \<Rightarrow> response" where
  "writeTokenResponse g = TokenResponse (tg_access g) (tg_refresh g) (tg_expires_in g) (tg_scope g)"

definition handleAuthCodeGrant ::
  "(string \<Rightarrow> byte list) \<Rightarrow> 's oauth_store \<Rightarrow> req_env \<Rightarrow> form \<Rightarrow> 's \<Rightarrow> 's \<times> response" where
  "handleAuthCodeGrant H S rq q s =
     (case authenticateClient H S rq q s of
        Inl _ \<Rightarrow> (s, OAuthError 500 ''server_error'' ''client lookup failed'')
      | Inr (None, errMsg) \<Rightarrow> (s, OAuthError 401 ''invalid_client'' errMsg)
      | Inr (Some c, _) \<Rightarrow>
          let code = q ''code''; redirectURI = q ''redirect_uri''; codeVerifier = q ''code_verifier'' in
          if codeVerifier = []
          then (s, OAuthError 400 ''invalid_grant'' ''code_verifier is required'')
          else if length codeVerifier < 43 \<or> 128 < length codeVerifier
          then (s, OAuthError 400 ''invalid_grant'' ''code_verifier must be 43-128 characters'')
          else case os_exchangeCode S (rq_op rq) code (cl_ID c) redirectURI codeVerifier s of
              (s', Inl _) \<Rightarrow> (s', OAuthError 500 ''server_error'' ''authorization code exchange failed'')
            | (s', Inr None) \<Rightarrow>
                (s', OAuthError 400 ''invalid_grant'' ''invalid or expired authorization code'')
            | (s', Inr (Some g)) \<Rightarrow> (s', writeTokenResponse g))"

definition handleRefreshGrant ::
  "(string \<Rightarrow> byte list) \<Rightarrow> 's oauth_store \<Rightarrow> server \<Rightarrow> req_env \<Rightarrow> form \<Rightarrow> 's \<Rightarrow> 's \<times> response" where
  "handleRefreshGrant H S srv rq q s =
     (case authenticateClient H S rq q s of
        Inl _ \<Rightarrow> (s, OAuthError 500 ''server_error'' ''client lookup failed'')
      | Inr (None, errMsg) \<Rightarrow> (s, OAuthError 401 ''invalid_client'' errMsg)
      | Inr (Some c, _) \<Rightarrow>
          (case os_rotateRefresh S (rq_op rq) (q ''refresh_token'') (cl_ID c) (Some (srv_authorizer srv)) s of
             (s', Inl _) \<Rightarrow> (s', OAuthError 500 ''server_error'' ''refresh failed'')
           | (s', Inr None) \<Rightarrow>
               (s', OAuthError 400 ''invalid_grant'' ''invalid or expired refresh token'')
           | (s', Inr (Some g)) \<Rightarrow> (s', writeTokenResponse g)))"

definition tokenHandler ::
  "(string \<Rightarrow> byte list) \<Rightarrow> 's oauth_store \<Rightarrow> server \<Rightarrow> req_env \<Rightarrow> form option \<Rightarrow> 's
     \<Rightarrow> 's \<times> response" where
  "tokenHandler H S srv rq parsed s =
     (case parsed of
        None \<Rightarrow> (s, OAuthError 400 ''invalid_request'' ''malformed form body'')
      | Some q \<Rightarrow>
          if q ''grant_type'' = ''authorization_code'' then handleAuthCodeGrant H S rq q s
          else if q ''grant_type'' = ''refresh_token'' then handleRefreshGrant H S srv rq q s
          else (s, OAuthError 400 ''unsupported_grant_type''
                  ''grant_type must be authorization_code or refresh_token''))"

end
