(* ===== verification/OAuth_Server.thy ===== *)
theory OAuth_Server
  imports OAuth_Handlers
begin

text \<open>
  The server of \<open>pkg/oauth/oauth.go\<close>: construction with options, routing, the token verifiers, and
  the evictor's ticks.  Everything that happens to a running server is an \<open>event\<close>; a run is a list
  of events.
\<close>

section \<open>Construction\<close>

text \<open>\<open>WithAuthorizer\<close> ignores a nil authorizer.\<close>

definition WithAuthorizer :: "authorizer option \<Rightarrow> server \<Rightarrow> server" where
  "WithAuthorizer authorizer srv =
     (case authorizer of None \<Rightarrow> srv | Some a \<Rightarrow> srv\<lparr>srv_authorizer := a\<rparr>)"

definition newServer :: "string \<Rightarrow> string \<Rightarrow> (server \<Rightarrow> server) list \<Rightarrow> server" where
  "newServer issuer operatorHash opts =
     foldl (\<lambda>s opt. opt s)
       \<lparr>srv_issuer = issuer, srv_operatorHash = operatorHash, srv_authorizer = AllowAllAuthorizer\<rparr> opts"

section \<open>Verifying access tokens\<close>

definition splitScope :: "string \<Rightarrow> string list" where
  "splitScope scope = (if scope = [] then [] else str_fields scope)"

record token_info =
  ti_Scopes :: "string list"
  ti_Expiration :: time

text \<open>All failures wrap \<open>auth.ErrInvalidToken\<close>; the string is the rest of the message.\<close>

definition TokenVerifier ::
  "'s oauth_store \<Rightarrow> server \<Rightarrow> env \<Rightarrow> env \<Rightarrow> string \<Rightarrow> 's \<Rightarrow> 's \<times> (string + token_info)" where
  "TokenVerifier S srv e1 e2 accessToken s =
     (case os_lookupToken S e1 accessToken s of
        (s1, Inl _) \<Rightarrow> (s1, Inl ''token verification unavailable'')
      | (s1, Inr None) \<Rightarrow> (s1, Inl ''unknown or expired token'')
      | (s1, Inr (Some te)) \<Rightarrow>
          if \<not> srv_authorizer srv (te_Principal te) then (s1, Inl ''principal is not authorized'')
          else (case os_renewToken S e2 accessToken s1 of
              (s2, Inl _) \<Rightarrow> (s2, Inl ''token verification unavailable'')
            | (s2, Inr None) \<Rightarrow> (s2, Inl ''unknown, expired, or revoked token'')
            | (s2, Inr (Some te')) \<Rightarrow>
                (s2, Inr \<lparr>ti_Scopes = splitScope (te_Scope te'), ti_Expiration = te_ExpiresAt te'\<rparr>)))"

definition BearerFallback ::
  "'s oauth_store \<Rightarrow> server \<Rightarrow> env \<Rightarrow> env \<Rightarrow> time \<Rightarrow> string \<Rightarrow> string \<Rightarrow> 's
     \<Rightarrow> 's \<times> (string + token_info)" where
  "BearerFallback S srv e1 e2 now staticToken bearer s =
     (case TokenVerifier S srv e1 e2 bearer s of
        (s1, Inr info) \<Rightarrow> (s1, Inr info)
      | (s1, Inl _) \<Rightarrow>
          if bearer = staticToken
          then (s1, Inr \<lparr>ti_Scopes = [''mcp:read''], ti_Expiration = now + tokenIdleTTL\<rparr>)
          else (s1, Inl ''invalid token''))"

section \<open>Routing\<close>

record request =
  r_Method :: string
  r_Path :: string
  r_Query :: form
  r_Form :: "form option"
  r_Meta :: "client_meta option"

definition authorizeHandler ::
  "(string \<Rightarrow> string \<Rightarrow> bool) \<Rightarrow> 's oauth_store \<Rightarrow> server \<Rightarrow> req_env \<Rightarrow> request \<Rightarrow> 's
     \<Rightarrow> 's \<times> response" where
  "authorizeHandler bcrypt S srv rq r s =
     (if r_Method r = ''GET'' then authorizeGet S rq (r_Query r) s
      else if r_Method r = ''POST'' then authorizePost bcrypt S srv rq (r_Form r) s
      else (s, HttpError 405 ''Method not allowed''))"

text \<open>
  The mux: a pattern with a method answers 405 to the others (a GET pattern also serves HEAD).
\<close>

definition route :: "string \<Rightarrow> string \<Rightarrow> 's \<times> response \<Rightarrow> 's \<Rightarrow> 's \<times> response" where
  "route want meth answer s =
     (if meth = want \<or> (want = ''GET'' \<and> meth = ''HEAD'') then answer
      else (s, HttpError 405 ''Method Not Allowed''))"

definition Handler ::
  "(string \<Rightarrow> byte list) \<Rightarrow> (string \<Rightarrow> string \<Rightarrow> bool) \<Rightarrow> 's oauth_store \<Rightarrow> server \<Rightarrow> req_env
     \<Rightarrow> request \<Rightarrow> 's \<Rightarrow> 's \<times> response" where
  "Handler H bcrypt S srv rq r s =
     (if r_Path r = ''/.well-known/oauth-protected-resource''
      then route ''GET'' (r_Method r) (s, ProtectedResource (srv_issuer srv)) s
      else if r_Path r = ''/.well-known/oauth-authorization-server''
      then route ''GET'' (r_Method r) (s, authServerMetadataHandler srv (r_Method r)) s
      else if r_Path r = ''/oauth/jwks'' then route ''GET'' (r_Method r) (s, jwksHandler) s
      else if r_Path r = ''/oauth/register''
      then route ''POST'' (r_Method r) (registerHandler S rq (r_Meta r) s) s
      else if r_Path r = ''/oauth/authorize'' then authorizeHandler bcrypt S srv rq r s
      else if r_Path r = ''/oauth/token''
      then route ''POST'' (r_Method r) (tokenHandler H S srv rq (r_Form r) s) s
      else (s, NotFound))"

section \<open>Runs of the server\<close>

datatype event =
    Request req_env request
  | Verify env env string
  | Tick env

datatype outcome = Response response | Verified "string + token_info" | Ticked

fun server_step ::
  "(string \<Rightarrow> byte list) \<Rightarrow> (string \<Rightarrow> string \<Rightarrow> bool) \<Rightarrow> 's oauth_store \<Rightarrow> server \<Rightarrow> event \<Rightarrow> 's
     \<Rightarrow> 's \<times> outcome" where
  "server_step H bcrypt S srv (Request rq r) s = map_prod id Response (Handler H bcrypt S srv rq r s)"
| "server_step H bcrypt S srv (Verify e1 e2 tok) s = map_prod id Verified (TokenVerifier S srv e1 e2 tok s)"
| "server_step H bcrypt S srv (Tick e) s = (fst (os_evict S e s), Ticked)"

fun server_run ::
  "(string \<Rightarrow> byte list) \<Rightarrow> (string \<Rightarrow> string \<Rightarrow> bool) \<Rightarrow> 's oauth_store \<Rightarrow> server \<Rightarrow> event list \<Rightarrow> 's
     \<Rightarrow> 's \<times> outcome list" where
  "server_run H bcrypt S srv [] s = (s, [])"
| "server_run H bcrypt S srv (x # xs) s =
     (let (s1, o1) = server_step H bcrypt S srv x s; (s2, os) = server_run H bcrypt S srv xs s1
      in (s2, o1 # os))"

end
