(* ===== verification/OAuth_Server_Props.thy ===== *)
theory OAuth_Server_Props
  imports OAuth_Server
begin

text \<open>
  What the handlers guarantee, over any store: every change a server event makes is a list of store
  calls, and the calls are guarded (a code is minted only under S256, for a supported scope, after
  the password check).  From this, what a verified token of either store can carry.
\<close>

section \<open>Handlers as store calls\<close>

text \<open>The guard a store call of an event has passed.\<close>

definition event_password :: "event \<Rightarrow> string option" where
  "event_password ev = (case ev of Request rq r \<Rightarrow> map_option (\<lambda>q. q ''password'') (r_Form r) | _ \<Rightarrow> None)"

fun op_guarded :: "(string \<Rightarrow> string \<Rightarrow> bool) \<Rightarrow> server \<Rightarrow> event \<Rightarrow> store_op \<Rightarrow> bool" where
  "op_guarded bcrypt srv ev (CreateCode e c r ch m sc p) \<longleftrightarrow>
     m = ''S256'' \<and> ch \<noteq> [] \<and> validScope sc \<and> p = local_operator
     \<and> srv_authorizer srv p
     \<and> (case event_password ev of None \<Rightarrow> False | Some pw \<Rightarrow> bcrypt (srv_operatorHash srv) pw)"
| "op_guarded bcrypt srv ev (ExchangeCode e k c r v) \<longleftrightarrow> 43 \<le> length v \<and> length v \<le> 128"
| "op_guarded bcrypt srv ev (RotateRefresh e t c a) \<longleftrightarrow> a = Some (srv_authorizer srv)"
| "op_guarded bcrypt srv ev (RegisterClient e m) \<longleftrightarrow> RedirectURIs m \<noteq> []"
| "op_guarded bcrypt srv ev (RegisterCIMD e c m) \<longleftrightarrow> RedirectURIs m \<noteq> [] \<and> has_prefix ''https://'' c"
| "op_guarded bcrypt srv ev _ \<longleftrightarrow> True"

definition reaches :: "(string \<Rightarrow> string \<Rightarrow> bool) \<Rightarrow> server \<Rightarrow> event \<Rightarrow> 's oauth_store \<Rightarrow> 's \<Rightarrow> 's \<Rightarrow> bool" where
  "reaches bcrypt srv ev S s s' \<longleftrightarrow>
     (\<exists>ops. s' = fst (store_run S ops s) \<and> list_all (op_guarded bcrypt srv ev) ops)"

lemma reaches_refl [simp, intro]: "reaches bcrypt srv ev S s s"
  unfolding reaches_def by (rule exI [of _ "[]"]) simp

lemma reaches_op:
  "op_guarded bcrypt srv ev x \<Longrightarrow> reaches bcrypt srv ev S s s1 \<Longrightarrow>
     reaches bcrypt srv ev S s (fst (store_step S x s1))"
  unfolding reaches_def
proof (elim exE conjE)
  fix ops assume "op_guarded bcrypt srv ev x" "s1 = fst (store_run S ops s)" "list_all (op_guarded bcrypt srv ev) ops"
  then show "\<exists>ops. fst (store_step S x s1) = fst (store_run S ops s) \<and> list_all (op_guarded bcrypt srv ev) ops"
    by (intro exI [of _ "ops @ [x]"]) (simp add: store_run_append split_beta)
qed

lemma reaches_register:
  "os_registerClient S e m s = (s', r) \<Longrightarrow> RedirectURIs m \<noteq> [] \<Longrightarrow> reaches bcrypt srv ev S s s'"
  using reaches_op [of bcrypt srv ev "RegisterClient e m" S s s] by simp

lemma reaches_cimd:
  "os_registerCIMDClient S e c m s = (s', r) \<Longrightarrow> RedirectURIs m \<noteq> [] \<Longrightarrow> has_prefix ''https://'' c \<Longrightarrow>
     reaches bcrypt srv ev S s s'"
  using reaches_op [of bcrypt srv ev "RegisterCIMD e c m" S s s] by simp

lemma reaches_create:
  "os_createCode S e c r ch m sc p s1 = (s', res) \<Longrightarrow>
     op_guarded bcrypt srv ev (CreateCode e c r ch m sc p) \<Longrightarrow>
     reaches bcrypt srv ev S s s1 \<Longrightarrow> reaches bcrypt srv ev S s s'"
  using reaches_op [of bcrypt srv ev "CreateCode e c r ch m sc p" S s s1] by (simp del: op_guarded.simps)

lemma reaches_exchange:
  "os_exchangeCode S e k c r v s = (s', res) \<Longrightarrow> 43 \<le> length v \<Longrightarrow> length v \<le> 128 \<Longrightarrow>
     reaches bcrypt srv ev S s s'"
  using reaches_op [of bcrypt srv ev "ExchangeCode e k c r v" S s s] by simp

lemma reaches_rotate:
  "os_rotateRefresh S e t c (Some (srv_authorizer srv)) s = (s', res) \<Longrightarrow> reaches bcrypt srv ev S s s'"
  using reaches_op [of bcrypt srv ev "RotateRefresh e t c (Some (srv_authorizer srv))" S s s] by simp

lemma reaches_lookup:
  "os_lookupToken S e t s = (s', res) \<Longrightarrow> reaches bcrypt srv ev S s s'"
  using reaches_op [of bcrypt srv ev "LookupToken e t" S s s] by simp

lemma reaches_renew:
  "os_renewToken S e t s1 = (s', res) \<Longrightarrow> reaches bcrypt srv ev S s s1 \<Longrightarrow> reaches bcrypt srv ev S s s'"
  using reaches_op [of bcrypt srv ev "RenewToken e t" S s s1] by simp

lemmas reaches_intros = reaches_register reaches_cimd reaches_create reaches_exchange reaches_rotate
  reaches_lookup reaches_renew

section \<open>Each handler\<close>

lemma fetch_meta_redirects: "fetchClientMetadata net u = Inr meta \<Longrightarrow> RedirectURIs meta \<noteq> []"
  by (auto simp: fetchClientMetadata_def fetchClientMetadataWithResolver_def Let_def check_document_ok
      split: option.splits if_splits sum.splits)

lemma resolve_reaches:
  assumes "resolveClient S rq cid s = (s', r)"
  shows "reaches bcrypt srv ev S s s'"
proof (cases "fetchClientMetadata (rq_net rq) cid")
  case (Inl e)
  with assms show ?thesis
    by (auto simp: resolveClient_def split: sum.splits if_splits option.splits)
next
  case (Inr meta)
  note m = fetch_meta_redirects [OF Inr]
  obtain s1 q where reg: "os_registerCIMDClient S (rq_cimd rq) cid meta s = (s1, q)" by fastforce
  then have "has_prefix ''https://'' cid \<Longrightarrow> reaches bcrypt srv ev S s s1" using m by (rule reaches_cimd)
  moreover have "s' = s \<or> (has_prefix ''https://'' cid \<and> s' = s1)"
    using assms Inr reg
    by (auto simp: resolveClient_def split: sum.splits if_splits option.splits store_err.splits)
  ultimately show ?thesis by auto
qed

lemma register_reaches:
  "registerHandler S rq body s = (s', r) \<Longrightarrow> reaches bcrypt srv ev S s s'"
  by (auto simp: registerHandler_def intro: reaches_register
      split: option.splits if_splits prod.splits sum.splits store_err.splits)

lemma authorizeGet_reaches:
  "authorizeGet S rq q s = (s', r) \<Longrightarrow> reaches bcrypt srv ev S s s'"
  by (auto simp: authorizeGet_def Let_def intro: resolve_reaches
      split: option.splits if_splits prod.splits sum.splits)

lemma authenticate_state:
  "handleAuthCodeGrant H S rq q s = (s', r) \<Longrightarrow> reaches bcrypt srv ev S s s'"
  by (auto simp: handleAuthCodeGrant_def Let_def intro: reaches_exchange
      split: option.splits if_splits prod.splits sum.splits)

lemma refresh_reaches:
  "handleRefreshGrant H S srv rq q s = (s', r) \<Longrightarrow> reaches bcrypt srv ev S s s'"
  by (auto simp: handleRefreshGrant_def intro: reaches_rotate
      split: option.splits if_splits prod.splits sum.splits)

lemma token_reaches:
  "tokenHandler H S srv rq body s = (s', r) \<Longrightarrow> reaches bcrypt srv ev S s s'"
  by (auto simp: tokenHandler_def intro: authenticate_state refresh_reaches split: option.splits if_splits)

lemma verifier_reaches:
  "TokenVerifier S srv e1 e2 tok s = (s', r) \<Longrightarrow> reaches bcrypt srv ev S s s'"
  by (auto simp: TokenVerifier_def intro: reaches_lookup reaches_renew
      split: option.splits if_splits prod.splits sum.splits)

lemma authorizePost_reaches:
  assumes post: "authorizePost bcrypt S srv rq (r_Form r) s = (s', res)"
  shows "reaches bcrypt srv (Request rq r) S s s'"
proof (cases "r_Form r")
  case None
  with post show ?thesis by (simp add: authorizePost_def)
next
  case (Some q)
  let ?pass = "q ''code_challenge_method'' = ''S256'' \<and> q ''code_challenge'' \<noteq> []
    \<and> bcrypt (srv_operatorHash srv) (q ''password'') \<and> srv_authorizer srv local_operator"
  show ?thesis
  proof (cases ?pass)
    case False
    with post Some have "s' = s"
      by (simp add: authorizePost_def Let_def split: if_split_asm)
    then show ?thesis by simp
  next
    case True
    obtain s1 c where res: "resolveClient S rq (q ''client_id'') s = (s1, c)" by fastforce
    then have r1: "reaches bcrypt srv (Request rq r) S s s1" by (rule resolve_reaches)
    let ?sc = "if q ''scope'' = [] then ''mcp:read'' else q ''scope''"
    obtain s2 k where crt: "os_createCode S (rq_op rq) (q ''client_id'') (q ''redirect_uri'')
        (q ''code_challenge'') ''S256'' ?sc local_operator s1 = (s2, k)" by fastforce
    have "validScope ?sc \<Longrightarrow> reaches bcrypt srv (Request rq r) S s s2"
      using reaches_create [OF crt _ r1] True Some by (simp add: event_password_def)
    moreover have "s' = s1 \<or> (validScope ?sc \<and> s' = s2)"
      using post Some True res crt unfolding authorizePost_def
      by (auto simp: Let_def split: option.splits if_splits sum.splits)
    ultimately show ?thesis using r1 by auto
  qed
qed

lemma handler_reaches:
  "Handler H bcrypt S srv rq r s = (s', res) \<Longrightarrow> reaches bcrypt srv (Request rq r) S s s'"
  by (auto simp: Handler_def route_def authorizeHandler_def split: if_splits
      intro: register_reaches authorizeGet_reaches authorizePost_reaches token_reaches)

lemma step_reaches: "reaches bcrypt srv ev S s (fst (server_step H bcrypt S srv ev s))"
proof (cases ev)
  case (Request rq r)
  then show ?thesis using handler_reaches [of H bcrypt S srv rq r s "fst (Handler H bcrypt S srv rq r s)"
      "snd (Handler H bcrypt S srv rq r s)"] by simp
next
  case (Verify e1 e2 tok)
  then show ?thesis using verifier_reaches [of S srv e1 e2 tok s "fst (TokenVerifier S srv e1 e2 tok s)"
      "snd (TokenVerifier S srv e1 e2 tok s)"] by simp
next
  case (Tick e)
  then show ?thesis using reaches_op [of bcrypt srv ev "Evict e" S s s] by simp
qed

text \<open>An invariant of the guarded store calls is an invariant of the server.\<close>

lemma store_run_inv:
  assumes step: "\<And>x s. I s \<Longrightarrow> Q x \<Longrightarrow> I (fst (store_step S x s))"
  shows "I s \<Longrightarrow> list_all Q ops \<Longrightarrow> I (fst (store_run S ops s))"
  by (induction ops arbitrary: s) (auto simp: split_beta intro: step)

lemma server_inv:
  assumes step: "\<And>ev x s. I s \<Longrightarrow> op_guarded bcrypt srv ev x \<Longrightarrow> I (fst (store_step S x s))"
  shows "I s \<Longrightarrow> I (fst (server_run H bcrypt S srv evs s))"
proof (induction evs arbitrary: s)
  case (Cons ev evs)
  obtain ops where o: "fst (server_step H bcrypt S srv ev s) = fst (store_run S ops s)"
    "list_all (op_guarded bcrypt srv ev) ops"
    using step_reaches [of bcrypt srv ev S s H] by (auto simp: reaches_def)
  have "I (fst (store_run S ops s))"
    by (rule store_run_inv [where Q = "op_guarded bcrypt srv ev"]) (use step Cons.prems o in auto)
  with Cons.IH o show ?case by (simp add: split_beta)
qed simp

text \<open>What every event of a run returns, from an invariant.\<close>

lemma server_outcomes:
  assumes step: "\<And>ev x s. I s \<Longrightarrow> op_guarded bcrypt srv ev x \<Longrightarrow> I (fst (store_step S x s))"
    and out: "\<And>ev s. I s \<Longrightarrow> P (snd (server_step H bcrypt S srv ev s))"
  shows "I s \<Longrightarrow> list_all P (snd (server_run H bcrypt S srv evs s))"
proof (induction evs arbitrary: s)
  case (Cons ev evs)
  have "I (fst (server_run H bcrypt S srv [ev] s))" by (rule server_inv [OF step Cons.prems])
  then have "I (fst (server_step H bcrypt S srv ev s))" by (simp add: split_beta)
  with Cons show ?case by (simp add: split_beta out)
qed simp

definition read_only :: "string list \<Rightarrow> bool" where
  "read_only ts = list_all (\<lambda>t. t = ''mcp:read'') ts"

definition scopes_ok :: "outcome \<Rightarrow> bool" where
  "scopes_ok out = (case out of Verified (Inr ti) \<Rightarrow> read_only (ti_Scopes ti) | _ \<Rightarrow> True)"

lemma validScope_fields: "validScope sc \<Longrightarrow> read_only (str_fields sc)"
  by (auto simp: validScope_def supportedScopes_def list_all_iff read_only_def)

lemma splitScope_valid: "validScope sc \<Longrightarrow> read_only (splitScope sc)"
  using validScope_fields by (simp add: splitScope_def read_only_def)

lemma mcp_read_token: "is_token ''mcp:read''"
proof -
  have "list_all (\<lambda>i. space_len (drop i ''mcp:read'') = 0) [0..<8]" by code_simp
  then show ?thesis by (simp add: is_token_def list_all_iff del: drop_Cons')
qed

lemma splitScope_join:
  assumes "read_only ts"
  shows "read_only (splitScope (join '' '' ts))"
proof -
  have "list_all is_token ts" using assms mcp_read_token by (auto simp: list_all_iff read_only_def)
  then show ?thesis using assms by (auto simp: splitScope_def str_fields_join read_only_def)
qed

section \<open>Properties\<close>

text \<open>
  C7.  Whatever event a server handles, over any store, its effect on the store is a list of store
  calls that have all passed their guards: a code is minted only for a POST whose password the
  operator hash accepts, by an authorized operator, with an S256 challenge and supported scopes; a
  code is presented only with a verifier of 43 to 128 bytes; a refresh is authorized again; only
  clients with a redirect URI are registered, by metadata document only under an https identifier.
\<close>

theorem server_step_guarded:
  "\<exists>ops. fst (server_step H bcrypt S srv ev s) = fst (store_run S ops s)
     \<and> list_all (op_guarded bcrypt srv ev) ops"
  using step_reaches [of bcrypt srv ev S s H] by (simp add: reaches_def)

text \<open>
  A login POST redirects exactly when it carries an S256 challenge, the right password, a known
  client with a matching redirect URI and a supported scope, and the store saved the code; it
  redirects to the presented URI with the code, the state (if any) and the issuer.
\<close>

lemma authorizePost_redirects_iff:
  "authorizePost bcrypt S srv rq (Some q) s = (s', Redirect u ps) \<longleftrightarrow>
     q ''code_challenge_method'' = ''S256'' \<and> q ''code_challenge'' \<noteq> []
     \<and> bcrypt (srv_operatorHash srv) (q ''password'') \<and> srv_authorizer srv local_operator
     \<and> (\<exists>s1 c k sc. resolveClient S rq (q ''client_id'') s = (s1, Inr (Some c))
          \<and> matchRedirectURI (cl_RedirectURIs c) (q ''redirect_uri'')
          \<and> sc = (if q ''scope'' = [] then ''mcp:read'' else q ''scope'') \<and> validScope sc
          \<and> os_createCode S (rq_op rq) (q ''client_id'') (q ''redirect_uri'') (q ''code_challenge'')
              ''S256'' sc local_operator s1 = (s', Inr k)
          \<and> url_parse (q ''redirect_uri'') \<noteq> None \<and> u = q ''redirect_uri''
          \<and> ps = [(''code'', k)] @ (if q ''state'' = [] then [] else [(''state'', q ''state'')])
                 @ [(''iss'', srv_issuer srv)])"
  unfolding authorizePost_def
  by (cases "q ''state'' = []") (auto simp: Let_def split: option.splits prod.splits sum.splits)

text \<open>
  The login form shows nothing of the request unescaped: no argument of the page template holds
  an angle bracket or a quote.
\<close>

lemma login_form_escaped:
  "case snd (authorizeGet S rq q s) of LoginForm args \<Rightarrow> list_all (list_all html_safe) args | _ \<Rightarrow> True"
  by (auto simp: authorizeGet_def Let_def html_escape_safe split: prod.splits sum.splits option.splits)

text \<open>
  The preflight branch of the metadata handler is never reached: the route only takes GET, and
  an OPTIONS request is answered 405.
\<close>

lemma metadata_preflight_unreachable:
  "Handler H bcrypt S srv rq \<lparr>r_Method = ''OPTIONS'', r_Path = ''/.well-known/oauth-authorization-server'',
     r_Query = qs, r_Form = f, r_Meta = m\<rparr> s = (s, HttpError 405 ''Method Not Allowed'')"
  by (simp add: Handler_def route_def)

end
