(* ===== verification/OAuth_Server_Claims.thy ===== *)
theory OAuth_Server_Claims
  imports OAuth_Server_Props OAuth_Store_Props OAuth_Pg_Props
begin

text \<open>The properties of the running server over its two stores.\<close>

section \<open>Scopes\<close>

definition mem_scoped :: "store \<Rightarrow> bool" where
  "mem_scoped s \<longleftrightarrow>
     fmpred (\<lambda>_ v. validScope (ac_Scope v)) (codes s)
     \<and> fmpred (\<lambda>_ v. validScope (te_Scope v)) (tokens s)
     \<and> fmpred (\<lambda>_ v. validScope (re_Scope v)) (refresh s)"

lemma mem_scopedI:
  assumes "\<And>k v. fmlookup (codes s) k = Some v \<Longrightarrow> validScope (ac_Scope v)"
    and "\<And>k v. fmlookup (tokens s) k = Some v \<Longrightarrow> validScope (te_Scope v)"
    and "\<And>k v. fmlookup (refresh s) k = Some v \<Longrightarrow> validScope (re_Scope v)"
  shows "mem_scoped s"
  using assms by (simp add: mem_scoped_def fmpred_iff)

lemma mem_scopedD:
  assumes "mem_scoped s"
  shows "fmlookup (codes s) k = Some ac \<Longrightarrow> validScope (ac_Scope ac)"
    and "fmlookup (tokens s) k = Some te \<Longrightarrow> validScope (te_Scope te)"
    and "fmlookup (refresh s) k = Some re \<Longrightarrow> validScope (re_Scope re)"
  using assms by (auto simp: mem_scoped_def fmpred_iff)

lemma mem_scoped_step:
  assumes inv: "mem_scoped s" and g: "op_guarded bcrypt srv ev x"
  shows "mem_scoped (fst (store_step (memory_store H) x s))"
proof (rule mem_scopedI, goal_cases)
  case (1 k v)
  then show ?case using mem_scopedD [OF inv] g
    by (cases x) (auto simp: mem_ops Let_def split: option.splits if_splits)
next
  case (2 k v)
  then show ?case using mem_scopedD [OF inv] g
    by (cases x) (auto simp: mem_ops Let_def split: option.splits if_splits)
next
  case (3 k v)
  then show ?case using mem_scopedD [OF inv] g
    by (cases x) (auto simp: mem_ops Let_def split: option.splits if_splits)
qed

lemma mem_scoped_new: "mem_scoped newStore"
  by (simp add: mem_scoped_def newStore_def)

lemma mem_verify_scopes:
  assumes "mem_scoped s"
  shows "scopes_ok (snd (server_step H bcrypt (memory_store H) srv ev s))"
proof (cases ev)
  case (Verify e1 e2 tok)
  show ?thesis
  proof (cases "snd (TokenVerifier (memory_store H) srv e1 e2 tok s)")
    case (Inr ti)
    then have "\<exists>te. fmlookup (tokens s) tok = Some te \<and> ti_Scopes ti = splitScope (te_Scope te)"
      by (auto simp: TokenVerifier_def lookupToken_def renewToken_def Let_def
          split: option.splits if_splits prod.splits sum.splits)
    then show ?thesis using Inr Verify mem_scopedD(2) [OF assms] splitScope_valid
      by (auto simp: scopes_ok_def)
  qed (use Verify in \<open>simp add: scopes_ok_def\<close>)
qed (simp_all add: scopes_ok_def)

definition pg_scoped :: "pgdb \<Rightarrow> bool" where
  "pg_scoped db \<longleftrightarrow>
     fmpred (\<lambda>_ r. read_only (k_scope r)) (auth_codes db)
     \<and> fmpred (\<lambda>_ r. read_only (f_scope r)) (families db)"

lemma pg_scopedI:
  assumes "\<And>k v. fmlookup (auth_codes s) k = Some v \<Longrightarrow> read_only (k_scope v)"
    and "\<And>k v. fmlookup (families s) k = Some v \<Longrightarrow> read_only (f_scope v)"
  shows "pg_scoped s"
  using assms by (auto simp: pg_scoped_def fmpred_iff)

lemma pg_scopedD:
  assumes "pg_scoped s"
  shows "fmlookup (auth_codes s) k = Some v \<Longrightarrow> read_only (k_scope v)"
    and "fmlookup (families s) f = Some w \<Longrightarrow> read_only (f_scope w)"
  using assms by (auto simp: pg_scoped_def fmpred_iff)

lemma pg_scoped_shrinks: "shrinks db' db \<Longrightarrow> pg_scoped db \<Longrightarrow> pg_scoped db'"
  by (rule pg_scopedI) (auto simp: shrinks_def dest!: submapD dest: pg_scopedD)

lemma pg_scoped_frame [simp]:
  "pg_scoped (touch_oauth_client c t db) = pg_scoped db"
  "pg_scoped (upd_access k h db) = pg_scoped db"
  "pg_scoped (upd_refresh Q g db) = pg_scoped db"
  by (simp_all add: pg_scoped_def upd_access_def upd_refresh_def)

lemma pg_scoped_upd_family:
  "(\<And>r. f_scope (g r) = f_scope r) \<Longrightarrow> pg_scoped db \<Longrightarrow> pg_scoped (upd_family k g db)"
  by (rule pg_scopedI) (auto simp: upd_family_def dest: pg_scopedD split: if_splits)

lemma pg_scoped_ins:
  "ins_access k a db = Some db1 \<Longrightarrow> pg_scoped db1 = pg_scoped db"
  "ins_refresh k r db = Some db1 \<Longrightarrow> pg_scoped db1 = pg_scoped db"
  by (auto simp: pg_scoped_def ins_access_def ins_refresh_def split: if_splits)

lemma pg_scoped_ins_family:
  "ins_family k fr db = Some db1 \<Longrightarrow> read_only (f_scope fr) \<Longrightarrow> pg_scoped db \<Longrightarrow> pg_scoped db1"
  by (rule pg_scopedI) (auto simp: ins_family_def dest: pg_scopedD split: if_splits)

lemma pg_scoped_ins_code:
  "ins_code k c db = Some db1 \<Longrightarrow> read_only (k_scope c) \<Longrightarrow> pg_scoped db \<Longrightarrow> pg_scoped db1"
  by (rule pg_scopedI) (auto simp: ins_code_def dest: pg_scopedD split: if_splits)

lemma pg_scoped_pair:
  assumes "insertTokenPair k i c sc ah rh t1 t2 db = Some db1" "read_only sc" "pg_scoped db"
  shows "pg_scoped db1"
proof -
  obtain d1 d2 d3 where i: "ins_family k \<lparr>f_identity_id = i, f_client_id = c, f_scope = sc,
             f_created_at = t1, f_last_activity_at = t1, f_expires_at = t2, f_revoked_at = None\<rparr> db = Some d1"
    and r: "ins_access ah \<lparr>a_family_id = k, a_created_at = t1, a_expires_at = t2, a_last_used_at = None\<rparr> d1 = Some d2"
      "ins_refresh rh \<lparr>r_family_id = k, r_created_at = t1, r_expires_at = t2, r_consumed_at = None\<rparr> d2 = Some d3"
      "db1 = touch_oauth_client c t1 d3"
    using assms(1) by (auto simp: insertTokenPair_def split: option.splits)
  have "pg_scoped d1" by (rule pg_scoped_ins_family [OF i]) (simp_all add: assms(2,3))
  then show ?thesis using r(3) pg_scoped_ins(1) [OF r(1)] pg_scoped_ins(2) [OF r(2)] by simp
qed

lemma pg_scoped_step:
  assumes inv: "pg_scoped s" and g: "op_guarded bcrypt srv ev x"
  shows "pg_scoped (fst (store_step (postgres_store H) x s))"
proof (cases rule: step_cases [of H x s])
  case admin
  then show ?thesis using inv by (rule pg_scoped_shrinks)
next
  case (create e c r ch m sc p)
  then have "read_only (str_fields sc)" using g validScope_fields by simp
  moreover have "pg_scoped db1" if "upsertIdentity (now1 e) p s = Some (db1, i)" for db1 i
    using upsert_frame [OF that] inv by (simp add: pg_scoped_def)
  ultimately show ?thesis using create inv
    by (auto simp: pg_createCode_def pg_tx_fst Let_def split: option.split dest: pg_scoped_ins_code)
next
  case (exchange e k c r v)
  have "pg_scoped (s\<lparr>auth_codes := fmdrop (H k) (auth_codes s)\<rparr>)"
    by (rule pg_scopedI) (auto dest: pg_scopedD [OF inv] split: if_splits)
  then show ?thesis using exchange inv
    by (auto simp: pg_exchangeCode_def pg_tx_fst Let_def split: option.split
        dest: pg_scoped_pair [OF _ pg_scopedD(1) [OF inv]])
next
  case (renew e at)
  then show ?thesis using inv
    by (auto simp: pg_renewToken_def pg_tx_fst Let_def intro!: pg_scoped_upd_family split: option.split)
next
  case (rotate e rt c a)
  then show ?thesis using inv
    by (auto simp: pg_rotateRefresh_def pg_tx_fst Let_def pg_scoped_ins
        intro!: pg_scoped_upd_family split: option.split)
qed

lemma pg_verify_scopes:
  assumes "pg_scoped s"
  shows "scopes_ok (snd (server_step H bcrypt (postgres_store H) srv ev s))"
proof (cases ev)
  case (Verify e1 e2 tok)
  show ?thesis
  proof (cases "snd (TokenVerifier (postgres_store H) srv e1 e2 tok s)")
    case (Inr ti)
    then obtain te where "snd (pg_renewToken H e2 tok s) = Inr (Some te)"
      and ti: "ti_Scopes ti = splitScope (te_Scope te)"
      by (auto simp: TokenVerifier_def split: option.splits if_splits prod.splits sum.splits)
    then obtain f fr where "fmlookup (families s) f = Some fr" "te_Scope te = join '' '' (f_scope fr)"
      by (auto simp: pg_renewToken_def pg_tx_snd family_join_def entry_of_def Let_def
          split: option.splits if_splits)
    then show ?thesis using Inr ti Verify splitScope_join [OF pg_scopedD(2) [OF assms]]
      by (auto simp: scopes_ok_def)
  qed (use Verify in \<open>simp add: scopes_ok_def\<close>)
qed (simp_all add: scopes_ok_def)

text \<open>
  C8 (in-memory store).  Whatever requests, verifications and ticks a server sees, with whatever
  password hash, authorizer, clocks, randomness and network, a token that verifies carries no scope
  but \<open>mcp:read\<close>.
\<close>

theorem mem_server_scopes:
  "list_all scopes_ok (snd (server_run H bcrypt (memory_store H) srv evs newStore))"
  by (rule server_outcomes [where I = mem_scoped and bcrypt = bcrypt and srv = srv])
    (auto intro: mem_scoped_step mem_verify_scopes mem_scoped_new)

lemma pg_scoped_empty: "pg_scoped empty_db"
  by (simp add: pg_scoped_def empty_db_def)

text \<open>PostgreSQL store: the same, starting from empty tables.\<close>

lemma pg_server_scopes:
  "list_all scopes_ok (snd (server_run H bcrypt (postgres_store H) srv evs empty_db))"
  by (rule server_outcomes [where I = pg_scoped and bcrypt = bcrypt and srv = srv])
    (auto intro: pg_scoped_step pg_verify_scopes pg_scoped_empty)


section \<open>The registration cap\<close>

lemma mem_cap_touch [simp]: "fmsize (clients (touch_client c t s)) = fmsize (clients s)"
  by (auto simp: touch_client_def fmsize_upd split: option.splits)

lemma mem_cap_step:
  assumes "fmsize (clients s) \<le> maxClients"
  shows "fmsize (clients (fst (store_step (memory_store H) x s))) \<le> maxClients"
  using assms
  by (cases x)
    (auto simp: mem_ops Let_def fmsize_upd intro: order_trans [OF fmsize_fmkeep]
      split: option.splits if_splits)

lemma pg_clients_frame [simp]:
  "oauth_clients (upd_access k h db) = oauth_clients db"
  "oauth_clients (upd_refresh Q g db) = oauth_clients db"
  "oauth_clients (upd_family f j db) = oauth_clients db"
  "fmsize (oauth_clients (upd_client c u db)) = fmsize (oauth_clients db)"
  "fmsize (oauth_clients (touch_oauth_client c t db)) = fmsize (oauth_clients db)"
  by (simp_all add: upd_access_def upd_refresh_def upd_family_def upd_client_def touch_oauth_client_def)

lemma pg_clients_ins:
  "ins_access k1 a db = Some db1 \<Longrightarrow> oauth_clients db1 = oauth_clients db"
  "ins_refresh k2 r db = Some db1 \<Longrightarrow> oauth_clients db1 = oauth_clients db"
  "ins_family k3 fr db = Some db1 \<Longrightarrow> oauth_clients db1 = oauth_clients db"
  "ins_code k4 cr db = Some db1 \<Longrightarrow> oauth_clients db1 = oauth_clients db"
  by (auto simp: ins_access_def ins_refresh_def ins_family_def ins_code_def split: if_splits)

lemma pg_clients_pair:
  "insertTokenPair k i c sc ah rh t1 t2 db = Some db1 \<Longrightarrow>
     fmsize (oauth_clients db1) = fmsize (oauth_clients db)"
  by (auto simp: insertTokenPair_def pg_clients_ins split: option.splits)

lemma pg_clients_evict: "fmsize (oauth_clients (evictExpired now db)) \<le> fmsize (oauth_clients db)"
  unfolding evictExpired_def del_clients_def del_families_def Let_def by (simp add: fmsize_fmkeep)

lemma pg_cap_register:
  assumes "fmsize (oauth_clients s) \<le> maxClients"
  shows "fmsize (oauth_clients (fst (pg_registerClient H e m s))) \<le> maxClients"
    and "fmsize (oauth_clients (fst (pg_registerCIMDClient e c m s))) \<le> maxClients"
    and "fmsize (oauth_clients (fst (pg_evict e s))) \<le> maxClients"
  using assms pg_clients_evict [of "now1 e" s]
  by (auto simp: pg_registerClient_def pg_registerCIMDClient_def pg_evict_def pg_tx_fst ins_client_def
      Let_def fmsize_upd split: option.split)

lemma pg_cap_step:
  assumes "fmsize (oauth_clients s) \<le> maxClients"
  shows "fmsize (oauth_clients (fst (store_step (postgres_store H) x s))) \<le> maxClients"
proof (cases x)
  case (CreateCode e c r ch m sc p)
  then show ?thesis using assms
    by (auto simp: pg_createCode_def pg_tx_fst Let_def pg_clients_ins upsert_frame split: option.split)
next
  case (ExchangeCode e k c r v)
  then show ?thesis using assms
    by (auto simp: pg_exchangeCode_def pg_tx_fst Let_def pg_clients_pair split: option.split)
next
  case (RenewToken e at)
  then show ?thesis using assms
    by (auto simp: pg_renewToken_def pg_tx_fst Let_def split: option.split)
next
  case (RotateRefresh e rt c a)
  then show ?thesis using assms
    by (auto simp: pg_rotateRefresh_def pg_tx_fst Let_def pg_clients_ins split: option.split)
qed (use assms pg_cap_register in auto)

text \<open>
  C9.  At most 50 clients are ever registered, dynamically or by metadata document, whatever
  happens: in the in-memory store and, from empty tables, in PostgreSQL.
\<close>

theorem server_client_cap:
  "fmsize (clients (fst (server_run H bcrypt (memory_store H) srv evs newStore))) \<le> 50
   \<and> fmsize (oauth_clients (fst (server_run H bcrypt (postgres_store H) srv evs empty_db))) \<le> 50"
proof
  have "fmsize (clients (fst (server_run H bcrypt (memory_store H) srv evs newStore))) \<le> maxClients"
    by (rule server_inv [where bcrypt = bcrypt and srv = srv]) (auto intro: mem_cap_step simp: newStore_def)
  then show "fmsize (clients (fst (server_run H bcrypt (memory_store H) srv evs newStore))) \<le> 50"
    by (simp add: maxClients_def)
  have "fmsize (oauth_clients (fst (server_run H bcrypt (postgres_store H) srv evs empty_db))) \<le> maxClients"
    by (rule server_inv [where bcrypt = bcrypt and srv = srv]) (auto intro: pg_cap_step simp: empty_db_def)
  then show "fmsize (oauth_clients (fst (server_run H bcrypt (postgres_store H) srv evs empty_db))) \<le> 50"
    by (simp add: maxClients_def)
qed

section \<open>Tokens against codes\<close>


text \<open>
  In-memory store.  A token verifies exactly when the store holds it, it has not expired at
  either of the two clock readings, and the authorizer accepts its principal now; verifying moves its
  expiry to 30 days after the second reading.
\<close>

lemma mem_verifier_iff:
  "TokenVerifier (memory_store H) srv e1 e2 tok s = (s', Inr ti) \<longleftrightarrow>
     (\<exists>te. fmlookup (tokens s) tok = Some te \<and> now1 e1 \<le> te_ExpiresAt te
        \<and> srv_authorizer srv (te_Principal te) \<and> now1 e2 \<le> te_ExpiresAt te
        \<and> ti = \<lparr>ti_Scopes = splitScope (te_Scope te), ti_Expiration = now1 e2 + 30 * 24 * 3600 * 1000000000\<rparr>
        \<and> s' = touch_client (te_ClientID te) (now1 e2)
             (s\<lparr>tokens := fmupd tok (te\<lparr>te_ExpiresAt := now1 e2 + tokenIdleTTL\<rparr>) (tokens s),
                refresh := renew_refresh (te_FamilyID te) (now1 e2) (now1 e2 + tokenIdleTTL) (refresh s)\<rparr>))"
  by (cases "fmlookup (tokens s) tok")
    (auto simp: TokenVerifier_def lookupToken_def renewToken_def Let_def tokenIdleTTL_def second_ns_def)

end
