(* ===== verification/Eval.thy ===== *)
theory Eval
  imports Complex_Main Go_Std
begin

text \<open>
  The retrieval evaluation harness (\<open>pkg/eval\<close>): the types the retriever and the harness share
  (\<open>retrieve.go\<close>), the per-case metrics and the golden set (\<open>eval.go\<close>), the roll-up and its gate
  (\<open>report.go\<close>).  Floating-point numbers are exact rationals.
\<close>

section \<open>Shared types (retrieve.go)\<close>

datatype search_mode = SearchModeHybrid | SearchModeVector | SearchModeBM25

definition ParseSearchMode :: "string \<Rightarrow> search_mode option" where
  "ParseSearchMode s =
     (if s = ''hybrid'' then Some SearchModeHybrid
      else if s = ''vector'' then Some SearchModeVector
      else if s = ''bm25'' then Some SearchModeBM25
      else None)"

record search_opts =
  so_Mode :: string
  so_TopK :: int
  so_VectorK :: int
  so_BM25K :: int
  so_RRFK :: int
  so_DocCap :: int
  so_LexWeight :: rat
  so_Framework :: string
  so_VersionLabel :: string
  so_CurrentOnly :: "bool option"
  so_IncludeWithdrawn :: bool

record hit =
  ChunkID :: int
  DocumentID :: int
  FrameworkCode :: string
  VersionLabel :: string
  Citation :: string
  CitationNorm :: string
  ContextPrefix :: string
  Content :: string
  hScore :: rat
  Similarity :: rat
  BM25Score :: rat
  VectorRank :: nat
  BM25Rank :: nat
  IsCurrent :: bool

record gap =
  g_Kind :: string
  g_BlocksAnswer :: bool

record evidence =
  ev_Hits :: "hit list"
  ev_Gaps :: "gap list"
  ev_Abstain :: bool
  ev_TopScore :: rat
  ev_TopCosine :: rat

section \<open>Cases and metrics (eval.go)\<close>

record expected_citation =
  ec_FrameworkCode :: string
  ec_VersionLabel :: string
  ec_CitationNorm :: string

record eval_case =
  c_ID :: string
  c_Question :: string
  c_ExpectedCitations :: "expected_citation list"
  c_ExpectAbstain :: bool
  c_ExpectFail :: bool
  c_Notes :: string

record case_result =
  cr_Case :: eval_case
  cr_Abstained :: bool
  cr_RecallAtK :: rat
  cr_RecallHits :: nat
  cr_RecallWant :: nat
  cr_MRRAtK :: rat
  cr_Rank :: nat
  cr_CurrentPrecision :: rat
  cr_HitsCurrent :: nat
  cr_HitsTotal :: nat
  cr_AbstainCorrect :: bool
  cr_PoolHits :: nat
  cr_PoolWant :: nat
  cr_PoolRank :: nat

definition Matches :: "expected_citation \<Rightarrow> hit \<Rightarrow> bool" where
  "Matches ec h =
     (if \<not> equal_fold (ec_FrameworkCode ec) (FrameworkCode h) then False
      else if \<not> equal_fold (ec_VersionLabel ec) (VersionLabel h) then False
      else if \<not> equal_fold (ec_CitationNorm ec) (CitationNorm h) then False
      else True)"

definition MatchesAny :: "eval_case \<Rightarrow> hit \<Rightarrow> bool" where
  "MatchesAny c h = list_ex (\<lambda>ec. Matches ec h) (c_ExpectedCitations c)"

fun recall_count :: "hit list \<Rightarrow> expected_citation list \<Rightarrow> nat" where
  "recall_count hits [] = 0"
| "recall_count hits (ec # ecs) =
     (if list_ex (\<lambda>h. Matches ec h) hits then Suc (recall_count hits ecs) else recall_count hits ecs)"

definition Recall :: "eval_case \<Rightarrow> hit list \<Rightarrow> rat \<times> nat \<times> nat" where
  "Recall c hits =
     (let want = length (c_ExpectedCitations c) in
      if want = 0 then (0, 0, 0)
      else let found = recall_count hits (c_ExpectedCitations c)
           in (of_nat found / of_nat want, found, want))"

text \<open>The loop over the hits, at 0-based position \<open>i\<close>.\<close>

fun rank_from :: "eval_case \<Rightarrow> nat \<Rightarrow> hit list \<Rightarrow> rat \<times> nat" where
  "rank_from c i [] = (0, 0)"
| "rank_from c i (h # hs) =
     (if MatchesAny c h then (1 / of_nat (i + 1), i + 1) else rank_from c (Suc i) hs)"

definition ReciprocalRank :: "eval_case \<Rightarrow> hit list \<Rightarrow> rat \<times> nat" where
  "ReciprocalRank c hits = (if c_ExpectedCitations c = [] then (0, 0) else rank_from c 0 hits)"

text \<open>A nil \<open>isCurrent\<close> is None; \<open>pinned\<close> is the set of lower-cased pinned versions.\<close>

definition version_ok :: "(hit \<Rightarrow> bool) option \<Rightarrow> string set \<Rightarrow> hit \<Rightarrow> bool" where
  "version_ok isCurrent pinned h =
     (if (case isCurrent of None \<Rightarrow> False | Some f \<Rightarrow> f h) then True
      else to_lower (FrameworkCode h @ ''/'' @ VersionLabel h) \<in> pinned)"

text \<open>The loop that drops the trailing run of hits that are not version-correct.\<close>

function drop_trailing :: "(hit \<Rightarrow> bool) \<Rightarrow> hit list \<Rightarrow> hit list" where
  "drop_trailing ok hits =
     (if hits \<noteq> [] \<and> \<not> ok (last hits) then drop_trailing ok (butlast hits) else hits)"
  by pat_completeness auto
termination
  by (relation "measure (\<lambda>(ok, hits). length hits)") auto

declare drop_trailing.simps [simp del]

definition CurrentPrecision ::
  "hit list \<Rightarrow> (hit \<Rightarrow> bool) option \<Rightarrow> string set \<Rightarrow> rat \<times> nat \<times> nat" where
  "CurrentPrecision hits isCurrent pinned =
     (let isOK = version_ok isCurrent pinned;
          kept = drop_trailing isOK hits;
          scored = (if kept = [] \<and> hits \<noteq> [] then hits else kept);
          total = length scored
      in if total = 0 then (0, 0, 0)
         else let ok = length (filter isOK scored) in (of_nat ok / of_nat total, ok, total))"

definition AbstainCorrect :: "eval_case \<Rightarrow> bool \<Rightarrow> bool" where
  "AbstainCorrect c abstained \<longleftrightarrow> abstained = c_ExpectAbstain c"

definition pinned_versions :: "eval_case \<Rightarrow> string set" where
  "pinned_versions c =
     set (map (\<lambda>ec. to_lower (ec_FrameworkCode ec @ ''/'' @ ec_VersionLabel ec))
       (filter (\<lambda>ec. ec_VersionLabel ec \<noteq> []) (c_ExpectedCitations c)))"

definition Score :: "eval_case \<Rightarrow> hit list \<Rightarrow> bool \<Rightarrow> (hit \<Rightarrow> bool) option \<Rightarrow> case_result" where
  "Score c hits abstained isCurrent =
     (let (recall, found, want) = Recall c hits;
          (rr, rank) = ReciprocalRank c hits;
          (prec, ok, total) = CurrentPrecision hits isCurrent (pinned_versions c)
      in \<lparr>cr_Case = c, cr_Abstained = abstained, cr_RecallAtK = recall, cr_RecallHits = found,
          cr_RecallWant = want, cr_MRRAtK = rr, cr_Rank = rank, cr_CurrentPrecision = prec,
          cr_HitsCurrent = ok, cr_HitsTotal = total, cr_AbstainCorrect = AbstainCorrect c abstained,
          cr_PoolHits = 0, cr_PoolWant = 0, cr_PoolRank = 0\<rparr>)"

section \<open>The golden set\<close>

definition goldenCSVColumns :: "string list" where
  "goldenCSVColumns = [''id'', ''question'', ''framework_code'', ''version_label'', ''citation_norm'',
     ''expect_abstain'', ''expect_fail'', ''notes'']"

datatype golden_err =
    ReadHeader | BadColumn nat | BadRow nat | EmptyID nat | EmptyQuestion nat string | EmptySet
  | NoCitations string | EmptyFramework string | EmptyCitation string

definition safeIndex :: "string list \<Rightarrow> nat \<Rightarrow> string" where
  "safeIndex ss i = (if length ss \<le> i then ''<missing>'' else ss ! i)"

record case_key =
  ck_question :: string
  ck_abstain :: bool
  ck_fail :: bool
  ck_notes :: string

record golden_state =
  gs_order :: "string list"
  gs_cases :: "string \<Rightarrow> case_key option"
  gs_citations :: "string \<Rightarrow> expected_citation list"

text \<open>A CSV record is None when the reader fails on it (a wrong number of fields included).\<close>

type_synonym csv_row = "string list option"

definition is_true :: "string \<Rightarrow> bool" where
  "is_true s \<longleftrightarrow> s = ''true'' \<or> s = ''1''"

definition golden_row :: "nat \<Rightarrow> string list \<Rightarrow> golden_state \<Rightarrow> golden_err + golden_state" where
  "golden_row line row st =
     (let f = (\<lambda>i. trim_space (row ! i)); id = f 0; question = f 1; fwCode = f 2; verLabel = f 3;
          citNorm = f 4; isAbstain = is_true (f 5); isFail = is_true (f 6); notes = f 7 in
      if id = [] then Inl (EmptyID line)
      else if question = [] then Inl (EmptyQuestion line id)
      else
        let st1 = (if gs_cases st id = None
              then st\<lparr>gs_cases := (gs_cases st)(id \<mapsto> \<lparr>ck_question = question, ck_abstain = isAbstain,
                        ck_fail = isFail, ck_notes = notes\<rparr>),
                      gs_order := gs_order st @ [id]\<rparr>
              else st)
        in Inr (if fwCode \<noteq> [] \<and> citNorm \<noteq> []
             then st1\<lparr>gs_citations := (gs_citations st1)(id := gs_citations st1 id @
                    [\<lparr>ec_FrameworkCode = fwCode, ec_VersionLabel = verLabel, ec_CitationNorm = citNorm\<rparr>])\<rparr>
             else st1))"

fun golden_rows :: "nat \<Rightarrow> csv_row list \<Rightarrow> golden_state \<Rightarrow> golden_err + golden_state" where
  "golden_rows line [] st = Inr st"
| "golden_rows line (None # rows) st = Inl (BadRow line)"
| "golden_rows line (Some row # rows) st =
     (if length row \<noteq> length goldenCSVColumns then Inl (BadRow line)
      else case golden_row line row st of Inl e \<Rightarrow> Inl e | Inr st' \<Rightarrow> golden_rows (Suc line) rows st')"

definition golden_case :: "golden_state \<Rightarrow> string \<Rightarrow> golden_err + eval_case" where
  "golden_case st cid =
     (case gs_cases st cid of
        None \<Rightarrow> Inl (NoCitations cid)
      | Some ck \<Rightarrow>
          let c = \<lparr>c_ID = cid, c_Question = ck_question ck, c_ExpectedCitations = gs_citations st cid,
                   c_ExpectAbstain = ck_abstain ck, c_ExpectFail = ck_fail ck, c_Notes = ck_notes ck\<rparr> in
          if \<not> c_ExpectAbstain c \<and> c_ExpectedCitations c = [] then Inl (NoCitations cid)
          else if list_ex (\<lambda>ec. ec_FrameworkCode ec = []) (c_ExpectedCitations c) then Inl (EmptyFramework cid)
          else if list_ex (\<lambda>ec. ec_CitationNorm ec = []) (c_ExpectedCitations c) then Inl (EmptyCitation cid)
          else Inr c)"

fun golden_cases :: "golden_state \<Rightarrow> string list \<Rightarrow> golden_err + eval_case list" where
  "golden_cases st [] = Inr []"
| "golden_cases st (cid # cids) =
     (case golden_case st cid of Inl e \<Rightarrow> Inl e
      | Inr c \<Rightarrow> (case golden_cases st cids of Inl e \<Rightarrow> Inl e | Inr cs \<Rightarrow> Inr (c # cs)))"

fun bad_column :: "nat \<Rightarrow> string list \<Rightarrow> string list \<Rightarrow> nat option" where
  "bad_column i [] header = None"
| "bad_column i (col # cols) [] = Some i"
| "bad_column i (col # cols) (h # hs) = (if trim_space h \<noteq> col then Some i else bad_column (Suc i) cols hs)"

definition parseGoldenCSV :: "csv_row list \<Rightarrow> golden_err + eval_case list" where
  "parseGoldenCSV rows =
     (case rows of
        Some header # body \<Rightarrow>
          if length header \<noteq> length goldenCSVColumns then Inl ReadHeader
          else (case bad_column 0 goldenCSVColumns header of
            Some i \<Rightarrow> Inl (BadColumn i)
          | None \<Rightarrow>
              (case golden_rows 2 body \<lparr>gs_order = [], gs_cases = (\<lambda>_. None), gs_citations = (\<lambda>_. [])\<rparr> of
                 Inl e \<Rightarrow> Inl e
               | Inr st \<Rightarrow> if gs_order st = [] then Inl EmptySet else golden_cases st (gs_order st)))
      | _ \<Rightarrow> Inl ReadHeader)"

end
