(* ===== verification/Eval_Report.thy ===== *)
theory Eval_Report
  imports Eval
begin

text \<open>
  The roll-up of per-case results and its gate (\<open>pkg/eval/report.go\<close>), the columns of the printed
  table and the JSON report, and the properties of the harness.
\<close>

record aggregate =
  ag_Cases :: nat
  ag_ExpectFailCases :: nat
  ag_GapPassCases :: nat
  ag_RecallAtK :: rat
  ag_RecallCases :: nat
  ag_MRRAtK :: rat
  ag_MRRCases :: nat
  ag_CurrentPrecision :: rat
  ag_CurrentCases :: nat
  ag_AbstainAccuracy :: rat
  ag_PoolRecall :: rat
  ag_PoolCases :: nat

definition gap_pass :: "case_result \<Rightarrow> bool" where
  "gap_pass r \<longleftrightarrow> 0 < cr_RecallWant r \<and> cr_RecallHits r = cr_RecallWant r"

text \<open>The accumulators of the loop in \<open>Summarize\<close>.\<close>

record acc =
  a_agg :: aggregate
  a_recallFound :: nat
  a_recallWant :: nat
  a_currentOK :: nat
  a_currentTotal :: nat
  a_abstainOK :: nat
  a_poolFound :: nat
  a_poolWant :: nat

definition acc0 :: "nat \<Rightarrow> acc" where
  "acc0 n = \<lparr>a_agg = \<lparr>ag_Cases = n, ag_ExpectFailCases = 0, ag_GapPassCases = 0, ag_RecallAtK = 0,
     ag_RecallCases = 0, ag_MRRAtK = 0, ag_MRRCases = 0, ag_CurrentPrecision = 0, ag_CurrentCases = 0,
     ag_AbstainAccuracy = 0, ag_PoolRecall = 0, ag_PoolCases = 0\<rparr>,
     a_recallFound = 0, a_recallWant = 0, a_currentOK = 0, a_currentTotal = 0, a_abstainOK = 0,
     a_poolFound = 0, a_poolWant = 0\<rparr>"

definition add_recall :: "case_result \<Rightarrow> acc \<Rightarrow> acc" where
  "add_recall r a =
     (if 0 < cr_RecallWant r
      then a\<lparr>a_recallFound := a_recallFound a + cr_RecallHits r, a_recallWant := a_recallWant a + cr_RecallWant r,
             a_agg := (a_agg a)\<lparr>ag_MRRAtK := ag_MRRAtK (a_agg a) + cr_MRRAtK r,
               ag_RecallCases := Suc (ag_RecallCases (a_agg a)), ag_MRRCases := Suc (ag_MRRCases (a_agg a))\<rparr>\<rparr>
      else a)"

definition add_pool :: "case_result \<Rightarrow> acc \<Rightarrow> acc" where
  "add_pool r a =
     (if 0 < cr_PoolWant r
      then a\<lparr>a_poolFound := a_poolFound a + cr_PoolHits r, a_poolWant := a_poolWant a + cr_PoolWant r,
             a_agg := (a_agg a)\<lparr>ag_PoolCases := Suc (ag_PoolCases (a_agg a))\<rparr>\<rparr>
      else a)"

definition add_current :: "case_result \<Rightarrow> acc \<Rightarrow> acc" where
  "add_current r a =
     (if 0 < cr_HitsTotal r
      then a\<lparr>a_currentOK := a_currentOK a + cr_HitsCurrent r, a_currentTotal := a_currentTotal a + cr_HitsTotal r,
             a_agg := (a_agg a)\<lparr>ag_CurrentCases := Suc (ag_CurrentCases (a_agg a))\<rparr>\<rparr>
      else a)"

definition add_abstain :: "case_result \<Rightarrow> acc \<Rightarrow> acc" where
  "add_abstain r a = (if cr_AbstainCorrect r then a\<lparr>a_abstainOK := Suc (a_abstainOK a)\<rparr> else a)"

definition summarize_case :: "acc \<Rightarrow> case_result \<Rightarrow> acc" where
  "summarize_case a r =
     (if c_ExpectFail (cr_Case r)
      then a\<lparr>a_agg := (a_agg a)\<lparr>ag_ExpectFailCases := Suc (ag_ExpectFailCases (a_agg a)),
               ag_GapPassCases := (if gap_pass r then Suc (ag_GapPassCases (a_agg a))
                                   else ag_GapPassCases (a_agg a))\<rparr>\<rparr>
      else add_abstain r (add_current r (add_pool r (add_recall r a))))"

definition ratio :: "nat \<Rightarrow> nat \<Rightarrow> rat" where
  "ratio num den = (if den = 0 then 0 else of_nat num / of_nat den)"

definition Summarize :: "case_result list \<Rightarrow> aggregate" where
  "Summarize results =
     (let a = foldl summarize_case (acc0 (length results)) results; g = a_agg a in
      g\<lparr>ag_RecallAtK := ratio (a_recallFound a) (a_recallWant a),
        ag_MRRAtK := (if 0 < ag_MRRCases g then ag_MRRAtK g / of_nat (ag_MRRCases g) else ag_MRRAtK g),
        ag_CurrentPrecision := ratio (a_currentOK a) (a_currentTotal a),
        ag_AbstainAccuracy := ratio (a_abstainOK a) (length results - ag_ExpectFailCases g),
        ag_PoolRecall := ratio (a_poolFound a) (a_poolWant a)\<rparr>)"

section \<open>The gate\<close>

record thresholds =
  th_MinRecall :: rat
  th_MinMRR :: rat
  th_MinCurrent :: rat
  th_MinAbstain :: rat

record failure =
  fl_Metric :: string
  fl_Got :: rat
  fl_Want :: rat

definition add_failure :: "string \<Rightarrow> rat \<Rightarrow> rat \<Rightarrow> bool \<Rightarrow> failure list" where
  "add_failure metric got want hasData =
     (if 0 < want \<and> hasData \<and> got < want then [\<lparr>fl_Metric = metric, fl_Got = got, fl_Want = want\<rparr>] else [])"

definition Check :: "thresholds \<Rightarrow> aggregate \<Rightarrow> failure list" where
  "Check t agg =
     add_failure ''recall@k'' (ag_RecallAtK agg) (th_MinRecall t) (0 < ag_RecallCases agg)
     @ add_failure ''mrr@k'' (ag_MRRAtK agg) (th_MinMRR t) (0 < ag_MRRCases agg)
     @ add_failure ''current-version-precision'' (ag_CurrentPrecision agg) (th_MinCurrent t)
         (0 < ag_CurrentCases agg)
     @ add_failure ''abstention-accuracy'' (ag_AbstainAccuracy agg) (th_MinAbstain t) (0 < ag_Cases agg)"

section \<open>Printed and JSON reports\<close>

text \<open>The columns of a table line; formatting the numbers is left to \<open>fmt\<close>.\<close>

definition boolMark :: "bool \<Rightarrow> string" where "boolMark b = (if b then ''yes'' else ''no'')"
definition passFail :: "bool \<Rightarrow> string" where "passFail b = (if b then ''OK'' else ''XX'')"

definition okMark :: "case_result \<Rightarrow> string" where
  "okMark r = (if c_ExpectFail (cr_Case r) then (if gap_pass r then ''GAP-PASS'' else ''GAP'')
     else passFail (cr_AbstainCorrect r))"

record report_case =
  rc_ID :: string
  rc_RecallHits :: nat
  rc_RecallWant :: nat
  rc_Rank :: nat
  rc_CurrentPrecision :: rat
  rc_Abstained :: bool
  rc_AbstainCorrect :: bool
  rc_ExpectFail :: bool
  rc_GapPass :: bool
  rc_PoolHits :: nat
  rc_PoolWant :: nat
  rc_PoolRank :: nat

record report_meta =
  rm_RetrievalMode :: string
  rm_TopK :: int
  rm_PoolK :: int
  rm_DocCap :: int
  rm_GeneratedAt :: string
  rm_Chunks :: int

record json_report =
  jr_SchemaVersion :: nat
  jr_Meta :: report_meta
  jr_Aggregate :: aggregate
  jr_Cases :: "report_case list"

definition json_case :: "case_result \<Rightarrow> report_case" where
  "json_case r =
     \<lparr>rc_ID = c_ID (cr_Case r), rc_RecallHits = cr_RecallHits r, rc_RecallWant = cr_RecallWant r,
      rc_Rank = cr_Rank r, rc_CurrentPrecision = cr_CurrentPrecision r, rc_Abstained = cr_Abstained r,
      rc_AbstainCorrect = cr_AbstainCorrect r, rc_ExpectFail = c_ExpectFail (cr_Case r),
      rc_GapPass = (c_ExpectFail (cr_Case r) \<and> gap_pass r), rc_PoolHits = cr_PoolHits r,
      rc_PoolWant = cr_PoolWant r, rc_PoolRank = cr_PoolRank r\<rparr>"

definition WriteJSONReport :: "report_meta \<Rightarrow> case_result list \<Rightarrow> aggregate \<Rightarrow> json_report" where
  "WriteJSONReport meta results agg =
     \<lparr>jr_SchemaVersion = 1, jr_Meta = meta, jr_Aggregate = agg, jr_Cases = map json_case results\<rparr>"

section \<open>Lemmas on the metrics\<close>

lemma recall_count_filter:
  "recall_count hits ecs = length (filter (\<lambda>ec. list_ex (\<lambda>h. Matches ec h) hits) ecs)"
  by (induction ecs) auto

lemma recall_count_le: "recall_count hits ecs \<le> length ecs"
  by (simp add: recall_count_filter)

lemma rank_from_spec:
  "rank_from c i hits = (rr, rank) \<Longrightarrow>
     (rank = 0 \<and> rr = 0 \<and> \<not> list_ex (MatchesAny c) hits)
     \<or> (\<exists>j < length hits. rank = i + j + 1 \<and> rr = 1 / of_nat rank \<and> MatchesAny c (hits ! j)
          \<and> \<not> list_ex (MatchesAny c) (take j hits))"
proof (induction hits arbitrary: i)
  case (Cons h hits)
  show ?case
  proof (cases "MatchesAny c h")
    case True
    with Cons.prems show ?thesis by (auto intro!: exI [of _ 0])
  next
    case False
    with Cons.prems Cons.IH [of "Suc i"] consider
      "rank = 0 \<and> rr = 0 \<and> \<not> list_ex (MatchesAny c) hits"
      | j where "j < length hits" "rank = Suc i + j + 1" "rr = 1 / of_nat rank"
        "MatchesAny c (hits ! j)" "\<not> list_ex (MatchesAny c) (take j hits)"
      by auto
    then show ?thesis
    proof cases
      case 1
      with False show ?thesis by simp
    next
      case (2 j)
      with False show ?thesis by (intro disjI2 exI [of _ "Suc j"]) simp
    qed
  qed
qed auto

lemma drop_trailing_append:
  "list_all (\<lambda>h. \<not> ok h) ys \<Longrightarrow> drop_trailing ok (xs @ ys) = drop_trailing ok xs"
proof (induction ys rule: rev_induct)
  case (snoc y ys)
  have "drop_trailing ok (xs @ ys @ [y]) = drop_trailing ok (xs @ ys)"
    using snoc.prems by (subst drop_trailing.simps) (simp add: butlast_append flip: append_assoc)
  with snoc show ?case by simp
qed simp

lemma drop_trailing_last: "xs \<noteq> [] \<Longrightarrow> ok (last xs) \<Longrightarrow> drop_trailing ok xs = xs"
  by (subst drop_trailing.simps) simp

lemma drop_trailing_ok:
  "drop_trailing ok xs = [] \<longleftrightarrow> \<not> list_ex ok xs"
proof (induction xs rule: rev_induct)
  case (snoc x xs)
  then show ?case by (subst drop_trailing.simps) simp
qed (subst drop_trailing.simps, simp)

section \<open>Lemmas on the roll-up\<close>

text \<open>A result whose counts are in range, and the accumulators after \<open>n\<close> in-scope and \<open>f\<close> expected-fail results.\<close>

definition counts_ok :: "case_result \<Rightarrow> bool" where
  "counts_ok r \<longleftrightarrow> cr_RecallHits r \<le> cr_RecallWant r \<and> cr_HitsCurrent r \<le> cr_HitsTotal r
     \<and> cr_PoolHits r \<le> cr_PoolWant r \<and> 0 \<le> cr_MRRAtK r \<and> cr_MRRAtK r \<le> 1"

definition acc_ok :: "nat \<Rightarrow> acc \<Rightarrow> bool" where
  "acc_ok n a \<longleftrightarrow> a_recallFound a \<le> a_recallWant a \<and> a_currentOK a \<le> a_currentTotal a
     \<and> a_poolFound a \<le> a_poolWant a \<and> a_abstainOK a + ag_ExpectFailCases (a_agg a) \<le> n
     \<and> 0 \<le> ag_MRRAtK (a_agg a) \<and> ag_MRRAtK (a_agg a) \<le> of_nat (ag_MRRCases (a_agg a))"

lemma acc_ok_step: "acc_ok n a \<Longrightarrow> counts_ok r \<Longrightarrow> acc_ok (Suc n) (summarize_case a r)"
  by (simp add: acc_ok_def counts_ok_def summarize_case_def add_recall_def add_pool_def add_current_def
      add_abstain_def)

lemma acc_ok_foldl:
  "list_all counts_ok rs \<Longrightarrow> acc_ok n a \<Longrightarrow> acc_ok (n + length rs) (foldl summarize_case a rs)"
proof (induction rs arbitrary: n a)
  case (Cons r rs)
  then have "acc_ok (Suc n) (summarize_case a r)" by (auto intro: acc_ok_step)
  with Cons.IH [of "Suc n"] Cons.prems show ?case by simp
qed simp

lemma ratio_bounds: "num \<le> den \<Longrightarrow> 0 \<le> ratio num den \<and> ratio num den \<le> 1"
  by (simp add: ratio_def)

lemma CurrentPrecision_counts: "CurrentPrecision hits f p = (x, k, n) \<Longrightarrow> k \<le> n"
  by (auto simp: CurrentPrecision_def Let_def split: if_splits)

lemma ReciprocalRank_bounds: "ReciprocalRank c hits = (rr, rank) \<Longrightarrow> 0 \<le> rr \<and> rr \<le> 1"
  using rank_from_spec [of c 0 hits rr rank]
  by (auto simp: ReciprocalRank_def split: if_splits)

lemma Score_counts: "counts_ok (Score c hits a f)"
proof -
  obtain x1 x2 x3 where r: "Recall c hits = (x1, x2, x3)" by (metis prod_cases3)
  obtain y1 y2 where q: "ReciprocalRank c hits = (y1, y2)" by fastforce
  obtain z1 z2 z3 where p: "CurrentPrecision hits f (pinned_versions c) = (z1, z2, z3)" by (metis prod_cases3)
  have "x2 \<le> x3" using r recall_count_le by (auto simp: Recall_def Let_def split: if_splits)
  with ReciprocalRank_bounds [OF q] CurrentPrecision_counts [OF p] show ?thesis
    by (simp add: counts_ok_def Score_def r q p)
qed

lemma Summarize_counts:
  assumes "list_all counts_ok rs"
  shows "0 \<le> ag_RecallAtK (Summarize rs) \<and> ag_RecallAtK (Summarize rs) \<le> 1
     \<and> 0 \<le> ag_MRRAtK (Summarize rs) \<and> ag_MRRAtK (Summarize rs) \<le> 1
     \<and> 0 \<le> ag_CurrentPrecision (Summarize rs) \<and> ag_CurrentPrecision (Summarize rs) \<le> 1
     \<and> 0 \<le> ag_AbstainAccuracy (Summarize rs) \<and> ag_AbstainAccuracy (Summarize rs) \<le> 1"
proof -
  obtain a where a: "foldl summarize_case (acc0 (length rs)) rs = a" by simp
  have "acc_ok 0 (acc0 (length rs))" by (simp add: acc_ok_def acc0_def)
  then have ok: "acc_ok (length rs) a" using acc_ok_foldl [OF assms, of 0 "acc0 (length rs)"] by (simp add: a)
  then have "a_abstainOK a \<le> length rs - ag_ExpectFailCases (a_agg a)" by (auto simp: acc_ok_def)
  with ok ratio_bounds show ?thesis
    by (simp add: Summarize_def Let_def acc_ok_def a)
qed

definition demo_hit :: "int \<Rightarrow> string \<Rightarrow> hit" where
  "demo_hit n v = \<lparr>ChunkID = n, DocumentID = 1, FrameworkCode = ''f'', VersionLabel = v, Citation = ''c'',
     CitationNorm = ''C'', ContextPrefix = [], Content = [], hScore = 1 / 21, Similarity = 1 / 2,
     BM25Score = 0, VectorRank = 1, BM25Rank = 0, IsCurrent = (v = ''r5'')\<rparr>"

section \<open>Properties\<close>

text \<open>
  Recall is the fraction of the expected citations that some retrieved hit matches, between 0
  and 1, and (0, 0, 0) for a case that expects none.
\<close>

lemma Recall_fraction:
  "case Recall c hits of (x, found, want) \<Rightarrow>
     want = length (c_ExpectedCitations c)
     \<and> found = length (filter (\<lambda>ec. \<exists>h \<in> set hits. Matches ec h) (c_ExpectedCitations c))
     \<and> x = ratio found want \<and> 0 \<le> x \<and> x \<le> 1"
  using recall_count_le [of hits "c_ExpectedCitations c"]
  by (auto simp: Recall_def Let_def ratio_def recall_count_filter list_ex_iff)

text \<open>
  The reciprocal rank is 1 over the 1-based position of the first hit that matches an expected
  citation, and 0 exactly when no hit does.
\<close>

lemma ReciprocalRank_first_match:
  "case ReciprocalRank c hits of (rr, rank) \<Rightarrow>
     if list_ex (MatchesAny c) hits
     then 0 < rank \<and> rank \<le> length hits \<and> rr = 1 / of_nat rank
          \<and> MatchesAny c (hits ! (rank - 1)) \<and> \<not> list_ex (MatchesAny c) (take (rank - 1) hits)
     else rank = 0 \<and> rr = 0"
proof (cases "c_ExpectedCitations c = []")
  case True
  then have "\<not> MatchesAny c h" for h by (simp add: MatchesAny_def)
  with True show ?thesis by (simp add: ReciprocalRank_def list_ex_iff)
next
  case False
  obtain rr rank where r: "rank_from c 0 hits = (rr, rank)" by fastforce
  from rank_from_spec [OF this] show ?thesis
  proof
    assume "rank = 0 \<and> rr = 0 \<and> \<not> list_ex (MatchesAny c) hits"
    with False r show ?thesis by (simp add: ReciprocalRank_def)
  next
    assume "\<exists>j < length hits. rank = 0 + j + 1 \<and> rr = 1 / of_nat rank \<and> MatchesAny c (hits ! j)
      \<and> \<not> list_ex (MatchesAny c) (take j hits)"
    then obtain j where j: "j < length hits" "rank = j + 1" "rr = 1 / of_nat rank" "MatchesAny c (hits ! j)"
      "\<not> list_ex (MatchesAny c) (take j hits)" by auto
    moreover have "list_ex (MatchesAny c) hits" using j by (auto simp: list_ex_iff)
    ultimately show ?thesis using False r by (simp add: ReciprocalRank_def)
  qed
qed

text \<open>
  Disclosing superseded versions after the answer costs no precision: appending hits that are not
  version-correct to a list with a version-correct hit leaves current-version precision unchanged.
\<close>

lemma CurrentPrecision_trailing:
  assumes "list_ex (version_ok f p) hits" and "list_all (\<lambda>h. \<not> version_ok f p h) nc"
  shows "CurrentPrecision (hits @ nc) f p = CurrentPrecision hits f p"
  using assms drop_trailing_ok [of "version_ok f p" hits]
  by (auto simp: CurrentPrecision_def Let_def drop_trailing_append)

text \<open>
  Rolled up from scored cases, recall, MRR, current-version precision and abstention accuracy
  are all between 0 and 1.
\<close>

lemma Summarize_bounds:
  "let g = Summarize (map (\<lambda>(c, hits, a). Score c hits a f) runs) in
     0 \<le> ag_RecallAtK g \<and> ag_RecallAtK g \<le> 1 \<and> 0 \<le> ag_MRRAtK g \<and> ag_MRRAtK g \<le> 1
     \<and> 0 \<le> ag_CurrentPrecision g \<and> ag_CurrentPrecision g \<le> 1
     \<and> 0 \<le> ag_AbstainAccuracy g \<and> ag_AbstainAccuracy g \<le> 1"
  by (simp only: Let_def) (rule Summarize_counts, auto simp: list_all_iff Score_counts)

text \<open>
  The gate fails a run on abstention accuracy, with value 0, when every case is marked as an
  expected failure: no case is counted, yet the metric is treated as measured.
\<close>

lemma Check_all_expect_fail:
  assumes "results \<noteq> []" and "list_all (\<lambda>r. c_ExpectFail (cr_Case r)) results" and "0 < th_MinAbstain t"
  shows "\<lparr>fl_Metric = ''abstention-accuracy'', fl_Got = 0, fl_Want = th_MinAbstain t\<rparr>
    \<in> set (Check t (Summarize results))"
proof -
  have "a_abstainOK (foldl summarize_case a rs) = a_abstainOK a
      \<and> ag_ExpectFailCases (a_agg (foldl summarize_case a rs)) = ag_ExpectFailCases (a_agg a) + length rs
      \<and> ag_Cases (a_agg (foldl summarize_case a rs)) = ag_Cases (a_agg a)"
    if "list_all (\<lambda>r. c_ExpectFail (cr_Case r)) rs" for rs a
    using that by (induction rs arbitrary: a) (auto simp: summarize_case_def)
  from this [OF assms(2)] have "ag_AbstainAccuracy (Summarize results) = 0" "ag_Cases (Summarize results) = length results"
    by (simp_all add: Summarize_def Let_def ratio_def acc0_def)
  with assms show ?thesis by (simp add: Check_def add_failure_def)
qed

lemma Check_all_expect_fail_witness:
  "\<lparr>fl_Metric = ''abstention-accuracy'', fl_Got = 0, fl_Want = 1 / 2\<rparr>
    \<in> set (Check \<lparr>th_MinRecall = 0, th_MinMRR = 0, th_MinCurrent = 0, th_MinAbstain = 1 / 2\<rparr>
          (Summarize [Score \<lparr>c_ID = ''x'', c_Question = ''q'', c_ExpectedCitations = [],
             c_ExpectAbstain = True, c_ExpectFail = True, c_Notes = []\<rparr> [] True None]))"
  using Check_all_expect_fail [of "[Score \<lparr>c_ID = ''x'', c_Question = ''q'', c_ExpectedCitations = [],
             c_ExpectAbstain = True, c_ExpectFail = True, c_Notes = []\<rparr> [] True None]"
      "\<lparr>th_MinRecall = 0, th_MinMRR = 0, th_MinCurrent = 0, th_MinAbstain = 1 / 2\<rparr>"]
  by (simp add: Score_def split_beta)

lemma CurrentPrecision_trailing_witness:
  "CurrentPrecision ([demo_hit 1 ''r5''] @ [demo_hit 2 ''r4'']) (Some (\<lambda>h. VersionLabel h = ''r5'')) {}
     = CurrentPrecision [demo_hit 1 ''r5''] (Some (\<lambda>h. VersionLabel h = ''r5'')) {}"
  by (rule CurrentPrecision_trailing) (simp_all add: version_ok_def demo_hit_def)

section \<open>The golden set\<close>

definition golden_inv :: "golden_state \<Rightarrow> bool" where
  "golden_inv st \<longleftrightarrow> distinct (gs_order st) \<and> (\<forall>i. i \<in> set (gs_order st) \<longleftrightarrow> gs_cases st i \<noteq> None)"

lemma golden_row_inv: "golden_inv st \<Longrightarrow> golden_row line row st = Inr st' \<Longrightarrow> golden_inv st'"
  by (auto simp: golden_inv_def golden_row_def Let_def split: if_splits)

lemma golden_rows_inv: "golden_rows line rows st = Inr st' \<Longrightarrow> golden_inv st \<Longrightarrow> golden_inv st'"
  by (induction line rows st rule: golden_rows.induct)
    (auto split: if_splits sum.splits intro: golden_row_inv)

lemma golden_cases_spec:
  "golden_cases st is = Inr cs \<Longrightarrow> map c_ID cs = is
     \<and> list_all (\<lambda>c. if c_ExpectedCitations c = [] then c_ExpectAbstain c else True) cs"
proof (induction "is" arbitrary: cs)
  case (Cons i "is")
  then obtain c cs' where c: "golden_case st i = Inr c" "golden_cases st is = Inr cs'" "cs = c # cs'"
    by (auto split: sum.splits)
  then have "c_ID c = i" "c_ExpectedCitations c = [] \<Longrightarrow> c_ExpectAbstain c"
    by (auto simp: golden_case_def Let_def split: option.splits if_splits)
  with c Cons.IH show ?case by auto
qed simp

text \<open>
  A golden set that loads has cases with distinct identifiers, at least one, and every case that
  does not expect abstention has an expected citation.
\<close>

lemma golden_set_well_formed:
  "case parseGoldenCSV rows of Inl _ \<Rightarrow> True
   | Inr cs \<Rightarrow> cs \<noteq> [] \<and> distinct (map c_ID cs)
       \<and> list_all (\<lambda>c. if c_ExpectedCitations c = [] then c_ExpectAbstain c else True) cs"
proof (cases "parseGoldenCSV rows")
  case (Inr cs)
  then obtain body st where st: "golden_rows 2 body
      \<lparr>gs_order = [], gs_cases = (\<lambda>_. None), gs_citations = (\<lambda>_. [])\<rparr> = Inr st"
    and ne: "gs_order st \<noteq> []" and cs: "golden_cases st (gs_order st) = Inr cs"
    by (auto simp: parseGoldenCSV_def split: list.splits option.splits if_splits sum.splits)
  have "golden_inv st" by (rule golden_rows_inv [OF st]) (simp add: golden_inv_def)
  with ne golden_cases_spec [OF cs] Inr show ?thesis by (auto simp: golden_inv_def)
qed simp

end
