(* ===== verification/Lexical.thy ===== *)
theory Lexical
  imports Complex_Main Prelude
begin

text \<open>
  The lexical arm's encoder (\<open>pkg/rag/lexical/bm25.go\<close>) and the corpus indexer (\<open>index.go\<close>).

  A text is the list of its runes (code points).  The Unicode tables behind \<open>unicode.IsLetter\<close>,
  \<open>IsDigit\<close> and \<open>strings.ToLower\<close> are the parameter \<open>U\<close>; weights are real numbers, as
  \<open>math.Log\<close> asks for.
\<close>

unbundle bit_operations_syntax

type_synonym rune = nat
type_synonym text_runes = "rune list"

record unicode =
  u_lower :: "rune \<Rightarrow> rune"
  u_letter :: "rune \<Rightarrow> bool"
  u_digit :: "rune \<Rightarrow> bool"

definition runes :: "string \<Rightarrow> rune list" where
  "runes s = map of_char s"

section \<open>Tokens\<close>

definition rune_dot :: rune where "rune_dot = 46"

definition isCitationChar :: "unicode \<Rightarrow> rune \<Rightarrow> bool" where
  "isCitationChar U r \<longleftrightarrow> u_letter U r \<or> u_digit U r \<or> r = rune_dot \<or> r = 45 \<or> r = 40 \<or> r = 41 \<or> r = 38"

text \<open>The three flags of the loop, one rune at a time.\<close>

fun citation_flags :: "unicode \<Rightarrow> bool \<times> bool \<times> bool \<Rightarrow> rune list \<Rightarrow> bool \<times> bool \<times> bool" where
  "citation_flags U (l, d, p) [] = (l, d, p)"
| "citation_flags U (l, d, p) (r # rs) =
     (if u_letter U r then citation_flags U (True, d, p) rs
      else if u_digit U r then citation_flags U (l, True, p) rs
      else if r = rune_dot then citation_flags U (l, d, True) rs
      else citation_flags U (l, d, p) rs)"

definition isCitationToken :: "unicode \<Rightarrow> rune list \<Rightarrow> bool" where
  "isCitationToken U s =
     (let (hasLetter, hasDigit, hasDot) = citation_flags U (False, False, False) s in
      if hasLetter \<and> (hasDigit \<or> hasDot) then True
      else if hasDigit \<and> hasDot then True
      else False)"

definition is_alnum_rune :: "unicode \<Rightarrow> rune \<Rightarrow> bool" where
  "is_alnum_rune U r \<longleftrightarrow> u_letter U r \<or> u_digit U r"

text \<open>The builder \<open>cur\<close> of the non-citation branch.\<close>

fun split_alnum :: "unicode \<Rightarrow> rune list \<Rightarrow> rune list \<Rightarrow> rune list list" where
  "split_alnum U cur [] = (if cur = [] then [] else [rev cur])"
| "split_alnum U cur (r # rs) =
     (if is_alnum_rune U r then split_alnum U (r # cur) rs
      else (if cur = [] then [] else [rev cur]) @ split_alnum U [] rs)"

definition trim_dots :: "rune list \<Rightarrow> rune list" where
  "trim_dots t = rev (dropWhile (\<lambda>r. r = rune_dot) (rev t))"

definition run_tokens :: "unicode \<Rightarrow> rune list \<Rightarrow> rune list list" where
  "run_tokens U tok =
     (if isCitationToken U tok
      then (let t = trim_dots tok in if t = [] then [] else [t])
      else split_alnum U [] tok)"

function tokens_from :: "unicode \<Rightarrow> rune list \<Rightarrow> rune list list" where
  "tokens_from U [] = []"
| "tokens_from U (r # rs) =
     (if \<not> isCitationChar U r then tokens_from U rs
      else run_tokens U (takeWhile (isCitationChar U) (r # rs))
             @ tokens_from U (dropWhile (isCitationChar U) rs))"
  by pat_completeness auto
termination
  by (relation "measure (\<lambda>(U, rs). length rs)") (auto simp: le_imp_less_Suc length_dropWhile_le)

definition Tokenize :: "unicode \<Rightarrow> rune list \<Rightarrow> rune list list" where
  "Tokenize U s = tokens_from U (map (u_lower U) s)"

section \<open>Hashing\<close>

text \<open>UTF-8, for \<open>[]byte(term)\<close>.\<close>

definition utf8_rune :: "rune \<Rightarrow> byte list" where
  "utf8_rune r =
     (if r < 128 then [of_nat r]
      else if r < 2048 then [of_nat (192 + r div 64), of_nat (128 + r mod 64)]
      else if r < 65536
      then [of_nat (224 + r div 4096), of_nat (128 + (r div 64) mod 64), of_nat (128 + r mod 64)]
      else [of_nat (240 + r div 262144), of_nat (128 + (r div 4096) mod 64),
            of_nat (128 + (r div 64) mod 64), of_nat (128 + r mod 64)])"

text \<open>FNV-1a, 32 bits; the multiplication wraps.\<close>

definition fnv1a :: "byte list \<Rightarrow> 32 word" where
  "fnv1a bs = foldl (\<lambda>h x. (h XOR ucast x) * 16777619) 2166136261 bs"

definition Dim :: nat where "Dim = 2 ^ 20"

definition termID :: "rune list \<Rightarrow> int" where
  "termID term = sint (fnv1a (concat (map utf8_rune term)) mod 0x100000) + 1"

section \<open>The encoder\<close>

definition bm_k1 :: real where "bm_k1 = 12 / 10"
definition bm_b :: real where "bm_b = 75 / 100"

record encoder =
  e_idf :: "rune list \<Rightarrow> real option"
  e_avgdl :: real

text \<open>The inner loop of \<open>Train\<close>: each distinct token of a document counts once.\<close>

definition bump :: "rune list \<Rightarrow> (rune list \<Rightarrow> nat) \<Rightarrow> rune list \<Rightarrow> nat" where
  "bump w df = df(w := Suc (df w))"

fun count_distinct :: "rune list set \<Rightarrow> rune list list \<Rightarrow> (rune list \<Rightarrow> nat) \<Rightarrow> rune list \<Rightarrow> nat" where
  "count_distinct seen [] df = df"
| "count_distinct seen (w # ws) df =
     (if w \<in> seen then count_distinct seen ws df
      else count_distinct (insert w seen) ws (bump w df))"

fun train_loop :: "unicode \<Rightarrow> text_runes list \<Rightarrow> (rune list \<Rightarrow> nat) \<Rightarrow> nat \<Rightarrow> (rune list \<Rightarrow> nat) \<times> nat" where
  "train_loop U [] df n = (df, n)"
| "train_loop U (t # ts) df n =
     (let toks = Tokenize U t in train_loop U ts (count_distinct {} toks df) (n + length toks))"

definition idf_of :: "nat \<Rightarrow> nat \<Rightarrow> real" where
  "idf_of n d = ln (1 + (real n - real d + 1 / 2) / (real d + 1 / 2))"

definition Train :: "unicode \<Rightarrow> text_runes list \<Rightarrow> encoder" where
  "Train U texts =
     (let n = length texts; (df, tot) = train_loop U texts (\<lambda>_. 0) 0 in
      \<lparr>e_idf = (\<lambda>w. if df w = 0 then None else Some (idf_of n (df w))),
       e_avgdl = (if 0 < n \<and> 0 < tot then real tot / real n else 1)\<rparr>)"

text \<open>
  \<open>map[int32]float64\<close> is a finite map; the loop over \<open>tf\<close> adds each term's weight to its cell.
  The map's iteration order does not matter for exact sums; the model takes the order of the text.
\<close>

definition term_weight :: "encoder \<Rightarrow> nat \<Rightarrow> real \<Rightarrow> nat \<Rightarrow> real" where
  "term_weight e dl idf f =
     idf * (real f * (bm_k1 + 1)) / (real f + bm_k1 * (1 - bm_b + bm_b * real dl / e_avgdl e))"

definition add_weight :: "int \<Rightarrow> real \<Rightarrow> (int, real) fmap \<Rightarrow> (int, real) fmap" where
  "add_weight i x m = fmupd i ((case fmlookup m i of None \<Rightarrow> 0 | Some y \<Rightarrow> y) + x) m"

fun doc_weights :: "encoder \<Rightarrow> rune list list \<Rightarrow> rune list list \<Rightarrow> (int, real) fmap \<Rightarrow> (int, real) fmap" where
  "doc_weights e toks [] m = m"
| "doc_weights e toks (w # ws) m =
     doc_weights e toks ws
       (case e_idf e w of
          None \<Rightarrow> m
        | Some idf \<Rightarrow>
            if idf \<le> 0 then m
            else add_weight (termID w) (term_weight e (length toks) idf (count_list toks w)) m)"

definition DocWeights :: "unicode \<Rightarrow> encoder \<Rightarrow> text_runes \<Rightarrow> (int, real) fmap" where
  "DocWeights U e text = (let toks = Tokenize U text in doc_weights e toks (remdups toks) fmempty)"

text \<open>Vietnamese syllables as UTF-8 runes.\<close>

definition queryStopwords :: "rune list set" where
  "queryStopwords = set (map runes [''what'', ''how'', ''which'', ''does'', ''the'', ''for'', ''and'', ''are'',
       ''is'', ''of'', ''that'', ''a'', ''to'', ''in'', ''an'', ''control'', ''requirement'', ''cover'', ''address''])
     \<union> set [[118, 224], [104, 111, 7863, 99], [110, 7871, 117], [99, 225, 99], [110, 104, 7919, 110, 103],
            [110, 224, 121], [273, 243], [99, 7911, 97], [116, 114, 111, 110, 103], [116, 114, 234, 110],
            [118, 7899, 105], [99, 104, 111], [118, 7873], [273, 7875], [107, 104, 105], [108, 224],
            [273, 432, 7907, 99], [110, 224, 111], [103, 236]]"

fun query_weights :: "rune list list \<Rightarrow> (int, real) fmap \<Rightarrow> (int, real) fmap" where
  "query_weights [] m = m"
| "query_weights (w # ws) m =
     query_weights ws (if w \<notin> queryStopwords then fmupd (termID w) 1 m else m)"

definition QueryWeights :: "unicode \<Rightarrow> text_runes \<Rightarrow> (int, real) fmap" where
  "QueryWeights U text = query_weights (Tokenize U text) fmempty"

text \<open>The sparsevec literal as the list of its entries, in ascending index order.\<close>

definition sparseLiteral :: "(int, real) fmap \<Rightarrow> (int \<times> real) list" where
  "sparseLiteral m =
     map (\<lambda>i. (i, case fmlookup m i of None \<Rightarrow> 0 | Some x \<Rightarrow> x)) (sorted_list_of_fset (fmdom m))"

definition DocVector :: "unicode \<Rightarrow> encoder \<Rightarrow> text_runes \<Rightarrow> (int \<times> real) list" where
  "DocVector U e text = sparseLiteral (DocWeights U e text)"

definition QueryVector :: "unicode \<Rightarrow> text_runes \<Rightarrow> (int \<times> real) list" where
  "QueryVector U text = sparseLiteral (QueryWeights U text)"

section \<open>Indexing the corpus (index.go)\<close>

record missing_row =
  mr_ID :: int
  mr_ContextPrefix :: "text_runes option"
  mr_Content :: text_runes

definition chunk_text :: "missing_row \<Rightarrow> text_runes" where
  "chunk_text row =
     (let prefix = (case mr_ContextPrefix row of None \<Rightarrow> [] | Some p \<Rightarrow> p) in
      if prefix \<noteq> [] then prefix @ [32] @ mr_Content row else mr_Content row)"

text \<open>
  The store is the content_sparse column; \<open>upd_ok\<close> says which updates the database accepts, and a
  list that fails is None.  The result is the number written, with the failing chunk if any.
\<close>

type_synonym sparse_store = "(int, (int \<times> real) list) fmap"

fun write_vectors :: "(int \<Rightarrow> bool) \<Rightarrow> (missing_row \<Rightarrow> (int \<times> real) list) \<Rightarrow> missing_row list \<Rightarrow> nat
    \<Rightarrow> sparse_store \<Rightarrow> sparse_store \<times> nat \<times> int option" where
  "write_vectors upd_ok vec [] written st = (st, written, None)"
| "write_vectors upd_ok vec (r # rs) written st =
     (if \<not> upd_ok (mr_ID r) then (st, written, Some (mr_ID r))
      else write_vectors upd_ok vec rs (Suc written) (fmupd (mr_ID r) (vec r) st))"

definition IndexCorpus :: "unicode \<Rightarrow> (int \<Rightarrow> bool) \<Rightarrow> missing_row list option \<Rightarrow> sparse_store
    \<Rightarrow> sparse_store \<times> (string + nat \<times> int option)" where
  "IndexCorpus U upd_ok listed st =
     (case listed of
        None \<Rightarrow> (st, Inl ''list chunks missing sparse'')
      | Some missing \<Rightarrow>
          if missing = [] then (st, Inr (0, None))
          else
            let enc = Train U (map chunk_text missing);
                (st', n, err) = write_vectors upd_ok (\<lambda>r. DocVector U enc (chunk_text r)) missing 0 st
            in (st', Inr (n, err)))"

end
