(* ===== verification/Go_Regexp.thy ===== *)
theory Go_Regexp
  imports Go_Std
begin

text \<open>
  What the code uses of \<open>regexp\<close>: classes, concatenation, alternation, greedy repetition, word
  boundaries, end of text, one capture group, and \<open>FindAllStringSubmatch\<close>.  Go's matcher prefers,
  at the leftmost starting point, the match a backtracking matcher finds first; \<open>rx_match\<close> lists the
  ways to match in that order, each as the end position and the captured interval.
\<close>

datatype rx =
    Cls bool "(nat \<times> nat) list"
  | Seq rx rx
  | Alt rx rx
  | Opt rx
  | Star rx
  | WordBoundary
  | EndText
  | Grp rx

type_synonym capture = "(nat \<times> nat) option"
type_synonym rx_state = "nat \<times> capture"

definition in_class :: "(nat \<times> nat) list \<Rightarrow> char \<Rightarrow> bool" where
  "in_class rs c \<longleftrightarrow> list_ex (\<lambda>(a, b). a \<le> (of_char c :: nat) \<and> (of_char c :: nat) \<le> b) rs"

definition word_class :: "(nat \<times> nat) list" where
  "word_class = [(48, 57), (65, 90), (97, 122), (95, 95)]"

definition word_at :: "string \<Rightarrow> nat \<Rightarrow> bool" where
  "word_at s i \<longleftrightarrow> i < length s \<and> in_class word_class (s ! i)"

definition word_boundary :: "string \<Rightarrow> nat \<Rightarrow> bool" where
  "word_boundary s i \<longleftrightarrow> (0 < i \<and> word_at s (i - 1)) \<noteq> word_at s i"

text \<open>Greedy iteration; an iteration that consumes nothing stops.\<close>

fun star_iter :: "nat \<Rightarrow> (rx_state \<Rightarrow> rx_state list) \<Rightarrow> rx_state \<Rightarrow> rx_state list" where
  "star_iter 0 f p = [p]"
| "star_iter (Suc n) f p =
     concat (map (\<lambda>q. if fst q \<le> fst p then [] else star_iter n f q) (f p)) @ [p]"

primrec rx_match :: "string \<Rightarrow> rx \<Rightarrow> rx_state \<Rightarrow> rx_state list" where
  "rx_match s (Cls neg rs) = (\<lambda>(i, c). if i < length s \<and> (in_class rs (s ! i) \<noteq> neg) then [(Suc i, c)] else [])"
| "rx_match s (Seq a b) = (\<lambda>p. concat (map (rx_match s b) (rx_match s a p)))"
| "rx_match s (Alt a b) = (\<lambda>p. rx_match s a p @ rx_match s b p)"
| "rx_match s (Opt a) = (\<lambda>p. rx_match s a p @ [p])"
| "rx_match s (Star a) = star_iter (length s) (rx_match s a)"
| "rx_match s WordBoundary = (\<lambda>p. if word_boundary s (fst p) then [p] else [])"
| "rx_match s EndText = (\<lambda>p. if fst p = length s then [p] else [])"
| "rx_match s (Grp a) = (\<lambda>(i, c). map (\<lambda>(j, _). (j, Some (i, j))) (rx_match s a (i, c)))"

definition substr :: "string \<Rightarrow> nat \<Rightarrow> nat \<Rightarrow> string" where
  "substr s i j = take (j - i) (drop i s)"

text \<open>
  \<open>FindAllStringSubmatch\<close>, keeping submatch 1: the preferred match at the leftmost position, then
  the search goes on where it ended (one further when it was empty).
\<close>

function find_all :: "rx \<Rightarrow> string \<Rightarrow> nat \<Rightarrow> string list" where
  "find_all r s i =
     (if length s < i then []
      else case rx_match s r (i, None) of
          [] \<Rightarrow> find_all r s (Suc i)
        | (j, c) # _ \<Rightarrow>
            (case c of None \<Rightarrow> [] | Some (a, b) \<Rightarrow> [substr s a b])
              @ find_all r s (if j \<le> i then Suc i else j))"
  by pat_completeness auto
termination
  by (relation "measure (\<lambda>(r, s, i). Suc (length s) - i)") auto

declare find_all.simps [simp del]

section \<open>Building expressions\<close>

definition lit :: "string \<Rightarrow> rx list" where
  "lit s = map (\<lambda>c. Cls False [(of_char c, of_char c)]) s"

fun seqs :: "rx list \<Rightarrow> rx" where
  "seqs [] = Opt (Cls False [])"
| "seqs [r] = r"
| "seqs (r # q # rs) = Seq r (seqs (q # rs))"

text \<open>\<open>r{n}\<close> and \<open>r{n,m}\<close>, greedy, and \<open>r+\<close>.\<close>

definition times :: "nat \<Rightarrow> rx \<Rightarrow> rx" where "times n r = seqs (replicate n r)"

fun up_to :: "nat \<Rightarrow> rx \<Rightarrow> rx" where
  "up_to 0 r = Opt (Cls False [])"
| "up_to (Suc 0) r = Opt r"
| "up_to (Suc (Suc n)) r = Opt (Seq r (up_to (Suc n) r))"

definition between :: "nat \<Rightarrow> nat \<Rightarrow> rx \<Rightarrow> rx" where
  "between n m r = (if n = m then times n r else if n = 0 then up_to m r else Seq (times n r) (up_to (m - n) r))"

definition plus1 :: "rx \<Rightarrow> rx" where "plus1 r = Seq r (Star r)"

definition dgt :: rx where "dgt = Cls False [(48, 57)]"
definition upr :: rx where "upr = Cls False [(65, 90)]"

section \<open>What a match is\<close>

text \<open>Matching moves forward inside the text and captures an interval of what it passed.\<close>

definition state_ok :: "string \<Rightarrow> rx_state \<Rightarrow> rx_state \<Rightarrow> bool" where
  "state_ok s p q \<longleftrightarrow> fst p \<le> fst q \<and> fst q \<le> length s
     \<and> (snd q = snd p \<or> (\<exists>a b. snd q = Some (a, b) \<and> fst p \<le> a \<and> a \<le> b \<and> b \<le> fst q))"

lemma state_ok_trans: "state_ok s p q \<Longrightarrow> state_ok s q r \<Longrightarrow> state_ok s p r"
  unfolding state_ok_def by force

lemma state_ok_refl: "fst p \<le> length s \<Longrightarrow> state_ok s p p"
  by (simp add: state_ok_def)

lemma state_ok_next: "i < length s \<Longrightarrow> state_ok s (i, c) (Suc i, c)"
  by (simp add: state_ok_def)

lemma star_iter_ok:
  assumes "\<And>p q. fst p \<le> length s \<Longrightarrow> q \<in> set (f p) \<Longrightarrow> state_ok s p q"
  shows "fst p \<le> length s \<Longrightarrow> q \<in> set (star_iter n f p) \<Longrightarrow> state_ok s p q"
proof (induction n arbitrary: p q)
  case (Suc n)
  then consider "q = p" | m where "m \<in> set (f p)" "q \<in> set (star_iter n f m)"
    by (auto split: if_splits)
  then show ?case
  proof cases
    case 1
    with Suc.prems show ?thesis by (simp add: state_ok_def)
  next
    case (2 m)
    have "state_ok s p m" using assms 2 Suc.prems by blast
    moreover from this have "fst m \<le> length s" by (simp add: state_ok_def)
    ultimately show ?thesis using Suc.IH 2 state_ok_trans by blast
  qed
qed (simp add: state_ok_def)

lemma rx_match_ok:
  "fst p \<le> length s \<Longrightarrow> q \<in> set (rx_match s r p) \<Longrightarrow> state_ok s p q"
proof (induction r arbitrary: p q)
  case (Seq a b)
  then obtain m where m: "m \<in> set (rx_match s a p)" "q \<in> set (rx_match s b m)" by auto
  with Seq have "state_ok s p m" by blast
  moreover from this have "fst m \<le> length s" by (simp add: state_ok_def)
  ultimately show ?case using Seq m state_ok_trans by blast
next
  case (Star a)
  show ?case
    by (rule star_iter_ok [where f = "rx_match s a"]) (use Star in auto)
next
  case (Grp a)
  then obtain m where m: "m \<in> set (rx_match s a p)" "q = (fst m, Some (fst p, fst m))"
    by (auto split: prod.splits)
  with Grp have "state_ok s p m" by blast
  then show ?case by (simp add: state_ok_def m(2))
next
  case (Cls neg rs)
  then show ?case by (auto intro: state_ok_next split: if_splits prod.splits)
next
  case (Alt a b)
  from Alt.prems(2) have "q \<in> set (rx_match s a p) \<or> q \<in> set (rx_match s b p)" by simp
  then show ?case using Alt.IH Alt.prems(1) by blast
next
  case (Opt a)
  from Opt.prems(2) have "q \<in> set (rx_match s a p) \<or> q = p" by auto
  then show ?case using Opt.IH Opt.prems(1) state_ok_refl by blast
qed (simp_all add: state_ok_refl split: if_splits)

lemma substr_infix: "a \<le> b \<Longrightarrow> b \<le> length s \<Longrightarrow> \<exists>u v. s = u @ substr s a b @ v"
  unfolding substr_def by (metis append_take_drop_id)

text \<open>Every submatch found is a piece of the text.\<close>

lemma find_all_infix: "m \<in> set (find_all r s i) \<Longrightarrow> \<exists>u v. s = u @ m @ v"
proof (induction r s i rule: find_all.induct)
  case (1 r s i)
  show ?case
  proof (cases "length s < i")
    case True
    with 1 show ?thesis by (subst (asm) (2) find_all.simps) (simp add: find_all.simps)
  next
    case False
    show ?thesis
    proof (cases "rx_match s r (i, None)")
      case Nil
      with 1 False show ?thesis by (simp add: find_all.simps [of r s i])
    next
      case (Cons q rest)
      obtain j c where q: "q = (j, c)" by fastforce
      have "state_ok s (i, None) (j, c)"
        by (rule rx_match_ok [where r = r]) (use False Cons q in auto)
      then have cap: "c = Some (a, b) \<Longrightarrow> a \<le> b \<and> b \<le> length s" for a b by (auto simp: state_ok_def)
      from 1(3) consider "m \<in> set (find_all r s (if j \<le> i then Suc i else j))"
        | a b where "c = Some (a, b)" "m = substr s a b"
        unfolding find_all.simps [of r s i] using False Cons q by (auto split: option.splits)
      then show ?thesis
      proof cases
        case 1
        then show ?thesis using "1.IH"(2) [OF False Cons q [symmetric]] by blast
      next
        case (2 a b)
        then show ?thesis using cap substr_infix by blast
      qed
    qed
  qed
qed

end
