(* ===== verification/Citation.thy ===== *)
theory Citation
  imports Go_Regexp
begin

text \<open>
  Citation routing (\<open>pkg/rag/retrieve/citation.go\<close>): the ordered table of citation schemes with
  their patterns, and \<open>MatchCitation\<close>.  Upper-casing is ASCII upper-casing.
\<close>

record citation_match =
  cm_Scheme :: string
  cm_Citation :: string

definition dot_rx :: rx where "dot_rx = Cls False [(46, 46)]"
definition dash_rx :: rx where "dash_rx = Cls False [(45, 45)]"

text \<open>A letter of either case, for \<open>(?i)\<close>.\<close>

definition ci :: "string \<Rightarrow> rx list" where
  "ci s = map (\<lambda>c. Cls False [(of_char c, of_char c), (of_char c + 32, of_char c + 32)]) s"

definition alts :: "rx \<Rightarrow> rx list \<Rightarrow> rx" where
  "alts r rs = foldl Alt r rs"

text \<open>The patterns, in the order of the source: most constrained scheme first.\<close>

definition cobit_rx :: rx where
  "cobit_rx = seqs [WordBoundary, Grp (seqs [times 3 upr, times 2 dgt, dot_rx, times 2 dgt]), WordBoundary]"

definition csf_rx :: rx where
  "csf_rx = seqs [WordBoundary, Grp (seqs [times 2 upr, dot_rx, times 2 upr, dash_rx, times 2 dgt]), WordBoundary]"

definition oscal_rx :: rx where
  "oscal_rx = seqs [WordBoundary,
     Grp (seqs [times 2 upr, dash_rx, between 1 2 dgt,
       Opt (seqs [Cls False [(40, 40)], plus1 dgt, Cls False [(41, 41)]])]),
     alts WordBoundary [EndText, Cls True [(65, 90), (97, 122), (48, 57), (40, 40)]]]"

definition ccm_rx :: rx where
  "ccm_rx = seqs [WordBoundary,
     Grp (seqs [upr, between 1 4 (Cls False [(65, 90), (38, 38)]), dash_rx, times 2 dgt]), WordBoundary]"

definition tsc_rx :: rx where
  "tsc_rx = seqs [WordBoundary,
     Grp (seqs [alts (seqs (lit ''CC'')) [seqs (lit ''A''), seqs (lit ''PI''), seqs (lit ''P''), seqs (lit ''C'')],
       plus1 dgt, dot_rx, plus1 dgt]), WordBoundary]"

definition pci_rx :: rx where
  "pci_rx = seqs [WordBoundary,
     Opt (seqs (ci ''REQ'' @ [Opt (seqs (ci ''UIREMENT'')), plus1 (Cls False [(9, 10), (12, 13), (32, 32)])])),
     Grp (seqs [between 1 2 dgt, dot_rx, plus1 dgt, Star (seqs [dot_rx, plus1 dgt])]), WordBoundary]"

definition iso_ams_rx :: rx where
  "iso_ams_rx = seqs [WordBoundary,
     Grp (Alt (seqs [Opt upr, dot_rx, plus1 dgt, Star (seqs [dot_rx, plus1 dgt])])
              (seqs [plus1 dgt, dot_rx, plus1 dgt, Opt (seqs [dot_rx, plus1 dgt])])), WordBoundary]"

definition iso_control_rx :: rx where
  "iso_control_rx = seqs [WordBoundary,
     Grp (seqs [Opt (seqs (lit ''CLD.'')), plus1 dgt, between 1 3 (seqs [dot_rx, plus1 dgt])]), WordBoundary]"

definition cis_rx :: rx where
  "cis_rx = seqs [WordBoundary,
     Grp (seqs [between 1 2 dgt, between 1 2 (seqs [dot_rx, between 1 2 dgt])]), WordBoundary]"

definition cscf_rx :: rx where
  "cscf_rx = seqs [WordBoundary, Grp (seqs [dgt, dot_rx, plus1 dgt, Opt upr]), WordBoundary]"

definition schemePatterns :: "(string \<times> rx) list" where
  "schemePatterns =
     [(''cobit-objective'', cobit_rx), (''csf-workbook'', csf_rx), (''oscal-catalog'', oscal_rx),
      (''ccm-workbook'', ccm_rx), (''tsc-criteria'', tsc_rx), (''pci-requirement'', pci_rx),
      (''iso-ams'', iso_ams_rx), (''iso-control-catalog'', iso_control_rx), (''cis-workbook'', cis_rx),
      (''cscf-control'', cscf_rx)]"

definition upper_byte :: "char \<Rightarrow> char" where
  "upper_byte c = (if 97 \<le> (of_char c :: nat) \<and> (of_char c :: nat) \<le> 122
                   then char_of ((of_char c :: nat) - 32) else c)"

definition to_upper :: "string \<Rightarrow> string" where
  "to_upper s = map upper_byte s"

definition scheme_matches :: "string \<Rightarrow> string \<times> rx \<Rightarrow> citation_match list" where
  "scheme_matches upper entry =
     map (\<lambda>m. \<lparr>cm_Scheme = fst entry, cm_Citation = m\<rparr>) (find_all (snd entry) upper 0)"

definition match_key :: "citation_match \<Rightarrow> string" where
  "match_key m = cm_Scheme m @ ''|'' @ cm_Citation m"

definition dedupeMatches :: "citation_match list \<Rightarrow> citation_match list" where
  "dedupeMatches ms = dedup_on match_key {} ms"

definition MatchCitation :: "string \<Rightarrow> string \<Rightarrow> (string \<Rightarrow> string option) \<Rightarrow> citation_match list" where
  "MatchCitation query framework frameworkScheme =
     (let upper = to_upper query in
      if framework \<noteq> [] then
        (case frameworkScheme framework of
           None \<Rightarrow> []
         | Some scheme \<Rightarrow>
             (case map_of schemePatterns scheme of
                None \<Rightarrow> []
              | Some pat \<Rightarrow> dedupeMatches (scheme_matches upper (scheme, pat))))
      else dedupeMatches (concat (map (scheme_matches upper) schemePatterns)))"

section \<open>Properties\<close>

text \<open>
  The citations found are distinct, each is a piece of the upper-cased query, and each belongs to
  a known scheme; with a framework filter, to that framework's scheme only.
\<close>

lemma MatchCitation_sound:
  "distinct (MatchCitation query framework schemes)
   \<and> list_all (\<lambda>m. (\<exists>u v. to_upper query = u @ cm_Citation m @ v)
        \<and> cm_Scheme m \<in> fst ` set schemePatterns
        \<and> (framework = [] \<or> schemes framework = Some (cm_Scheme m)))
      (MatchCitation query framework schemes)"
proof -
  have d: "distinct (dedupeMatches ms)" for ms
    unfolding dedupeMatches_def using distinct_dedup_on [of match_key "{}" ms] by (simp add: distinct_map)
  have s: "m \<in> set (dedupeMatches ms) \<Longrightarrow> m \<in> set ms" for m ms
    using set_dedup_on_subset [of match_key "{}" ms] by (auto simp: dedupeMatches_def)
  have f: "m \<in> set (scheme_matches up e) \<Longrightarrow> cm_Scheme m = fst e \<and> (\<exists>u v. up = u @ cm_Citation m @ v)"
    for m up e by (auto simp: scheme_matches_def dest: find_all_infix)
  have k: "map_of schemePatterns sch = Some pat \<Longrightarrow> sch \<in> fst ` set schemePatterns" for sch pat
    by (auto dest!: map_of_SomeD intro: rev_image_eqI)
  show ?thesis
  proof (cases "framework = []")
    case True
    then have m: "MatchCitation query framework schemes
      = dedupeMatches (concat (map (scheme_matches (to_upper query)) schemePatterns))"
      by (simp add: MatchCitation_def Let_def)
    show ?thesis unfolding m list_all_iff using True d by (auto dest!: s f)
  next
    case False
    show ?thesis
    proof (cases "schemes framework")
      case None
      with False show ?thesis by (simp add: MatchCitation_def Let_def)
    next
      case (Some sch)
      show ?thesis
      proof (cases "map_of schemePatterns sch")
        case None
        with False Some show ?thesis by (simp add: MatchCitation_def Let_def)
      next
        case pat: (Some pat)
        then have m: "MatchCitation query framework schemes
          = dedupeMatches (scheme_matches (to_upper query) (sch, pat))"
          using False Some by (simp add: MatchCitation_def Let_def)
        show ?thesis unfolding m list_all_iff using d Some k [OF pat]
          by (auto dest!: s f intro: rev_image_eqI)
      qed
    qed
  qed
qed

end
