(* ===== verification/Embed.thy ===== *)
theory Embed
  imports Go_Std
begin

text \<open>
  The embedding client (\<open>pkg/rag/embed/embed.go\<close>): the model constants, the query prefix, the
  comparison of model names and one call of an OpenAI-compatible endpoint.  The outcomes of the HTTP
  attempts and the JSON decoder are arguments; a vector is of any type, None being Go's nil slice.
\<close>

definition CanonicalModel :: string where "CanonicalModel = ''qwen3-embedding-0.6b''"
definition CanonicalDims :: int where "CanonicalDims = 1024"

definition Qwen3QueryPrefix :: string where
  "Qwen3QueryPrefix =
     ''Instruct: Given a security or compliance query, retrieve relevant controls and framework text that address the query''
       @ [CHR 0x0A] @ ''Query: ''"

definition FormatQuery :: "string \<Rightarrow> string" where
  "FormatQuery query = Qwen3QueryPrefix @ query"

definition after_last_slash :: "string \<Rightarrow> string" where
  "after_last_slash s = rev (takeWhile (\<lambda>c. c \<noteq> CHR ''/'') (rev s))"

definition norm_model :: "string \<Rightarrow> string" where
  "norm_model s = after_last_slash (to_lower (trim_space s))"

definition sameModel :: "string \<Rightarrow> string \<Rightarrow> bool" where
  "sameModel a b \<longleftrightarrow> norm_model a = norm_model b"

section \<open>One request\<close>

record openai_embedder =
  oe_endpoint :: string
  oe_model :: string
  oe_dims :: int
  oe_apiKey :: string

definition trim_right_slashes :: "string \<Rightarrow> string" where
  "trim_right_slashes s = rev (dropWhile (\<lambda>c. c = CHR ''/'') (rev s))"

definition newEmbedder :: "string \<Rightarrow> string \<Rightarrow> int \<Rightarrow> string \<Rightarrow> openai_embedder" where
  "newEmbedder endpoint model dims apiKey =
     \<lparr>oe_endpoint = trim_right_slashes endpoint, oe_model = model, oe_dims = dims, oe_apiKey = apiKey\<rparr>"

record embed_request =
  eq_Model :: string
  eq_Input :: "string list"

record 'v embed_datum =
  ed_Embedding :: "'v option"
  ed_Index :: int

record 'v embed_response =
  er_Model :: string
  er_Data :: "'v embed_datum list"
  er_Error :: "string option"

record http_request =
  hr_URL :: string
  hr_Body :: embed_request
  hr_Bearer :: "string option"

text \<open>An attempt fails on the connection or while reading the body (Inl), or yields a status and a body.\<close>

type_synonym 'raw attempt = "string + int \<times> 'raw"

datatype 'raw embed_err =
    Unavailable string
  | EndpointMessage int string
  | EndpointStatus int 'raw
  | ParseResponse
  | APIError string
  | ModelMismatch string string
  | IndexOutOfRange int nat
  | NoEmbedding nat

definition build_request :: "openai_embedder \<Rightarrow> string list \<Rightarrow> http_request" where
  "build_request e texts =
     \<lparr>hr_URL = oe_endpoint e @ ''/embeddings'',
      hr_Body = \<lparr>eq_Model = oe_model e, eq_Input = texts\<rparr>,
      hr_Bearer = (if oe_apiKey e = [] then None else Some (oe_apiKey e))\<rparr>"

text \<open>
  The transport answers the request of the given attempt number; \<open>cancelled\<close> tells whether the
  context ends before the retry delay.
\<close>

definition doWithRetry ::
  "(nat \<Rightarrow> http_request \<Rightarrow> 'raw attempt) \<Rightarrow> bool \<Rightarrow> http_request \<Rightarrow> 'raw embed_err + int \<times> 'raw" where
  "doWithRetry send cancelled req =
     (case send 0 req of
        Inr r \<Rightarrow> Inr r
      | Inl e \<Rightarrow>
          if cancelled then Inl (Unavailable e)
          else (case send 1 req of Inr r \<Rightarrow> Inr r | Inl e' \<Rightarrow> Inl (Unavailable e')))"

fun place :: "nat \<Rightarrow> 'v embed_datum list \<Rightarrow> 'v option list \<Rightarrow> 'raw embed_err + 'v option list" where
  "place n [] out = Inr out"
| "place n (d # ds) out =
     (if ed_Index d < 0 \<or> int n \<le> ed_Index d then Inl (IndexOutOfRange (ed_Index d) n)
      else place n ds (out[nat (ed_Index d) := ed_Embedding d]))"

fun all_present :: "nat \<Rightarrow> 'v option list \<Rightarrow> 'raw embed_err + 'v list" where
  "all_present i [] = Inr []"
| "all_present i (None # vs) = Inl (NoEmbedding i)"
| "all_present i (Some v # vs) =
     (case all_present (Suc i) vs of Inl e \<Rightarrow> Inl e | Inr ws \<Rightarrow> Inr (v # ws))"

definition EmbedTexts ::
  "(nat \<Rightarrow> http_request \<Rightarrow> 'raw attempt) \<Rightarrow> bool \<Rightarrow> ('raw \<Rightarrow> 'v embed_response option)
     \<Rightarrow> openai_embedder \<Rightarrow> string list \<Rightarrow> 'raw embed_err + 'v list" where
  "EmbedTexts send cancelled decode e texts =
     (if texts = [] then Inr []
      else case doWithRetry send cancelled (build_request e texts) of
        Inl err \<Rightarrow> Inl err
      | Inr (status, raw) \<Rightarrow>
          if status \<noteq> 200 then
            (case decode raw of
               Some apiErr \<Rightarrow> (case er_Error apiErr of Some m \<Rightarrow> Inl (EndpointMessage status m)
                              | None \<Rightarrow> Inl (EndpointStatus status raw))
             | None \<Rightarrow> Inl (EndpointStatus status raw))
          else
            (case decode raw of
               None \<Rightarrow> Inl ParseResponse
             | Some result \<Rightarrow>
                 (case er_Error result of
                    Some m \<Rightarrow> Inl (APIError m)
                  | None \<Rightarrow>
                      if er_Model result \<noteq> [] \<and> \<not> sameModel (er_Model result) (oe_model e)
                      then Inl (ModelMismatch (er_Model result) (oe_model e))
                      else (case place (length texts) (er_Data result) (replicate (length texts) None) of
                        Inl err \<Rightarrow> Inl err
                      | Inr out \<Rightarrow> all_present 0 out))))"

section \<open>Properties\<close>

lemma sameModel_equiv [simp]:
  "sameModel a a" "sameModel a b = sameModel b a"
  by (auto simp: sameModel_def)

lemma place_ok:
  assumes "place n ds out = (Inr res :: 'raw embed_err + 'v option list)" and "length out = n"
  shows "length res = n \<and> (\<forall>d \<in> set ds. 0 \<le> ed_Index d \<and> ed_Index d < int n)
    \<and> (\<forall>i < n. res ! i = (case List.find (\<lambda>d. ed_Index d = int i) (rev ds) of
                              Some d \<Rightarrow> ed_Embedding d | None \<Rightarrow> out ! i))"
  using assms
proof (induction n ds out rule: place.induct)
  case (2 n d ds out)
  then have b: "0 \<le> ed_Index d" "ed_Index d < int n" and
    r: "place n ds (out[nat (ed_Index d) := ed_Embedding d]) = (Inr res :: 'raw embed_err + 'v option list)"
    by (auto split: if_splits)
  have ih: "length res = n \<and> (\<forall>d \<in> set ds. 0 \<le> ed_Index d \<and> ed_Index d < int n)
    \<and> (\<forall>i < n. res ! i = (case List.find (\<lambda>d. ed_Index d = int i) (rev ds) of
          Some d \<Rightarrow> ed_Embedding d | None \<Rightarrow> out[nat (ed_Index d) := ed_Embedding d] ! i))"
    using 2 b r by auto
  have find_app: "List.find P (xs @ ys) = (case List.find P xs of Some x \<Rightarrow> Some x | None \<Rightarrow> List.find P ys)"
    for P and xs ys :: "'v embed_datum list" by (induction xs) auto
  show ?case using ih b 2(3)
    by (auto simp: find_app nth_list_update split: option.splits)
qed simp

lemma all_present_ok: "all_present i out = Inr vs \<Longrightarrow> out = map Some vs"
  by (induction i out arbitrary: vs rule: all_present.induct) (auto split: sum.splits)

lemma all_present_err: "all_present i out = Inl err \<Longrightarrow> \<exists>j < length out. out ! j = None \<and> err = NoEmbedding (i + j)"
proof (induction i out rule: all_present.induct)
  case (2 i vs)
  then show ?case by (intro exI [of _ 0]) simp
next
  case (3 i v vs)
  then obtain j where "j < length vs" "vs ! j = None" "err = NoEmbedding (Suc i + j)"
    by (auto split: sum.splits)
  then show ?case by (intro exI [of _ "Suc j"]) simp
qed simp

lemma place_length: "place n ds out = Inr res \<Longrightarrow> length res = length out"
  by (induction n ds out rule: place.induct) (auto split: if_splits)

lemma EmbedTexts_length: "EmbedTexts send cancelled decode e texts = Inr vs \<Longrightarrow> length vs = length texts"
  unfolding EmbedTexts_def
  by (auto split: if_splits sum.splits option.splits prod.splits dest!: all_present_ok place_length)

text \<open>
  A successful call returns one vector per text, in the order of the texts whatever the order
  of the response: each vector is the last one the response gives for its index, of a response that
  names no other model.
\<close>

lemma Embed_parallel:
  assumes "EmbedTexts send cancelled decode e texts = Inr vs" and "texts \<noteq> []"
  shows "length vs = length texts
    \<and> (\<exists>raw result. decode raw = Some result \<and> er_Error result = None
         \<and> (send 0 (build_request e texts) = Inr (200, raw) \<or> send 1 (build_request e texts) = Inr (200, raw))
         \<and> (er_Model result = [] \<or> sameModel (er_Model result) (oe_model e))
         \<and> (\<forall>i < length texts. \<exists>d. List.find (\<lambda>d. ed_Index d = int i) (rev (er_Data result)) = Some d
                \<and> ed_Embedding d = Some (vs ! i)))"
proof -
  obtain raw result out where
    sent: "doWithRetry send cancelled (build_request e texts) = Inr (200, raw)"
    and dec: "decode raw = Some result" and ok: "er_Error result = None"
    and model: "er_Model result = [] \<or> sameModel (er_Model result) (oe_model e)"
    and plc: "place (length texts) (er_Data result) (replicate (length texts) None) = (Inr out :: 'a embed_err + _)"
    and prs: "all_present 0 out = (Inr vs :: 'a embed_err + _)"
    using assms unfolding EmbedTexts_def by (auto split: if_splits sum.splits option.splits prod.splits)
  have out: "out = map Some vs" by (rule all_present_ok [OF prs])
  note p = place_ok [OF plc]
  have vec: "\<exists>d. List.find (\<lambda>d. ed_Index d = int i) (rev (er_Data result)) = Some d
                \<and> ed_Embedding d = Some (vs ! i)" if "i < length texts" for i
    using p that by (auto simp: out split: option.splits)
  have "send 0 (build_request e texts) = Inr (200, raw) \<or> send 1 (build_request e texts) = Inr (200, raw)"
    using sent unfolding doWithRetry_def by (auto split: sum.splits if_splits)
  then show ?thesis using p dec ok model vec by (auto simp: out)
qed

definition demo_send :: "nat \<Rightarrow> http_request \<Rightarrow> nat attempt" where
  "demo_send k req = (if k = 0 then Inl ''refused'' else Inr (200, 7))"

definition demo_decode :: "nat \<Rightarrow> int list embed_response option" where
  "demo_decode raw =
     Some \<lparr>er_Model = ''qwen3-embedding-0.6b'',
           er_Data = [\<lparr>ed_Embedding = Some [3, 4], ed_Index = 1\<rparr>, \<lparr>ed_Embedding = Some [1, 2], ed_Index = 0\<rparr>],
           er_Error = None\<rparr>"

definition demo_embedder :: openai_embedder where
  "demo_embedder = newEmbedder ''http://localhost:8080/'' ''Qwen/Qwen3-Embedding-0.6B'' 1024 []"

lemma Embed_parallel_witness:
  "EmbedTexts demo_send False demo_decode demo_embedder [''a'', ''b''] = Inr [[1, 2], [3, 4]]
   \<and> length [[1, 2], [3, 4 :: int]] = length [''a'', ''b'']"
proof -
  have run: "EmbedTexts demo_send False demo_decode demo_embedder [''a'', ''b''] = Inr [[1, 2], [3, 4]]"
    by code_simp
  show ?thesis using run Embed_parallel [OF run] by simp
qed

end
