(* ===== verification/Corpus.thy ===== *)
theory Corpus
  imports Go_Std
begin

text \<open>
  The corpus tables the retriever, the indexer and the MCP tools query (\<open>sql/silver\<close>,
  \<open>sql/gold\<close>, \<open>sql/config\<close>): a table is the list of its rows in the order the database scans them, a
  row a record of the columns the statements read.  \<open>well_keyed\<close> states the primary and unique keys.
  A statement is a list comprehension over the tables; \<open>ORDER BY\<close> is a stable sort, so rows that tie
  come in scan order, which the model leaves open.
\<close>

record doc_row =
  d_id :: int
  d_key :: string
  d_framework :: string
  d_version :: string
  d_role :: string
  d_qualifier :: string
  d_title :: string
  d_sha :: string
  d_gate :: string
  d_mapedged :: bool

record control_row =
  sc_id :: int
  sc_document :: int
  sc_parent :: "int option"
  sc_citation :: string
  sc_norm :: string
  sc_kind :: string
  sc_status :: string
  sc_title :: string
  sc_title_original :: "string option"
  sc_body :: "string option"
  sc_amends :: "string option"
  sc_action :: "string option"
  sc_ordinal :: int

record mapping_row =
  cm_from :: int
  cm_to_framework :: string
  cm_to_version :: "string option"
  cm_to_norm :: string
  cm_to_control :: "int option"
  cm_source :: string
  cm_relationship :: string
  cm_provenance :: string

record relation_row =
  vr_from_framework :: string
  vr_from_version :: string
  vr_to_framework :: string
  vr_to_version :: string
  vr_type :: string
  vr_note :: string

record 'sp chunk_row =
  ck_id :: int
  ck_control :: int
  ck_citation :: string
  ck_prefix :: "string option"
  ck_content :: string
  ck_ordinal :: int
  ck_sparse :: "'sp option"

record 'v embedding_row =
  em_chunk :: int
  em_model :: string
  em_dims :: int
  em_vector :: 'v

record version_row =
  fv_framework :: string
  fv_version :: string
  fv_is_current :: bool
  fv_note :: string

record framework_row =
  fw_code :: string
  fw_name :: string
  fw_policy :: string
  fw_scheme :: string
  fw_terms :: string

record source_row =
  sf_id :: int
  sf_rel :: string
  sf_sha :: string
  sf_url :: string
  sf_gate :: string

text \<open>\<open>next_doc\<close>, \<open>next_control\<close> and \<open>next_chunk\<close> are the identity sequences of the tables.\<close>

record ('v, 'sp) corpus =
  frameworks :: "framework_row list"
  versions :: "version_row list"
  source_files :: "source_row list"
  documents :: "doc_row list"
  controls :: "control_row list"
  mappings :: "mapping_row list"
  relations :: "relation_row list"
  chunks :: "'sp chunk_row list"
  embeddings :: "'v embedding_row list"
  next_doc :: int
  next_control :: int
  next_chunk :: int

definition empty_corpus :: "('v, 'sp) corpus" where
  "empty_corpus =
     \<lparr>frameworks = [], versions = [], source_files = [], documents = [], controls = [], mappings = [], relations = [],
      chunks = [], embeddings = [], next_doc = 1, next_control = 1, next_chunk = 1\<rparr>"

text \<open>Rows whose other columns hold the defaults of the schema.\<close>

definition plain_doc :: "int \<Rightarrow> string \<Rightarrow> string \<Rightarrow> doc_row" where
  "plain_doc i fw v =
     \<lparr>d_id = i, d_key = fw @ ''|'' @ v @ ''|main'', d_framework = fw, d_version = v, d_role = ''main'',
      d_qualifier = [], d_title = [], d_sha = [], d_gate = ''auth-only'', d_mapedged = False\<rparr>"

definition plain_control :: "int \<Rightarrow> int \<Rightarrow> string \<Rightarrow> string \<Rightarrow> control_row" where
  "plain_control i doc norm status =
     \<lparr>sc_id = i, sc_document = doc, sc_parent = None, sc_citation = norm, sc_norm = norm, sc_kind = ''control'',
      sc_status = status, sc_title = [], sc_title_original = None, sc_body = None, sc_amends = None,
      sc_action = None, sc_ordinal = 0\<rparr>"

definition plain_chunk :: "int \<Rightarrow> int \<Rightarrow> string \<Rightarrow> 'sp chunk_row" where
  "plain_chunk i ctrl txt =
     \<lparr>ck_id = i, ck_control = ctrl, ck_citation = [], ck_prefix = None, ck_content = txt, ck_ordinal = 0,
      ck_sparse = None\<rparr>"

definition well_keyed :: "('v, 'sp) corpus \<Rightarrow> bool" where
  "well_keyed db \<longleftrightarrow>
     distinct (map fw_code (frameworks db))
   \<and> distinct (map (\<lambda>f. (fv_framework f, fv_version f)) (versions db))
   \<and> distinct (map d_id (documents db))
   \<and> distinct (map sc_id (controls db))
   \<and> distinct (map ck_id (chunks db))"

text \<open>The join that both the citation lookup and the hydration read.\<close>

type_synonym 'sp joined = "'sp chunk_row \<times> control_row \<times> doc_row \<times> version_row"

definition row_tail :: "('v, 'sp) corpus \<Rightarrow> 'sp chunk_row \<Rightarrow> 'sp joined list" where
  "row_tail db c =
     [(c, sc, d, fv).
        sc \<leftarrow> filter (\<lambda>sc. sc_id sc = ck_control c) (controls db),
        d \<leftarrow> filter (\<lambda>d. d_id d = sc_document sc) (documents db),
        fv \<leftarrow> filter (\<lambda>fv. (fv_framework fv, fv_version fv) = (d_framework d, d_version d)) (versions db)]"

definition joined_rows :: "('v, 'sp) corpus \<Rightarrow> 'sp joined list" where
  "joined_rows db = concat (map (row_tail db) (chunks db))"

definition row_chunk :: "'sp joined \<Rightarrow> int" where
  "row_chunk r = (case r of (c, _) \<Rightarrow> ck_id c)"

section \<open>Lookups by key\<close>

lemma filter_key_le_1: "distinct (map f xs) \<Longrightarrow> length (filter (\<lambda>x. f x = k) xs) \<le> 1"
  by (induction xs) (auto simp: filter_empty_conv image_iff)

lemma key_unique: "distinct (map f xs) \<Longrightarrow> x \<in> set xs \<Longrightarrow> y \<in> set xs \<Longrightarrow> f x = f y \<Longrightarrow> x = y"
  by (auto simp: distinct_map inj_on_def)

lemma length_concat_le_1:
  "length xs \<le> 1 \<Longrightarrow> (\<And>x. x \<in> set xs \<Longrightarrow> length (g x) \<le> 1) \<Longrightarrow> length (concat (map g xs)) \<le> 1"
  by (cases xs) (auto simp: Suc_le_eq)

lemma row_tail_le_1: "well_keyed db \<Longrightarrow> length (row_tail db c) \<le> 1"
  unfolding row_tail_def well_keyed_def
  by (intro length_concat_le_1 filter_key_le_1) (auto simp del: One_nat_def prod.inject
        intro!: length_concat_le_1 filter_key_le_1)

lemma row_tail_chunk: "r \<in> set (row_tail db c) \<Longrightarrow> fst r = c"
  by (auto simp: row_tail_def)

lemma distinct_concat_keys:
  "distinct (map f xs) \<Longrightarrow> (\<And>x. x \<in> set xs \<Longrightarrow> length (g x) \<le> 1)
     \<Longrightarrow> (\<And>x r. x \<in> set xs \<Longrightarrow> r \<in> set (g x) \<Longrightarrow> h r = f x)
     \<Longrightarrow> distinct (map h (concat (map g xs)))"
proof (induction xs)
  case (Cons x xs)
  have "distinct (map h (g x))"
    using Cons(3) [of x] by (cases "g x") auto
  moreover have "h r \<notin> h ` (\<Union>y \<in> set xs. set (g y))" if "r \<in> set (g x)" for r
    using Cons(2,4) that by (fastforce simp: image_iff)
  ultimately show ?case using Cons by (auto simp: image_iff)
qed simp

lemma joined_rows_distinct: "well_keyed db \<Longrightarrow> distinct (map row_chunk (joined_rows db))"
  unfolding joined_rows_def
  by (rule distinct_concat_keys [where f = ck_id])
     (use row_tail_le_1 in \<open>force simp: row_chunk_def well_keyed_def split: prod.splits dest: row_tail_chunk\<close>)+

lemma joined_rows_iff:
  "(c, sc, d, fv) \<in> set (joined_rows db) \<longleftrightarrow>
     c \<in> set (chunks db) \<and> sc \<in> set (controls db) \<and> d \<in> set (documents db) \<and> fv \<in> set (versions db)
     \<and> sc_id sc = ck_control c \<and> d_id d = sc_document sc
     \<and> fv_framework fv = d_framework d \<and> fv_version fv = d_version d"
  by (auto simp: joined_rows_def row_tail_def)

lemma joined_row_unique:
  "well_keyed db \<Longrightarrow> r \<in> set (joined_rows db) \<Longrightarrow> r' \<in> set (joined_rows db)
     \<Longrightarrow> row_chunk r = row_chunk r' \<Longrightarrow> r = r'"
  by (rule key_unique [OF joined_rows_distinct])

lemma version_unique:
  assumes "well_keyed db" and "f \<in> set (versions db)" and "g \<in> set (versions db)"
    and "fv_framework f = fv_framework g" and "fv_version f = fv_version g"
  shows "f = g"
  using key_unique [of "\<lambda>f. (fv_framework f, fv_version f)" "versions db" f g] assms
  by (simp add: well_keyed_def)

end
