(* ===== verification/Retrieve.thy ===== *)
theory Retrieve
  imports Eval Citation Embed Lexical Corpus "HOL-Library.Product_Lexorder" "HOL-Library.List_Lexorder"
begin

text \<open>
  Hybrid retrieval (\<open>pkg/rag/retrieve/rrf.go\<close>, \<open>retrieve.go\<close>): Reciprocal Rank Fusion, the
  options, the two arms, the citation lookup, hydration, the non-current pass and the pipeline that
  composes them.

  The database engine is a parameter: pgvector's cosine distance and negative inner product, the sort
  key of the collation, and whether a statement fails.  The statements themselves are written out over
  the tables of \<open>Corpus\<close>.  Logging is left out; floating-point numbers are exact rationals.
\<close>

section \<open>Reciprocal Rank Fusion (rrf.go)\<close>

record ranked =
  r_chunk :: int
  r_rank :: nat
  r_similarity :: rat
  r_bm25 :: rat

record fused_hit =
  f_chunk :: int
  f_score :: rat
  f_similarity :: rat
  f_bm25 :: rat
  f_vectorRank :: nat
  f_bm25Rank :: nat

definition defaultTopK :: nat where "defaultTopK = 8"
definition defaultVectorK :: nat where "defaultVectorK = 50"
definition defaultBM25K :: nat where "defaultBM25K = 50"
definition defaultRRFK :: nat where "defaultRRFK = 20"
definition defaultDocCap :: nat where "defaultDocCap = 0"
definition defaultLexWeight :: rat where "defaultLexWeight = 1 / 2"

definition new_fused :: "int \<Rightarrow> fused_hit" where
  "new_fused i = \<lparr>f_chunk = i, f_score = 0, f_similarity = 0, f_bm25 = 0, f_vectorRank = 0, f_bm25Rank = 0\<rparr>"

text \<open>The map \<open>byID\<close>, as the list of its entries: apply \<open>g\<close> to the entry of \<open>i\<close>, made on demand.\<close>

fun upd_fused :: "int \<Rightarrow> (fused_hit \<Rightarrow> fused_hit) \<Rightarrow> fused_hit list \<Rightarrow> fused_hit list" where
  "upd_fused i g [] = [g (new_fused i)]"
| "upd_fused i g (h # hs) = (if f_chunk h = i then g h # hs else h # upd_fused i g hs)"

definition add_vector :: "rat \<Rightarrow> ranked \<Rightarrow> fused_hit \<Rightarrow> fused_hit" where
  "add_vector k r h =
     h\<lparr>f_score := f_score h + 1 / (k + of_nat (r_rank r)),
       f_vectorRank := (if f_vectorRank h = 0 \<or> r_rank r < f_vectorRank h then r_rank r else f_vectorRank h),
       f_similarity := (if f_similarity h < r_similarity r then r_similarity r else f_similarity h)\<rparr>"

definition add_bm25 :: "rat \<Rightarrow> rat \<Rightarrow> ranked \<Rightarrow> fused_hit \<Rightarrow> fused_hit" where
  "add_bm25 k w r h =
     h\<lparr>f_score := f_score h + w / (k + of_nat (r_rank r)),
       f_bm25Rank := (if f_bm25Rank h = 0 \<or> r_rank r < f_bm25Rank h then r_rank r else f_bm25Rank h),
       f_bm25 := (if f_bm25 h < r_bm25 r then r_bm25 r else f_bm25 h)\<rparr>"

fun fuse_arm :: "(ranked \<Rightarrow> fused_hit \<Rightarrow> fused_hit) \<Rightarrow> ranked list \<Rightarrow> fused_hit list \<Rightarrow> fused_hit list" where
  "fuse_arm add [] byID = byID"
| "fuse_arm add (r # rs) byID =
     (if r_rank r = 0 then fuse_arm add rs byID
      else fuse_arm add rs (upd_fused (r_chunk r) (add r) byID))"

definition fused_key :: "fused_hit \<Rightarrow> rat \<times> int" where
  "fused_key h = (- f_score h, f_chunk h)"

definition fuseRRF :: "ranked list \<Rightarrow> ranked list \<Rightarrow> nat \<Rightarrow> rat \<Rightarrow> fused_hit list" where
  "fuseRRF vectorList bm25List rrfK lexWeight =
     (let rrfK' = (if rrfK = 0 then defaultRRFK else rrfK);
          w = (if lexWeight \<le> 0 then defaultLexWeight else lexWeight);
          k = of_nat rrfK';
          byID = fuse_arm (add_bm25 k w) bm25List (fuse_arm (add_vector k) vectorList [])
      in sort_key fused_key byID)"

section \<open>The retriever and its options\<close>

record 'v embedder =
  eb_Model :: string
  eb_Embed :: "string list \<Rightarrow> string + 'v option list"

record 'v retriever =
  rt_embedder :: "'v embedder option"
  rt_abstainFloor :: rat
  rt_frameworkScheme :: "string \<Rightarrow> string option"

datatype stmt = FrameworkQuery | CountQuery | CitationQuery | VectorQuery bool | SparseQuery bool | HydrateQuery bool

type_synonym sparse = "(int \<times> real) list"

record 'v engine =
  en_cosine :: "'v \<Rightarrow> 'v \<Rightarrow> rat"
  en_neg_ip :: "sparse \<Rightarrow> sparse \<Rightarrow> rat"
  en_collate :: "string \<Rightarrow> int list"
  en_unicode :: unicode
  en_fails :: "stmt \<Rightarrow> bool"

type_synonym 'v db = "('v, sparse) corpus"

definition loadFrameworkSchemes :: "'v engine \<Rightarrow> 'v db \<Rightarrow> (string \<Rightarrow> string option) option" where
  "loadFrameworkSchemes en db =
     (if en_fails en FrameworkQuery then None
      else Some (map_of (rev (map (\<lambda>f. (fw_code f, fw_scheme f)) (frameworks db)))))"

text \<open>What \<open>New\<close> logs about the dense arm.\<close>

datatype parity = NoDenseArm | CannotVerify | NoMatchingEmbeddings | DenseReady nat

definition newRetriever :: "'v engine \<Rightarrow> 'v db \<Rightarrow> 'v embedder option \<Rightarrow> ('v retriever \<times> parity) option" where
  "newRetriever en db emb =
     (case loadFrameworkSchemes en db of
        None \<Rightarrow> None
      | Some schemes \<Rightarrow>
          Some (\<lparr>rt_embedder = emb, rt_abstainFloor = 0, rt_frameworkScheme = schemes\<rparr>,
            (case emb of
               None \<Rightarrow> NoDenseArm
             | Some e \<Rightarrow>
                 if en_fails en CountQuery then CannotVerify
                 else let n = length (filter (\<lambda>r. em_model r = eb_Model e) (embeddings db))
                      in if n = 0 then NoMatchingEmbeddings else DenseReady n)))"

definition SetAbstainFloor :: "rat \<Rightarrow> 'v retriever \<Rightarrow> 'v retriever" where
  "SetAbstainFloor f r = r\<lparr>rt_abstainFloor := f\<rparr>"

record resolved =
  rs_mode :: search_mode
  rs_topK :: nat
  rs_vectorK :: nat
  rs_bm25K :: nat
  rs_rrfK :: nat
  rs_docCap :: nat
  rs_lexWeight :: rat
  rs_currentOnly :: bool
  rs_surfaceNonCurrent :: bool
  rs_framework :: string
  rs_versionLabel :: string
  rs_includeWithdrawn :: bool

definition pick :: "int \<Rightarrow> nat \<Rightarrow> nat" where
  "pick o' d = (if 0 < o' then nat o' else d)"

definition resolve_mode :: "'v retriever \<Rightarrow> search_opts \<Rightarrow> search_mode option" where
  "resolve_mode r opts =
     (if so_Mode opts = [] then Some (if rt_embedder r \<noteq> None then SearchModeHybrid else SearchModeBM25)
      else ParseSearchMode (so_Mode opts))"

definition resolve :: "'v retriever \<Rightarrow> search_opts \<Rightarrow> resolved option" where
  "resolve r opts =
     map_option (\<lambda>m.
          \<lparr>rs_mode = m,
           rs_topK = pick (so_TopK opts) defaultTopK,
           rs_vectorK = pick (so_VectorK opts) defaultVectorK,
           rs_bm25K = pick (so_BM25K opts) defaultBM25K,
           rs_rrfK = pick (so_RRFK opts) defaultRRFK,
           rs_docCap = pick (so_DocCap opts) defaultDocCap,
           rs_lexWeight = (if so_LexWeight opts \<le> 0 then defaultLexWeight else so_LexWeight opts),
           rs_currentOnly = (case so_CurrentOnly opts of None \<Rightarrow> True | Some b \<Rightarrow> b),
           rs_surfaceNonCurrent =
             (so_CurrentOnly opts = None \<and> so_Framework opts = [] \<and> so_VersionLabel opts = []),
           rs_framework = so_Framework opts,
           rs_versionLabel = so_VersionLabel opts,
           rs_includeWithdrawn = so_IncludeWithdrawn opts\<rparr>)
       (resolve_mode r opts)"

section \<open>The arms\<close>

text \<open>A condition of the common table expression, over a document and its version.\<close>

type_synonym version_cond = "doc_row \<Rightarrow> version_row \<Rightarrow> bool"

definition buildVersionFilterCTE :: "resolved \<Rightarrow> version_cond list" where
  "buildVersionFilterCTE res =
     (if rs_framework res \<noteq> [] then [\<lambda>d fv. d_framework d = rs_framework res] else [])
     @ (if rs_versionLabel res \<noteq> [] then [\<lambda>d fv. d_version d = rs_versionLabel res]
        else if rs_currentOnly res then [\<lambda>d fv. fv_is_current fv] else [])"

definition buildNonCurrentCTE :: "resolved \<Rightarrow> version_cond list" where
  "buildNonCurrentCTE res =
     (if rs_framework res \<noteq> [] then [\<lambda>d fv. d_framework d = rs_framework res] else [])
     @ [\<lambda>d fv. \<not> fv_is_current fv]"

definition version_filter :: "'v db \<Rightarrow> version_cond list \<Rightarrow> int list" where
  "version_filter db conds =
     [d_id d. d \<leftarrow> documents db,
        fv \<leftarrow> filter (\<lambda>fv. (fv_framework fv, fv_version fv) = (d_framework d, d_version d)) (versions db),
        list_all (\<lambda>P. P d fv) conds]"

text \<open>Without a condition the statement has no filter at all.\<close>

definition doc_passes :: "'v db \<Rightarrow> version_cond list \<Rightarrow> int \<Rightarrow> bool" where
  "doc_passes db conds doc \<longleftrightarrow> conds = [] \<or> doc \<in> set (version_filter db conds)"

definition status_ok :: "resolved \<Rightarrow> control_row \<Rightarrow> bool" where
  "status_ok res sc \<longleftrightarrow>
     (if rs_includeWithdrawn res then sc_status sc \<in> {''active'', ''withdrawn''} else sc_status sc = ''active'')"

definition arm_conds :: "resolved \<Rightarrow> bool \<Rightarrow> version_cond list" where
  "arm_conds res nonCurrent = (if nonCurrent then buildNonCurrentCTE res else buildVersionFilterCTE res)"

text \<open>The chunks an arm may return, with their controls.\<close>

definition arm_chunks :: "'v db \<Rightarrow> resolved \<Rightarrow> bool \<Rightarrow> sparse chunk_row list" where
  "arm_chunks db res nonCurrent =
     [c. c \<leftarrow> chunks db,
         sc \<leftarrow> filter (\<lambda>sc. sc_id sc = ck_control c) (controls db),
         status_ok res sc \<and> doc_passes db (arm_conds res nonCurrent) (sc_document sc)]"

fun scan_ranked :: "nat \<Rightarrow> (int \<times> rat) list \<Rightarrow> (int \<Rightarrow> nat \<Rightarrow> rat \<Rightarrow> ranked) \<Rightarrow> ranked list" where
  "scan_ranked rank [] mk = []"
| "scan_ranked rank ((i, x) # rows) mk = mk i (Suc rank) x # scan_ranked (Suc rank) rows mk"

definition scanRankedWithDistance :: "(int \<times> rat) list \<Rightarrow> ranked list" where
  "scanRankedWithDistance rows =
     scan_ranked 0 rows (\<lambda>i n x. \<lparr>r_chunk = i, r_rank = n, r_similarity = 1 - x, r_bm25 = 0\<rparr>)"

definition scanRankedBM25 :: "(int \<times> rat) list \<Rightarrow> ranked list" where
  "scanRankedBM25 rows =
     scan_ranked 0 rows (\<lambda>i n x. \<lparr>r_chunk = i, r_rank = n, r_similarity = 0, r_bm25 = - x\<rparr>)"

text \<open>The rows of the two statements, before ordering and limit.\<close>

definition vector_rows :: "'v engine \<Rightarrow> 'v db \<Rightarrow> string \<Rightarrow> 'v \<Rightarrow> resolved \<Rightarrow> bool \<Rightarrow> (int \<times> rat) list" where
  "vector_rows en db model qv res nonCurrent =
     [(ck_id c, en_cosine en (em_vector e) qv).
        e \<leftarrow> filter (\<lambda>e. em_model e = model) (embeddings db),
        c \<leftarrow> filter (\<lambda>c. ck_id c = em_chunk e) (arm_chunks db res nonCurrent)]"

definition sparse_rows :: "'v engine \<Rightarrow> 'v db \<Rightarrow> sparse \<Rightarrow> resolved \<Rightarrow> bool \<Rightarrow> (int \<times> rat) list" where
  "sparse_rows en db qv res nonCurrent =
     concat (map (\<lambda>c. case ck_sparse c of
                    None \<Rightarrow> []
                  | Some s \<Rightarrow> let x = en_neg_ip en s qv in if x < 0 then [(ck_id c, x)] else [])
                 (arm_chunks db res nonCurrent))"

definition vectorArmExact ::
  "'v engine \<Rightarrow> 'v db \<Rightarrow> string \<Rightarrow> 'v \<Rightarrow> resolved \<Rightarrow> bool \<Rightarrow> ranked list option" where
  "vectorArmExact en db model qv res nonCurrent =
     (if en_fails en (VectorQuery nonCurrent) then None
      else Some (scanRankedWithDistance
        (take (rs_vectorK res) (sort_key (\<lambda>(i, x). (x, i)) (vector_rows en db model qv res nonCurrent)))))"

definition sparseArmInner ::
  "'v engine \<Rightarrow> 'v db \<Rightarrow> string \<Rightarrow> resolved \<Rightarrow> bool \<Rightarrow> ranked list option" where
  "sparseArmInner en db query res nonCurrent =
     (if en_fails en (SparseQuery nonCurrent) then None
      else Some (scanRankedBM25
        (take (rs_bm25K res) (sort_key snd
          (sparse_rows en db (QueryVector (en_unicode en) (utf8_runes query)) res nonCurrent)))))"

definition sparseArm :: "'v engine \<Rightarrow> 'v db \<Rightarrow> string \<Rightarrow> resolved \<Rightarrow> ranked list option" where
  "sparseArm en db query res = sparseArmInner en db query res False"

section \<open>Citation lookup and hydration\<close>

definition hit_of_row :: "sparse joined \<Rightarrow> hit" where
  "hit_of_row r =
     (case r of (c, sc, d, fv) \<Rightarrow>
        \<lparr>ChunkID = ck_id c, DocumentID = sc_document sc, FrameworkCode = d_framework d,
         VersionLabel = d_version d, Citation = sc_citation sc, CitationNorm = sc_norm sc,
         ContextPrefix = (case ck_prefix c of None \<Rightarrow> [] | Some p \<Rightarrow> p), Content = ck_content c,
         hScore = 0, Similarity = 0, BM25Score = 0, VectorRank = 0, BM25Rank = 0,
         IsCurrent = fv_is_current fv\<rparr>)"

definition citation_cond :: "string list \<Rightarrow> resolved \<Rightarrow> 'v db \<Rightarrow> sparse joined \<Rightarrow> bool" where
  "citation_cond norms res db r =
     (case r of (c, sc, d, fv) \<Rightarrow>
        to_upper (sc_norm sc) \<in> set norms
      \<and> (rs_framework res \<noteq> [] \<longrightarrow> d_framework d = rs_framework res)
      \<and> (if rs_versionLabel res \<noteq> [] then d_version d = rs_versionLabel res
         else rs_currentOnly res \<longrightarrow>
           list_ex (\<lambda>g. fv_framework g = d_framework d \<and> fv_version g = d_version d \<and> fv_is_current g) (versions db))
      \<and> status_ok res sc)"

type_synonym citation_order = "nat \<times> int list \<times> int list \<times> int list \<times> int"

definition citation_key :: "'v engine \<Rightarrow> sparse joined \<Rightarrow> citation_order" where
  "citation_key en r =
     (case r of (c, sc, d, fv) \<Rightarrow>
        (if fv_is_current fv then 0 else 1, en_collate en (d_framework d), en_collate en (d_version d),
         en_collate en (sc_norm sc), ck_ordinal c))"

definition citationLookup ::
  "'v engine \<Rightarrow> 'v db \<Rightarrow> citation_match list \<Rightarrow> resolved \<Rightarrow> hit list option" where
  "citationLookup en db ms res =
     (if ms = [] then Some []
      else
        let norms = dedup_on (\<lambda>s. s) {} (map (\<lambda>m. to_upper (cm_Citation m)) ms)
        in if en_fails en CitationQuery then None
           else Some (map (\<lambda>r. (hit_of_row r)\<lparr>hScore := 1\<rparr>)
             (take 16 (sort_key (citation_key en) (filter (citation_cond norms res db) (joined_rows db))))))"

definition hydrate_one :: "'v db \<Rightarrow> int list \<Rightarrow> fused_hit \<Rightarrow> hit option" where
  "hydrate_one db ids f =
     map_option (\<lambda>r. (hit_of_row r)
         \<lparr>hScore := f_score f, Similarity := f_similarity f, BM25Score := f_bm25 f,
          VectorRank := f_vectorRank f, BM25Rank := f_bm25Rank f\<rparr>)
       (map_of (rev (map (\<lambda>r. (row_chunk r, r)) (filter (\<lambda>r. row_chunk r \<in> set ids) (joined_rows db)))) (f_chunk f))"

definition hydrate :: "'v engine \<Rightarrow> 'v db \<Rightarrow> bool \<Rightarrow> fused_hit list \<Rightarrow> hit list option" where
  "hydrate en db nonCurrent fused =
     (if en_fails en (HydrateQuery nonCurrent) then None
      else Some (List.map_filter (hydrate_one db (map f_chunk fused)) fused))"

section \<open>Helpers over hits\<close>

text \<open>The first loop of \<open>capPerFramework\<close>: what is selected and what is demoted.\<close>

fun cap_loop :: "nat \<Rightarrow> nat \<Rightarrow> (string \<Rightarrow> nat) \<Rightarrow> nat \<Rightarrow> hit list \<Rightarrow> hit list \<times> hit list" where
  "cap_loop frameworkCap topK perFw n [] = ([], [])"
| "cap_loop frameworkCap topK perFw n (h # hs) =
     (if n = topK then ([], [])
      else if frameworkCap \<le> perFw (FrameworkCode h) then
        (let (sel, dem) = cap_loop frameworkCap topK perFw n hs in (sel, h # dem))
      else
        (let (sel, dem) = cap_loop frameworkCap topK
               (perFw(FrameworkCode h := Suc (perFw (FrameworkCode h)))) (Suc n) hs
         in (h # sel, dem)))"

definition capPerFramework :: "hit list \<Rightarrow> nat \<Rightarrow> nat \<Rightarrow> hit list" where
  "capPerFramework hits frameworkCap topK =
     (if topK = 0 \<or> hits = [] then hits
      else let (sel, dem) = cap_loop frameworkCap topK (\<lambda>_. 0) 0 hits
           in sel @ take (topK - length sel) dem)"

definition bestHitPerFramework :: "hit list \<Rightarrow> hit list" where
  "bestHitPerFramework hits = dedup_on (\<lambda>h. FrameworkCode h @ ''|'' @ VersionLabel h) {} hits"

fun merge_loop :: "int set \<Rightarrow> nat \<Rightarrow> hit list \<Rightarrow> hit list \<Rightarrow> hit list" where
  "merge_loop pinnedIDs topK out [] = out"
| "merge_loop pinnedIDs topK out (h # hs) =
     (if topK \<le> length out then out
      else if ChunkID h \<in> pinnedIDs then merge_loop pinnedIDs topK out hs
      else merge_loop pinnedIDs topK (out @ [h]) hs)"

definition mergePinned :: "hit list \<Rightarrow> hit list \<Rightarrow> nat \<Rightarrow> hit list" where
  "mergePinned pinned fused topK = merge_loop (set (map ChunkID pinned)) topK pinned fused"

definition appendNonCurrent :: "hit list \<Rightarrow> hit list \<Rightarrow> hit list" where
  "appendNonCurrent current nonCurrent =
     current @ dedup_on ChunkID (set (map ChunkID current)) nonCurrent"

section \<open>The non-current pass\<close>

definition nonCurrentCap :: nat where "nonCurrentCap = 3"

definition nonCurrentTail :: "'v engine \<Rightarrow> 'v db \<Rightarrow> fused_hit list \<Rightarrow> resolved \<Rightarrow> hit list option" where
  "nonCurrentTail en db fused res =
     map_option bestHitPerFramework (hydrate en db True (take (min nonCurrentCap (rs_topK res)) fused))"

definition nonCurrentHits :: "'v engine \<Rightarrow> 'v db \<Rightarrow> string \<Rightarrow> 'v \<Rightarrow> resolved \<Rightarrow> hit list option" where
  "nonCurrentHits en db model qv res =
     (case vectorArmExact en db model qv res True of
        None \<Rightarrow> None
      | Some l \<Rightarrow> nonCurrentTail en db (fuseRRF l [] (rs_rrfK res) 1) res)"

definition nonCurrentHitsBM25 :: "'v engine \<Rightarrow> 'v db \<Rightarrow> string \<Rightarrow> resolved \<Rightarrow> hit list option" where
  "nonCurrentHitsBM25 en db query res =
     (case sparseArmInner en db query res True of
        None \<Rightarrow> None
      | Some l \<Rightarrow> nonCurrentTail en db (fuseRRF [] l (rs_rrfK res) 1) res)"

section \<open>The pipeline\<close>

datatype search_err =
    ResolveOpts | NoEmbedder | EmbedQuery string | BadVectors nat | VectorArm | LexicalArm | HydrateErr

text \<open>The vector arm of the pipeline: the query vector, if there is one, and the ranked list.\<close>

definition vector_stage ::
  "'v engine \<Rightarrow> 'v db \<Rightarrow> 'v retriever \<Rightarrow> string \<Rightarrow> resolved
     \<Rightarrow> search_err + (string \<times> 'v) option \<times> ranked list" where
  "vector_stage en db rt query res =
     (if rs_mode res = SearchModeBM25 then Inr (None, [])
      else case rt_embedder rt of
        None \<Rightarrow> if rs_mode res = SearchModeVector then Inl NoEmbedder else Inr (None, [])
      | Some e \<Rightarrow>
          (case eb_Embed e [FormatQuery query] of
             Inl err \<Rightarrow> Inl (EmbedQuery err)
           | Inr [Some qv] \<Rightarrow>
               (case vectorArmExact en db (eb_Model e) qv res False of
                  None \<Rightarrow> Inl VectorArm
                | Some l \<Rightarrow> Inr (Some (eb_Model e, qv), l))
           | Inr vecs \<Rightarrow> Inl (BadVectors (length vecs))))"

definition lexical_stage :: "'v engine \<Rightarrow> 'v db \<Rightarrow> string \<Rightarrow> resolved \<Rightarrow> search_err + ranked list" where
  "lexical_stage en db query res =
     (if rs_mode res = SearchModeVector then Inr []
      else case sparseArm en db query res of None \<Rightarrow> Inl LexicalArm | Some l \<Rightarrow> Inr l)"

definition pinned_stage :: "'v engine \<Rightarrow> 'v db \<Rightarrow> 'v retriever \<Rightarrow> string \<Rightarrow> resolved \<Rightarrow> hit list" where
  "pinned_stage en db rt query res =
     (let ms = MatchCitation query (rs_framework res) (rt_frameworkScheme rt) in
      if ms = [] then []
      else case citationLookup en db ms res of None \<Rightarrow> [] | Some hs \<Rightarrow> hs)"

definition hydrate_count :: "resolved \<Rightarrow> hit list \<Rightarrow> nat" where
  "hydrate_count res pinned =
     (if pinned = [] then rs_topK res else max 1 (rs_topK res - length pinned))"

text \<open>Fusion and hydration; then the document cap and the pinned hits.\<close>

definition fused_stage ::
  "'v engine \<Rightarrow> 'v db \<Rightarrow> resolved \<Rightarrow> hit list \<Rightarrow> ranked list \<Rightarrow> ranked list \<Rightarrow> hit list option" where
  "fused_stage en db res pinned vectorList bm25List =
     (let lexWeight = (if pinned \<noteq> [] \<and> rs_lexWeight res < 3 / 2 then 3 / 2 else rs_lexWeight res);
          fused = take (hydrate_count res pinned) (fuseRRF vectorList bm25List (rs_rrfK res) lexWeight)
      in if fused = [] then Some [] else hydrate en db False fused)"

definition assemble :: "resolved \<Rightarrow> hit list \<Rightarrow> hit list \<Rightarrow> hit list" where
  "assemble res pinned hits =
     (let hydrateK = hydrate_count res pinned;
          capped = (if 0 < rs_docCap res then capPerFramework hits (rs_docCap res) hydrateK
                    else take hydrateK hits)
      in if pinned \<noteq> [] then mergePinned pinned capped (rs_topK res) else capped)"

definition primary_stage ::
  "'v engine \<Rightarrow> 'v db \<Rightarrow> resolved \<Rightarrow> hit list \<Rightarrow> ranked list \<Rightarrow> ranked list \<Rightarrow> search_err + hit list" where
  "primary_stage en db res pinned vectorList bm25List =
     (case fused_stage en db res pinned vectorList bm25List of
        None \<Rightarrow> Inl HydrateErr
      | Some hits \<Rightarrow> Inr (assemble res pinned hits))"

definition noncurrent_stage ::
  "'v engine \<Rightarrow> 'v db \<Rightarrow> string \<Rightarrow> resolved \<Rightarrow> (string \<times> 'v) option \<Rightarrow> ranked list \<Rightarrow> hit list \<Rightarrow> hit list" where
  "noncurrent_stage en db query res queryVec bm25List hits =
     (if rs_surfaceNonCurrent res then
        (case (case queryVec of
                 Some (model, qv) \<Rightarrow> nonCurrentHits en db model qv res
               | None \<Rightarrow> if bm25List \<noteq> [] then nonCurrentHitsBM25 en db query res else Some []) of
           None \<Rightarrow> hits
         | Some nc \<Rightarrow> appendNonCurrent hits nc)
      else hits)"

definition searchHits ::
  "'v engine \<Rightarrow> 'v db \<Rightarrow> 'v retriever \<Rightarrow> string \<Rightarrow> search_opts \<Rightarrow> search_err + hit list" where
  "searchHits en db rt query opts =
     (if query = [] then Inr []
      else case resolve rt opts of
        None \<Rightarrow> Inl ResolveOpts
      | Some res \<Rightarrow>
          let pinned = pinned_stage en db rt query res in
          (case vector_stage en db rt query res of
             Inl e \<Rightarrow> Inl e
           | Inr (queryVec, vectorList) \<Rightarrow>
               (case lexical_stage en db query res of
                  Inl e \<Rightarrow> Inl e
                | Inr bm25List \<Rightarrow>
                    (case primary_stage en db res pinned vectorList bm25List of
                       Inl e \<Rightarrow> Inl e
                     | Inr hits \<Rightarrow> Inr (noncurrent_stage en db query res queryVec bm25List hits)))))"

fun top_score :: "rat \<Rightarrow> hit list \<Rightarrow> rat" where
  "top_score best [] = best"
| "top_score best (h # hs) = top_score (if hScore h < 1 \<and> best < hScore h then hScore h else best) hs"

fun cosine_scan :: "bool \<Rightarrow> rat \<Rightarrow> hit list \<Rightarrow> bool \<times> rat" where
  "cosine_scan denseRan best [] = (denseRan, best)"
| "cosine_scan denseRan best (h # hs) =
     cosine_scan (denseRan \<or> 0 < VectorRank h) (if best < Similarity h then Similarity h else best) hs"

definition applyAbstainFloor :: "evidence \<Rightarrow> rat \<Rightarrow> evidence" where
  "applyAbstainFloor ev floor' =
     (let (denseRan, best) = cosine_scan False (ev_TopCosine ev) (ev_Hits ev);
          ev1 = ev\<lparr>ev_TopCosine := best\<rparr>
      in if 0 < floor' \<and> denseRan \<and> best < floor'
         then ev1\<lparr>ev_Abstain := True,
                  ev_Gaps := ev_Gaps ev1 @ [\<lparr>g_Kind = ''low_confidence'', g_BlocksAnswer = True\<rparr>]\<rparr>
         else ev1)"

definition SearchEvidence ::
  "'v engine \<Rightarrow> 'v db \<Rightarrow> 'v retriever \<Rightarrow> string \<Rightarrow> search_opts \<Rightarrow> search_err + evidence" where
  "SearchEvidence en db rt query opts =
     (case searchHits en db rt query opts of
        Inl e \<Rightarrow> Inl e
      | Inr hits \<Rightarrow>
          let ev = \<lparr>ev_Hits = hits, ev_Gaps = [], ev_Abstain = False, ev_TopScore = 0, ev_TopCosine = 0\<rparr> in
          if hits = [] then Inr (ev\<lparr>ev_Abstain := True\<rparr>)
          else Inr (applyAbstainFloor (ev\<lparr>ev_TopScore := top_score 0 hits\<rparr>) (rt_abstainFloor rt)))"

definition Search ::
  "'v engine \<Rightarrow> 'v db \<Rightarrow> 'v retriever \<Rightarrow> string \<Rightarrow> search_opts \<Rightarrow> search_err + hit list" where
  "Search en db rt query opts =
     (case SearchEvidence en db rt query opts of Inl e \<Rightarrow> Inl e | Inr ev \<Rightarrow> Inr (ev_Hits ev))"

end
