(* ===== verification/Retrieve_Props.thy ===== *)
theory Retrieve_Props
  imports Retrieve
begin

text \<open>
  What the stages of the retrieval pipeline guarantee: fusion against a reference definition, where
  hydrated and pinned hits come from, their order, number and identity.  The properties of the whole
  search are in \<open>Retrieve_Claims\<close>.
\<close>

section \<open>Fusion\<close>

definition arm_of :: "int \<Rightarrow> ranked list \<Rightarrow> ranked list" where
  "arm_of i rs = filter (\<lambda>r. r_chunk r = i \<and> r_rank r \<noteq> 0) rs"

definition best_rank :: "ranked list \<Rightarrow> nat" where
  "best_rank rs = (if rs = [] then 0 else Min (r_rank ` set rs))"

text \<open>The entry of a chunk, from the definition of Reciprocal Rank Fusion.\<close>

definition ref_fused :: "rat \<Rightarrow> rat \<Rightarrow> ranked list \<Rightarrow> ranked list \<Rightarrow> int \<Rightarrow> fused_hit" where
  "ref_fused k w vs bs i =
     \<lparr>f_chunk = i,
      f_score = (\<Sum>r \<leftarrow> arm_of i vs. 1 / (k + of_nat (r_rank r))) + (\<Sum>r \<leftarrow> arm_of i bs. w / (k + of_nat (r_rank r))),
      f_similarity = Max (insert 0 (r_similarity ` set (arm_of i vs))),
      f_bm25 = Max (insert 0 (r_bm25 ` set (arm_of i bs))),
      f_vectorRank = best_rank (arm_of i vs),
      f_bm25Rank = best_rank (arm_of i bs)\<rparr>"

lemma ref_fused_chunk [simp]: "f_chunk (ref_fused k w vs bs i) = i"
  by (simp add: ref_fused_def)

definition fused_ids :: "ranked list \<Rightarrow> int set" where
  "fused_ids rs = r_chunk ` set (filter (\<lambda>r. r_rank r \<noteq> 0) rs)"

lemma fused_ids_subset: "fused_ids rs \<subseteq> r_chunk ` set rs"
  by (auto simp: fused_ids_def)

lemma arm_of_eq_Nil: "arm_of i rs = [] \<longleftrightarrow> i \<notin> fused_ids rs"
  by (auto simp: arm_of_def fused_ids_def filter_empty_conv)

definition look :: "int \<Rightarrow> fused_hit list \<Rightarrow> fused_hit option" where
  "look i hs = List.find (\<lambda>h. f_chunk h = i) hs"

definition look_or_new :: "int \<Rightarrow> fused_hit list \<Rightarrow> fused_hit" where
  "look_or_new i hs = (case look i hs of None \<Rightarrow> new_fused i | Some h \<Rightarrow> h)"

lemma look_chunk: "look i hs = Some h \<Longrightarrow> f_chunk h = i"
  by (auto simp: look_def find_Some_iff)

lemma look_or_new_chunk: "f_chunk (look_or_new i hs) = i"
  by (auto simp: look_or_new_def new_fused_def split: option.splits dest: look_chunk)

lemma look_upd:
  assumes "\<And>h. f_chunk (g h) = f_chunk h"
  shows "look j (upd_fused i g hs) = (if j = i then Some (g (look_or_new i hs)) else look j hs)"
  by (induction hs) (auto simp: look_def look_or_new_def assms new_fused_def)

lemma upd_fused_chunks:
  assumes "\<And>h. f_chunk (g h) = f_chunk h"
  shows "map f_chunk (upd_fused i g hs)
    = (if i \<in> f_chunk ` set hs then map f_chunk hs else map f_chunk hs @ [i])"
  by (induction hs) (auto simp: assms new_fused_def)

lemma fuse_arm_distinct:
  assumes "\<And>r h. f_chunk (add r h) = f_chunk h"
  shows "distinct (map f_chunk hs) \<Longrightarrow> distinct (map f_chunk (fuse_arm add rs hs))"
proof (induction rs arbitrary: hs)
  case (Cons r rs)
  have "distinct (map f_chunk (upd_fused (r_chunk r) (add r) hs))"
    using Cons.prems by (simp add: upd_fused_chunks [OF assms] distinct_map image_iff)
  with Cons show ?case by simp
qed simp

lemma fold_chunk:
  assumes "\<And>r h. f_chunk (add r h) = f_chunk h"
  shows "f_chunk (fold add rs h) = f_chunk h"
  by (induction rs arbitrary: h) (simp_all add: assms)

lemma look_fuse_arm:
  assumes "\<And>r h. f_chunk (add r h) = f_chunk h"
  shows "look i (fuse_arm add rs hs) =
    (if arm_of i rs = [] then look i hs else Some (fold add (arm_of i rs) (look_or_new i hs)))"
proof (induction rs arbitrary: hs)
  case (Cons r rs)
  show ?case
  proof (cases "r_rank r = 0")
    case True
    then show ?thesis using Cons by (simp add: arm_of_def)
  next
    case False
    have "look_or_new i (upd_fused i (add r) hs) = add r (look_or_new i hs)"
      by (simp add: look_or_new_def look_upd assms)
    moreover have "look_or_new i (upd_fused j (add r) hs) = look_or_new i hs" if "j \<noteq> i" for j
      using that by (simp add: look_or_new_def look_upd assms)
    ultimately show ?thesis using False Cons by (simp add: arm_of_def look_upd assms)
  qed
qed (simp add: arm_of_def)

lemma add_vector_simps [simp]:
  "f_chunk (add_vector k r h) = f_chunk h" "f_bm25 (add_vector k r h) = f_bm25 h"
  "f_bm25Rank (add_vector k r h) = f_bm25Rank h"
  "f_score (add_vector k r h) = f_score h + 1 / (k + of_nat (r_rank r))"
  "f_similarity (add_vector k r h) = max (f_similarity h) (r_similarity r)"
  by (simp_all add: add_vector_def max_def)

lemma add_bm25_simps [simp]:
  "f_chunk (add_bm25 k w r h) = f_chunk h" "f_similarity (add_bm25 k w r h) = f_similarity h"
  "f_vectorRank (add_bm25 k w r h) = f_vectorRank h"
  "f_score (add_bm25 k w r h) = f_score h + w / (k + of_nat (r_rank r))"
  "f_bm25 (add_bm25 k w r h) = max (f_bm25 h) (r_bm25 r)"
  by (simp_all add: add_bm25_def max_def)

lemma fold_score:
  assumes "\<And>r h. f_score (add r h) = f_score h + c r"
  shows "f_score (fold add rs h) = f_score h + (\<Sum>r \<leftarrow> rs. c r)"
  by (induction rs arbitrary: h) (simp_all add: assms)

lemma fold_max:
  fixes fld :: "fused_hit \<Rightarrow> rat"
  assumes "\<And>r h. fld (add r h) = max (fld h) (c r)"
  shows "fld (fold add rs h) = Max (insert (fld h) (c ` set rs))"
proof (induction rs arbitrary: h)
  case (Cons r rs)
  have "Max (insert (fld h) (c ` set (r # rs))) = Max (insert (max (fld h) (c r)) (c ` set rs))"
    by (cases "c ` set rs = {}") (simp_all add: max.assoc Max_insert)
  with Cons show ?case by (simp add: assms)
qed simp

lemma fold_keeps:
  assumes "\<And>r h. fld (add r h) = fld h"
  shows "fld (fold add rs h) = fld h"
  by (induction rs arbitrary: h) (simp_all add: assms)

lemma fold_rank:
  assumes "\<And>r h. fld (add r h) = (if fld h = 0 \<or> r_rank r < fld h then r_rank r else fld h)"
  shows "list_all (\<lambda>r. r_rank r \<noteq> 0) rs \<Longrightarrow> fld (fold add rs h) =
     (if rs = [] then fld h else if fld h = 0 then best_rank rs else min (fld h) (best_rank rs))"
proof (induction rs arbitrary: h)
  case (Cons r rs)
  have b: "best_rank (r # rs) = (if rs = [] then r_rank r else min (r_rank r) (best_rank rs))"
    by (simp add: best_rank_def)
  have c: "fld (fold add (r # rs) h) = fld (fold add rs (add r h))" by simp
  have d: "fld (add r h) \<noteq> 0" "fld (add r h) = (if fld h = 0 then r_rank r else min (fld h) (r_rank r))"
    using Cons.prems by (auto simp: assms)
  show ?case unfolding c using Cons d by (auto simp: b min.assoc)
qed simp

lemma arm_of_positive: "list_all (\<lambda>r. r_rank r \<noteq> 0) (arm_of i rs)"
  by (simp add: arm_of_def list_all_iff)

lemma fold_vector:
  "fold (add_vector k) (arm_of i vs) (new_fused i) = ref_fused k w vs [] i"
  using fold_score [of "add_vector k" "\<lambda>r. 1 / (k + of_nat (r_rank r))" "arm_of i vs" "new_fused i"]
    fold_max [of f_similarity "add_vector k" r_similarity "arm_of i vs" "new_fused i"]
    fold_rank [of f_vectorRank "add_vector k" "arm_of i vs" "new_fused i", OF _ arm_of_positive]
    fold_keeps [of f_chunk "add_vector k" "arm_of i vs" "new_fused i"]
    fold_keeps [of f_bm25 "add_vector k" "arm_of i vs" "new_fused i"]
    fold_keeps [of f_bm25Rank "add_vector k" "arm_of i vs" "new_fused i"]
  by (intro fused_hit.equality)
     (auto simp: ref_fused_def new_fused_def arm_of_def best_rank_def add_vector_def)

lemma fold_bm25:
  "fold (add_bm25 k w) (arm_of i bs) (ref_fused k w vs [] i) = ref_fused k w vs bs i"
  using fold_score [of "add_bm25 k w" "\<lambda>r. w / (k + of_nat (r_rank r))" "arm_of i bs" "ref_fused k w vs [] i"]
    fold_max [of f_bm25 "add_bm25 k w" r_bm25 "arm_of i bs" "ref_fused k w vs [] i"]
    fold_rank [of f_bm25Rank "add_bm25 k w" "arm_of i bs" "ref_fused k w vs [] i", OF _ arm_of_positive]
    fold_keeps [of f_chunk "add_bm25 k w" "arm_of i bs" "ref_fused k w vs [] i"]
    fold_keeps [of f_similarity "add_bm25 k w" "arm_of i bs" "ref_fused k w vs [] i"]
    fold_keeps [of f_vectorRank "add_bm25 k w" "arm_of i bs" "ref_fused k w vs [] i"]
  by (intro fused_hit.equality)
     (auto simp: ref_fused_def arm_of_def [of i "[]"] best_rank_def add_bm25_def)

lemma look_fused:
  "look i (fuse_arm (add_bm25 k w) bs (fuse_arm (add_vector k) vs [])) =
     (if i \<in> fused_ids (vs @ bs) then Some (ref_fused k w vs bs i) else None)"
proof -
  have new: "new_fused i = ref_fused k w [] [] i"
    by (simp add: new_fused_def ref_fused_def arm_of_def best_rank_def)
  have v: "look_or_new i (fuse_arm (add_vector k) vs []) = ref_fused k w vs [] i"
    using fold_vector [of k i vs w]
    by (auto simp: look_or_new_def look_fuse_arm look_def [of i "[]"])
  have n: "arm_of i bs = [] \<Longrightarrow> ref_fused k w vs bs i = ref_fused k w vs [] i"
    by (simp add: ref_fused_def arm_of_def [of i "[]"])
  have u: "i \<in> fused_ids (vs @ bs) \<longleftrightarrow> i \<in> fused_ids vs \<or> i \<in> fused_ids bs"
    by (auto simp: fused_ids_def)
  have e: "i \<notin> fused_ids vs \<Longrightarrow> new_fused i = ref_fused k w vs [] i"
    using fold_vector [of k i vs w] by (simp flip: arm_of_eq_Nil)
  show ?thesis
    using fold_bm25 [of k w i bs vs] fold_vector [of k i vs w] n e
    by (auto simp: look_fuse_arm v u arm_of_eq_Nil look_or_new_def look_def [of i "[]"])
qed

lemma look_set: "distinct (map f_chunk hs) \<Longrightarrow> h \<in> set hs \<longleftrightarrow> look (f_chunk h) hs = Some h"
  by (induction hs) (auto simp: look_def image_iff split: if_splits)

definition eff_k :: "nat \<Rightarrow> rat" where
  "eff_k rrfK = of_nat (if rrfK = 0 then defaultRRFK else rrfK)"

definition eff_w :: "rat \<Rightarrow> rat" where
  "eff_w lexWeight = (if lexWeight \<le> 0 then defaultLexWeight else lexWeight)"

lemma fuseRRF_alt:
  "fuseRRF vs bs K w =
     sort_key fused_key (fuse_arm (add_bm25 (eff_k K) (eff_w w)) bs (fuse_arm (add_vector (eff_k K)) vs []))"
  by (simp add: fuseRRF_def eff_k_def eff_w_def Let_def)

lemma fuseRRF_distinct: "distinct (map f_chunk (fuseRRF vs bs K w))"
proof -
  have "distinct (map f_chunk (fuse_arm (add_bm25 (eff_k K) (eff_w w)) bs (fuse_arm (add_vector (eff_k K)) vs [])))"
    by (intro fuse_arm_distinct) simp_all
  then show ?thesis by (simp add: fuseRRF_alt distinct_map)
qed

lemma fuseRRF_set: "set (fuseRRF vs bs K w) = ref_fused (eff_k K) (eff_w w) vs bs ` fused_ids (vs @ bs)"
proof -
  let ?m = "fuse_arm (add_bm25 (eff_k K) (eff_w w)) bs (fuse_arm (add_vector (eff_k K)) vs [])"
  have d: "distinct (map f_chunk ?m)"
    by (intro fuse_arm_distinct) simp_all
  have "h \<in> set ?m \<longleftrightarrow> h \<in> ref_fused (eff_k K) (eff_w w) vs bs ` fused_ids (vs @ bs)" for h
    unfolding look_set [OF d] look_fused by (auto simp: image_iff split: if_splits) metis
  then show ?thesis by (auto simp: fuseRRF_alt)
qed

lemma fuseRRF_ids: "f_chunk ` set (fuseRRF vs bs K w) \<subseteq> r_chunk ` set vs \<union> r_chunk ` set bs"
  unfolding fuseRRF_set using fused_ids_subset [of "vs @ bs"] by (auto simp: ref_fused_def)

text \<open>
  C14.  Fusion computes the reference score of every chunk with a positive rank in either arm, each
  chunk once, best score first and ties by chunk id.
\<close>

theorem fuseRRF_reference:
  "set (fuseRRF vs bs K w) = ref_fused (eff_k K) (eff_w w) vs bs ` fused_ids (vs @ bs)
   \<and> distinct (map f_chunk (fuseRRF vs bs K w))
   \<and> sorted_wrt (\<lambda>f g. f_score g < f_score f \<or> f_score f = f_score g \<and> f_chunk f < f_chunk g)
       (fuseRRF vs bs K w)"
proof -
  have s: "sorted (map fused_key (fuseRRF vs bs K w))" by (simp add: fuseRRF_alt)
  have "distinct (map fused_key (fuseRRF vs bs K w))"
    using fuseRRF_distinct [of vs bs K w] by (auto simp: distinct_map fused_key_def inj_on_def)
  with s have "sorted_wrt (<) (map fused_key (fuseRRF vs bs K w))"
    by (simp add: strict_sorted_iff)
  then have "sorted_wrt (\<lambda>f g. fused_key f < fused_key g) (fuseRRF vs bs K w)"
    by (simp add: sorted_wrt_map)
  moreover have "fused_key f < fused_key g \<longleftrightarrow> f_score g < f_score f \<or> f_score f = f_score g \<and> f_chunk f < f_chunk g"
    for f g by (auto simp: fused_key_def less_prod_def)
  ultimately show ?thesis using fuseRRF_set fuseRRF_distinct by simp
qed

section \<open>What the arms return\<close>

definition passes :: "resolved \<Rightarrow> bool \<Rightarrow> control_row \<Rightarrow> doc_row \<Rightarrow> version_row \<Rightarrow> bool" where
  "passes res nonCurrent sc d fv \<longleftrightarrow>
     status_ok res sc \<and> list_all (\<lambda>P. P d fv) (arm_conds res nonCurrent)"

text \<open>A hit comes from a joined row with a property.\<close>

definition from_row :: "'v db \<Rightarrow> (control_row \<Rightarrow> doc_row \<Rightarrow> version_row \<Rightarrow> bool) \<Rightarrow> hit \<Rightarrow> bool" where
  "from_row db P h \<longleftrightarrow>
     (\<exists>c sc d fv. (c, sc, d, fv) \<in> set (joined_rows db) \<and> P sc d fv
        \<and> ChunkID h = ck_id c \<and> DocumentID h = sc_document sc \<and> FrameworkCode h = d_framework d
        \<and> VersionLabel h = d_version d \<and> CitationNorm h = sc_norm sc \<and> Content h = ck_content c
        \<and> IsCurrent h = fv_is_current fv)"

lemma from_row_mono: "from_row db P h \<Longrightarrow> (\<And>sc d fv. P sc d fv \<Longrightarrow> Q sc d fv) \<Longrightarrow> from_row db Q h"
  unfolding from_row_def by blast

lemma doc_passes_cases:
  "doc_passes db conds doc \<Longrightarrow> conds \<noteq> [] \<Longrightarrow>
     \<exists>d \<in> set (documents db). \<exists>fv \<in> set (versions db). d_id d = doc \<and> fv_framework fv = d_framework d
       \<and> fv_version fv = d_version d \<and> list_all (\<lambda>P. P d fv) conds"
  unfolding doc_passes_def version_filter_def by (auto split: if_splits)

lemma arm_chunk_row:
  assumes keys: "well_keyed db" and c: "c \<in> set (arm_chunks db res nc)"
    and r: "(c', sc, d, fv) \<in> set (joined_rows db)" and same: "ck_id c' = ck_id c"
  shows "passes res nc sc d fv"
proof -
  obtain sc' where sc': "c \<in> set (chunks db)" "sc' \<in> set (controls db)" "sc_id sc' = ck_control c"
    "status_ok res sc'" "doc_passes db (arm_conds res nc) (sc_document sc')"
    using c by (auto simp: arm_chunks_def)
  have k: "distinct (map ck_id (chunks db))" "distinct (map sc_id (controls db))"
    "distinct (map d_id (documents db))"
    using keys by (simp_all add: well_keyed_def)
  have j: "c' \<in> set (chunks db)" "sc \<in> set (controls db)" "d \<in> set (documents db)" "fv \<in> set (versions db)"
    "sc_id sc = ck_control c'" "d_id d = sc_document sc"
    "fv_framework fv = d_framework d" "fv_version fv = d_version d"
    using r by (simp_all add: joined_rows_iff)
  have "c' = c" using key_unique [OF k(1)] j(1) sc'(1) same by blast
  then have "sc = sc'" using key_unique [OF k(2)] j(2,5) sc'(2,3) by metis
  have "list_all (\<lambda>P. P d fv) (arm_conds res nc)"
  proof (cases "arm_conds res nc = []")
    case False
    then obtain d' fv' where v: "d' \<in> set (documents db)" "fv' \<in> set (versions db)" "d_id d' = sc_document sc"
      "fv_framework fv' = d_framework d'" "fv_version fv' = d_version d'"
      "list_all (\<lambda>P. P d' fv') (arm_conds res nc)"
      using sc'(5) \<open>sc = sc'\<close> doc_passes_cases by blast
    have "d' = d" using key_unique [OF k(3)] v(1,3) j(3,6) by metis
    moreover then have "fv' = fv" using version_unique [OF keys] v(2,4,5) j(4,7,8) by simp
    ultimately show ?thesis using v by simp
  qed simp
  then show ?thesis using sc'(4) \<open>sc = sc'\<close> by (simp add: passes_def)
qed

lemma scan_ranked_chunks: "(\<And>i n x. r_chunk (mk i n x) = i) \<Longrightarrow> map r_chunk (scan_ranked n rows mk) = map fst rows"
  by (induction rows arbitrary: n) auto

lemma scan_ranked_Nil: "scan_ranked n rows mk = [] \<longleftrightarrow> rows = []"
  by (cases rows) auto

lemma scan_take_chunks:
  assumes "\<And>i n x. r_chunk (mk i n x) = i"
  shows "r_chunk ` set (scan_ranked m (take n (sort_key key rows)) mk) \<subseteq> fst ` set rows"
proof -
  have "r_chunk ` set (scan_ranked m (take n (sort_key key rows)) mk) = fst ` set (take n (sort_key key rows))"
    using scan_ranked_chunks [of mk m "take n (sort_key key rows)", OF assms] by (metis set_map)
  then show ?thesis using set_take_subset [of n "sort_key key rows"] by auto
qed

lemma vectorArm_chunks:
  "vectorArmExact en db model qv res nc = Some l \<Longrightarrow> r_chunk ` set l \<subseteq> ck_id ` set (arm_chunks db res nc)"
proof -
  assume a: "vectorArmExact en db model qv res nc = Some l"
  have "fst ` set (vector_rows en db model qv res nc) \<subseteq> ck_id ` set (arm_chunks db res nc)"
    by (auto simp: vector_rows_def intro: rev_image_eqI)
  moreover have "r_chunk ` set l \<subseteq> fst ` set (vector_rows en db model qv res nc)"
    using a by (auto simp: vectorArmExact_def scanRankedWithDistance_def split: if_splits
        dest!: subsetD [OF scan_take_chunks, rotated, OF imageI])
  ultimately show ?thesis by blast
qed

lemma sparseArm_chunks:
  "sparseArmInner en db query res nc = Some l \<Longrightarrow> r_chunk ` set l \<subseteq> ck_id ` set (arm_chunks db res nc)"
proof -
  assume a: "sparseArmInner en db query res nc = Some l"
  have "fst ` set (sparse_rows en db qv res nc) \<subseteq> ck_id ` set (arm_chunks db res nc)" for qv
    by (auto simp: sparse_rows_def Let_def split: option.splits if_splits)
  moreover have "r_chunk ` set l \<subseteq> fst ` set (sparse_rows en db (QueryVector (en_unicode en) (utf8_runes query)) res nc)"
    using a by (auto simp: sparseArmInner_def scanRankedBM25_def split: if_splits
        dest!: subsetD [OF scan_take_chunks, rotated, OF imageI])
  ultimately show ?thesis by blast
qed

section \<open>Hydrated and pinned hits\<close>

lemma from_rowI:
  "(c, sc, d, fv) \<in> set (joined_rows db) \<Longrightarrow> P sc d fv \<Longrightarrow> ChunkID h = ck_id c \<Longrightarrow> DocumentID h = sc_document sc
     \<Longrightarrow> FrameworkCode h = d_framework d \<Longrightarrow> VersionLabel h = d_version d \<Longrightarrow> CitationNorm h = sc_norm sc
     \<Longrightarrow> Content h = ck_content c \<Longrightarrow> IsCurrent h = fv_is_current fv \<Longrightarrow> from_row db P h"
  unfolding from_row_def by blast

lemma hydrate_one_row:
  assumes "hydrate_one db ids f = Some h"
  shows "\<exists>c sc d fv. (c, sc, d, fv) \<in> set (joined_rows db) \<and> ck_id c = f_chunk f
    \<and> h = (hit_of_row (c, sc, d, fv))\<lparr>hScore := f_score f, Similarity := f_similarity f,
           BM25Score := f_bm25 f, VectorRank := f_vectorRank f, BM25Rank := f_bm25Rank f\<rparr>"
proof -
  obtain r where m: "map_of (rev (map (\<lambda>r. (row_chunk r, r))
      (filter (\<lambda>r. row_chunk r \<in> set ids) (joined_rows db)))) (f_chunk f) = Some r"
    and h: "h = (hit_of_row r)\<lparr>hScore := f_score f, Similarity := f_similarity f, BM25Score := f_bm25 f,
          VectorRank := f_vectorRank f, BM25Rank := f_bm25Rank f\<rparr>"
    using assms by (auto simp: hydrate_one_def)
  from map_of_SomeD [OF m] have r: "r \<in> set (joined_rows db)" "row_chunk r = f_chunk f" by auto
  obtain c sc d fv where c: "r = (c, sc, d, fv)" by (cases r) auto
  have "ck_id c = f_chunk f" using r(2) by (simp add: c row_chunk_def)
  with r(1) h show ?thesis unfolding c by blast
qed

lemma hydrate_one_simps:
  assumes "hydrate_one db ids f = Some h"
  shows "ChunkID h = f_chunk f" "hScore h = f_score f" "VectorRank h = f_vectorRank f" "Similarity h = f_similarity f"
  using hydrate_one_row [OF assms] by (auto simp: hit_of_row_def)

lemma hydrate_hits:
  assumes "hydrate en db nc fused = Some hs" and "h \<in> set hs"
  obtains f where "f \<in> set fused" "hydrate_one db (map f_chunk fused) f = Some h"
  using assms by (auto simp: hydrate_def List.map_filter_def split: if_splits)

lemma map_filter_ids:
  "(\<And>f h. g f = Some h \<Longrightarrow> ChunkID h = f_chunk f) \<Longrightarrow>
     map ChunkID (List.map_filter g fs) = map f_chunk (filter (\<lambda>f. g f \<noteq> None) fs)"
  by (induction fs) (auto simp: List.map_filter_simps split: option.splits)

lemma hydrate_ids:
  "hydrate en db nc fused = Some hs \<Longrightarrow>
     map ChunkID hs = map f_chunk (filter (\<lambda>f. hydrate_one db (map f_chunk fused) f \<noteq> None) fused)"
  unfolding hydrate_def by (auto simp: map_filter_ids hydrate_one_simps split: if_splits)

lemma hydrate_length: "hydrate en db nc fused = Some hs \<Longrightarrow> length hs \<le> length fused"
  using hydrate_ids [of en db nc fused hs] by (metis length_filter_le length_map)

lemma distinct_map_filter_take: "distinct (map f xs) \<Longrightarrow> distinct (map f (filter P (take n xs)))"
  by (auto simp: distinct_map intro: inj_on_subset dest: in_set_takeD)

lemma hydrate_distinct:
  "hydrate en db nc (take n (fuseRRF vs bs K w)) = Some hs \<Longrightarrow> distinct (map ChunkID hs)"
  unfolding hydrate_ids by (rule distinct_map_filter_take [OF fuseRRF_distinct])

text \<open>The shared step of both passes: hits hydrated from arms that satisfy \<open>passes res nc\<close> satisfy it.\<close>

lemma hydrate_passes:
  assumes keys: "well_keyed db"
    and arms: "r_chunk ` set vs \<subseteq> ck_id ` set (arm_chunks db res nc)"
      "r_chunk ` set bs \<subseteq> ck_id ` set (arm_chunks db res nc)"
    and hyd: "hydrate en db b (take n (fuseRRF vs bs K w)) = Some hs" and h: "h \<in> set hs"
  shows "from_row db (passes res nc) h"
proof -
  obtain f where f: "f \<in> set (take n (fuseRRF vs bs K w))"
    "hydrate_one db (map f_chunk (take n (fuseRRF vs bs K w))) f = Some h"
    by (rule hydrate_hits [OF hyd h])
  have "f_chunk f \<in> r_chunk ` set vs \<union> r_chunk ` set bs"
    using f(1) fuseRRF_ids [of vs bs K w] by (auto dest!: in_set_takeD)
  then obtain c where c: "c \<in> set (arm_chunks db res nc)" "f_chunk f = ck_id c"
    using arms by auto
  obtain c' sc d fv where r: "(c', sc, d, fv) \<in> set (joined_rows db)" "ck_id c' = f_chunk f"
    "h = (hit_of_row (c', sc, d, fv))\<lparr>hScore := f_score f, Similarity := f_similarity f,
           BM25Score := f_bm25 f, VectorRank := f_vectorRank f, BM25Rank := f_bm25Rank f\<rparr>"
    using hydrate_one_row [OF f(2)] by blast
  have "passes res nc sc d fv" using arm_chunk_row [OF keys c(1) r(1)] r(2) c(2) by simp
  then show ?thesis by (rule from_rowI [OF r(1)]) (simp_all add: r(3) hit_of_row_def)
qed

lemma arm_conds_False:
  "list_all (\<lambda>P. P d fv) (arm_conds res False) \<longleftrightarrow>
     (rs_framework res \<noteq> [] \<longrightarrow> d_framework d = rs_framework res)
   \<and> (if rs_versionLabel res \<noteq> [] then d_version d = rs_versionLabel res
      else rs_currentOnly res \<longrightarrow> fv_is_current fv)"
  by (simp add: arm_conds_def buildVersionFilterCTE_def)

lemma arm_conds_True:
  "list_all (\<lambda>P. P d fv) (arm_conds res True) \<longleftrightarrow>
     (rs_framework res \<noteq> [] \<longrightarrow> d_framework d = rs_framework res) \<and> \<not> fv_is_current fv"
  by (simp add: arm_conds_def buildNonCurrentCTE_def)

lemma citationLookup_passes:
  assumes keys: "well_keyed db" and l: "citationLookup en db ms res = Some hs" and h: "h \<in> set hs"
  shows "from_row db (passes res False) h \<and> hScore h = 1 \<and> VectorRank h = 0 \<and> Similarity h = 0"
proof -
  let ?norms = "dedup_on (\<lambda>s. s) {} (map (\<lambda>m. to_upper (cm_Citation m)) ms)"
  obtain r where r: "r \<in> set (joined_rows db)" "citation_cond ?norms res db r"
    "h = (hit_of_row r)\<lparr>hScore := 1\<rparr>"
    using l h by (auto simp: citationLookup_def Let_def split: if_splits dest!: in_set_takeD)
  obtain c sc d fv where c: "r = (c, sc, d, fv)" by (cases r) auto
  have fv: "fv \<in> set (versions db)" "fv_framework fv = d_framework d" "fv_version fv = d_version d"
    using r(1) by (simp_all add: c joined_rows_iff)
  have "g = fv" if "g \<in> set (versions db)" "fv_framework g = d_framework d" "fv_version g = d_version d" for g
    using version_unique [OF keys] that fv by simp
  then have "passes res False sc d fv"
    using r(2) by (auto simp: c citation_cond_def passes_def arm_conds_False list_ex_iff split: if_splits)
  then have "from_row db (passes res False) h"
    by (rule from_rowI [OF r(1) [unfolded c]]) (simp_all add: r(3) c hit_of_row_def)
  then show ?thesis by (simp add: r(3) c hit_of_row_def)
qed

lemma citationLookup_distinct:
  "well_keyed db \<Longrightarrow> citationLookup en db ms res = Some hs \<Longrightarrow> distinct (map ChunkID hs) \<and> length hs \<le> 16"
proof -
  assume keys: "well_keyed db" and l: "citationLookup en db ms res = Some hs"
  have id: "ChunkID ((hit_of_row r)\<lparr>hScore := 1\<rparr>) = row_chunk r" for r :: "sparse joined"
    by (cases r) (simp add: hit_of_row_def row_chunk_def)
  have d: "distinct (map row_chunk (take n (sort_key k (filter P (joined_rows db)))))"
    for n P and k :: "sparse joined \<Rightarrow> citation_order"
  proof -
    have "distinct (map row_chunk (sort_key k (filter P (joined_rows db))))"
      using joined_rows_distinct [OF keys] by (auto simp: distinct_map intro: inj_on_subset)
    then show ?thesis by (simp add: take_map [symmetric] del: take_map)
  qed
  show ?thesis
    using l d by (auto simp: citationLookup_def Let_def comp_def id split: if_splits)
qed

end
