(* ===== verification/Retrieve_Claims.thy ===== *)
theory Retrieve_Claims
  imports Retrieve_Props "HOL-Library.Multiset"
begin

text \<open>
  Properties of the whole search: which hits it returns under which options, how many, the place of
  superseded versions, the effect of the document cap and of the abstention floor; and, with the
  evaluation metrics, the current-version precision of a default search.
\<close>

section \<open>Lists of hits\<close>

lemma dedup_on_absent: "x \<in> set (dedup_on key seen xs) \<Longrightarrow> key x \<notin> seen"
  using keys_dedup_on [of key seen xs] by blast

lemma appendNonCurrent_distinct:
  "distinct (map ChunkID cur) \<Longrightarrow> distinct (map ChunkID (appendNonCurrent cur nc))"
  using distinct_dedup_on [of ChunkID "set (map ChunkID cur)" nc]
    keys_dedup_on [of ChunkID "set (map ChunkID cur)" nc]
  by (auto simp: appendNonCurrent_def)

lemma merge_loop_spec:
  "merge_loop ids topK out hs
    = out @ take (topK - length out) (filter (\<lambda>h. ChunkID h \<notin> ids) hs)"
proof (induction ids topK out hs rule: merge_loop.induct)
  case (2 ids topK out h hs)
  show ?case
  proof (cases "topK \<le> length out")
    case False
    then obtain n where n: "topK - length out = Suc n" by (metis Suc_diff_Suc not_le)
    then have "topK - Suc (length out) = n" by simp
    then show ?thesis using 2 n False by auto
  qed simp
qed simp

lemma mergePinned_spec:
  "mergePinned pinned fused topK =
     pinned @ take (topK - length pinned) (filter (\<lambda>h. ChunkID h \<notin> set (map ChunkID pinned)) fused)"
  by (simp add: mergePinned_def merge_loop_spec)

lemma cap_loop_mset:
  "n + length hits \<le> topK \<Longrightarrow> cap_loop fc topK perFw n hits = (sel, dem) \<Longrightarrow> mset hits = mset sel + mset dem"
proof (induction fc topK perFw n hits arbitrary: sel dem rule: cap_loop.induct)
  case (2 fc topK perFw n h hs)
  then show ?case by (auto simp: Let_def simp del: fun_upd_apply split: if_splits prod.splits)
qed simp

text \<open>With no more hits than places, the cap reorders and drops nothing.\<close>

lemma capPerFramework_mset:
  assumes "length hits \<le> topK"
  shows "mset (capPerFramework hits fc topK) = mset hits"
proof -
  obtain sel dem where c: "cap_loop fc topK (\<lambda>_. 0) 0 hits = (sel, dem)" by fastforce
  have m: "mset hits = mset sel + mset dem"
    using cap_loop_mset [OF _ c] assms by simp
  then have "size (mset hits) = length sel + length dem" by simp
  then have "length dem \<le> topK - length sel" using assms by simp
  with m c show ?thesis by (simp add: capPerFramework_def)
qed

lemma capPerFramework_length: "length hits \<le> topK \<Longrightarrow> length (capPerFramework hits fc topK) = length hits"
  using capPerFramework_mset by (metis size_mset)

section \<open>The stages together\<close>

lemma hydrate_count_bound:
  "hydrate_count res pinned \<le> max 1 (rs_topK res)" "pinned = [] \<Longrightarrow> hydrate_count res pinned = rs_topK res"
  by (auto simp: hydrate_count_def)

lemma fused_stage_hits:
  assumes "fused_stage en db res pinned vs bs = Some hs"
  obtains w where "hs = [] \<or> hydrate en db False (take (hydrate_count res pinned) (fuseRRF vs bs (rs_rrfK res) w)) = Some hs"
    "length hs \<le> hydrate_count res pinned"
proof -
  define w where "w = (if pinned \<noteq> [] \<and> rs_lexWeight res < 3 / 2 then 3 / 2 else rs_lexWeight res)"
  define fused where "fused = take (hydrate_count res pinned) (fuseRRF vs bs (rs_rrfK res) w)"
  have hs: "(if fused = [] then Some [] else hydrate en db False fused) = Some hs"
    using assms unfolding fused_stage_def Let_def w_def fused_def .
  have "length fused \<le> hydrate_count res pinned" by (simp add: fused_def)
  then have "length hs \<le> hydrate_count res pinned"
    using hs hydrate_length [of en db False fused hs] by (cases "fused = []") auto
  moreover have "hs = [] \<or> hydrate en db False fused = Some hs"
    using hs by (cases "fused = []") auto
  ultimately show ?thesis by (intro that [of w]) (simp_all add: fused_def)
qed

text \<open>What the cap leaves, and the pinned hits before it.\<close>

lemma assemble_spec:
  assumes "length hs \<le> hydrate_count res pinned"
  obtains capped where "mset capped = mset hs"
    "assemble res pinned hs = (if pinned \<noteq> [] then mergePinned pinned capped (rs_topK res) else capped)"
proof -
  let ?capped = "if 0 < rs_docCap res then capPerFramework hs (rs_docCap res) (hydrate_count res pinned)
      else take (hydrate_count res pinned) hs"
  have "mset ?capped = mset hs" using capPerFramework_mset [OF assms] assms by simp
  then show ?thesis by (rule that) (simp only: assemble_def Let_def)
qed

lemma disjoint_keys: "A \<subseteq> {h \<in> C. f h \<notin> f ` B} \<Longrightarrow> f ` B \<inter> f ` A = {}"
proof (rule equals0I)
  fix y assume s: "A \<subseteq> {h \<in> C. f h \<notin> f ` B}" and "y \<in> f ` B \<inter> f ` A"
  then obtain a where "a \<in> A" "y = f a" "y \<in> f ` B" by blast
  then show False using subsetD [OF s \<open>a \<in> A\<close>] by simp
qed

lemma primary_stage_hits:
  assumes keys: "well_keyed db"
    and pinned: "\<forall>h \<in> set pinned. from_row db (passes res False) h" "distinct (map ChunkID pinned)"
    and arms: "r_chunk ` set vs \<subseteq> ck_id ` set (arm_chunks db res False)"
      "r_chunk ` set bs \<subseteq> ck_id ` set (arm_chunks db res False)"
    and prim: "primary_stage en db res pinned vs bs = Inr hits"
  shows "(\<forall>h \<in> set hits. from_row db (passes res False) h) \<and> distinct (map ChunkID hits)
    \<and> length hits \<le> max (rs_topK res) (length pinned) \<and> take (length pinned) hits = pinned"
proof -
  obtain hs where hs: "fused_stage en db res pinned vs bs = Some hs" and hits: "hits = assemble res pinned hs"
    using prim by (auto simp: primary_stage_def split: option.splits)
  obtain w where
    hyd: "hs = [] \<or> hydrate en db False (take (hydrate_count res pinned) (fuseRRF vs bs (rs_rrfK res) w)) = Some hs"
    and len: "length hs \<le> hydrate_count res pinned"
    by (rule fused_stage_hits [OF hs])
  obtain capped where m: "mset capped = mset hs"
    and h: "hits = (if pinned \<noteq> [] then mergePinned pinned capped (rs_topK res) else capped)"
    using assemble_spec [OF len] hits by metis
  have "\<forall>h \<in> set hs. from_row db (passes res False) h"
    using hyd hydrate_passes [OF keys arms] by auto
  then have ok: "\<forall>h \<in> set capped. from_row db (passes res False) h"
    using mset_eq_setD [OF m] by simp
  have "distinct (map ChunkID hs)"
    using hyd hydrate_distinct by auto
  then have d: "distinct (map ChunkID capped)"
    using m by (metis mset_map mset_eq_imp_distinct_iff)
  have l: "length capped \<le> hydrate_count res pinned"
    using m len by (metis size_mset)
  show ?thesis
  proof (cases "pinned = []")
    case True
    then show ?thesis using h ok d l by (simp add: hydrate_count_def)
  next
    case False
    define new where "new = take (rs_topK res - length pinned) (filter (\<lambda>h. ChunkID h \<notin> set (map ChunkID pinned)) capped)"
    have hm: "hits = pinned @ new" using h False by (simp add: mergePinned_spec new_def)
    have "distinct (map ChunkID (filter (\<lambda>h. ChunkID h \<notin> set (map ChunkID pinned)) capped))"
      using d by (auto simp: distinct_map intro: inj_on_subset)
    then have nd: "distinct (map ChunkID new)"
      unfolding new_def take_map [symmetric] by (rule distinct_take)
    have "set new \<subseteq> set (filter (\<lambda>h. ChunkID h \<notin> set (map ChunkID pinned)) capped)"
      unfolding new_def by (rule set_take_subset)
    then have sub: "set new \<subseteq> {h \<in> set capped. ChunkID h \<notin> ChunkID ` set pinned}" by simp
    have dj: "ChunkID ` set pinned \<inter> ChunkID ` set new = {}"
      by (rule disjoint_keys [OF sub])
    have ln: "length new \<le> rs_topK res - length pinned" by (simp add: new_def)
    have "\<forall>h \<in> set hits. from_row db (passes res False) h"
      using ok pinned(1) sub unfolding hm by auto
    moreover have "distinct (map ChunkID hits)"
      using nd pinned(2) dj by (simp add: hm)
    moreover have "length hits \<le> max (rs_topK res) (length pinned)"
      using ln by (simp add: hm)
    ultimately show ?thesis by (simp add: hm)
  qed
qed

lemma pinned_stage_hits:
  assumes "well_keyed db"
  shows "(\<forall>h \<in> set (pinned_stage en db rt query res). from_row db (passes res False) h \<and> hScore h = 1)
    \<and> distinct (map ChunkID (pinned_stage en db rt query res)) \<and> length (pinned_stage en db rt query res) \<le> 16"
  using citationLookup_passes [OF assms] citationLookup_distinct [OF assms]
  by (auto simp: pinned_stage_def Let_def split: option.splits)

lemma nonCurrentTail_hits:
  assumes keys: "well_keyed db"
    and arms: "r_chunk ` set vs \<subseteq> ck_id ` set (arm_chunks db res True)"
      "r_chunk ` set bs \<subseteq> ck_id ` set (arm_chunks db res True)"
    and t: "nonCurrentTail en db (fuseRRF vs bs K w) res = Some nc"
  shows "(\<forall>h \<in> set nc. from_row db (passes res True) h) \<and> length nc \<le> min 3 (rs_topK res)"
proof -
  obtain hs where hs: "hydrate en db True (take (min nonCurrentCap (rs_topK res)) (fuseRRF vs bs K w)) = Some hs"
    and nc: "nc = bestHitPerFramework hs"
    using t by (auto simp: nonCurrentTail_def)
  have s: "set nc \<subseteq> set hs" unfolding nc bestHitPerFramework_def by (rule set_dedup_on_subset)
  have "length nc \<le> length hs" unfolding nc bestHitPerFramework_def by (rule length_dedup_on)
  also have "length hs \<le> min 3 (rs_topK res)"
    using hydrate_length [OF hs] by (simp add: nonCurrentCap_def)
  finally show ?thesis using s hydrate_passes [OF keys arms hs] by blast
qed

lemma noncurrent_stage_hits:
  assumes keys: "well_keyed db"
  obtains nc where "noncurrent_stage en db query res qv bs hits = hits @ nc"
    "\<forall>h \<in> set nc. from_row db (passes res True) h" "length nc \<le> min 3 (rs_topK res)"
    "\<not> rs_surfaceNonCurrent res \<Longrightarrow> nc = []"
    "distinct (map ChunkID hits) \<Longrightarrow> distinct (map ChunkID (hits @ nc))"
proof -
  define res_nc where "res_nc = (case qv of Some (model, v) \<Rightarrow> nonCurrentHits en db model v res
      | None \<Rightarrow> if bs \<noteq> [] then nonCurrentHitsBM25 en db query res else Some [])"
  have ok: "(\<forall>h \<in> set nc. from_row db (passes res True) h) \<and> length nc \<le> min 3 (rs_topK res)"
    if rn: "res_nc = Some nc" for nc
  proof (cases qv)
    case None
    show ?thesis
    proof (cases "bs = []")
      case True
      with None rn show ?thesis by (simp add: res_nc_def)
    next
      case False
      with None rn obtain l where l: "sparseArmInner en db query res True = Some l"
        "nonCurrentTail en db (fuseRRF [] l (rs_rrfK res) 1) res = Some nc"
        by (auto simp: res_nc_def nonCurrentHitsBM25_def split: option.splits)
      show ?thesis by (rule nonCurrentTail_hits [OF keys _ sparseArm_chunks [OF l(1)] l(2)]) simp
    qed
  next
    case (Some p)
    obtain model v where p: "p = (model, v)" by (cases p)
    then obtain l where l: "vectorArmExact en db model v res True = Some l"
        "nonCurrentTail en db (fuseRRF l [] (rs_rrfK res) 1) res = Some nc"
      using rn Some by (auto simp: res_nc_def nonCurrentHits_def split: option.splits)
    show ?thesis by (rule nonCurrentTail_hits [OF keys vectorArm_chunks [OF l(1)] _ l(2)]) simp
  qed
  show ?thesis
  proof (cases "rs_surfaceNonCurrent res \<and> res_nc \<noteq> None")
    case True
    then obtain nc where nc: "res_nc = Some nc" by auto
    let ?nc = "dedup_on ChunkID (set (map ChunkID hits)) nc"
    have "length ?nc \<le> length nc" "set ?nc \<subseteq> set nc"
      by (rule length_dedup_on, rule set_dedup_on_subset)
    then show ?thesis
      using True nc ok [OF nc] appendNonCurrent_distinct [of hits nc]
      by (intro that [of ?nc]) (auto simp: noncurrent_stage_def appendNonCurrent_def res_nc_def [symmetric])
  next
    case False
    then show ?thesis by (intro that [of "[]"]) (auto simp: noncurrent_stage_def res_nc_def [symmetric])
  qed
qed

lemma vector_stage_arm:
  "vector_stage en db rt query res = Inr (qv, l) \<Longrightarrow>
     l = [] \<or> (\<exists>e v. rt_embedder rt = Some e \<and> vectorArmExact en db (eb_Model e) v res False = Some l)"
  by (auto simp: vector_stage_def split: if_splits option.splits sum.splits list.splits)

lemma vector_stage_chunks:
  "vector_stage en db rt query res = Inr (qv, l) \<Longrightarrow> r_chunk ` set l \<subseteq> ck_id ` set (arm_chunks db res False)"
  using vector_stage_arm [of en db rt query res qv l] vectorArm_chunks by fastforce

lemma lexical_stage_chunks:
  "lexical_stage en db query res = Inr l \<Longrightarrow> r_chunk ` set l \<subseteq> ck_id ` set (arm_chunks db res False)"
  using sparseArm_chunks [of en db query res False l]
  by (cases "rs_mode res = SearchModeVector") (simp_all add: lexical_stage_def sparseArm_def split: option.splits)

text \<open>The shape of every search result: primary hits, the pinned ones first, then superseded ones.\<close>

lemma searchHits_shape:
  assumes keys: "well_keyed db" and run: "searchHits en db rt query opts = Inr hits" and q: "query \<noteq> []"
  obtains res prim nc where "resolve rt opts = Some res" "hits = prim @ nc"
    "\<forall>h \<in> set prim. from_row db (passes res False) h" "\<forall>h \<in> set nc. from_row db (passes res True) h"
    "distinct (map ChunkID hits)" "length nc \<le> min 3 (rs_topK res)"
    "length prim \<le> max (rs_topK res) (length (pinned_stage en db rt query res))"
    "take (length (pinned_stage en db rt query res)) prim = pinned_stage en db rt query res"
    "\<not> rs_surfaceNonCurrent res \<Longrightarrow> nc = []"
proof -
  obtain res qv vs bs prim where res: "resolve rt opts = Some res"
    and v: "vector_stage en db rt query res = Inr (qv, vs)"
    and b: "lexical_stage en db query res = Inr bs"
    and p: "primary_stage en db res (pinned_stage en db rt query res) vs bs = Inr prim"
    and h: "hits = noncurrent_stage en db query res qv bs prim"
    using run q unfolding searchHits_def Let_def by (auto split: option.splits sum.splits prod.splits)
  note pin = pinned_stage_hits [OF keys, of en rt query res]
  have pr: "(\<forall>h \<in> set prim. from_row db (passes res False) h) \<and> distinct (map ChunkID prim)
    \<and> length prim \<le> max (rs_topK res) (length (pinned_stage en db rt query res))
    \<and> take (length (pinned_stage en db rt query res)) prim = pinned_stage en db rt query res"
    using pin by (intro primary_stage_hits [OF keys _ _ vector_stage_chunks [OF v] lexical_stage_chunks [OF b] p]) auto
  obtain nc where "hits = prim @ nc"
    "\<forall>h \<in> set nc. from_row db (passes res True) h" "length nc \<le> min 3 (rs_topK res)"
    "\<not> rs_surfaceNonCurrent res \<Longrightarrow> nc = []" "distinct (map ChunkID prim) \<Longrightarrow> distinct (map ChunkID (prim @ nc))"
    by (rule noncurrent_stage_hits [OF keys, of en query res qv bs prim]) (auto simp flip: h)
  then show ?thesis using pr by (intro that [OF res, of prim nc]) auto
qed

lemma searchHits_Nil: "searchHits en db rt [] opts = Inr []"
  by (simp add: searchHits_def)

lemma resolve_fields:
  assumes "resolve rt opts = Some res"
  shows "rs_framework res = so_Framework opts" "rs_versionLabel res = so_VersionLabel opts"
    "rs_includeWithdrawn res = so_IncludeWithdrawn opts" "rs_topK res = pick (so_TopK opts) defaultTopK"
    "rs_currentOnly res \<longleftrightarrow> so_CurrentOnly opts \<noteq> Some False"
    "rs_surfaceNonCurrent res \<longleftrightarrow> so_CurrentOnly opts = None \<and> so_Framework opts = [] \<and> so_VersionLabel opts = []"
    "0 < rs_topK res"
  using assms by (auto simp: resolve_def pick_def defaultTopK_def split: option.splits)

lemma from_row_current:
  assumes "from_row db (passes res False) h"
  shows "rs_framework res \<noteq> [] \<Longrightarrow> FrameworkCode h = rs_framework res"
    "rs_versionLabel res \<noteq> [] \<Longrightarrow> VersionLabel h = rs_versionLabel res"
    "rs_versionLabel res = [] \<Longrightarrow> rs_currentOnly res \<Longrightarrow> IsCurrent h"
  using assms by (auto simp: from_row_def passes_def arm_conds_False)

lemma from_row_superseded:
  assumes "from_row db (passes res True) h"
  shows "\<not> IsCurrent h"
  using assms by (auto simp: from_row_def passes_def arm_conds_True)

lemma from_row_status:
  assumes "from_row db (passes res nc) h"
  shows "\<exists>c \<in> set (chunks db). \<exists>sc \<in> set (controls db). ck_id c = ChunkID h \<and> sc_id sc = ck_control c
         \<and> (sc_status sc = ''active'' \<or> rs_includeWithdrawn res \<and> sc_status sc = ''withdrawn'')"
proof -
  obtain c sc d fv where r: "(c, sc, d, fv) \<in> set (joined_rows db)" "status_ok res sc" "ChunkID h = ck_id c"
    using assms by (auto simp: from_row_def passes_def)
  then have "c \<in> set (chunks db)" "sc \<in> set (controls db)" "sc_id sc = ck_control c"
    by (simp_all add: joined_rows_iff)
  with r show ?thesis by (intro bexI [of _ c] bexI [of _ sc]) (auto simp: status_ok_def split: if_splits)
qed

section \<open>The document cap\<close>

lemma resolve_docCap:
  "resolve rt (opts\<lparr>so_DocCap := n\<rparr>) =
     map_option (\<lambda>r. r\<lparr>rs_docCap := pick n defaultDocCap\<rparr>) (resolve rt (opts\<lparr>so_DocCap := 0\<rparr>))"
  by (simp add: resolve_def resolve_mode_def option.map_comp comp_def)

lemma arm_chunks_docCap [simp]: "arm_chunks db (res\<lparr>rs_docCap := n\<rparr>) nc = arm_chunks db res nc"
  by (simp add: arm_chunks_def status_ok_def arm_conds_def buildVersionFilterCTE_def buildNonCurrentCTE_def)

lemma arms_docCap [simp]:
  "vectorArmExact en db model v (res\<lparr>rs_docCap := n\<rparr>) nc = vectorArmExact en db model v res nc"
  "sparseArmInner en db query (res\<lparr>rs_docCap := n\<rparr>) nc = sparseArmInner en db query res nc"
  "citationLookup en db ms (res\<lparr>rs_docCap := n\<rparr>) = citationLookup en db ms res"
  by (simp_all add: vectorArmExact_def sparseArmInner_def vector_rows_def sparse_rows_def citationLookup_def
      citation_cond_def status_ok_def cong: filter_cong if_cong)

lemma res_docCap:
  "rs_topK (res\<lparr>rs_docCap := n\<rparr>) = rs_topK res" "rs_lexWeight (res\<lparr>rs_docCap := n\<rparr>) = rs_lexWeight res"
  "rs_rrfK (res\<lparr>rs_docCap := n\<rparr>) = rs_rrfK res"
  by simp_all

lemma hydrate_count_docCap: "hydrate_count (res\<lparr>rs_docCap := n\<rparr>) pinned = hydrate_count res pinned"
  by (simp only: hydrate_count_def res_docCap)

lemma stages_docCap:
  "pinned_stage en db rt query (res\<lparr>rs_docCap := n\<rparr>) = pinned_stage en db rt query res"
  "vector_stage en db rt query (res\<lparr>rs_docCap := n\<rparr>) = vector_stage en db rt query res"
  "lexical_stage en db query (res\<lparr>rs_docCap := n\<rparr>) = lexical_stage en db query res"
  "noncurrent_stage en db query (res\<lparr>rs_docCap := n\<rparr>) qv bs hits = noncurrent_stage en db query res qv bs hits"
  unfolding pinned_stage_def vector_stage_def lexical_stage_def sparseArm_def noncurrent_stage_def
    nonCurrentHits_def nonCurrentHitsBM25_def nonCurrentTail_def arms_docCap res_docCap
  by simp_all

lemma noncurrent_mset:
  "mset hits = mset hits' \<Longrightarrow>
     mset (noncurrent_stage en db query res qv bs hits) = mset (noncurrent_stage en db query res qv bs hits')"
  using mset_eq_setD [of hits hits']
  by (auto simp: noncurrent_stage_def appendNonCurrent_def split: option.splits)

lemma mergePinned_mset:
  assumes "length hits \<le> max 1 (topK - length pinned)" and "mset hits = mset hits'"
  shows "mset (mergePinned pinned hits topK) = mset (mergePinned pinned hits' topK)"
proof (cases "topK \<le> length pinned")
  case False
  let ?P = "\<lambda>h. ChunkID h \<notin> set (map ChunkID pinned)"
  have l: "length hits' = length hits" using assms(2) by (metis size_mset)
  have "length (filter ?P hits) \<le> topK - length pinned" "length (filter ?P hits') \<le> topK - length pinned"
    using assms(1) False l length_filter_le [of ?P hits] length_filter_le [of ?P hits'] by linarith+
  then show ?thesis using assms(2) by (simp add: mergePinned_spec mset_filter)
qed (simp add: mergePinned_spec)

lemma assemble_docCap:
  assumes "length hs \<le> hydrate_count res pinned"
  shows "mset (assemble (res\<lparr>rs_docCap := n\<rparr>) pinned hs) = mset (assemble res pinned hs)"
proof -
  have "length hs \<le> hydrate_count (res\<lparr>rs_docCap := n\<rparr>) pinned"
    using assms by (simp only: hydrate_count_docCap)
  then obtain b where b: "mset b = mset hs"
    "assemble (res\<lparr>rs_docCap := n\<rparr>) pinned hs = (if pinned \<noteq> [] then mergePinned pinned b (rs_topK res) else b)"
    using assemble_spec by (metis res_docCap(1))
  obtain a where a: "mset a = mset hs"
    "assemble res pinned hs = (if pinned \<noteq> [] then mergePinned pinned a (rs_topK res) else a)"
    using assemble_spec [OF assms] by metis
  have "length b \<le> max 1 (rs_topK res - length pinned)" if "pinned \<noteq> []"
    using assms that mset_eq_length [OF b(1)] by (simp add: hydrate_count_def)
  then show ?thesis using a b by (auto intro!: mergePinned_mset)
qed

lemma primary_docCap:
  "map_sum id mset (primary_stage en db (res\<lparr>rs_docCap := n\<rparr>) pinned vs bs)
    = map_sum id mset (primary_stage en db res pinned vs bs)"
proof -
  have "fused_stage en db (res\<lparr>rs_docCap := n\<rparr>) pinned vs bs = fused_stage en db res pinned vs bs"
    by (simp only: fused_stage_def hydrate_count_docCap res_docCap)
  moreover have "mset (assemble (res\<lparr>rs_docCap := n\<rparr>) pinned hs) = mset (assemble res pinned hs)"
    if hs: "fused_stage en db res pinned vs bs = Some hs" for hs
    by (rule fused_stage_hits [OF hs]) (rule assemble_docCap)
  ultimately show ?thesis
    by (cases "fused_stage en db res pinned vs bs") (simp_all add: primary_stage_def)
qed

section \<open>Properties\<close>

text \<open>
  C13.  Every hit of a search obeys the options: the framework and version asked for, an active control
  unless withdrawn ones are asked for, and the current version whenever the search is restricted to
  current versions (explicitly, or by pinning a framework alone).
\<close>

theorem search_respects_filters:
  assumes "well_keyed db" and "searchHits en db rt query opts = Inr hits" and "h \<in> set hits"
  shows "(so_Framework opts \<noteq> [] \<longrightarrow> FrameworkCode h = so_Framework opts)
    \<and> (so_VersionLabel opts \<noteq> [] \<longrightarrow> VersionLabel h = so_VersionLabel opts)
    \<and> (so_VersionLabel opts = [] \<and> (so_CurrentOnly opts = Some True \<or> so_CurrentOnly opts = None \<and> so_Framework opts \<noteq> [])
         \<longrightarrow> IsCurrent h)
    \<and> (\<exists>c \<in> set (chunks db). \<exists>sc \<in> set (controls db). ck_id c = ChunkID h \<and> sc_id sc = ck_control c
         \<and> (sc_status sc = ''active'' \<or> so_IncludeWithdrawn opts \<and> sc_status sc = ''withdrawn''))"
proof -
  have q: "query \<noteq> []" using assms(2,3) by (auto simp: searchHits_Nil)
  obtain res prim nc where res: "resolve rt opts = Some res" and hits: "hits = prim @ nc"
    and prim: "\<forall>h \<in> set prim. from_row db (passes res False) h"
    and nc: "\<forall>h \<in> set nc. from_row db (passes res True) h"
    and sur: "nc \<noteq> [] \<longrightarrow> rs_surfaceNonCurrent res"
    by (rule searchHits_shape [OF assms(1,2) q]) blast
  note f = resolve_fields [OF res]
  consider "from_row db (passes res False) h"
    | "rs_surfaceNonCurrent res" "from_row db (passes res True) h"
    using assms(3) hits prim nc sur by (cases "h \<in> set prim"; cases "nc = []") auto
  then show ?thesis
  proof cases
    case 1
    show ?thesis using from_row_current [OF 1] from_row_status [OF 1] by (auto simp add: f)
  next
    case 2
    then show ?thesis using from_row_status [OF 2(2)] by (simp add: f)
  qed
qed

text \<open>
  A search never returns a chunk twice, and returns at most TopK hits, or the pinned citation hits
  (16 at most) when those are more, and at most three superseded ones after them.
\<close>

lemma search_bounded:
  assumes "well_keyed db" and "searchHits en db rt query opts = Inr hits"
  shows "distinct (map ChunkID hits) \<and> length hits \<le> max (pick (so_TopK opts) defaultTopK) 16 + 3"
proof (cases "query = []")
  case True
  then show ?thesis using assms(2) by (simp add: searchHits_Nil)
next
  case False
  obtain res prim nc where res: "resolve rt opts = Some res" and hits: "hits = prim @ nc"
    and d: "distinct (map ChunkID hits)" and nc: "length nc \<le> min 3 (rs_topK res)"
    and prim: "length prim \<le> max (rs_topK res) (length (pinned_stage en db rt query res))"
    by (rule searchHits_shape [OF assms False])
  have "length (pinned_stage en db rt query res) \<le> 16"
    using pinned_stage_hits [OF assms(1)] by blast
  then have "length prim + length nc \<le> max (rs_topK res) 16 + 3"
    using nc prim by linarith
  then show ?thesis using d by (simp add: hits resolve_fields(4) [OF res])
qed

text \<open>
  A default search (no version options) ranks its superseded hits last: they form a run of at most
  three at the end.  So the evaluation's current-version precision of a default search is 1 as soon as
  one of its hits is current.
\<close>

lemma search_default_precision:
  assumes "well_keyed db" and "searchHits en db rt query opts = Inr hits"
    and "so_CurrentOnly opts = None" and "so_Framework opts = []" and "so_VersionLabel opts = []"
    and "list_ex IsCurrent hits"
  shows "(\<exists>cur old. hits = cur @ old \<and> list_all IsCurrent cur \<and> \<not> list_ex IsCurrent old \<and> length old \<le> 3)
    \<and> fst (CurrentPrecision hits (Some IsCurrent) {}) = 1"
proof -
  have q: "query \<noteq> []" using assms(2,6) by (auto simp: searchHits_Nil)
  obtain res prim nc where res: "resolve rt opts = Some res" and hits: "hits = prim @ nc"
    and prim: "\<forall>h \<in> set prim. from_row db (passes res False) h"
    and nc: "\<forall>h \<in> set nc. from_row db (passes res True) h" and l: "length nc \<le> min 3 (rs_topK res)"
    by (rule searchHits_shape [OF assms(1,2) q])
  note f = resolve_fields [OF res]
  have cur: "list_all IsCurrent prim"
    using from_row_current(3) [of db res] prim assms(3-5) by (auto simp: list_all_iff f)
  have old: "\<not> list_ex IsCurrent nc"
    using nc from_row_superseded by (auto simp: list_ex_iff)
  have "prim \<noteq> []" using assms(6) old by (auto simp: hits)
  moreover have ok: "version_ok (Some IsCurrent) {} = IsCurrent" by (rule ext) (simp add: version_ok_def)
  moreover have drop: "drop_trailing IsCurrent (xs @ ys) = xs"
    if "xs \<noteq> []" "list_all IsCurrent xs" "\<not> list_ex IsCurrent ys" for xs ys
    using that(3)
  proof (induction ys rule: rev_induct)
    case Nil
    then show ?case using that by (subst drop_trailing.simps) (auto simp: list_all_iff)
  next
    case (snoc y ys)
    then show ?case by (subst drop_trailing.simps) (auto simp: butlast_append)
  qed
  moreover have "filter IsCurrent prim = prim" using cur by (simp add: list_all_iff)
  ultimately have "fst (CurrentPrecision hits (Some IsCurrent) {}) = 1"
    using cur old by (simp add: CurrentPrecision_def hits Let_def)
  then show ?thesis using cur old l hits by auto
qed

text \<open>
  The document cap limits nothing: whatever its value, a search returns the same hits as without a
  cap (in another order at most), because fusion is cut to the hydration limit before the cap is applied
  with that same limit.
\<close>

lemma docCap_limits_nothing:
  "map_sum id mset (searchHits en db rt query (opts\<lparr>so_DocCap := n\<rparr>))
   = map_sum id mset (searchHits en db rt query (opts\<lparr>so_DocCap := 0\<rparr>))"
proof (cases "query = [] \<or> resolve rt (opts\<lparr>so_DocCap := 0\<rparr>) = None")
  case True
  then show ?thesis by (auto simp: searchHits_def resolve_docCap [where rt = rt and opts = opts and n = n])
next
  case False
  then obtain res where res: "resolve rt (opts\<lparr>so_DocCap := 0\<rparr>) = Some res" by auto
  let ?res = "res\<lparr>rs_docCap := pick n defaultDocCap\<rparr>"
  have r: "resolve rt (opts\<lparr>so_DocCap := n\<rparr>) = Some ?res"
    by (simp add: resolve_docCap [where rt = rt and opts = opts and n = n] res)
  have p: "map_sum id mset (primary_stage en db ?res pinned vs bs) = map_sum id mset (primary_stage en db res pinned vs bs)"
    for pinned vs bs by (rule primary_docCap)
  have step: "map_sum id mset (case primary_stage en db ?res pinned vs bs of Inl e \<Rightarrow> Inl e
      | Inr hits \<Rightarrow> Inr (noncurrent_stage en db query res qv bs hits)) =
    map_sum id mset (case primary_stage en db res pinned vs bs of Inl e \<Rightarrow> Inl e
      | Inr hits \<Rightarrow> Inr (noncurrent_stage en db query res qv bs hits))" for pinned vs bs qv
    using p [of pinned vs bs]
    by (cases "primary_stage en db ?res pinned vs bs"; cases "primary_stage en db res pinned vs bs")
       (auto intro: noncurrent_mset)
  show ?thesis
    using False step unfolding searchHits_def Let_def res r option.case stages_docCap
    by (auto split: sum.splits prod.splits)
qed

lemma cosine_scan_spec:
  "cosine_scan b best hs = (b \<or> list_ex (\<lambda>h. 0 < VectorRank h) hs, Max (insert best (Similarity ` set hs)))"
proof (induction hs arbitrary: b best)
  case (Cons h hs)
  have "Max (insert best (Similarity ` set (h # hs)))
    = Max (insert (if best < Similarity h then Similarity h else best) (Similarity ` set hs))"
    by (cases "Similarity ` set hs = {}") (auto simp: max_def not_less)
  with Cons show ?case by auto
qed simp

text \<open>
  Evidence abstains exactly when there is no hit, or when a floor is set, a hit comes from the
  dense arm and no hit's cosine similarity reaches the floor; a search without the dense arm never
  abstains on the floor.
\<close>

lemma abstain_iff:
  "case SearchEvidence en db rt query opts of
     Inl e \<Rightarrow> searchHits en db rt query opts = Inl e
   | Inr ev \<Rightarrow> searchHits en db rt query opts = Inr (ev_Hits ev)
       \<and> (ev_Abstain ev \<longleftrightarrow> ev_Hits ev = []
            \<or> (0 < rt_abstainFloor rt \<and> list_ex (\<lambda>h. 0 < VectorRank h) (ev_Hits ev)
                \<and> list_all (\<lambda>h. Similarity h < rt_abstainFloor rt) (ev_Hits ev)))"
  by (auto simp: SearchEvidence_def applyAbstainFloor_def cosine_scan_spec Let_def list_all_iff
      split: sum.splits if_splits)

section \<open>A concrete search\<close>

definition demo_db :: "int db" where
  "demo_db = empty_corpus
     \<lparr>frameworks := [\<lparr>fw_code = ''iso'', fw_name = ''ISO'', fw_policy = ''full'', fw_scheme = ''iso-ams'', fw_terms = []\<rparr>],
      versions := [\<lparr>fv_framework = ''iso'', fv_version = ''2022'', fv_is_current = True, fv_note = []\<rparr>,
                  \<lparr>fv_framework = ''iso'', fv_version = ''2013'', fv_is_current = False, fv_note = []\<rparr>],
      documents := [plain_doc 1 ''iso'' ''2022'', plain_doc 2 ''iso'' ''2013''],
      controls := [plain_control 10 1 ''5.1'' ''active'', plain_control 11 1 ''5.2'' ''withdrawn'',
                   plain_control 20 2 ''A.5'' ''active''],
      chunks := [plain_chunk 100 10 ''a'', plain_chunk 101 11 ''b'', plain_chunk 200 20 ''c''],
      embeddings := [\<lparr>em_chunk = 100, em_model = ''m'', em_dims = 1, em_vector = 3\<rparr>,
                     \<lparr>em_chunk = 101, em_model = ''m'', em_dims = 1, em_vector = 1\<rparr>,
                     \<lparr>em_chunk = 200, em_model = ''m'', em_dims = 1, em_vector = 2\<rparr>]\<rparr>"

definition demo_engine :: "int engine" where
  "demo_engine =
     \<lparr>en_cosine = (\<lambda>a b. of_int \<bar>a - b\<bar> / 10), en_neg_ip = (\<lambda>_ _. - 1), en_collate = map of_char,
      en_unicode = \<lparr>u_lower = (\<lambda>r. r), u_letter = (\<lambda>r. 97 \<le> r \<and> r \<le> 122), u_digit = (\<lambda>r. 48 \<le> r \<and> r \<le> 57)\<rparr>,
      en_fails = (\<lambda>_. False)\<rparr>"

definition demo_retriever :: "int retriever" where
  "demo_retriever =
     \<lparr>rt_embedder = Some \<lparr>eb_Model = ''m'', eb_Embed = (\<lambda>texts. Inr (map (\<lambda>_. Some 1) texts))\<rparr>,
      rt_abstainFloor = 0, rt_frameworkScheme = (\<lambda>_. None)\<rparr>"

definition demo_opts :: search_opts where
  "demo_opts =
     \<lparr>so_Mode = ''vector'', so_TopK = 0, so_VectorK = 0, so_BM25K = 0, so_RRFK = 0, so_DocCap = 0, so_LexWeight = 0,
      so_Framework = [], so_VersionLabel = [], so_CurrentOnly = None, so_IncludeWithdrawn = False\<rparr>"

lemma demo_keyed: "well_keyed demo_db"
  by code_simp

definition demo_hits :: "hit list" where
  "demo_hits =
     [\<lparr>ChunkID = 100, DocumentID = 1, FrameworkCode = ''iso'', VersionLabel = ''2022'', Citation = ''5.1'',
       CitationNorm = ''5.1'', ContextPrefix = [], Content = ''a'', hScore = 1 / 21, Similarity = 8 / 10,
       BM25Score = 0, VectorRank = 1, BM25Rank = 0, IsCurrent = True\<rparr>,
      \<lparr>ChunkID = 200, DocumentID = 2, FrameworkCode = ''iso'', VersionLabel = ''2013'', Citation = ''A.5'',
       CitationNorm = ''A.5'', ContextPrefix = [], Content = ''c'', hScore = 1 / 21, Similarity = 9 / 10,
       BM25Score = 0, VectorRank = 1, BM25Rank = 0, IsCurrent = False\<rparr>]"

lemma demo_search: "searchHits demo_engine demo_db demo_retriever ''q'' demo_opts = Inr demo_hits"
  by code_simp

lemma demo_search_current:
  "searchHits demo_engine demo_db demo_retriever ''q'' (demo_opts\<lparr>so_CurrentOnly := Some True\<rparr>) = Inr [hd demo_hits]"
  by code_simp

lemma search_respects_filters_witness: "IsCurrent (hd demo_hits)"
proof -
  have "so_VersionLabel (demo_opts\<lparr>so_CurrentOnly := Some True\<rparr>) = []"
    "so_CurrentOnly (demo_opts\<lparr>so_CurrentOnly := Some True\<rparr>) = Some True"
    by (simp_all add: demo_opts_def)
  then show ?thesis
    using search_respects_filters [OF demo_keyed demo_search_current, of "hd demo_hits"] by simp
qed

lemma search_bounded_witness: "distinct (map ChunkID demo_hits) \<and> length demo_hits \<le> 19"
  using search_bounded [OF demo_keyed demo_search]
  by (simp add: demo_opts_def pick_def defaultTopK_def)

lemma search_default_precision_witness: "fst (CurrentPrecision demo_hits (Some IsCurrent) {}) = 1"
proof -
  have "so_CurrentOnly demo_opts = None" "so_Framework demo_opts = []" "so_VersionLabel demo_opts = []"
    "list_ex IsCurrent demo_hits"
    by (simp_all add: demo_opts_def demo_hits_def)
  then show ?thesis using search_default_precision [OF demo_keyed demo_search] by blast
qed

end
