(* ===== verification/Db_Act.thy ===== *)
theory Db_Act
  imports Corpus
begin

text \<open>
  Actions over the database, as the pipeline stages run them: a function from a state to an error or a
  value, with the state reached; a failure keeps the effects of the statements before it, as no
  transaction is open.  \<open>stmt\<close> runs one statement: \<open>fault n\<close> tells whether the \<open>n\<close>-th statement of the run
  fails for a reason outside the model (a lost connection), and a statement that violates a constraint
  is None.  \<open>valid\<close> is the partial-correctness judgement with a postcondition for each outcome.
\<close>

type_synonym ('s, 'e, 'a) act = "'s \<Rightarrow> ('e + 'a) \<times> 's"

definition ret :: "'a \<Rightarrow> ('s, 'e, 'a) act" where
  "ret x = (\<lambda>s. (Inr x, s))"

definition fail :: "'e \<Rightarrow> ('s, 'e, 'a) act" where
  "fail e = (\<lambda>s. (Inl e, s))"

definition bind :: "('s, 'e, 'a) act \<Rightarrow> ('a \<Rightarrow> ('s, 'e, 'b) act) \<Rightarrow> ('s, 'e, 'b) act" where
  "bind m f = (\<lambda>s. case m s of (Inl e, s') \<Rightarrow> (Inl e, s') | (Inr x, s') \<Rightarrow> f x s')"

fun each :: "('x \<Rightarrow> ('s, 'e, 'a) act) \<Rightarrow> 'x list \<Rightarrow> ('s, 'e, 'a list) act" where
  "each f [] = ret []"
| "each f (x # xs) = bind (f x) (\<lambda>y. bind (each f xs) (\<lambda>ys. ret (y # ys)))"

definition stmt ::
  "(nat \<Rightarrow> bool) \<Rightarrow> 'e \<Rightarrow> ('d \<Rightarrow> ('a \<times> 'd) option) \<Rightarrow> ('d \<times> nat, 'e, 'a) act" where
  "stmt fault e f =
     (\<lambda>(db, n). if fault n then (Inl e, (db, Suc n))
               else case f db of None \<Rightarrow> (Inl e, (db, Suc n)) | Some (x, db') \<Rightarrow> (Inr x, (db', Suc n)))"

text \<open>An action whose error the caller looks at and goes on.\<close>

definition try_act :: "('s, 'e, 'a) act \<Rightarrow> ('s, 'f, 'e + 'a) act" where
  "try_act m = (\<lambda>s. case m s of (r, s') \<Rightarrow> (Inr r, s'))"

section \<open>Outcomes\<close>

definition valid :: "('s \<Rightarrow> bool) \<Rightarrow> ('s, 'e, 'a) act \<Rightarrow> ('a \<Rightarrow> 's \<Rightarrow> bool) \<Rightarrow> ('e \<Rightarrow> 's \<Rightarrow> bool) \<Rightarrow> bool" where
  "valid P m Q E \<longleftrightarrow> (\<forall>s. P s \<longrightarrow> (case m s of (Inr x, s') \<Rightarrow> Q x s' | (Inl e, s') \<Rightarrow> E e s'))"

lemma validI:
  "(\<And>s x s'. P s \<Longrightarrow> m s = (Inr x, s') \<Longrightarrow> Q x s') \<Longrightarrow> (\<And>s e s'. P s \<Longrightarrow> m s = (Inl e, s') \<Longrightarrow> E e s')
     \<Longrightarrow> valid P m Q E"
  by (auto simp: valid_def split: prod.splits sum.splits)

lemma valid_ok: "valid P m Q E \<Longrightarrow> P s \<Longrightarrow> m s = (Inr x, s') \<Longrightarrow> Q x s'"
  by (fastforce simp: valid_def)

lemma valid_err: "valid P m Q E \<Longrightarrow> P s \<Longrightarrow> m s = (Inl e, s') \<Longrightarrow> E e s'"
  by (fastforce simp: valid_def)

lemma valid_state: "valid P m (\<lambda>_. Q) (\<lambda>_. Q) \<Longrightarrow> P s \<Longrightarrow> Q (snd (m s))"
  by (cases "m s"; cases "fst (m s)") (auto simp: valid_def)

lemma valid_ret [intro]: "(\<And>s. P s \<Longrightarrow> Q x s) \<Longrightarrow> valid P (ret x) Q E"
  by (simp add: valid_def ret_def)

lemma valid_fail [intro]: "(\<And>s. P s \<Longrightarrow> E e s) \<Longrightarrow> valid P (fail e) Q E"
  by (simp add: valid_def fail_def)

lemma valid_bind:
  assumes "valid P m R E" and "\<And>x. valid (R x) (f x) Q E"
  shows "valid P (bind m f) Q E"
  using assms by (fastforce simp: valid_def bind_def split: prod.splits sum.splits)

lemma valid_stmt:
  assumes "\<And>db n. P (db, n) \<Longrightarrow> E e (db, Suc n)"
    and "\<And>db n x db'. P (db, n) \<Longrightarrow> f db = Some (x, db') \<Longrightarrow> Q x (db', Suc n)"
  shows "valid P (stmt fault e f) Q E"
  using assms by (auto simp: valid_def stmt_def split: option.splits prod.splits)

lemma valid_each:
  assumes "\<And>x. x \<in> set xs \<Longrightarrow> valid I (f x) (\<lambda>_. I) (\<lambda>_. J)"
  shows "valid I (each f xs) (\<lambda>_. I) (\<lambda>_. J)"
  using assms
proof (induction xs)
  case Nil
  then show ?case by (auto simp: valid_def ret_def)
next
  case (Cons x xs)
  then show ?case
    by (auto intro!: valid_bind [where R = "\<lambda>_. I"] valid_ret)
qed

lemma valid_try:
  assumes "valid P m (\<lambda>x. Q (Inr x)) (\<lambda>e. Q (Inl e))"
  shows "valid P (try_act m) Q E"
proof (rule validI)
  fix s r s' assume "P s" and "try_act m s = (Inr r, s')"
  then have "m s = (r, s')" by (auto simp: try_act_def split: prod.splits)
  with \<open>P s\<close> show "Q r s'" using valid_ok [OF assms] valid_err [OF assms] by (cases r) auto
qed (auto simp: try_act_def split: prod.splits)

lemma valid_weaken:
  "valid P' m Q' E' \<Longrightarrow> (\<And>s. P s \<Longrightarrow> P' s) \<Longrightarrow> (\<And>x s. Q' x s \<Longrightarrow> Q x s) \<Longrightarrow> (\<And>e s. E' e s \<Longrightarrow> E e s)
     \<Longrightarrow> valid P m Q E"
  by (fastforce simp: valid_def split: prod.splits sum.splits)

lemma bind_ok: "bind m f s = (Inr y, s') \<longleftrightarrow> (\<exists>x s1. m s = (Inr x, s1) \<and> f x s1 = (Inr y, s'))"
  by (auto simp: bind_def split: prod.splits sum.splits)

lemma stmt_ok: "stmt fault e f (db, n) = (Inr x, s') \<longleftrightarrow>
    \<not> fault n \<and> (\<exists>db'. f db = Some (x, db') \<and> s' = (db', Suc n))"
  by (auto simp: stmt_def split: option.splits prod.splits)

lemma ret_ok: "ret x s = (Inr y, s') \<longleftrightarrow> y = x \<and> s' = s"
  by (auto simp: ret_def)

lemma fail_ok: "fail e s \<noteq> (Inr y, s')"
  by (simp add: fail_def)

lemma try_ok: "try_act m s = (Inr r, s') \<longleftrightarrow> m s = (r, s')"
  by (auto simp: try_act_def split: prod.splits)

lemma try_never_fails: "try_act m s \<noteq> (Inl e, s')"
  by (auto simp: try_act_def split: prod.splits)

lemma bind_try: "m s = (r, s') \<Longrightarrow> bind (try_act m) f s = f r s'"
  by (simp add: bind_def try_act_def)

lemmas act_ok = try_ok bind_ok stmt_ok ret_ok fail_ok

section \<open>How far the state can move\<close>

text \<open>
  An action obeys a relation when the state before and the state after are always related, whatever the
  outcome; for a reflexive and transitive relation this is inherited from the parts of an action.
\<close>

definition obeys :: "('s \<Rightarrow> 's \<Rightarrow> bool) \<Rightarrow> ('s, 'e, 'a) act \<Rightarrow> bool" where
  "obeys R m \<longleftrightarrow> (\<forall>s. R s (snd (m s)))"

locale progress =
  fixes R :: "'s \<Rightarrow> 's \<Rightarrow> bool"
  assumes same: "R s s" and trans: "R a b \<Longrightarrow> R b c \<Longrightarrow> R a c"
begin

lemma obeys_ret: "obeys R (ret x)"
  by (simp add: obeys_def ret_def same)

lemma obeys_fail: "obeys R (fail e)"
  by (simp add: obeys_def fail_def same)

lemma obeys_try: "obeys R m \<Longrightarrow> obeys R (try_act m)"
  by (auto simp: obeys_def try_act_def split: prod.splits) (metis snd_conv)

lemma obeys_bind:
  assumes "obeys R m" and "\<And>x. obeys R (f x)"
  shows "obeys R (bind m f)"
  unfolding obeys_def
proof
  fix s
  show "R s (snd (bind m f s))"
  proof (cases "m s")
    case (Pair r s')
    then have 1: "R s s'" using assms(1) by (metis obeys_def snd_conv)
    show ?thesis
    proof (cases r)
      case (Inl e)
      then show ?thesis using Pair 1 by (simp add: bind_def)
    next
      case (Inr x)
      then show ?thesis using Pair trans [OF 1] assms(2) by (simp add: bind_def obeys_def)
    qed
  qed
qed

lemma obeys_each: "(\<And>x. x \<in> set xs \<Longrightarrow> obeys R (f x)) \<Longrightarrow> obeys R (each f xs)"
  by (induction xs) (auto intro!: obeys_bind obeys_ret)

lemmas obeys_intros = obeys_ret obeys_fail obeys_try obeys_bind obeys_each

end

end
