(* ===== verification/Index.thy ===== *)
theory Index
  imports Db_Act Embed
begin

text \<open>
  The index stage (\<open>pkg/rag/index/index.go\<close>) over the gold tables: reaping orphan chunks, building the
  chunks of a document with their context prefix, and embedding the chunks that miss a vector.

  The walk up \<open>parent_control_id\<close> may not end on a cyclic tree; it is a partial function, and a build that
  meets such a tree ends in \<open>Diverges\<close>, which stands for not returning.  The sparse column is left
  None by this stage.
\<close>

datatype index_err =
    ReapFailed | DeleteFailed | InsertFailed string | ListMissing | NoEmbedderConfigured
  | EmbedBatch nat nat | VectorPanic nat | UpsertFailed int | KaggleFailed | Diverges

type_synonym ('v, 'sp, 'a) index_act = "(('v, 'sp) corpus \<times> nat, index_err, 'a) act"

section \<open>Statements of the gold tables (sql/gold/queries.sql)\<close>

text \<open>Deleting a chunk deletes its embeddings.\<close>

definition keep_chunks :: "('sp chunk_row \<Rightarrow> bool) \<Rightarrow> ('v, 'sp) corpus \<Rightarrow> ('v, 'sp) corpus" where
  "keep_chunks P db =
     (let kept = filter P (chunks db) in
      db\<lparr>chunks := kept, embeddings := filter (\<lambda>e. em_chunk e \<in> set (map ck_id kept)) (embeddings db)\<rparr>)"

definition DeleteOrphanChunks :: "('v, 'sp) corpus \<Rightarrow> (nat \<times> ('v, 'sp) corpus) option" where
  "DeleteOrphanChunks db =
     (let P = (\<lambda>c. ck_control c \<in> set (map sc_id (controls db)))
      in Some (length (filter (\<lambda>c. \<not> P c) (chunks db)), keep_chunks P db))"

definition DeleteChunksForControls :: "int list \<Rightarrow> ('v, 'sp) corpus \<Rightarrow> (nat \<times> ('v, 'sp) corpus) option" where
  "DeleteChunksForControls ids db =
     Some (length (filter (\<lambda>c. ck_control c \<in> set ids) (chunks db)), keep_chunks (\<lambda>c. ck_control c \<notin> set ids) db)"

definition InsertChunk ::
  "int \<Rightarrow> string \<Rightarrow> string option \<Rightarrow> string \<Rightarrow> int \<Rightarrow> ('v, 'sp) corpus \<Rightarrow> (int \<times> ('v, 'sp) corpus) option" where
  "InsertChunk ctrl cit prefix content ordinal db =
     (if (ctrl, ordinal) \<in> set (map (\<lambda>c. (ck_control c, ck_ordinal c)) (chunks db)) then None
      else Some (next_chunk db,
        db\<lparr>chunks := chunks db @ [\<lparr>ck_id = next_chunk db, ck_control = ctrl, ck_citation = cit, ck_prefix = prefix,
                                   ck_content = content, ck_ordinal = ordinal, ck_sparse = None\<rparr>],
           next_chunk := next_chunk db + 1\<rparr>))"

definition has_embedding :: "string \<Rightarrow> ('v, 'sp) corpus \<Rightarrow> int \<Rightarrow> bool" where
  "has_embedding model db i \<longleftrightarrow> list_ex (\<lambda>e. em_chunk e = i \<and> em_model e = model) (embeddings db)"

definition ListChunksMissingEmbedding ::
  "string \<Rightarrow> ('v, 'sp) corpus \<Rightarrow> ('sp chunk_row list \<times> ('v, 'sp) corpus) option" where
  "ListChunksMissingEmbedding model db =
     Some (sort_key ck_id (filter (\<lambda>c. \<not> has_embedding model db (ck_id c)) (chunks db)), db)"

definition UpsertChunkEmbedding ::
  "int \<Rightarrow> string \<Rightarrow> int \<Rightarrow> 'v \<Rightarrow> ('v, 'sp) corpus \<Rightarrow> (unit \<times> ('v, 'sp) corpus) option" where
  "UpsertChunkEmbedding chunk model dims v db =
     (if chunk \<notin> set (map ck_id (chunks db)) then None
      else
        let same = (\<lambda>e. em_chunk e = chunk \<and> em_model e = model \<and> em_dims e = dims)
        in Some ((), db\<lparr>embeddings :=
             (if list_ex same (embeddings db)
              then map (\<lambda>e. if same e then e\<lparr>em_vector := v\<rparr> else e) (embeddings db)
              else embeddings db @ [\<lparr>em_chunk = chunk, em_model = model, em_dims = dims, em_vector = v\<rparr>])\<rparr>))"

section \<open>Building chunks\<close>

record equivalent_body =
  eq_Citation :: string
  eq_Framework :: string
  eq_Body :: string

definition by_id :: "control_row list \<Rightarrow> int \<Rightarrow> control_row option" where
  "by_id ctrls = map_of (rev (map (\<lambda>c. (sc_id c, c)) ctrls))"

text \<open>The loop of \<open>ancestorCitations\<close>, with the chain so far in root-first order.\<close>

partial_function (option) ancestor_loop ::
  "(int \<Rightarrow> control_row option) \<Rightarrow> int option \<Rightarrow> string list \<Rightarrow> string list option" where
  "ancestor_loop byID cur chain =
     (case cur of
        None \<Rightarrow> Some chain
      | Some i \<Rightarrow>
          (case byID i of
             None \<Rightarrow> Some chain
           | Some parent \<Rightarrow> ancestor_loop byID (sc_parent parent) (sc_citation parent # chain)))"

declare ancestor_loop.simps [code]

definition ancestorCitations :: "control_row \<Rightarrow> (int \<Rightarrow> control_row option) \<Rightarrow> string list option" where
  "ancestorCitations ctrl byID = ancestor_loop byID (sc_parent ctrl) []"

definition buildContextPrefix :: "doc_row \<Rightarrow> control_row \<Rightarrow> (int \<Rightarrow> control_row option) \<Rightarrow> string option" where
  "buildContextPrefix doc ctrl byID =
     map_option (\<lambda>ancestors.
         join '' > '' ([d_framework doc @ '' '' @ d_version doc] @ ancestors
                       @ (if sc_title ctrl \<noteq> [] then [sc_title ctrl] else [])))
       (ancestorCitations ctrl byID)"

definition nl :: string where "nl = [CHR 0x0A]"

definition buildContent :: "control_row \<Rightarrow> equivalent_body option \<Rightarrow> string" where
  "buildContent ctrl eq =
     sc_citation ctrl
     @ (if sc_title ctrl \<noteq> [] then '' '' @ sc_title ctrl else [])
     @ (case sc_body ctrl of None \<Rightarrow> [] | Some b \<Rightarrow> if b \<noteq> [] then nl @ b else [])
     @ (case eq of
          None \<Rightarrow> []
        | Some e \<Rightarrow> if eq_Body e \<noteq> []
                    then nl @ nl @ ''[equivalent '' @ eq_Framework e @ '' '' @ eq_Citation e @ '']'' @ nl @ eq_Body e
                    else [])"

definition embedText :: "string option \<Rightarrow> string \<Rightarrow> string" where
  "embedText prefix content =
     (case prefix of None \<Rightarrow> content | Some p \<Rightarrow> if p \<noteq> [] then p @ nl @ content else content)"

definition ReapOrphans :: "(nat \<Rightarrow> bool) \<Rightarrow> ('v, 'sp, nat) index_act" where
  "ReapOrphans fault = stmt fault ReapFailed DeleteOrphanChunks"

definition build_one ::
  "(nat \<Rightarrow> bool) \<Rightarrow> doc_row \<Rightarrow> (int \<Rightarrow> control_row option) \<Rightarrow> (int \<Rightarrow> equivalent_body option)
     \<Rightarrow> control_row \<Rightarrow> ('v, 'sp, int) index_act" where
  "build_one fault doc byID equivalents ctrl =
     (case buildContextPrefix doc ctrl byID of
        None \<Rightarrow> fail Diverges
      | Some prefix \<Rightarrow>
          stmt fault (InsertFailed (sc_norm ctrl))
            (InsertChunk (sc_id ctrl) (sc_citation ctrl) (Some prefix)
               (buildContent ctrl (equivalents (sc_id ctrl))) 0))"

definition BuildChunks ::
  "(nat \<Rightarrow> bool) \<Rightarrow> doc_row \<Rightarrow> control_row list \<Rightarrow> (int \<Rightarrow> equivalent_body option)
     \<Rightarrow> ('v, 'sp, nat) index_act" where
  "BuildChunks fault doc ctrls equivalents =
     (if ctrls = [] then ret 0
      else bind (stmt fault DeleteFailed (DeleteChunksForControls (map sc_id ctrls))) (\<lambda>_.
           bind (each (build_one fault doc (by_id ctrls) equivalents) ctrls) (\<lambda>ids.
           ret (length ids))))"

section \<open>Embedding\<close>

record 'v batch_embedder =
  be_Model :: string
  be_Dims :: int
  be_Embed :: "string list \<Rightarrow> string + 'v list"

definition upsert_batch ::
  "(nat \<Rightarrow> bool) \<Rightarrow> string \<Rightarrow> int \<Rightarrow> 'v list \<Rightarrow> (nat \<times> 'sp chunk_row) \<Rightarrow> ('v, 'sp, unit) index_act" where
  "upsert_batch fault model dims vecs jc =
     (case jc of (j, c) \<Rightarrow>
        if j < length vecs
        then stmt fault (UpsertFailed (ck_id c)) (UpsertChunkEmbedding (ck_id c) model dims (vecs ! j))
        else fail (VectorPanic j))"

text \<open>The loop over the batches, from position \<open>i\<close>; the result counts the upserts.\<close>

function embed_batches ::
  "(nat \<Rightarrow> bool) \<Rightarrow> 'v batch_embedder \<Rightarrow> nat \<Rightarrow> nat \<Rightarrow> 'sp chunk_row list \<Rightarrow> ('v, 'sp, nat) index_act" where
  "embed_batches fault e bsize i missing =
     (if missing = [] \<or> bsize = 0 then ret 0
      else
        let batch = take bsize missing in
        (case be_Embed e (map (\<lambda>c. embedText (ck_prefix c) (ck_content c)) batch) of
           Inl _ \<Rightarrow> fail (EmbedBatch i (i + length batch))
         | Inr vecs \<Rightarrow>
             bind (each (upsert_batch fault (be_Model e) (be_Dims e) vecs) (zip [0..<length batch] batch)) (\<lambda>us.
             bind (embed_batches fault e bsize (i + bsize) (drop bsize missing)) (\<lambda>n.
             ret (length us + n)))))"
  by pat_completeness auto
termination
  by (relation "measure (\<lambda>(fault, e, bsize, i, missing). length missing)") (auto simp: length_greater_0_conv)

declare embed_batches.simps [simp del]

definition EmbedMissing ::
  "(nat \<Rightarrow> bool) \<Rightarrow> 'v batch_embedder option \<Rightarrow> int \<Rightarrow> ('v, 'sp, nat) index_act" where
  "EmbedMissing fault emb batch_size =
     (case emb of
        None \<Rightarrow> fail NoEmbedderConfigured
      | Some e \<Rightarrow>
          bind (stmt fault ListMissing (ListChunksMissingEmbedding (be_Model e))) (\<lambda>missing.
          if missing = [] then ret 0
          else embed_batches fault e (if batch_size \<le> 0 then 32 else nat batch_size) 0 missing))"

definition CountMissing :: "(nat \<Rightarrow> bool) \<Rightarrow> string \<Rightarrow> ('v, 'sp, nat) index_act" where
  "CountMissing fault model =
     bind (stmt fault ListMissing (ListChunksMissingEmbedding model)) (\<lambda>missing. ret (length missing))"

text \<open>
  The Kaggle batch: \<open>stream\<close> runs the remote job over the texts and gives the pairs (position, vector) it
  calls back with, or None when it fails; an upsert that fails aborts it.
\<close>

definition EmbedMissingKaggle ::
  "(nat \<Rightarrow> bool) \<Rightarrow> (string list \<Rightarrow> (nat \<times> 'v) list option) \<Rightarrow> string \<Rightarrow> int \<Rightarrow> ('v, 'sp, nat) index_act" where
  "EmbedMissingKaggle fault stream model dims =
     bind (stmt fault ListMissing (ListChunksMissingEmbedding model)) (\<lambda>missing.
     if missing = [] then ret 0
     else (case stream (map (\<lambda>c. embedText (ck_prefix c) (ck_content c)) missing) of
             None \<Rightarrow> fail KaggleFailed
           | Some vs \<Rightarrow>
               bind (each (\<lambda>(i, v). if i < length missing
                        then stmt fault KaggleFailed (UpsertChunkEmbedding (ck_id (missing ! i)) model dims v)
                        else fail (VectorPanic i)) vs) (\<lambda>us. ret (length us))))"

end
