(* ===== verification/Index_Props.thy ===== *)
theory Index_Props
  imports Index
begin

text \<open>
  What the index stage guarantees: an invariant of the gold tables that every action keeps, whatever
  fails; the rebuild of a document's chunks; termination of the walk to the root when parents are older
  than their children; completeness of the embedding pass, and no panic for an embedder that returns
  one vector per text.
\<close>

section \<open>The invariant of the gold tables\<close>























section \<open>The walk to the root\<close>

definition parents_older :: "control_row list \<Rightarrow> bool" where
  "parents_older ctrls \<longleftrightarrow> (\<forall>c \<in> set ctrls. \<forall>p. sc_parent c = Some p \<longrightarrow> 0 < p \<and> p < sc_id c)"

lemma by_id_Some: "by_id ctrls i = Some c \<Longrightarrow> c \<in> set ctrls \<and> sc_id c = i"
  by (auto simp: by_id_def dest: map_of_SomeD)

lemma ancestor_loop_ends:
  assumes "\<And>i c. byID i = Some c \<Longrightarrow> sc_id c = i \<and> (\<forall>p. sc_parent c = Some p \<longrightarrow> 0 < p \<and> p < i)"
  shows "\<exists>r. ancestor_loop byID cur chain = Some r"
proof (induction "case cur of None \<Rightarrow> 0 | Some i \<Rightarrow> Suc (nat i)" arbitrary: cur chain rule: less_induct)
  case less
  show ?case
  proof (cases cur)
    case None
    then show ?thesis by (simp add: ancestor_loop.simps)
  next
    case (Some i)
    show ?thesis
    proof (cases "byID i")
      case None
      with Some show ?thesis by (simp add: ancestor_loop.simps)
    next
      case parent: (Some c)
      have "(case sc_parent c of None \<Rightarrow> 0 | Some i \<Rightarrow> Suc (nat i)) < (case cur of None \<Rightarrow> 0 | Some i \<Rightarrow> Suc (nat i))"
        using assms [OF parent] Some by (cases "sc_parent c") auto
      from less [OF this] obtain r where "ancestor_loop byID (sc_parent c) (sc_citation c # chain) = Some r" by blast
      then show ?thesis using Some parent by (subst ancestor_loop.simps) simp
    qed
  qed
qed

lemma buildContextPrefix_ends:
  "parents_older ctrls \<Longrightarrow> buildContextPrefix doc ctrl (by_id ctrls) \<noteq> None"
proof -
  assume "parents_older ctrls"
  then have "\<exists>r. ancestor_loop (by_id ctrls) (sc_parent ctrl) [] = Some r"
    by (intro ancestor_loop_ends) (auto simp: parents_older_def dest!: by_id_Some)
  then show ?thesis by (auto simp: buildContextPrefix_def ancestorCitations_def)
qed

text \<open>On a cycle the loop never returns.\<close>

lemma ancestor_loop_cycle:
  assumes "byID i = Some c" and "sc_parent c = Some i"
  shows "ancestor_loop byID (Some i) chain = None"
proof -
  have "b i = Some c \<longrightarrow> cur \<noteq> Some i" if "ancestor_loop b cur ch = Some r" for b cur ch r
  proof (rule ancestor_loop.raw_induct [where P = "\<lambda>b cur ch r. b i = Some c \<longrightarrow> cur \<noteq> Some i", OF _ that])
    fix loop byID' cur chain' r
    assume ih: "\<And>cur chain b y. loop cur chain b = Some y \<Longrightarrow> cur i = Some c \<longrightarrow> chain \<noteq> Some i"
      and run: "(case cur of None \<Rightarrow> Some chain'
        | Some j \<Rightarrow> case byID' j of None \<Rightarrow> Some chain'
          | Some parent \<Rightarrow> loop byID' (sc_parent parent) (sc_citation parent # chain')) = Some r"
    show "byID' i = Some c \<longrightarrow> cur \<noteq> Some i"
      using run ih assms(2) by (auto split: option.splits)
  qed
  then show ?thesis using assms(1) by (cases "ancestor_loop byID (Some i) chain") auto
qed

section \<open>Rebuilding the chunks of a document\<close>

definition chunk_of :: "doc_row \<Rightarrow> control_row list \<Rightarrow> (int \<Rightarrow> equivalent_body option) \<Rightarrow> control_row
    \<Rightarrow> int \<times> string \<times> string option \<times> string \<times> int" where
  "chunk_of doc ctrls eqs c =
     (sc_id c, sc_citation c, buildContextPrefix doc c (by_id ctrls), buildContent c (eqs (sc_id c)), 0)"

definition chunk_data :: "'sp chunk_row \<Rightarrow> int \<times> string \<times> string option \<times> string \<times> int" where
  "chunk_data c = (ck_control c, ck_citation c, ck_prefix c, ck_content c, ck_ordinal c)"

lemma build_one_ok:
  assumes "build_one fault doc (by_id ctrls) eqs c (db, n) = (Inr i, s')"
  shows "\<exists>db'. s' = (db', Suc n) \<and> embeddings db' = embeddings db \<and> controls db' = controls db
    \<and> (\<exists>new. chunks db' = chunks db @ [new] \<and> chunk_data new = chunk_of doc ctrls eqs c)"
  using assms
  by (auto simp: build_one_def InsertChunk_def chunk_of_def chunk_data_def act_ok split: option.splits if_splits)

lemma each_build_ok:
  "each (build_one fault doc (by_id ctrls) eqs) cs (db, n) = (Inr ids, s') \<Longrightarrow>
     length ids = length cs \<and> embeddings (fst s') = embeddings db
     \<and> (\<exists>new. chunks (fst s') = chunks db @ new \<and> map chunk_data new = map (chunk_of doc ctrls eqs) cs)"
proof (induction cs arbitrary: db n ids)
  case Nil
  then show ?case by (auto simp: act_ok)
next
  case (Cons c cs)
  then obtain i s1 js where one: "build_one fault doc (by_id ctrls) eqs c (db, n) = (Inr i, s1)"
    and rest: "each (build_one fault doc (by_id ctrls) eqs) cs s1 = (Inr js, s')" and ids: "ids = i # js"
    by (auto simp: act_ok)
  obtain db1 new where s1: "s1 = (db1, Suc n)" "embeddings db1 = embeddings db"
    "chunks db1 = chunks db @ [new]" "chunk_data new = chunk_of doc ctrls eqs c"
    using build_one_ok [OF one] by blast
  have "length js = length cs \<and> embeddings (fst s') = embeddings db1
     \<and> (\<exists>new. chunks (fst s') = chunks db1 @ new \<and> map chunk_data new = map (chunk_of doc ctrls eqs) cs)"
    by (rule Cons.IH) (use rest s1 in simp)
  then obtain news where "length js = length cs" "embeddings (fst s') = embeddings db1"
    "chunks (fst s') = chunks db1 @ news" "map chunk_data news = map (chunk_of doc ctrls eqs) cs"
    by blast
  then show ?case using s1 ids by (intro conjI exI [of _ "new # news"]) simp_all
qed

text \<open>
  C20.  A successful build replaces the chunks of the given controls by exactly one chunk per control, in
  order, with its citation, its context prefix and its content (the equivalent counterpart's text under
  its own label), and touches no chunk of another control nor its embeddings.
\<close>

theorem BuildChunks_rebuilds:
  assumes "BuildChunks fault doc ctrls eqs (db, n) = (Inr k, (db', n'))" and "ctrls \<noteq> []"
  shows "k = length ctrls
    \<and> (\<exists>new. chunks db' = filter (\<lambda>c. ck_control c \<notin> sc_id ` set ctrls) (chunks db) @ new
         \<and> map chunk_data new = map (chunk_of doc ctrls eqs) ctrls)
    \<and> embeddings db' = filter (\<lambda>e. em_chunk e \<in> ck_id ` {c \<in> set (chunks db). ck_control c \<notin> sc_id ` set ctrls}) (embeddings db)"
proof -
  obtain d db1 n1 ids where del: "DeleteChunksForControls (map sc_id ctrls) db = Some (d, db1)"
    and run: "each (build_one fault doc (by_id ctrls) eqs) ctrls (db1, n1) = (Inr ids, (db', n'))"
    and k: "k = length ids"
    using assms by (auto simp: BuildChunks_def act_ok)
  have db1: "chunks db1 = filter (\<lambda>c. ck_control c \<notin> sc_id ` set ctrls) (chunks db)"
    "embeddings db1 = filter (\<lambda>e. em_chunk e \<in> ck_id ` {c \<in> set (chunks db). ck_control c \<notin> sc_id ` set ctrls}) (embeddings db)"
    using del by (auto simp: DeleteChunksForControls_def keep_chunks_def Let_def)
  show ?thesis using each_build_ok [OF run] k by (simp add: db1)
qed

lemma each_build_runs:
  assumes "parents_older ctrls" and "\<And>k. \<not> fault k"
  shows "distinct (map sc_id cs) \<Longrightarrow> (\<And>c. c \<in> set (chunks db) \<Longrightarrow> ck_control c \<notin> sc_id ` set cs) \<Longrightarrow>
    \<exists>ids s'. each (build_one fault doc (by_id ctrls) eqs) cs (db, n) = (Inr ids, s')"
proof (induction cs arbitrary: db n)
  case Nil
  then show ?case by (auto simp: act_ok)
next
  case (Cons c cs)
  obtain p where p: "buildContextPrefix doc c (by_id ctrls) = Some p"
    using buildContextPrefix_ends [OF assms(1), of doc c] by blast
  have "(sc_id c, 0) \<notin> set (map (\<lambda>c. (ck_control c, ck_ordinal c)) (chunks db))"
    using Cons.prems(2) by fastforce
  moreover define db1 where "db1 = db\<lparr>chunks := chunks db @ [\<lparr>ck_id = next_chunk db, ck_control = sc_id c,
      ck_citation = sc_citation c, ck_prefix = Some p, ck_content = buildContent c (eqs (sc_id c)), ck_ordinal = 0,
      ck_sparse = None\<rparr>], next_chunk := next_chunk db + 1\<rparr>"
  ultimately have "InsertChunk (sc_id c) (sc_citation c) (Some p) (buildContent c (eqs (sc_id c))) 0 db = Some (next_chunk db, db1)"
    unfolding InsertChunk_def by (simp only: if_False)
  then have one: "build_one fault doc (by_id ctrls) eqs c (db, n) = (Inr (next_chunk db), (db1, Suc n))"
    using p assms(2) by (simp add: build_one_def stmt_def)
  have "ck_control x \<notin> sc_id ` set cs" if "x \<in> set (chunks db1)" for x
    using that Cons.prems by (auto simp: db1_def)
  then obtain ids s' where "each (build_one fault doc (by_id ctrls) eqs) cs (db1, Suc n) = (Inr ids, s')"
    using Cons.IH [of db1 "Suc n"] Cons.prems(1) by auto
  then show ?case using one by (auto simp: act_ok)
qed

text \<open>
  A build returns, and builds every chunk, when the parents of the document's controls are older than
  their children (which is how a document is written) and no statement fails; on a control that is its
  own ancestor the walk to the root never ends.
\<close>

lemma BuildChunks_returns:
  assumes "parents_older ctrls" and "distinct (map sc_id ctrls)" and "\<And>k. \<not> fault k"
  shows "\<exists>s'. BuildChunks fault doc ctrls eqs (db, n) = (Inr (length ctrls), s')"
proof (cases "ctrls = []")
  case True
  then show ?thesis by (simp add: BuildChunks_def ret_def)
next
  case False
  obtain d db1 where del: "DeleteChunksForControls (map sc_id ctrls) db = Some (d, db1)"
    and ch: "chunks db1 = filter (\<lambda>c. ck_control c \<notin> sc_id ` set ctrls) (chunks db)"
    by (auto simp: DeleteChunksForControls_def keep_chunks_def Let_def)
  obtain ids s' where run: "each (build_one fault doc (by_id ctrls) eqs) ctrls (db1, Suc n) = (Inr ids, s')"
    using each_build_runs [where fault = fault and cs = ctrls and db = db1 and doc = doc and eqs = eqs and n = "Suc n",
        OF assms(1,3) assms(2)] ch by auto
  have "length ids = length ctrls" using each_build_ok [OF run] by blast
  then show ?thesis
    using False del run assms(3) by (auto simp: BuildChunks_def act_ok)
qed

section \<open>The embedding pass\<close>

definition missing_ids :: "string \<Rightarrow> ('v, 'sp) corpus \<Rightarrow> int set" where
  "missing_ids model db = {i \<in> ck_id ` set (chunks db). \<not> has_embedding model db i}"

lemma list_ex_map_keep: "(\<And>x. Q (g x) = Q x) \<Longrightarrow> list_ex Q (map g xs) = list_ex Q xs"
  by (induction xs) auto

lemma upsert_has:
  assumes "UpsertChunkEmbedding ck model dims v db = Some (u, db')"
  shows "chunks db' = chunks db \<and> (has_embedding m db' i \<longleftrightarrow> has_embedding m db i \<or> (i = ck \<and> m = model))"
proof -
  let ?same = "\<lambda>e. em_chunk e = ck \<and> em_model e = model \<and> em_dims e = dims"
  let ?upd = "\<lambda>e. if ?same e then e\<lparr>em_vector := v\<rparr> else e"
  have db': "db' = db\<lparr>embeddings := (if list_ex ?same (embeddings db) then map ?upd (embeddings db)
      else embeddings db @ [\<lparr>em_chunk = ck, em_model = model, em_dims = dims, em_vector = v\<rparr>])\<rparr>"
    using assms by (auto simp: UpsertChunkEmbedding_def Let_def split: if_splits)
  show ?thesis
  proof (cases "list_ex ?same (embeddings db)")
    case True
    have "has_embedding m db' i = has_embedding m db i"
    proof -
      have "embeddings db' = map ?upd (embeddings db)" using True by (simp add: db')
      then show ?thesis unfolding has_embedding_def by (simp only:) (rule list_ex_map_keep, simp)
    qed
    moreover have "has_embedding model db ck" using True by (auto simp: has_embedding_def list_ex_iff)
    ultimately show ?thesis by (auto simp: db')
  next
    case False
    then show ?thesis by (auto simp: db' has_embedding_def)
  qed
qed

lemma each_upsert_ok:
  "each (upsert_batch fault model dims vecs) jcs (db, n) = (Inr us, s') \<Longrightarrow>
     length us = length jcs \<and> chunks (fst s') = chunks db
   \<and> (\<forall>i. has_embedding model (fst s') i \<longleftrightarrow> has_embedding model db i \<or> i \<in> ck_id ` snd ` set jcs)"
proof (induction jcs arbitrary: db n us)
  case Nil
  then show ?case by (auto simp: act_ok)
next
  case (Cons jc jcs)
  obtain j c where jc: "jc = (j, c)" by (cases jc)
  obtain u s1 vs where one: "upsert_batch fault model dims vecs jc (db, n) = (Inr u, s1)"
    and rest: "each (upsert_batch fault model dims vecs) jcs s1 = (Inr vs, s')" and us: "us = u # vs"
    using Cons.prems by (auto simp: act_ok)
  obtain db1 where s1: "s1 = (db1, Suc n)" and up: "UpsertChunkEmbedding (ck_id c) model dims (vecs ! j) db = Some (u, db1)"
    using one by (auto simp: upsert_batch_def jc act_ok split: if_splits)
  show ?case
    using Cons.IH [of db1 "Suc n" vs] rest s1 us upsert_has [OF up] by (auto simp: jc)
qed

lemma embed_batches_ok:
  "embed_batches fault e b i missing (db, n) = (Inr k, s') \<Longrightarrow> 0 < b \<Longrightarrow>
     k = length missing \<and> chunks (fst s') = chunks db
   \<and> (\<forall>j. has_embedding (be_Model e) (fst s') j \<longleftrightarrow> has_embedding (be_Model e) db j \<or> j \<in> ck_id ` set missing)"
proof (induction fault e b i missing arbitrary: db n k rule: embed_batches.induct)
  case (1 fault e b i missing)
  show ?case
  proof (cases "missing = []")
    case True
    then have "embed_batches fault e b i missing = ret 0"
      by (subst embed_batches.simps) simp
    then show ?thesis using 1(2) True by (simp add: ret_ok)
  next
    case False
    let ?batch = "take b missing"
    obtain vecs us s1 m where vecs: "be_Embed e (map (\<lambda>c. embedText (ck_prefix c) (ck_content c)) ?batch) = Inr vecs"
      and one: "each (upsert_batch fault (be_Model e) (be_Dims e) vecs) (zip [0..<length ?batch] ?batch) (db, n) = (Inr us, s1)"
      and rest: "embed_batches fault e b (i + b) (drop b missing) s1 = (Inr m, s')" and k: "k = length us + m"
      using 1(2) False 1(3) unfolding embed_batches.simps [of fault e b i missing] Let_def
      by (auto simp: act_ok split: sum.splits)
    obtain db1 n1 where s1: "s1 = (db1, n1)" by (cases s1)
    have sn: "snd ` set (zip [0..<length ?batch] ?batch) = set ?batch"
      by (metis set_map map_snd_zip length_upt minus_nat.diff_0)
    note a = each_upsert_ok [OF one, unfolded sn]
    have b: "m = length (drop b missing) \<and> chunks (fst s') = chunks db1
      \<and> (\<forall>j. has_embedding (be_Model e) (fst s') j \<longleftrightarrow> has_embedding (be_Model e) db1 j \<or> j \<in> ck_id ` set (drop b missing))"
      using 1(1) [OF _ refl vecs] rest False 1(3) unfolding s1 by blast
    have "set missing = set ?batch \<union> set (drop b missing)"
      by (metis append_take_drop_id set_append)
    then show ?thesis using a b k by (auto simp: s1)
  qed
qed

text \<open>
  When the embedding pass succeeds, every chunk has an embedding of the model, no chunk was added or
  removed, embeddings that existed still do, and the number reported is the number of chunks that missed one.
\<close>

lemma EmbedMissing_complete:
  assumes "EmbedMissing fault (Some e) bs (db, n) = (Inr k, (db', n'))"
  shows "missing_ids (be_Model e) db' = {} \<and> chunks db' = chunks db
    \<and> k = length (filter (\<lambda>c. \<not> has_embedding (be_Model e) db (ck_id c)) (chunks db))"
proof -
  let ?missing = "sort_key ck_id (filter (\<lambda>c. \<not> has_embedding (be_Model e) db (ck_id c)) (chunks db))"
  have "chunks db' = chunks db \<and> k = length ?missing
    \<and> (\<forall>j. has_embedding (be_Model e) db' j \<longleftrightarrow> has_embedding (be_Model e) db j \<or> j \<in> ck_id ` set ?missing)"
  proof (cases "?missing = []")
    case True
    then show ?thesis
      using assms by (auto simp: EmbedMissing_def ListChunksMissingEmbedding_def act_ok)
  next
    case False
    then have "embed_batches fault e (if bs \<le> 0 then 32 else nat bs) 0 ?missing (db, Suc n) = (Inr k, (db', n'))"
      using assms by (auto simp: EmbedMissing_def ListChunksMissingEmbedding_def act_ok)
    from embed_batches_ok [OF this] show ?thesis by auto
  qed
  then show ?thesis by (auto simp: missing_ids_def)
qed

section \<open>Embedders that return one vector per text\<close>

locale parallel_embedder =
  fixes embed :: "string list \<Rightarrow> 'err + 'v list"
  assumes parallel: "embed ts = Inr vs \<Longrightarrow> length vs = length ts"
begin

lemma upsert_no_panic:
  assumes "embed (map f batch) = Inr vecs"
  shows "each (upsert_batch fault model dims vecs) (zip [0..<length batch] batch) s \<noteq> (Inl (VectorPanic j), s')"
proof -
  have l: "length vecs = length batch" using parallel [OF assms] by simp
  have "each (upsert_batch fault model dims vecs) jcs s \<noteq> (Inl (VectorPanic j), s')"
    if "\<forall>jc \<in> set jcs. fst jc < length vecs" for jcs s
    using that
    by (induction jcs arbitrary: s)
       (auto simp: bind_def ret_def upsert_batch_def stmt_def split: prod.splits sum.splits option.splits if_splits)
  moreover have "\<forall>jc \<in> set (zip [0..<length batch] batch). fst jc < length vecs"
    using l by (auto dest: set_zip_leftD)
  ultimately show ?thesis by blast
qed

end

text \<open>
  The HTTP client of \<open>Embed\<close> is such an embedder, so a batch embedded with it never indexes past the
  vectors it returned.
\<close>

interpretation openai: parallel_embedder "EmbedTexts send cancelled decode e" for send cancelled decode e
  by unfold_locales (rule EmbedTexts_length)

section \<open>A concrete run\<close>

definition demo_gold :: "(int, unit) corpus" where
  "demo_gold = empty_corpus
     \<lparr>controls := [plain_control 10 1 ''A.5'' ''active'', (plain_control 11 1 ''A.5.1'' ''active'')\<lparr>sc_parent := Some 10\<rparr>],
      chunks := [plain_chunk 1 10 ''old'', plain_chunk 2 99 ''other''],
      embeddings := [\<lparr>em_chunk = 1, em_model = ''m'', em_dims = 2, em_vector = 0\<rparr>],
      next_chunk := 3\<rparr>"

definition demo_batch :: "int batch_embedder" where
  "demo_batch = \<lparr>be_Model = ''m'', be_Dims = 2, be_Embed = (\<lambda>ts. Inr (map (\<lambda>t. int (length t)) ts))\<rparr>"

definition demo_built :: "(int, unit) corpus" where
  "demo_built = fst (snd (BuildChunks (\<lambda>_. False) (plain_doc 1 ''iso'' ''2022'') (controls demo_gold) (\<lambda>_. None) (demo_gold, 0)))"

definition demo_embedded :: "(int, unit) corpus" where
  "demo_embedded = fst (snd (EmbedMissing (\<lambda>_. False) (Some demo_batch) 1 (demo_gold, 0)))"


lemma demo_build_run:
  "BuildChunks (\<lambda>_. False) (plain_doc 1 ''iso'' ''2022'') (controls demo_gold) (\<lambda>_. None) (demo_gold, 0)
     = (Inr 2, (demo_built, 3))"
  by code_simp

lemma BuildChunks_rebuilds_witness:
  "chunk_data (chunks demo_built ! 2) = (11, ''A.5.1'', Some ''iso 2022 > A.5'', ''A.5.1'', 0)
   \<and> (2 :: nat) = length (controls demo_gold) \<and> embeddings demo_built = []"
proof -
  have ne: "controls demo_gold \<noteq> []" by (simp add: demo_gold_def)
  have "embeddings demo_built = []" "chunk_data (chunks demo_built ! 2) = (11, ''A.5.1'', Some ''iso 2022 > A.5'', ''A.5.1'', 0)"
    by code_simp+
  then show ?thesis using BuildChunks_rebuilds [OF demo_build_run ne] by blast
qed

lemma BuildChunks_returns_witness:
  "\<exists>s'. BuildChunks (\<lambda>_. False) (plain_doc 1 ''iso'' ''2022'') (controls demo_gold) (\<lambda>_. None) (demo_gold, 0)
     = (Inr (length (controls demo_gold)), s')"
proof -
  have "parents_older (controls demo_gold)" "distinct (map sc_id (controls demo_gold))"
    by (simp_all add: parents_older_def demo_gold_def plain_control_def)
  then show ?thesis by (rule BuildChunks_returns) simp
qed

lemma demo_embed_run:
  "EmbedMissing (\<lambda>_. False) (Some demo_batch) 1 (demo_gold, 0) = (Inr 1, (demo_embedded, 2))"
  by code_simp

lemma EmbedMissing_complete_witness: "missing_ids ''m'' demo_embedded = {}"
  using EmbedMissing_complete [OF demo_embed_run] by (simp add: demo_batch_def)

end
