(* ===== verification/Mcp.thy ===== *)
theory Mcp
  imports Retrieve
begin

text \<open>
  The MCP evidence surface (\<open>pkg/mcp/core.go\<close>, \<open>search.go\<close>, \<open>document.go\<close>): the projection, the search
  tool over the retriever and the document tool over the corpus tables.

  A gap carries its kind, whether it blocks the answer and the names its message lists; the wording of
  messages is left out.  \<open>fails\<close> tells which statements fail; \<open>col\<close> is the sort key of the collation.
\<close>

section \<open>The core (core.go)\<close>

datatype projection = ProjectionFull | ProjectionReduced

definition normalizeLimit :: "int \<Rightarrow> nat \<Rightarrow> nat \<Rightarrow> nat" where
  "normalizeLimit got d m = (if got \<le> 0 then d else if int m < got then m else nat got)"

definition citeString :: "string \<Rightarrow> string \<Rightarrow> string \<Rightarrow> string" where
  "citeString citation frameworkCode versionLabel =
     (let c = trim_space citation; fw = trim_space frameworkCode; vl = trim_space versionLabel
      in join '', '' ((if c \<noteq> [] then [c] else [])
                     @ (if fw \<noteq> [] then [if vl \<noteq> [] then fw @ '' '' @ vl else fw] else [])))"

definition versionStatus :: "bool \<Rightarrow> string" where
  "versionStatus isCurrent = (if isCurrent then ''current'' else ''superseded'')"

record search_gap =
  sg_Kind :: string
  sg_Names :: "string list"
  sg_Blocks :: bool

record search_hit =
  sh_FrameworkCode :: string
  sh_VersionLabel :: string
  sh_Citation :: string
  sh_CitationNorm :: string
  sh_ContextPrefix :: string
  sh_Content :: string
  sh_Score :: rat
  sh_IsCurrent :: bool
  sh_VersionStatus :: string
  sh_Cite :: string
  sh_SourceURL :: string

definition projectHit :: "projection \<Rightarrow> search_hit \<Rightarrow> search_hit" where
  "projectHit p h = (if p = ProjectionReduced then h\<lparr>sh_Content := [], sh_ContextPrefix := []\<rparr> else h)"

section \<open>The search tool (search.go)\<close>

record search_input =
  si_Query :: string
  si_Framework :: string
  si_VersionLabel :: string
  si_IncludeWithdrawn :: bool
  si_TopK :: int
  si_Mode :: string
  si_Detail :: string

record search_output =
  so_Hits :: "search_hit list"
  so_Gaps :: "search_gap list"
  so_Abstain :: bool

datatype search_tool_err =
    QueryRequired | NoSearcher | UnknownDetail string | InvalidMode string | SearchFailed search_err

text \<open>
  The corpus as the search tool uses it: publisher pages of documents, and the versions of each framework;
  None when the lookup fails.
\<close>

record corpus_reader =
  cr_urls :: "int list \<Rightarrow> (int \<Rightarrow> string option) option"
  cr_versions :: "(string \<times> string list) list option"

record core =
  co_searcher :: "(string \<Rightarrow> search_opts \<Rightarrow> search_err + evidence) option"
  co_corpus :: "corpus_reader option"
  co_projection :: projection

definition validateDetail :: "string \<Rightarrow> bool" where
  "validateDetail detail \<longleftrightarrow> detail = [] \<or> detail \<in> {''standard'', ''compact''}"

definition hitSourceURLs :: "core \<Rightarrow> hit list \<Rightarrow> int \<Rightarrow> string option" where
  "hitSourceURLs co hits =
     (case co_corpus co of
        None \<Rightarrow> (\<lambda>_. None)
      | Some r \<Rightarrow>
          let ids = dedup_on (\<lambda>i. i) {} (filter (\<lambda>i. i \<noteq> 0) (map DocumentID hits)) in
          if hits = [] \<or> ids = [] then (\<lambda>_. None)
          else (case cr_urls r ids of None \<Rightarrow> (\<lambda>_. None) | Some urls \<Rightarrow> urls))"

definition str_key :: "string \<Rightarrow> nat list" where
  "str_key s = map of_char s"

definition filterGaps :: "core \<Rightarrow> string \<Rightarrow> string \<Rightarrow> search_gap list" where
  "filterGaps co framework versionLabel =
     (case co_corpus co of
        None \<Rightarrow> []
      | Some r \<Rightarrow>
          if framework = [] then []
          else (case cr_versions r of
             None \<Rightarrow> []
           | Some fv \<Rightarrow>
               (case map_of fv framework of
                  None \<Rightarrow> [\<lparr>sg_Kind = ''unknown_framework'', sg_Names = sort_key str_key (map fst fv), sg_Blocks = True\<rparr>]
                | Some vs \<Rightarrow>
                    if versionLabel \<noteq> [] \<and> versionLabel \<notin> set vs
                    then [\<lparr>sg_Kind = ''version_not_found'', sg_Names = vs, sg_Blocks = True\<rparr>] else [])))"

definition search_hit_of :: "core \<Rightarrow> string \<Rightarrow> (int \<Rightarrow> string option) \<Rightarrow> hit \<Rightarrow> search_hit" where
  "search_hit_of co detail urls h =
     (let sh = \<lparr>sh_FrameworkCode = FrameworkCode h, sh_VersionLabel = VersionLabel h, sh_Citation = Citation h,
                sh_CitationNorm = CitationNorm h, sh_ContextPrefix = ContextPrefix h, sh_Content = Content h,
                sh_Score = hScore h, sh_IsCurrent = IsCurrent h, sh_VersionStatus = versionStatus (IsCurrent h),
                sh_Cite = citeString (Citation h) (FrameworkCode h) (VersionLabel h),
                sh_SourceURL = (case urls (DocumentID h) of None \<Rightarrow> [] | Some u \<Rightarrow> u)\<rparr>;
          hit = projectHit (co_projection co) sh
      in if detail = ''compact'' then hit\<lparr>sh_Content := [], sh_ContextPrefix := []\<rparr> else hit)"

definition search_gaps :: "core \<Rightarrow> search_input \<Rightarrow> evidence \<Rightarrow> search_gap list" where
  "search_gaps co inp ev =
     (let fg = filterGaps co (si_Framework inp) (si_VersionLabel inp)
      in (if ev_Hits ev = [] then [\<lparr>sg_Kind = ''no_evidence'', sg_Names = [], sg_Blocks = True\<rparr>] else [])
         @ (if ev_Hits ev \<noteq> [] then map (\<lambda>g. g\<lparr>sg_Blocks := False\<rparr>) fg else fg)
         @ map (\<lambda>g. \<lparr>sg_Kind = g_Kind g, sg_Names = [], sg_Blocks = g_BlocksAnswer g\<rparr>) (ev_Gaps ev))"

definition tool_opts :: "search_input \<Rightarrow> search_opts" where
  "tool_opts inp =
     \<lparr>so_Mode = si_Mode inp, so_TopK = si_TopK inp, so_VectorK = 0, so_BM25K = 0, so_RRFK = 0, so_DocCap = 0,
      so_LexWeight = 0, so_Framework = si_Framework inp, so_VersionLabel = si_VersionLabel inp,
      so_CurrentOnly = None, so_IncludeWithdrawn = si_IncludeWithdrawn inp\<rparr>"

definition SearchTool :: "core \<Rightarrow> search_input \<Rightarrow> search_tool_err + search_output" where
  "SearchTool co inp =
     (let query = trim_space (si_Query inp) in
      if query = [] then Inl QueryRequired
      else case co_searcher co of
        None \<Rightarrow> Inl NoSearcher
      | Some searcher \<Rightarrow>
          if \<not> validateDetail (si_Detail inp) then Inl (UnknownDetail (si_Detail inp))
          else if si_Mode inp \<noteq> [] \<and> ParseSearchMode (si_Mode inp) = None then Inl (InvalidMode (si_Mode inp))
          else (case searcher query (tool_opts inp) of
             Inl e \<Rightarrow> Inl (SearchFailed e)
           | Inr ev \<Rightarrow> Inr
               \<lparr>so_Hits = map (search_hit_of co (si_Detail inp) (hitSourceURLs co (ev_Hits ev))) (ev_Hits ev),
                so_Gaps = search_gaps co inp ev,
                so_Abstain = (ev_Abstain ev \<or> ev_Hits ev = [])\<rparr>))"

section \<open>The document tool: types (document.go)\<close>

record amendment_ref =
  ar_Citation :: string
  ar_Action :: string
  ar_Qualifier :: string
  ar_DocKey :: string
  ar_Title :: string
  ar_Body :: string

record control_detail =
  cd_ControlID :: int
  cd_DocumentID :: int
  cd_FrameworkCode :: string
  cd_VersionLabel :: string
  cd_Citation :: string
  cd_CitationNorm :: string
  cd_Kind :: string
  cd_Status :: string
  cd_Title :: string
  cd_TitleOriginal :: string
  cd_Body :: string
  cd_IsCurrent :: bool
  cd_VersionStatus :: string
  cd_ServeGate :: string
  cd_SourceURL :: string

record control_brief =
  cb_ControlID :: int
  cb_Citation :: string
  cb_CitationNorm :: string
  cb_Kind :: string
  cb_Status :: string
  cb_Title :: string

datatype direction = Outbound | Inbound

record mapping_edge =
  me_Direction :: direction
  me_FrameworkCode :: string
  me_VersionLabel :: string
  me_CitationNorm :: string
  me_Resolved :: bool
  me_ResolvedTitle :: string
  me_Relationship :: string
  me_MappingSource :: string
  me_Provenance :: string

record lineage_row =
  vl_Kind :: string
  vl_FrameworkCode :: string
  vl_VersionLabel :: string
  vl_RelationType :: string
  vl_IsCurrent :: bool
  vl_Note :: string

record document_chunk =
  dc_ChunkID :: int
  dc_Citation :: string
  dc_ContextPrefix :: string
  dc_Content :: string
  dc_Ordinal :: int

record document_input =
  di_Citation :: string
  di_FrameworkCode :: string
  di_VersionLabel :: string
  di_Include :: "string list"
  di_Limit :: int
  di_Offset :: int

record document_output =
  do_Control :: "control_detail option"
  do_AmendedBy :: "amendment_ref list"
  do_Parent :: "control_brief option"
  do_Children :: "control_brief list"
  do_Mappings :: "mapping_edge list"
  do_Inbound :: "mapping_edge list"
  do_Lineage :: "lineage_row list"
  do_Chunks :: "document_chunk list"
  do_Gaps :: "search_gap list"
  do_Limit :: nat
  do_Offset :: nat
  do_NextOffset :: nat

definition ProjectDocument :: "projection \<Rightarrow> document_output \<Rightarrow> document_output" where
  "ProjectDocument p out =
     (if p = ProjectionReduced
      then out\<lparr>do_Control := map_option (\<lambda>c. c\<lparr>cd_Body := [], cd_TitleOriginal := []\<rparr>) (do_Control out),
               do_Chunks := map (\<lambda>c. c\<lparr>dc_Content := [], dc_ContextPrefix := []\<rparr>) (do_Chunks out),
               do_AmendedBy := map (\<lambda>a. a\<lparr>ar_Body := []\<rparr>) (do_AmendedBy out)\<rparr>
      else out)"

definition defaultDocChunkLimit :: nat where "defaultDocChunkLimit = 20"
definition maxDocChunkLimit :: nat where "maxDocChunkLimit = 50"

definition documentSections :: "string list" where
  "documentSections = [''chunks'', ''mappings'', ''lineage'', ''children'']"

definition validateIncludes :: "string list \<Rightarrow> string option" where
  "validateIncludes include = List.find (\<lambda>n. to_lower (trim_space n) \<notin> set documentSections) include"

definition documentIncludes :: "string list \<Rightarrow> string set" where
  "documentIncludes include =
     (if include = [] then set documentSections
      else {n \<in> set (map (\<lambda>n. to_lower (trim_space n)) include). n \<in> set documentSections})"

section \<open>Citation forms\<close>

definition is_digit_c :: "char \<Rightarrow> bool" where
  "is_digit_c c \<longleftrightarrow> 48 \<le> (of_char c :: nat) \<and> (of_char c :: nat) \<le> 57"

definition is_letter_c :: "char \<Rightarrow> bool" where
  "is_letter_c c \<longleftrightarrow> (65 \<le> (of_char c :: nat) \<and> (of_char c :: nat) \<le> 90)
                  \<or> (97 \<le> (of_char c :: nat) \<and> (of_char c :: nat) \<le> 122)"

definition is_pos_digit :: "char \<Rightarrow> bool" where
  "is_pos_digit c \<longleftrightarrow> 49 \<le> (of_char c :: nat) \<and> (of_char c :: nat) \<le> 57"

text \<open>
  \<open>reDotEnhancement\<close>: two or three letters, a dash, digits, a dot, digits.  The classes are disjoint from
  the separators, so the greedy scan is the anchored match; the result is the pair of groups.
\<close>

definition dot_enhancement :: "string \<Rightarrow> (string \<times> string) option" where
  "dot_enhancement s =
     (let fam = takeWhile is_letter_c s; r = dropWhile is_letter_c s in
      if length fam \<in> {2, 3} \<and> r \<noteq> [] \<and> hd r = CHR ''-'' then
        let num = takeWhile is_digit_c (tl r); r2 = dropWhile is_digit_c (tl r) in
        if num \<noteq> [] \<and> r2 \<noteq> [] \<and> hd r2 = CHR ''.'' \<and> tl r2 \<noteq> [] \<and> list_all is_digit_c (tl r2)
        then Some (fam @ ''-'' @ num, tl r2) else None
      else None)"

definition normalizeCitationInput :: "string \<Rightarrow> string" where
  "normalizeCitationInput s =
     (let t = concat (str_fields s) in
      case dot_enhancement t of None \<Rightarrow> t | Some (a, b) \<Rightarrow> a @ ''('' @ b @ '')'')"

fun zeroPadCitation :: "string \<Rightarrow> string" where
  "zeroPadCitation [] = []"
| "zeroPadCitation (b # rest) =
     (if b = CHR ''-'' \<and> rest \<noteq> [] \<and> is_pos_digit (hd rest) \<and> (tl rest = [] \<or> \<not> is_digit_c (hd (tl rest)))
      then CHR ''-'' # CHR ''0'' # zeroPadCitation rest
      else if b = CHR ''('' \<and> rest \<noteq> [] \<and> is_pos_digit (hd rest) \<and> tl rest \<noteq> [] \<and> hd (tl rest) = CHR '')''
      then CHR ''('' # CHR ''0'' # zeroPadCitation rest
      else b # zeroPadCitation rest)"

section \<open>The document tool: statements\<close>

datatype doc_stmt =
    QFind | QCitationVersions | QCitationFrameworks | QAmendments | QParent | QChildren | QOutbound | QInbound
  | QRelations | QVersionList | QChunks

type_synonym faults = "doc_stmt \<Rightarrow> bool"
type_synonym collation = "string \<Rightarrow> int list"

definition source_url :: "('v, 'sp) corpus \<Rightarrow> doc_row \<Rightarrow> string" where
  "source_url db d =
     (case List.find (\<lambda>f. sf_sha f = d_sha d \<and> sf_url f \<noteq> []) (source_files db) of None \<Rightarrow> [] | Some f \<Rightarrow> sf_url f)"

type_synonym control_join = "control_row \<times> doc_row \<times> version_row"

definition control_joins :: "('v, 'sp) corpus \<Rightarrow> control_join list" where
  "control_joins db =
     [(sc, d, fv). sc \<leftarrow> controls db,
        d \<leftarrow> filter (\<lambda>d. d_id d = sc_document sc) (documents db),
        fv \<leftarrow> filter (\<lambda>fv. fv_framework fv = d_framework d \<and> fv_version fv = d_version d) (versions db)]"

definition cites :: "string \<Rightarrow> control_row \<Rightarrow> bool" where
  "cites citation sc \<longleftrightarrow> sc_norm sc = to_upper citation \<or> sc_norm sc = to_upper (zeroPadCitation citation)"

definition find_cond :: "string \<Rightarrow> string \<Rightarrow> string \<Rightarrow> control_join \<Rightarrow> bool" where
  "find_cond citation frameworkCode versionLabel r =
     (case r of (sc, d, fv) \<Rightarrow>
        cites citation sc
      \<and> (frameworkCode \<noteq> [] \<longrightarrow> d_framework d = frameworkCode)
      \<and> (if versionLabel \<noteq> [] then d_version d = versionLabel else fv_is_current fv))"

type_synonym find_order = "nat \<times> nat \<times> int list \<times> int list \<times> int"

definition find_key :: "collation \<Rightarrow> control_join \<Rightarrow> find_order" where
  "find_key col r =
     (case r of (sc, d, fv) \<Rightarrow>
        (if fv_is_current fv then 0 else 1, if d_role d = ''main'' then 0 else 1, col (d_framework d),
         col (sc_norm sc), sc_id sc))"

definition detail_of :: "('v, 'sp) corpus \<Rightarrow> control_join \<Rightarrow> control_detail" where
  "detail_of db r =
     (case r of (sc, d, fv) \<Rightarrow>
        \<lparr>cd_ControlID = sc_id sc, cd_DocumentID = sc_document sc, cd_FrameworkCode = d_framework d,
         cd_VersionLabel = d_version d, cd_Citation = sc_citation sc, cd_CitationNorm = sc_norm sc,
         cd_Kind = sc_kind sc, cd_Status = sc_status sc, cd_Title = sc_title sc,
         cd_TitleOriginal = (case sc_title_original sc of None \<Rightarrow> [] | Some t \<Rightarrow> t),
         cd_Body = (case sc_body sc of None \<Rightarrow> [] | Some b \<Rightarrow> b),
         cd_IsCurrent = fv_is_current fv, cd_VersionStatus = versionStatus (fv_is_current fv),
         cd_ServeGate = d_gate d, cd_SourceURL = source_url db d\<rparr>)"

text \<open>None when the statement fails, Some None when there is no row.\<close>

definition findControl ::
  "faults \<Rightarrow> collation \<Rightarrow> ('v, 'sp) corpus \<Rightarrow> string \<Rightarrow> string \<Rightarrow> string \<Rightarrow> control_detail option option" where
  "findControl fails col db citation frameworkCode versionLabel =
     (if fails QFind then None
      else Some (case sort_key (find_key col)
                   (filter (find_cond citation frameworkCode versionLabel) (control_joins db)) of
           [] \<Rightarrow> None
         | r # _ \<Rightarrow> Some (detail_of db r)))"

definition citationVersions ::
  "faults \<Rightarrow> collation \<Rightarrow> ('v, 'sp) corpus \<Rightarrow> string \<Rightarrow> string \<Rightarrow> string list option" where
  "citationVersions fails col db citation frameworkCode =
     (if fails QCitationVersions then None
      else Some (take 10 (sort_key col (remdups
        [d_framework d @ '' '' @ d_version d. sc \<leftarrow> filter (cites citation) (controls db),
           d \<leftarrow> filter (\<lambda>d. d_id d = sc_document sc \<and> (frameworkCode \<noteq> [] \<longrightarrow> d_framework d = frameworkCode)) (documents db)]))))"

definition citationFrameworks ::
  "faults \<Rightarrow> collation \<Rightarrow> ('v, 'sp) corpus \<Rightarrow> string \<Rightarrow> string \<Rightarrow> string list option" where
  "citationFrameworks fails col db citation chosenFramework =
     (if fails QCitationFrameworks then None
      else Some (take 10 (sort_key col (remdups
        (map (\<lambda>(sc, d, fv). d_framework d)
          (filter (\<lambda>(sc, d, fv). cites citation sc \<and> fv_is_current fv \<and> d_framework d \<noteq> chosenFramework)
            (control_joins db)))))))"

definition controlAmendments ::
  "faults \<Rightarrow> collation \<Rightarrow> ('v, 'sp) corpus \<Rightarrow> control_detail \<Rightarrow> amendment_ref list option" where
  "controlAmendments fails col db ctrl =
     (if fails QAmendments then None
      else Some (map (\<lambda>(sc, d).
            \<lparr>ar_Citation = sc_citation sc, ar_Action = (case sc_action sc of None \<Rightarrow> [] | Some a \<Rightarrow> a),
             ar_Qualifier = d_qualifier d, ar_DocKey = d_key d, ar_Title = sc_title sc,
             ar_Body = (case sc_body sc of None \<Rightarrow> [] | Some b \<Rightarrow> b)\<rparr>)
        (sort_key (\<lambda>(sc, d). (col (d_qualifier d), col (sc_citation sc)))
          [(sc, d). sc \<leftarrow> filter (\<lambda>sc. sc_amends sc = Some (cd_CitationNorm ctrl)) (controls db),
             d \<leftarrow> filter (\<lambda>d. d_id d = sc_document sc \<and> d_framework d = cd_FrameworkCode ctrl
                           \<and> d_version d = cd_VersionLabel ctrl \<and> d_role d = ''amendment'') (documents db)])))"

definition brief_of :: "control_row \<Rightarrow> control_brief" where
  "brief_of sc =
     \<lparr>cb_ControlID = sc_id sc, cb_Citation = sc_citation sc, cb_CitationNorm = sc_norm sc,
      cb_Kind = sc_kind sc, cb_Status = sc_status sc, cb_Title = sc_title sc\<rparr>"

definition controlParent :: "faults \<Rightarrow> ('v, 'sp) corpus \<Rightarrow> int \<Rightarrow> control_brief option option" where
  "controlParent fails db i =
     (if fails QParent then None
      else Some (case [p. sc \<leftarrow> filter (\<lambda>sc. sc_id sc = i) (controls db),
                          p \<leftarrow> filter (\<lambda>p. sc_parent sc = Some (sc_id p)) (controls db)] of
           [] \<Rightarrow> None | p # _ \<Rightarrow> Some (brief_of p)))"

definition controlChildren :: "faults \<Rightarrow> ('v, 'sp) corpus \<Rightarrow> int \<Rightarrow> control_brief list option" where
  "controlChildren fails db i =
     (if fails QChildren then None
      else Some (map brief_of (take 500 (sort_key (\<lambda>sc. (sc_ordinal sc, sc_id sc))
        (filter (\<lambda>sc. sc_parent sc = Some i) (controls db))))))"

definition title_of :: "('v, 'sp) corpus \<Rightarrow> int option \<Rightarrow> string" where
  "title_of db target =
     (case target of
        None \<Rightarrow> []
      | Some i \<Rightarrow> (case List.find (\<lambda>sc. sc_id sc = i) (controls db) of None \<Rightarrow> [] | Some sc \<Rightarrow> sc_title sc))"

definition outboundMappings :: "faults \<Rightarrow> collation \<Rightarrow> ('v, 'sp) corpus \<Rightarrow> int \<Rightarrow> mapping_edge list option" where
  "outboundMappings fails col db i =
     (if fails QOutbound then None
      else Some (map (\<lambda>m.
            \<lparr>me_Direction = Outbound, me_FrameworkCode = cm_to_framework m,
             me_VersionLabel = (case cm_to_version m of None \<Rightarrow> [] | Some v \<Rightarrow> v), me_CitationNorm = cm_to_norm m,
             me_Resolved = (cm_to_control m \<noteq> None), me_ResolvedTitle = title_of db (cm_to_control m),
             me_Relationship = cm_relationship m, me_MappingSource = cm_source m, me_Provenance = cm_provenance m\<rparr>)
        (sort_key (\<lambda>m. (col (cm_to_framework m), col (cm_to_norm m)))
          (filter (\<lambda>m. cm_from m = i) (mappings db)))))"

definition inboundMappings :: "faults \<Rightarrow> collation \<Rightarrow> ('v, 'sp) corpus \<Rightarrow> int \<Rightarrow> mapping_edge list option" where
  "inboundMappings fails col db i =
     (if fails QInbound then None
      else Some (map (\<lambda>(m, sc, d).
            \<lparr>me_Direction = Inbound, me_FrameworkCode = d_framework d, me_VersionLabel = d_version d,
             me_CitationNorm = sc_norm sc, me_Resolved = True, me_ResolvedTitle = sc_title sc,
             me_Relationship = cm_relationship m, me_MappingSource = cm_source m, me_Provenance = cm_provenance m\<rparr>)
        (sort_key (\<lambda>(m, sc, d). (col (d_framework d), col (sc_norm sc)))
          [(m, sc, d). m \<leftarrow> filter (\<lambda>m. cm_to_control m = Some i) (mappings db),
             sc \<leftarrow> filter (\<lambda>sc. sc_id sc = cm_from m) (controls db),
             d \<leftarrow> filter (\<lambda>d. d_id d = sc_document sc) (documents db)])))"

definition relation_rows :: "('v, 'sp) corpus \<Rightarrow> string \<Rightarrow> string \<Rightarrow> relation_row \<Rightarrow> lineage_row list" where
  "relation_rows db fw v r =
     (let isfrom = (vr_from_framework r = fw \<and> vr_from_version r = v);
          ofw = (if isfrom then vr_to_framework r else vr_from_framework r);
          ov = (if isfrom then vr_to_version r else vr_from_version r);
          hits = filter (\<lambda>x. fv_framework x = ofw \<and> fv_version x = ov) (versions db);
          row = (\<lambda>cur. \<lparr>vl_Kind = (if isfrom then ''from'' else ''to''), vl_FrameworkCode = ofw, vl_VersionLabel = ov,
                        vl_RelationType = vr_type r, vl_IsCurrent = cur, vl_Note = vr_note r\<rparr>)
      in if hits = [] then [row False] else map (\<lambda>x. row (fv_is_current x)) hits)"

definition versionLineage :: "faults \<Rightarrow> collation \<Rightarrow> ('v, 'sp) corpus \<Rightarrow> string \<Rightarrow> string \<Rightarrow> lineage_row list option" where
  "versionLineage fails col db fw v =
     (if fails QRelations \<or> fails QVersionList then None
      else Some
        (concat (map (relation_rows db fw v)
           (sort_key (\<lambda>r. (col (vr_type r), col (vr_from_version r)))
             (filter (\<lambda>r. (vr_from_framework r = fw \<and> vr_from_version r = v)
                        \<or> (vr_to_framework r = fw \<and> vr_to_version r = v)) (relations db))))
         @ map (\<lambda>x. \<lparr>vl_Kind = ''version'', vl_FrameworkCode = fv_framework x, vl_VersionLabel = fv_version x,
                     vl_RelationType = [], vl_IsCurrent = fv_is_current x, vl_Note = fv_note x\<rparr>)
             (sort_key (\<lambda>x. col (fv_version x)) (filter (\<lambda>x. fv_framework x = fw) (versions db)))))"

definition controlChunks :: "faults \<Rightarrow> ('v, 'sp) corpus \<Rightarrow> int \<Rightarrow> nat \<Rightarrow> nat \<Rightarrow> document_chunk list option" where
  "controlChunks fails db i limit offset =
     (if fails QChunks then None
      else Some (map (\<lambda>c.
            \<lparr>dc_ChunkID = ck_id c, dc_Citation = ck_citation c,
             dc_ContextPrefix = (case ck_prefix c of None \<Rightarrow> [] | Some p \<Rightarrow> p), dc_Content = ck_content c,
             dc_Ordinal = ck_ordinal c\<rparr>)
        (take (limit + 1) (drop offset (sort_key (\<lambda>c. (ck_ordinal c, ck_id c))
          (filter (\<lambda>c. ck_control c = i) (chunks db)))))))"

section \<open>The document tool: the lookup\<close>

definition blank_output :: "nat \<Rightarrow> nat \<Rightarrow> document_output" where
  "blank_output limit offset =
     \<lparr>do_Control = None, do_AmendedBy = [], do_Parent = None, do_Children = [], do_Mappings = [],
      do_Inbound = [], do_Lineage = [], do_Chunks = [], do_Gaps = [], do_Limit = limit, do_Offset = offset,
      do_NextOffset = 0\<rparr>"

definition not_found_gaps ::
  "faults \<Rightarrow> collation \<Rightarrow> ('v, 'sp) corpus \<Rightarrow> string \<Rightarrow> document_input \<Rightarrow> search_gap list" where
  "not_found_gaps fails col db citation inp =
     [\<lparr>sg_Kind = ''no_evidence'', sg_Names = [citation], sg_Blocks = True\<rparr>]
     @ (if di_VersionLabel inp \<noteq> [] then
          (case citationVersions fails col db citation (di_FrameworkCode inp) of
             Some vs \<Rightarrow> if vs \<noteq> [] then [\<lparr>sg_Kind = ''version_not_found'', sg_Names = vs, sg_Blocks = True\<rparr>] else []
           | None \<Rightarrow> [])
        else [])
     @ (if di_FrameworkCode inp \<noteq> [] then
          (case citationFrameworks fails col db citation (di_FrameworkCode inp) of
             Some fs \<Rightarrow> if fs \<noteq> [] then [\<lparr>sg_Kind = ''found_elsewhere'', sg_Names = fs, sg_Blocks = False\<rparr>] else []
           | None \<Rightarrow> [])
        else [])"

definition ambiguity_gaps ::
  "faults \<Rightarrow> collation \<Rightarrow> ('v, 'sp) corpus \<Rightarrow> string \<Rightarrow> document_input \<Rightarrow> control_detail \<Rightarrow> search_gap list" where
  "ambiguity_gaps fails col db citation inp ctrl =
     (if di_FrameworkCode inp = [] then
        (case citationFrameworks fails col db citation (cd_FrameworkCode ctrl) of
           Some fs \<Rightarrow> if fs \<noteq> [] then [\<lparr>sg_Kind = ''ambiguous_citation'', sg_Names = fs, sg_Blocks = False\<rparr>] else []
         | None \<Rightarrow> [])
      else [])"

text \<open>A section that was not asked for is empty; None when its statement fails.\<close>

definition section_of :: "bool \<Rightarrow> 'a list option \<Rightarrow> 'a list option" where
  "section_of wanted rows = (if wanted then rows else Some [])"

definition chunk_page :: "nat \<Rightarrow> nat \<Rightarrow> document_chunk list \<Rightarrow> document_chunk list \<times> nat" where
  "chunk_page limit offset rows = (if limit < length rows then (take limit rows, offset + limit) else (rows, 0))"

definition found_output ::
  "faults \<Rightarrow> collation \<Rightarrow> ('v, 'sp) corpus \<Rightarrow> string \<Rightarrow> document_input \<Rightarrow> nat \<Rightarrow> nat \<Rightarrow> control_detail
     \<Rightarrow> document_output option" where
  "found_output fails col db citation inp limit offset ctrl =
     (let inc = documentIncludes (di_Include inp); i = cd_ControlID ctrl in
      case controlAmendments fails col db ctrl of None \<Rightarrow> None | Some am \<Rightarrow>
     (case controlParent fails db i of None \<Rightarrow> None | Some par \<Rightarrow>
     (case section_of (''children'' \<in> inc) (controlChildren fails db i) of None \<Rightarrow> None | Some ch \<Rightarrow>
     (case section_of (''mappings'' \<in> inc) (outboundMappings fails col db i) of None \<Rightarrow> None | Some outb \<Rightarrow>
     (case section_of (''mappings'' \<in> inc) (inboundMappings fails col db i) of None \<Rightarrow> None | Some inb \<Rightarrow>
     (case section_of (''lineage'' \<in> inc) (versionLineage fails col db (cd_FrameworkCode ctrl) (cd_VersionLabel ctrl)) of
        None \<Rightarrow> None | Some lin \<Rightarrow>
     (case section_of (''chunks'' \<in> inc) (controlChunks fails db i limit offset) of None \<Rightarrow> None | Some rows \<Rightarrow>
        let (page, next) = chunk_page limit offset rows in
        Some ((blank_output limit offset)
          \<lparr>do_Control := Some ctrl, do_AmendedBy := am, do_Parent := par, do_Children := ch, do_Mappings := outb,
           do_Inbound := inb, do_Lineage := lin, do_Chunks := page, do_NextOffset := next,
           do_Gaps := ambiguity_gaps fails col db citation inp ctrl
             @ (if ''chunks'' \<in> inc \<and> page = [] then [\<lparr>sg_Kind = ''no_chunks'', sg_Names = [], sg_Blocks = False\<rparr>] else [])\<rparr>))))))))"

definition DocumentDb :: "faults \<Rightarrow> collation \<Rightarrow> ('v, 'sp) corpus \<Rightarrow> document_input \<Rightarrow> document_output option" where
  "DocumentDb fails col db inp =
     (let limit = normalizeLimit (di_Limit inp) defaultDocChunkLimit maxDocChunkLimit;
          offset = nat (di_Offset inp);
          citation = trim_space (di_Citation inp)
      in case findControl fails col db citation (di_FrameworkCode inp) (di_VersionLabel inp) of
           None \<Rightarrow> None
         | Some None \<Rightarrow> Some ((blank_output limit offset)\<lparr>do_Gaps := not_found_gaps fails col db citation inp\<rparr>)
         | Some (Some ctrl) \<Rightarrow> found_output fails col db citation inp limit offset ctrl)"

datatype document_err = NoCorpus | CitationRequired | UnknownInclude string | LookupFailed

definition DocumentTool ::
  "projection \<Rightarrow> faults \<Rightarrow> collation \<Rightarrow> ('v, 'sp) corpus option \<Rightarrow> document_input \<Rightarrow> document_err + document_output" where
  "DocumentTool p fails col corpus inp =
     (case corpus of
        None \<Rightarrow> Inl NoCorpus
      | Some db \<Rightarrow>
          let citation = trim_space (di_Citation inp) in
          if citation = [] then Inl CitationRequired
          else (case validateIncludes (di_Include inp) of
             Some n \<Rightarrow> Inl (UnknownInclude n)
           | None \<Rightarrow>
               (case DocumentDb fails col db (inp\<lparr>di_Citation := normalizeCitationInput citation\<rparr>) of
                  None \<Rightarrow> Inl LookupFailed
                | Some out \<Rightarrow> Inr (ProjectDocument p out))))"

section \<open>Corpus lookups of the search tool\<close>

definition DocumentSourceURLs :: "bool \<Rightarrow> ('v, 'sp) corpus \<Rightarrow> int list \<Rightarrow> (int \<Rightarrow> string option) option" where
  "DocumentSourceURLs failed db ids =
     (if ids = [] then Some (\<lambda>_. None)
      else if failed then None
      else Some (map_of (rev (filter (\<lambda>(i, u). u \<noteq> [])
        (map (\<lambda>d. (d_id d, source_url db d)) (filter (\<lambda>d. d_id d \<in> set ids) (documents db)))))))"

fun add_version :: "string \<Rightarrow> string \<Rightarrow> (string \<times> string list) list \<Rightarrow> (string \<times> string list) list" where
  "add_version fw v [] = [(fw, [v])]"
| "add_version fw v ((f, vs) # rest) = (if f = fw then (f, vs @ [v]) # rest else (f, vs) # add_version fw v rest)"

definition FrameworkVersions :: "bool \<Rightarrow> collation \<Rightarrow> ('v, 'sp) corpus \<Rightarrow> (string \<times> string list) list option" where
  "FrameworkVersions failed col db =
     (if failed then None
      else Some (foldl (\<lambda>acc (fw, v). add_version fw v acc) []
        (sort_key (\<lambda>(fw, v). (col fw, col v)) (remdups (map (\<lambda>d. (d_framework d, d_version d)) (documents db))))))"

definition DBCorpus :: "bool \<Rightarrow> collation \<Rightarrow> ('v, 'sp) corpus \<Rightarrow> corpus_reader" where
  "DBCorpus failed col db =
     \<lparr>cr_urls = DocumentSourceURLs failed db, cr_versions = FrameworkVersions failed col db\<rparr>"

definition NewCore :: "(string \<Rightarrow> search_opts \<Rightarrow> search_err + evidence) option \<Rightarrow> corpus_reader option \<Rightarrow> projection \<Rightarrow> core" where
  "NewCore searcher corpus p = \<lparr>co_searcher = searcher, co_corpus = corpus, co_projection = p\<rparr>"

end
