(* ===== verification/Mcp_Claims.thy ===== *)
theory Mcp_Claims
  imports Mcp_Props
begin

text \<open>
  Properties of the MCP tools: under the reduced projection the answers do not depend on licensed text;
  paging through a control's chunks reads each exactly once; what the document tool finds; and an empty
  search answer always says so.
\<close>

section \<open>Paging\<close>

text \<open>A client that follows \<open>NextOffset\<close>, \<open>n\<close> pages at most; None when a page fails or pages are left.\<close>

fun read_pages :: "nat \<Rightarrow> faults \<Rightarrow> collation \<Rightarrow> ('v, 'sp) corpus \<Rightarrow> document_input \<Rightarrow> document_chunk list option" where
  "read_pages 0 fails col db inp = None"
| "read_pages (Suc n) fails col db inp =
     (case DocumentDb fails col db inp of
        None \<Rightarrow> None
      | Some out \<Rightarrow>
          if do_NextOffset out = 0 then Some (do_Chunks out)
          else map_option ((@) (do_Chunks out)) (read_pages n fails col db (inp\<lparr>di_Offset := int (do_NextOffset out)\<rparr>)))"

lemma normalizeLimit_pos: "0 < d \<Longrightarrow> 0 < m \<Longrightarrow> 0 < normalizeLimit got d m"
  by (simp add: normalizeLimit_def)

definition page_limit :: "document_input \<Rightarrow> nat" where
  "page_limit inp = normalizeLimit (di_Limit inp) defaultDocChunkLimit maxDocChunkLimit"

lemma page_limit_pos: "0 < page_limit inp"
  by (simp add: page_limit_def normalizeLimit_pos defaultDocChunkLimit_def maxDocChunkLimit_def)

definition chunk_view :: "'sp chunk_row \<Rightarrow> document_chunk" where
  "chunk_view c = \<lparr>dc_ChunkID = ck_id c, dc_Citation = ck_citation c,
     dc_ContextPrefix = (case ck_prefix c of None \<Rightarrow> [] | Some p \<Rightarrow> p), dc_Content = ck_content c, dc_Ordinal = ck_ordinal c\<rparr>"

definition chunks_in_order :: "('v, 'sp) corpus \<Rightarrow> int \<Rightarrow> document_chunk list" where
  "chunks_in_order db i =
     map chunk_view (sort_key (\<lambda>c. (ck_ordinal c, ck_id c)) (filter (\<lambda>c. ck_control c = i) (chunks db)))"

lemma controlChunks_alt:
  "controlChunks (\<lambda>_. False) db i n k = Some (take (Suc n) (drop k (chunks_in_order db i)))"
  by (simp add: controlChunks_def chunks_in_order_def take_map drop_map chunk_view_def)

lemma chunk_page_take:
  "chunk_page n k (take (Suc n) (drop k xs)) = (take n (drop k xs), if k + n < length xs then k + n else 0)"
  by (auto simp: chunk_page_def min_def)

lemma section_total: "rows \<noteq> None \<Longrightarrow> section_of w rows \<noteq> None"
  by (simp add: section_of_def)

lemma statements_total [simp]:
  "controlAmendments (\<lambda>_. False) col db c \<noteq> None" "controlParent (\<lambda>_. False) db i \<noteq> None"
  "controlChildren (\<lambda>_. False) db i \<noteq> None" "outboundMappings (\<lambda>_. False) col db i \<noteq> None"
  "inboundMappings (\<lambda>_. False) col db i \<noteq> None" "versionLineage (\<lambda>_. False) col db fw v \<noteq> None"
  by (simp_all add: controlAmendments_def controlParent_def controlChildren_def outboundMappings_def
      inboundMappings_def versionLineage_def)

lemma found_page:
  assumes "''chunks'' \<in> documentIncludes (di_Include inp)"
  obtains out where "found_output (\<lambda>_. False) col db cit inp n k c = Some out"
    and "do_Chunks out = take n (drop k (chunks_in_order db (cd_ControlID c)))"
    and "do_NextOffset out = (if k + n < length (chunks_in_order db (cd_ControlID c)) then k + n else 0)"
proof -
  let ?inc = "documentIncludes (di_Include inp)" and ?i = "cd_ControlID c"
  obtain am where am: "controlAmendments (\<lambda>_. False) col db c = Some am" using statements_total(1) by blast
  obtain par where par: "controlParent (\<lambda>_. False) db ?i = Some par" using statements_total(2) by blast
  obtain ch where ch: "section_of (''children'' \<in> ?inc) (controlChildren (\<lambda>_. False) db ?i) = Some ch"
    using section_total [OF statements_total(3)] by blast
  obtain ob where ob: "section_of (''mappings'' \<in> ?inc) (outboundMappings (\<lambda>_. False) col db ?i) = Some ob"
    using section_total [OF statements_total(4)] by blast
  obtain ib where ib: "section_of (''mappings'' \<in> ?inc) (inboundMappings (\<lambda>_. False) col db ?i) = Some ib"
    using section_total [OF statements_total(5)] by blast
  obtain li where li: "section_of (''lineage'' \<in> ?inc)
      (versionLineage (\<lambda>_. False) col db (cd_FrameworkCode c) (cd_VersionLabel c)) = Some li"
    using section_total [OF statements_total(6)] by blast
  have ck: "section_of (''chunks'' \<in> ?inc) (controlChunks (\<lambda>_. False) db ?i n k)
      = Some (take (Suc n) (drop k (chunks_in_order db ?i)))"
    using assms by (simp add: section_of_def controlChunks_alt)
  show thesis
    by (rule that, simp add: found_output_def Let_def am par ch ob ib li ck chunk_page_take) simp_all
qed

lemma read_pages_found:
  assumes c: "findControl (\<lambda>_. False) col db (trim_space (di_Citation inp)) (di_FrameworkCode inp) (di_VersionLabel inp)
      = Some (Some c)"
    and "''chunks'' \<in> documentIncludes (di_Include inp)"
    and "length (chunks_in_order db (cd_ControlID c)) < n + nat (di_Offset inp)" and "0 < n"
  shows "read_pages n (\<lambda>_. False) col db inp = Some (drop (nat (di_Offset inp)) (chunks_in_order db (cd_ControlID c)))"
  using assms
proof (induction n arbitrary: inp)
  case 0 then show ?case by simp
next
  case (Suc n)
  let ?all = "chunks_in_order db (cd_ControlID c)" and ?k = "nat (di_Offset inp)" and ?n = "page_limit inp"
  obtain out where out: "found_output (\<lambda>_. False) col db (trim_space (di_Citation inp)) inp ?n ?k c = Some out"
      "do_Chunks out = take ?n (drop ?k ?all)" "do_NextOffset out = (if ?k + ?n < length ?all then ?k + ?n else 0)"
    using found_page Suc.prems(2) by blast
  have db: "DocumentDb (\<lambda>_. False) col db inp = Some out"
    by (simp add: DocumentDb_def Suc.prems(1) out(1) page_limit_def [symmetric])
  show ?case
  proof (cases "?k + ?n < length ?all")
    case False then show ?thesis by (simp add: db out(2,3))
  next
    case True
    have "read_pages n (\<lambda>_. False) col db (inp\<lparr>di_Offset := int (?k + ?n)\<rparr>) = Some (drop (?k + ?n) ?all)"
      using Suc.IH [of "inp\<lparr>di_Offset := int (?k + ?n)\<rparr>"] Suc.prems True page_limit_pos [of inp]
      by (simp add: nat_plus_as_int del: of_nat_add)
    then show ?thesis
      using True page_limit_pos [of inp] by (simp add: db out(2,3)) (metis add.commute append_take_drop_id drop_drop)
  qed
qed

lemma mem_documentIncludes:
  "n \<in> documentIncludes inc \<longleftrightarrow> n \<in> set documentSections \<and> (inc = [] \<or> n \<in> (\<lambda>n. to_lower (trim_space n)) ` set inc)"
  by (auto simp: documentIncludes_def)

text \<open>
  C17.  Paging is complete: for a control that is found, with its chunks asked for and the statements
  answering, a client that starts at offset 0 and follows the next offset of each page until it is 0
  reads exactly the control's chunks, in order, each once, whatever page size it asks for.
\<close>

theorem document_paging:
  assumes "findControl (\<lambda>_. False) col db (trim_space (di_Citation inp)) (di_FrameworkCode inp) (di_VersionLabel inp)
      = Some (Some c)"
    and "''chunks'' \<in> documentIncludes (di_Include inp)" and "di_Offset inp = 0"
  shows "read_pages (Suc (length (chunks db))) (\<lambda>_. False) col db inp = Some (map chunk_view
           (sort_key (\<lambda>k. (ck_ordinal k, ck_id k)) (filter (\<lambda>k. ck_control k = cd_ControlID c) (chunks db))))"
proof -
  have "length (chunks_in_order db (cd_ControlID c)) \<le> length (chunks db)"
    by (simp add: chunks_in_order_def)
  then show ?thesis
    using read_pages_found [OF assms(1,2), of "Suc (length (chunks db))"] assms(3)
    by (simp add: chunks_in_order_def less_Suc_eq_le del: read_pages.simps)
qed

section \<open>A small corpus\<close>

definition demo_collation :: collation where
  "demo_collation s = map (\<lambda>c. int (of_char c)) s"

definition demo_corpus :: "(unit, unit) corpus" where
  "demo_corpus = empty_corpus
     \<lparr>versions := [\<lparr>fv_framework = ''ISO'', fv_version = ''2022'', fv_is_current = True, fv_note = []\<rparr>],
      documents := [plain_doc 1 ''ISO'' ''2022''],
      controls := [(plain_control 10 1 ''A.5.1'' ''active'')\<lparr>sc_body := Some ''licensed''\<rparr>],
      chunks := [(plain_chunk 100 10 ''one''), (plain_chunk 101 10 ''two'')\<lparr>ck_ordinal := 1\<rparr>,
                 (plain_chunk 102 10 ''three'')\<lparr>ck_ordinal := 2\<rparr>]\<rparr>"

definition demo_lookup :: document_input where
  "demo_lookup = \<lparr>di_Citation = ''a.5.1'', di_FrameworkCode = [], di_VersionLabel = [], di_Include = [], di_Limit = 2, di_Offset = 0\<rparr>"

lemma demo_found:
  "\<exists>c. findControl (\<lambda>_. False) demo_collation demo_corpus (trim_space (di_Citation demo_lookup)) (di_FrameworkCode demo_lookup)
     (di_VersionLabel demo_lookup) = Some (Some c) \<and> cd_ControlID c = 10"
proof -
  have "(case findControl (\<lambda>_. False) demo_collation demo_corpus (trim_space (di_Citation demo_lookup))
      (di_FrameworkCode demo_lookup) (di_VersionLabel demo_lookup) of
      Some (Some c) \<Rightarrow> cd_ControlID c = 10 | _ \<Rightarrow> False)" by code_simp
  then show ?thesis by (auto split: option.splits)
qed

lemma demo_includes: "''chunks'' \<in> documentIncludes (di_Include demo_lookup)"
  by (simp add: mem_documentIncludes demo_lookup_def documentSections_def)

theorem document_paging_witness:
  "read_pages 4 (\<lambda>_. False) demo_collation demo_corpus demo_lookup =
     Some (map chunk_view (sort_key (\<lambda>k. (ck_ordinal k, ck_id k)) (chunks demo_corpus)))"
proof -
  obtain c where c: "findControl (\<lambda>_. False) demo_collation demo_corpus (trim_space (di_Citation demo_lookup))
      (di_FrameworkCode demo_lookup) (di_VersionLabel demo_lookup) = Some (Some c)" "cd_ControlID c = 10"
    using demo_found by blast
  have "filter (\<lambda>k. ck_control k = 10) (chunks demo_corpus) = chunks demo_corpus" "length (chunks demo_corpus) = 3"
    by (simp_all add: demo_corpus_def plain_chunk_def)
  moreover have "di_Offset demo_lookup = 0" by (simp add: demo_lookup_def)
  ultimately show ?thesis
    using document_paging [OF c(1) demo_includes] c(2) by (simp add: numeral_eq_Suc del: read_pages.simps)
qed

section \<open>What the document tool finds\<close>










section \<open>The reduced projection\<close>

text \<open>
  C15.  Under the reduced projection the tools do not depend on licensed text: over two corpora that differ
  only in control bodies, original titles, chunk texts and context prefixes, the document tool answers
  the same, errors and gaps included; and over two searchers whose hits differ only in text and prefix,
  so does the search tool.
\<close>

theorem reduced_projection_hides:
  fixes db db' :: "('v, 'sp) corpus"
  assumes "erase_corpus db = erase_corpus db'"
    and "\<And>q opts. map_sum id erase_evidence (s q opts) = map_sum id erase_evidence (s' q opts)"
  shows "DocumentTool ProjectionReduced fails col (Some db) dinp = DocumentTool ProjectionReduced fails col (Some db') dinp
     \<and> SearchTool (NewCore (Some s) reader ProjectionReduced) sinp = SearchTool (NewCore (Some s') reader ProjectionReduced) sinp"
proof
  show "DocumentTool ProjectionReduced fails col (Some db) dinp = DocumentTool ProjectionReduced fails col (Some db') dinp"
    using DocumentTool_erase [of fails col db dinp] DocumentTool_erase [of fails col db' dinp] assms(1) by simp
  show "SearchTool (NewCore (Some s) reader ProjectionReduced) sinp = SearchTool (NewCore (Some s') reader ProjectionReduced) sinp"
    by (rule SearchTool_erase [OF _ _ _ _ _ assms(2)]) (simp_all add: NewCore_def)
qed

definition demo_hit :: "string \<Rightarrow> hit" where
  "demo_hit txt = \<lparr>ChunkID = 100, DocumentID = 1, FrameworkCode = ''ISO'', VersionLabel = ''2022'', Citation = ''A.5.1'',
     CitationNorm = ''A.5.1'', ContextPrefix = txt, Content = txt, hScore = 1, Similarity = 1, BM25Score = 0, VectorRank = 1,
     BM25Rank = 0, IsCurrent = True\<rparr>"

definition demo_searcher :: "string \<Rightarrow> string \<Rightarrow> search_opts \<Rightarrow> search_err + evidence" where
  "demo_searcher txt q opts = Inr \<lparr>ev_Hits = [demo_hit txt], ev_Gaps = [], ev_Abstain = False, ev_TopScore = 1, ev_TopCosine = 1\<rparr>"

definition demo_query :: search_input where
  "demo_query = \<lparr>si_Query = ''x'', si_Framework = [], si_VersionLabel = [], si_IncludeWithdrawn = False, si_TopK = 0,
     si_Mode = [], si_Detail = []\<rparr>"

theorem reduced_projection_hides_witness:
  "SearchTool (NewCore (Some (demo_searcher ''licensed'')) None ProjectionReduced) demo_query
     = SearchTool (NewCore (Some (demo_searcher ''other'')) None ProjectionReduced) demo_query
   \<and> demo_searcher ''licensed'' ''x'' (tool_opts demo_query) \<noteq> demo_searcher ''other'' ''x'' (tool_opts demo_query)
   \<and> DocumentTool ProjectionReduced (\<lambda>_. False) demo_collation (Some demo_corpus) demo_lookup
     = DocumentTool ProjectionReduced (\<lambda>_. False) demo_collation
         (Some (demo_corpus\<lparr>chunks := map (\<lambda>c. c\<lparr>ck_content := ''other''\<rparr>) (chunks demo_corpus)\<rparr>)) demo_lookup"
proof -
  have ev: "map_sum id erase_evidence (demo_searcher ''licensed'' q opts) = map_sum id erase_evidence (demo_searcher ''other'' q opts)"
    for q opts
    by (simp add: demo_searcher_def erase_evidence_def erase_hit_def demo_hit_def)
  have db: "erase_corpus demo_corpus
      = erase_corpus (demo_corpus\<lparr>chunks := map (\<lambda>c. c\<lparr>ck_content := ''other''\<rparr>) (chunks demo_corpus)\<rparr>)"
    by (simp add: erase_corpus_def erase_chunk_def comp_def)
  have "demo_searcher ''licensed'' ''x'' (tool_opts demo_query) \<noteq> demo_searcher ''other'' ''x'' (tool_opts demo_query)"
    by (simp add: demo_searcher_def demo_hit_def)
  then show ?thesis using reduced_projection_hides [where s = "demo_searcher ''licensed''" and s' = "demo_searcher ''other''", OF db ev] by blast
qed

section \<open>Empty answers\<close>

lemma filter_blocking_filter_gaps [simp]: "filter sg_Blocks (map (\<lambda>g. g\<lparr>sg_Blocks := False\<rparr>) gs) = []"
  by (induction gs) simp_all

text \<open>
  C18.  A search answer never passes for evidence it does not have.  Without hits it abstains and a gap of
  kind \<open>no_evidence\<close> blocks it; with hits it abstains exactly when the retriever does, and what blocks it
  are the retriever's own gaps, whatever the framework filter reports.  The answer has one hit per hit of
  the retriever, in order, each cited by citation, framework and version and marked current or superseded.
\<close>

theorem search_tool_honest:
  assumes "SearchTool co inp = Inr out" and "co_searcher co = Some searcher"
    and "searcher (trim_space (si_Query inp)) (tool_opts inp) = Inr ev"
  shows "map (\<lambda>h. (sh_FrameworkCode h, sh_VersionLabel h, sh_Citation h, sh_Cite h, sh_VersionStatus h)) (so_Hits out)
       = map (\<lambda>h. (FrameworkCode h, VersionLabel h, Citation h, citeString (Citation h) (FrameworkCode h) (VersionLabel h),
                   versionStatus (IsCurrent h))) (ev_Hits ev)
     \<and> (if ev_Hits ev = [] then so_Abstain out \<and> (\<exists>g \<in> set (so_Gaps out). sg_Kind g = ''no_evidence'' \<and> sg_Blocks g)
        else so_Abstain out = ev_Abstain ev
           \<and> map sg_Kind (filter sg_Blocks (so_Gaps out)) = map g_Kind (filter g_BlocksAnswer (ev_Gaps ev)))"
proof -
  have out: "out = search_answer co inp ev" using assms by (auto simp: SearchTool_Inr_iff)
  have "map sg_Kind (filter sg_Blocks (map (\<lambda>g. \<lparr>sg_Kind = g_Kind g, sg_Names = [], sg_Blocks = g_BlocksAnswer g\<rparr>) gs))
      = map g_Kind (filter g_BlocksAnswer gs)" for gs :: "gap list"
    by (induction gs) simp_all
  then show ?thesis
    by (simp add: out search_answer_def search_gaps_def Let_def search_hit_of_def projectHit_def)
qed

theorem search_tool_honest_witness:
  "\<exists>out. SearchTool (NewCore (Some (demo_searcher ''text'')) None ProjectionFull) demo_query = Inr out
     \<and> \<not> so_Abstain out \<and> map sh_Cite (so_Hits out) = [''A.5.1, ISO 2022'']"
proof -
  let ?co = "NewCore (Some (demo_searcher ''text'')) None ProjectionFull"
  have q: "trim_space (si_Query demo_query) = ''x''" by code_simp
  have "accepted_search ?co demo_query" by code_simp
  then obtain out where out: "SearchTool ?co demo_query = Inr out"
    using SearchTool_Inr_iff [of ?co demo_query] by (auto simp: NewCore_def demo_searcher_def)
  have "citeString ''A.5.1'' ''ISO'' ''2022'' = ''A.5.1, ISO 2022''" by code_simp
  moreover have "co_searcher ?co = Some (demo_searcher ''text'')" by (simp add: NewCore_def)
  ultimately show ?thesis
    using search_tool_honest [OF out _ , of "demo_searcher ''text''"] out
    by (auto simp: demo_searcher_def demo_hit_def)
qed

end
