(* ===== verification/Silver.thy ===== *)
theory Silver
  imports Db_Act "HOL-Library.Product_Lexorder" "HOL-Library.List_Lexorder"
begin

text \<open>
  The statements on the silver tables (\<open>pkg/store/silver\<close>, generated from \<open>sql/silver/queries.sql\<close>), as the
  normalize, mapedges and index stages call them.  A statement that violates a constraint of
  \<open>sql/silver/schema.sql\<close> is None.  The sort keys of \<open>ORDER BY\<close> use the collation where the column is text.

  A row passed to an insert carries the columns of the statement's parameters; its id is the sequence's,
  and \<open>to_control_id\<close> of an inserted mapping is NULL.
\<close>

section \<open>Documents\<close>

definition doc_roles :: "string list" where
  "doc_roles = [''main'', ''amendment'', ''companion-workbook'', ''changelog'']"

definition doc_identity_of :: "doc_row \<Rightarrow> string \<times> string \<times> string \<times> string" where
  "doc_identity_of d = (d_framework d, d_version d, d_role d, d_qualifier d)"

definition UpsertDocument :: "doc_row \<Rightarrow> ('v, 'sp) corpus \<Rightarrow> (doc_row \<times> ('v, 'sp) corpus) option" where
  "UpsertDocument p db =
     (if d_gate p \<notin> {''public'', ''auth-only''} then None
      else case List.find (\<lambda>d. d_key d = d_key p) (documents db) of
        Some old \<Rightarrow>
          let upd = (\<lambda>d. if d_key d = d_key p then d\<lparr>d_title := d_title p, d_sha := d_sha p, d_gate := d_gate p\<rparr> else d)
          in Some (upd old, db\<lparr>documents := map upd (documents db)\<rparr>)
      | None \<Rightarrow>
          if d_role p \<notin> set doc_roles \<or> doc_identity_of p \<in> doc_identity_of ` set (documents db) then None
          else let d = p\<lparr>d_id := next_doc db, d_mapedged := False\<rparr>
               in Some (d, db\<lparr>documents := documents db @ [d], next_doc := next_doc db + 1\<rparr>))"

definition GetDocumentByKey :: "string \<Rightarrow> ('v, 'sp) corpus \<Rightarrow> (doc_row \<times> ('v, 'sp) corpus) option" where
  "GetDocumentByKey key db = map_option (\<lambda>d. (d, db)) (List.find (\<lambda>d. d_key d = key) (documents db))"

definition ListDocumentsForVersion ::
  "(string \<Rightarrow> int list) \<Rightarrow> string \<Rightarrow> string \<Rightarrow> ('v, 'sp) corpus \<Rightarrow> (doc_row list \<times> ('v, 'sp) corpus) option" where
  "ListDocumentsForVersion col fw v db =
     Some (sort_key (\<lambda>d. (col (d_role d), col (d_qualifier d)))
             (filter (\<lambda>d. d_framework d = fw \<and> d_version d = v) (documents db)), db)"

definition MarkDocumentsMapEdged :: "('v, 'sp) corpus \<Rightarrow> (nat \<times> ('v, 'sp) corpus) option" where
  "MarkDocumentsMapEdged db =
     Some (length (documents db), db\<lparr>documents := map (\<lambda>d. d\<lparr>d_mapedged := True\<rparr>) (documents db)\<rparr>)"

section \<open>Controls\<close>

definition ListControlsForDocument :: "int \<Rightarrow> ('v, 'sp) corpus \<Rightarrow> (control_row list \<times> ('v, 'sp) corpus) option" where
  "ListControlsForDocument i db =
     Some (sort_key (\<lambda>c. (sc_ordinal c, sc_id c)) (filter (\<lambda>c. sc_document c = i) (controls db)), db)"

text \<open>
  Deleting a control deletes its children and the mappings from it, and clears the mappings to it; the
  children's children go too.  \<open>n\<close> rounds reach every descendant when there are \<open>n\<close> rows.
\<close>

fun cascade :: "nat \<Rightarrow> control_row list \<Rightarrow> int set \<Rightarrow> int set" where
  "cascade 0 cs dead = dead"
| "cascade (Suc n) cs dead =
     cascade n cs (dead \<union> sc_id ` set (filter (\<lambda>c. case sc_parent c of None \<Rightarrow> False | Some p \<Rightarrow> p \<in> dead) cs))"

definition delete_controls :: "int set \<Rightarrow> ('v, 'sp) corpus \<Rightarrow> ('v, 'sp) corpus" where
  "delete_controls dead db =
     db\<lparr>controls := filter (\<lambda>c. sc_id c \<notin> dead) (controls db),
        mappings := map (\<lambda>m. case cm_to_control m of None \<Rightarrow> m
                              | Some t \<Rightarrow> if t \<in> dead then m\<lparr>cm_to_control := None\<rparr> else m)
                      (filter (\<lambda>m. cm_from m \<notin> dead) (mappings db))\<rparr>"

definition DeleteControlsForDocument :: "int \<Rightarrow> ('v, 'sp) corpus \<Rightarrow> (nat \<times> ('v, 'sp) corpus) option" where
  "DeleteControlsForDocument i db =
     (let own = filter (\<lambda>c. sc_document c = i) (controls db);
          dead = cascade (length (controls db)) (controls db) (sc_id ` set own);
          db' = delete_controls dead db
      in Some (length own, db'\<lparr>documents := map (\<lambda>d. if d_id d = i then d\<lparr>d_mapedged := False\<rparr> else d) (documents db')\<rparr>))"

definition control_checks :: "control_row \<Rightarrow> bool" where
  "control_checks c \<longleftrightarrow>
     sc_status c \<in> {''active'', ''withdrawn'', ''deprecated''}
   \<and> (case sc_action c of None \<Rightarrow> True | Some a \<Rightarrow> a \<in> {''add'', ''replace'', ''delete''})
   \<and> (sc_amends c = None) = (sc_action c = None)"

definition InsertControl :: "control_row \<Rightarrow> ('v, 'sp) corpus \<Rightarrow> (int \<times> ('v, 'sp) corpus) option" where
  "InsertControl p db =
     (if sc_document p \<notin> d_id ` set (documents db)
       \<or> (case sc_parent p of None \<Rightarrow> False | Some i \<Rightarrow> i \<notin> sc_id ` set (controls db))
       \<or> (sc_document p, sc_citation p) \<in> (\<lambda>c. (sc_document c, sc_citation c)) ` set (controls db)
       \<or> \<not> control_checks p
      then None
      else Some (next_control db,
        db\<lparr>controls := controls db @ [p\<lparr>sc_id := next_control db\<rparr>], next_control := next_control db + 1\<rparr>))"

section \<open>Mappings\<close>

definition CountMappingsForDocument :: "int \<Rightarrow> ('v, 'sp) corpus \<Rightarrow> (nat \<times> ('v, 'sp) corpus) option" where
  "CountMappingsForDocument i db =
     Some (length [m. m \<leftarrow> mappings db, sc \<leftarrow> filter (\<lambda>sc. sc_id sc = cm_from m) (controls db), sc_document sc = i], db)"

definition relationships :: "string list" where
  "relationships = [''equivalent'', ''subset-of'', ''superset-of'', ''intersects'', ''related'', ''incorporated-into'', ''moved-to'']"

definition mapping_key :: "mapping_row \<Rightarrow> int \<times> string \<times> string option \<times> string \<times> string" where
  "mapping_key m = (cm_from m, cm_to_framework m, cm_to_version m, cm_to_norm m, cm_source m)"

definition UpsertControlMapping :: "mapping_row \<Rightarrow> ('v, 'sp) corpus \<Rightarrow> (unit \<times> ('v, 'sp) corpus) option" where
  "UpsertControlMapping p db =
     (if cm_relationship p \<notin> set relationships \<or> cm_from p \<notin> sc_id ` set (controls db) then None
      else Some ((), db\<lparr>mappings :=
        (if mapping_key p \<in> mapping_key ` set (mappings db)
         then map (\<lambda>m. if mapping_key m = mapping_key p
                       then m\<lparr>cm_relationship := cm_relationship p, cm_provenance := cm_provenance p\<rparr> else m) (mappings db)
         else mappings db @ [p\<lparr>cm_to_control := None\<rparr>])\<rparr>))"

text \<open>
  The targets an edge can resolve to.  \<open>UPDATE ... FROM\<close> joins an edge with any one of them when there
  are several; the model takes the first in scan order.
\<close>

definition is_current_version :: "('v, 'sp) corpus \<Rightarrow> string \<Rightarrow> string \<Rightarrow> bool" where
  "is_current_version db fw v \<longleftrightarrow> list_ex (\<lambda>f. fv_framework f = fw \<and> fv_version f = v \<and> fv_is_current f) (versions db)"

definition target_ok :: "('v, 'sp) corpus \<Rightarrow> mapping_row \<Rightarrow> control_row \<Rightarrow> doc_row \<Rightarrow> bool" where
  "target_ok db m c d \<longleftrightarrow>
     d_id d = sc_document c \<and> d_framework d = cm_to_framework m \<and> sc_norm c = cm_to_norm m
   \<and> (case cm_to_version m of Some v \<Rightarrow> d_version d = v
      | None \<Rightarrow> is_current_version db (cm_to_framework m) (d_version d))"

definition mapping_targets :: "('v, 'sp) corpus \<Rightarrow> mapping_row \<Rightarrow> control_row list" where
  "mapping_targets db m = filter (\<lambda>c. list_ex (target_ok db m c) (documents db)) (controls db)"

definition resolve_mapping :: "(mapping_row \<Rightarrow> control_row list) \<Rightarrow> mapping_row \<Rightarrow> mapping_row" where
  "resolve_mapping targets m =
     (if cm_to_control m = None then
        (case targets m of [] \<Rightarrow> m | c # _ \<Rightarrow> m\<lparr>cm_to_control := Some (sc_id c)\<rparr>)
      else m)"

definition ResolveControlMappings :: "('v, 'sp) corpus \<Rightarrow> (nat \<times> ('v, 'sp) corpus) option" where
  "ResolveControlMappings db =
     Some (length (filter (\<lambda>m. cm_to_control m = None \<and> mapping_targets db m \<noteq> []) (mappings db)),
           db\<lparr>mappings := map (resolve_mapping (mapping_targets db)) (mappings db)\<rparr>)"

section \<open>Version relations and equivalents\<close>

definition relation_key :: "relation_row \<Rightarrow> string \<times> string \<times> string \<times> string \<times> string" where
  "relation_key r = (vr_from_framework r, vr_from_version r, vr_to_framework r, vr_to_version r, vr_type r)"

definition UpsertVersionRelation :: "relation_row \<Rightarrow> ('v, 'sp) corpus \<Rightarrow> (unit \<times> ('v, 'sp) corpus) option" where
  "UpsertVersionRelation p db =
     (if vr_type p \<notin> {''supersedes'', ''amends'', ''consolidates''} then None
      else Some ((), db\<lparr>relations :=
        (if relation_key p \<in> relation_key ` set (relations db)
         then map (\<lambda>r. if relation_key r = relation_key p then r\<lparr>vr_note := vr_note p\<rparr> else r) (relations db)
         else relations db @ [p])\<rparr>))"

record equivalent_row =
  er_from :: int
  er_citation :: string
  er_framework :: string
  er_body :: string

text \<open>
  \<open>DISTINCT ON\<close> keeps the first row of each \<open>from_control_id\<close> after sorting by it and by falling length.
  \<open>length\<close> counts characters, given by \<open>len\<close>.
\<close>

definition ListEquivalentBodies ::
  "(string \<Rightarrow> nat) \<Rightarrow> int list \<Rightarrow> ('v, 'sp) corpus \<Rightarrow> (equivalent_row list \<times> ('v, 'sp) corpus) option" where
  "ListEquivalentBodies len ids db =
     Some (dedup_on er_from {} (sort_key (\<lambda>r. (er_from r, - int (len (er_body r))))
       [\<lparr>er_from = cm_from m, er_citation = sc_citation tgt, er_framework = d_framework d, er_body = the (sc_body tgt)\<rparr>.
          m \<leftarrow> filter (\<lambda>m. cm_from m \<in> set ids \<and> cm_relationship m = ''equivalent'') (mappings db),
          tgt \<leftarrow> filter (\<lambda>c. cm_to_control m = Some (sc_id c) \<and> sc_body c \<noteq> None \<and> sc_body c \<noteq> Some []) (controls db),
          d \<leftarrow> filter (\<lambda>d. d_id d = sc_document tgt) (documents db),
          src \<leftarrow> filter (\<lambda>c. sc_id c = cm_from m) (controls db),
          (case sc_body src of None \<Rightarrow> 0 | Some b \<Rightarrow> len b) < len (the (sc_body tgt))]), db)"

end
