(* ===== verification/Json.thy ===== *)
theory Json
  imports Go_Std
begin

text \<open>
  JSON values, as the \<open>jsonb\<close> columns hold them, and what the code uses of \<open>encoding/json\<close>: decoding a
  value into a struct.  None is an \<open>Unmarshal\<close> error (a value of the wrong type).  A key matches a field
  up to case, and the last match counts; a null or missing field is the zero value.
\<close>

datatype json = JNull | JBool bool | JNum string | JStr string | JArr "json list" | JObj "(string \<times> json) list"

fun omap :: "('a \<Rightarrow> 'b option) \<Rightarrow> 'a list \<Rightarrow> 'b list option" where
  "omap f [] = Some []"
| "omap f (x # xs) =
     (case f x of None \<Rightarrow> None | Some y \<Rightarrow> (case omap f xs of None \<Rightarrow> None | Some ys \<Rightarrow> Some (y # ys)))"

lemma omap_cong [fundef_cong]:
  "xs = ys \<Longrightarrow> (\<And>x. x \<in> set ys \<Longrightarrow> f x = g x) \<Longrightarrow> omap f xs = omap g ys"
  by (induction ys arbitrary: xs) (auto cong: option.case_cong)

lemma omap_Some_iff: "omap f xs = Some ys \<longleftrightarrow> list_all2 (\<lambda>x y. f x = Some y) xs ys"
proof (induction xs arbitrary: ys)
  case (Cons x xs)
  show ?case by (cases ys; cases "f x"; cases "omap f xs") (auto simp flip: Cons.IH)
qed auto

lemma omap_length: "omap f xs = Some ys \<Longrightarrow> length ys = length xs"
  by (auto simp: omap_Some_iff dest: list_all2_lengthD)

definition jfield :: "string \<Rightarrow> (string \<times> json) list \<Rightarrow> json option" where
  "jfield name kvs = map_option snd (List.find (\<lambda>(k, _). equal_fold k name) (rev kvs))"

definition dec_str :: "json \<Rightarrow> string option" where
  "dec_str j = (case j of JStr s \<Rightarrow> Some s | JNull \<Rightarrow> Some [] | _ \<Rightarrow> None)"

definition dec_str_field :: "string \<Rightarrow> (string \<times> json) list \<Rightarrow> string option" where
  "dec_str_field name kvs = (case jfield name kvs of None \<Rightarrow> Some [] | Some j \<Rightarrow> dec_str j)"

text \<open>A slice field; None inside is the nil slice, which a decoded empty array is not.\<close>

definition dec_slice_field :: "(json \<Rightarrow> 'a option) \<Rightarrow> string \<Rightarrow> (string \<times> json) list \<Rightarrow> 'a list option option" where
  "dec_slice_field d name kvs =
     (case jfield name kvs of
        None \<Rightarrow> Some None
      | Some j \<Rightarrow> (case j of JNull \<Rightarrow> Some None | JArr xs \<Rightarrow> map_option Some (omap d xs) | _ \<Rightarrow> None))"

definition dec_list_field :: "(json \<Rightarrow> 'a option) \<Rightarrow> string \<Rightarrow> (string \<times> json) list \<Rightarrow> 'a list option" where
  "dec_list_field d name kvs = map_option (\<lambda>s. case s of None \<Rightarrow> [] | Some xs \<Rightarrow> xs) (dec_slice_field d name kvs)"

text \<open>A struct: null leaves it zero, which is what decoding the empty object gives.\<close>

definition dec_obj :: "((string \<times> json) list \<Rightarrow> 'a option) \<Rightarrow> json \<Rightarrow> 'a option" where
  "dec_obj d j = (case j of JObj kvs \<Rightarrow> d kvs | JNull \<Rightarrow> d [] | _ \<Rightarrow> None)"

definition dec_obj_field :: "((string \<times> json) list \<Rightarrow> 'a option) \<Rightarrow> string \<Rightarrow> (string \<times> json) list \<Rightarrow> 'a option" where
  "dec_obj_field d name kvs = (case jfield name kvs of None \<Rightarrow> d [] | Some j \<Rightarrow> dec_obj d j)"

section \<open>Recursive decoders\<close>

lemma jfield_mem: "jfield name kvs = Some j \<Longrightarrow> \<exists>k. (k, j) \<in> set kvs"
  unfolding jfield_def by (auto simp: find_Some_iff) (metis length_rev nth_mem set_rev)

lemma jfield_size: "jfield name kvs = Some (JArr xs) \<Longrightarrow> x \<in> set xs \<Longrightarrow> size x < size (JObj kvs)"
proof -
  assume "jfield name kvs = Some (JArr xs)" and x: "x \<in> set xs"
  then obtain k where k: "(k, JArr xs) \<in> set kvs" using jfield_mem by blast
  have "size x \<le> size_list size xs" using x by (rule size_list_estimation') simp
  then have "size x < size (JArr xs)" by simp
  also have "size (JArr xs) \<le> size_prod (\<lambda>_. 0) size (k, JArr xs)" by simp
  also have "\<dots> \<le> size_list (size_prod (\<lambda>_. 0) size) kvs" using k by (rule size_list_estimation') simp
  also have "\<dots> < size (JObj kvs)" by simp
  finally show ?thesis .
qed

lemma dec_slice_field_cong [fundef_cong]:
  assumes "name = name'" and "kvs = kvs'"
    and "\<And>x. size x < size (JObj kvs') \<Longrightarrow> d x = d' x"
  shows "dec_slice_field d name kvs = dec_slice_field d' name' kvs'"
proof -
  have "omap d xs = omap d' xs" if "jfield name' kvs' = Some (JArr xs)" for xs
    using assms(3) jfield_size [OF that] by (intro omap_cong) auto
  then show ?thesis
    unfolding dec_slice_field_def assms(1,2) by (auto split: option.splits json.splits)
qed

lemma dec_list_field_cong [fundef_cong]:
  assumes "name = name'" and "kvs = kvs'"
    and "\<And>x. size x < size (JObj kvs') \<Longrightarrow> d x = d' x"
  shows "dec_list_field d name kvs = dec_list_field d' name' kvs'"
  unfolding dec_list_field_def by (rule arg_cong [OF dec_slice_field_cong]) (use assms in auto)

end
