(* ===== verification/Pipeline_Db.thy ===== *)
theory Pipeline_Db
  imports Silver Json
begin

text \<open>
  The database as the pipeline stages see it: the corpus tables, the manifest (\<open>sql/ingest\<close>), the raw
  extracts (\<open>sql/bronze\<close>) and the vocabularies of \<open>sql/config\<close> the stages read; with the statements of
  \<open>pkg/store/ingest\<close>, \<open>pkg/store/bronze\<close> and \<open>pkg/store/config\<close>.  A timestamp column that the code only
  compares with NULL is a bool.
\<close>

definition deref :: "string option \<Rightarrow> string" where
  "deref s = (case s of None \<Rightarrow> [] | Some x \<Rightarrow> x)"

record manifest_row =
  mf_id :: int
  mf_rel :: string
  mf_sha :: string
  mf_size :: int
  mf_framework :: "string option"
  mf_version :: "string option"
  mf_role :: "string option"
  mf_qualifier :: string
  mf_format :: "string option"
  mf_status :: string
  mf_ignored :: bool
  mf_reason :: string
  mf_extracted :: bool
  mf_normalized :: bool
  mf_indexed :: bool
  mf_error :: string

record raw_row =
  rw_source :: int
  rw_kind :: string
  rw_content :: "json option"

record title_row =
  ct_framework :: string
  ct_version :: string
  ct_norm :: string
  ct_title :: string

record reference_source =
  rs_Prefix :: string
  rs_ToFramework :: string
  rs_ToVersion :: "string option"
  rs_Source :: string

record curated_edge =
  ce_FromFramework :: string
  ce_FromVersion :: string
  ce_FromCitation :: string
  ce_ToFramework :: string
  ce_ToVersion :: string
  ce_ToCitation :: string
  ce_Relationship :: string
  ce_Source :: string
  ce_Note :: string

record rule =
  rl_Ordinal :: int
  rl_Pattern :: string
  rl_Framework :: "string option"
  rl_Version :: "string option"
  rl_Role :: "string option"
  rl_Qualifier :: string
  rl_Format :: "string option"
  rl_Ignore :: bool
  rl_Reason :: string
  rl_License :: "string option"
  rl_URL :: string
  rl_Note :: string

record ('v, 'sp) pipe =
  pp_corpus :: "('v, 'sp) corpus"
  pp_manifest :: "manifest_row list"
  pp_rules :: "rule list"
  pp_next_source :: int
  pp_next_file :: int
  pp_raw :: "raw_row list"
  pp_titles :: "title_row list"
  pp_refs :: "(reference_source \<times> bool) list"
  pp_curated :: "curated_edge list"

text \<open>A statement on the corpus tables, as one on the whole database.\<close>

definition on_corpus ::
  "(('v, 'sp) corpus \<Rightarrow> ('a \<times> ('v, 'sp) corpus) option) \<Rightarrow> ('v, 'sp) pipe \<Rightarrow> ('a \<times> ('v, 'sp) pipe) option" where
  "on_corpus f p = map_option (\<lambda>(x, c). (x, p\<lparr>pp_corpus := c\<rparr>)) (f (pp_corpus p))"

section \<open>The manifest (pkg/store/ingest)\<close>

definition upd_file :: "int \<Rightarrow> (manifest_row \<Rightarrow> manifest_row) \<Rightarrow> ('v, 'sp) pipe \<Rightarrow> (unit \<times> ('v, 'sp) pipe) option" where
  "upd_file i g p = Some ((), p\<lparr>pp_manifest := map (\<lambda>f. if mf_id f = i then g f else f) (pp_manifest p)\<rparr>)"

definition MarkExtracted :: "int \<Rightarrow> ('v, 'sp) pipe \<Rightarrow> (unit \<times> ('v, 'sp) pipe) option" where
  "MarkExtracted i = upd_file i (\<lambda>f. f\<lparr>mf_extracted := True, mf_error := []\<rparr>)"

definition MarkNormalized :: "int \<Rightarrow> ('v, 'sp) pipe \<Rightarrow> (unit \<times> ('v, 'sp) pipe) option" where
  "MarkNormalized i = upd_file i (\<lambda>f. f\<lparr>mf_normalized := True, mf_indexed := False, mf_error := []\<rparr>)"

definition MarkIndexed :: "int \<Rightarrow> ('v, 'sp) pipe \<Rightarrow> (unit \<times> ('v, 'sp) pipe) option" where
  "MarkIndexed i = upd_file i (\<lambda>f. f\<lparr>mf_indexed := True, mf_error := []\<rparr>)"

definition SetStageError :: "int \<Rightarrow> string \<Rightarrow> ('v, 'sp) pipe \<Rightarrow> (unit \<times> ('v, 'sp) pipe) option" where
  "SetStageError i e = upd_file i (\<lambda>f. f\<lparr>mf_error := e\<rparr>)"

definition parse_candidate :: "manifest_row \<Rightarrow> bool" where
  "parse_candidate f \<longleftrightarrow> mf_status f = ''active'' \<and> mf_framework f \<noteq> None \<and> \<not> mf_ignored f
     \<and> (case mf_role f of None \<Rightarrow> False | Some r \<Rightarrow> r \<notin> {''guide'', ''changelog''})"

type_synonym text_order = "string \<Rightarrow> int list"

definition ListFilesToExtract :: "text_order \<Rightarrow> ('v, 'sp) pipe \<Rightarrow> (manifest_row list \<times> ('v, 'sp) pipe) option" where
  "ListFilesToExtract col p =
     Some (sort_key (\<lambda>f. col (mf_rel f)) (filter (\<lambda>f. parse_candidate f \<and> \<not> mf_extracted f) (pp_manifest p)), p)"

definition ListFilesToNormalize :: "text_order \<Rightarrow> ('v, 'sp) pipe \<Rightarrow> (manifest_row list \<times> ('v, 'sp) pipe) option" where
  "ListFilesToNormalize col p =
     Some (sort_key (\<lambda>f. col (mf_rel f))
       (filter (\<lambda>f. parse_candidate f \<and> mf_extracted f \<and> \<not> mf_normalized f) (pp_manifest p)), p)"

definition ListFilesToIndex :: "text_order \<Rightarrow> ('v, 'sp) pipe \<Rightarrow> (manifest_row list \<times> ('v, 'sp) pipe) option" where
  "ListFilesToIndex col p =
     Some (sort_key (\<lambda>f. col (mf_rel f))
       (filter (\<lambda>f. parse_candidate f \<and> mf_normalized f \<and> \<not> mf_indexed f) (pp_manifest p)), p)"

text \<open>
  The upsert keeps the stage columns when the hash is unchanged and resets them when it changed; the id
  and the first-seen time of a known path stay.
\<close>

definition manifest_roles :: "string list" where
  "manifest_roles = [''main'', ''amendment'', ''companion-workbook'', ''changelog'', ''guide'']"

definition manifest_formats :: "string list" where
  "manifest_formats = [''oscal-json'', ''xlsx'', ''pdf'', ''txt'']"

definition UpsertManifestFile :: "manifest_row \<Rightarrow> ('v, 'sp) pipe \<Rightarrow> (manifest_row \<times> ('v, 'sp) pipe) option" where
  "UpsertManifestFile arg p =
     (if (case mf_role arg of None \<Rightarrow> False | Some r \<Rightarrow> r \<notin> set manifest_roles)
       \<or> (case mf_format arg of None \<Rightarrow> False | Some r \<Rightarrow> r \<notin> set manifest_formats) then None
      else case List.find (\<lambda>f. mf_rel f = mf_rel arg) (pp_manifest p) of
        None \<Rightarrow>
          let row = arg\<lparr>mf_id := pp_next_file p, mf_status := ''active'', mf_extracted := False, mf_normalized := False,
                        mf_indexed := False, mf_error := []\<rparr>
          in Some (row, p\<lparr>pp_manifest := pp_manifest p @ [row], pp_next_file := pp_next_file p + 1\<rparr>)
      | Some old \<Rightarrow>
          let same = (mf_sha old = mf_sha arg);
              row = arg\<lparr>mf_id := mf_id old, mf_status := ''active'', mf_extracted := (same \<and> mf_extracted old),
                        mf_normalized := (same \<and> mf_normalized old), mf_indexed := (same \<and> mf_indexed old),
                        mf_error := (if same then mf_error old else [])\<rparr>
          in Some (row, p\<lparr>pp_manifest := map (\<lambda>f. if mf_rel f = mf_rel arg then row else f) (pp_manifest p)\<rparr>))"

definition DemoteMissingManifestFiles :: "string list \<Rightarrow> ('v, 'sp) pipe \<Rightarrow> (nat \<times> ('v, 'sp) pipe) option" where
  "DemoteMissingManifestFiles seen p =
     (let gone = (\<lambda>f. mf_status f = ''active'' \<and> mf_rel f \<notin> set seen)
      in Some (length (filter gone (pp_manifest p)),
               p\<lparr>pp_manifest := map (\<lambda>f. if gone f then f\<lparr>mf_status := ''removed''\<rparr> else f) (pp_manifest p)\<rparr>))"

section \<open>Raw extracts (pkg/store/bronze)\<close>

definition GetSourceFile :: "string \<Rightarrow> string \<Rightarrow> ('v, 'sp) pipe \<Rightarrow> (source_row \<times> ('v, 'sp) pipe) option" where
  "GetSourceFile rel sha p =
     map_option (\<lambda>f. (f, p)) (List.find (\<lambda>f. sf_rel f = rel \<and> sf_sha f = sha) (source_files (pp_corpus p)))"

definition GetRawExtract :: "int \<Rightarrow> string \<Rightarrow> ('v, 'sp) pipe \<Rightarrow> (raw_row \<times> ('v, 'sp) pipe) option" where
  "GetRawExtract i kind p = map_option (\<lambda>r. (r, p)) (List.find (\<lambda>r. rw_source r = i \<and> rw_kind r = kind) (pp_raw p))"

text \<open>
  The columns of a source file that no modelled statement reads back are checked and not kept.
\<close>

record source_params =
  sp_Rel :: string
  sp_Sha :: string
  sp_Framework :: string
  sp_Version :: string
  sp_Role :: string
  sp_Format :: string
  sp_URL :: string
  sp_License :: string
  sp_Note :: string
  sp_Gate :: string

definition source_roles :: "string list" where
  "source_roles = [''main'', ''amendment'', ''companion-workbook'', ''changelog'']"

definition license_kinds :: "string list" where
  "license_kinds = [''public-domain'', ''cc-by-nc-nd'', ''click-through'', ''purchased'', ''membership'', ''unverified'']"

definition source_checks :: "source_params \<Rightarrow> bool" where
  "source_checks a \<longleftrightarrow> sp_Role a \<in> set source_roles \<and> sp_Format a \<in> set manifest_formats \<and> sp_License a \<in> set license_kinds
     \<and> sp_Gate a \<in> {''public'', ''auth-only''}"

definition UpsertSourceFile :: "source_params \<Rightarrow> ('v, 'sp) pipe \<Rightarrow> (source_row \<times> ('v, 'sp) pipe) option" where
  "UpsertSourceFile a p =
     (if \<not> source_checks a then None
      else case List.find (\<lambda>f. sf_rel f = sp_Rel a \<and> sf_sha f = sp_Sha a) (source_files (pp_corpus p)) of
        Some old \<Rightarrow>
          let row = old\<lparr>sf_url := sp_URL a, sf_gate := sp_Gate a\<rparr> in
          Some (row, p\<lparr>pp_corpus := (pp_corpus p)\<lparr>source_files := map (\<lambda>f. if sf_rel f = sp_Rel a \<and> sf_sha f = sp_Sha a
             then row else f) (source_files (pp_corpus p))\<rparr>\<rparr>)
      | None \<Rightarrow>
          let row = \<lparr>sf_id = pp_next_source p, sf_rel = sp_Rel a, sf_sha = sp_Sha a, sf_url = sp_URL a, sf_gate = sp_Gate a\<rparr> in
          Some (row, p\<lparr>pp_corpus := (pp_corpus p)\<lparr>source_files := source_files (pp_corpus p) @ [row]\<rparr>,
                      pp_next_source := pp_next_source p + 1\<rparr>))"

definition raw_kinds :: "string list" where
  "raw_kinds = [''text-markdown'', ''oscal-catalog-json'', ''workbook-rows-json'', ''pdf-pages-json'', ''txt-pages-json'']"

definition UpsertRawExtract :: "raw_row \<Rightarrow> ('v, 'sp) pipe \<Rightarrow> (unit \<times> ('v, 'sp) pipe) option" where
  "UpsertRawExtract a p =
     (if rw_kind a \<notin> set raw_kinds \<or> rw_source a \<notin> sf_id ` set (source_files (pp_corpus p)) then None
      else Some ((), p\<lparr>pp_raw :=
        (if (rw_source a, rw_kind a) \<in> set (map (\<lambda>r. (rw_source r, rw_kind r)) (pp_raw p))
         then map (\<lambda>r. if rw_source r = rw_source a \<and> rw_kind r = rw_kind a then a else r) (pp_raw p)
         else pp_raw p @ [a])\<rparr>))"

section \<open>Vocabularies (pkg/store/config)\<close>

definition ListAllFileRules :: "('v, 'sp) pipe \<Rightarrow> (rule list \<times> ('v, 'sp) pipe) option" where
  "ListAllFileRules p = Some (sort_key rl_Ordinal (pp_rules p), p)"

text \<open>The checks of \<open>config.file_rule\<close>.\<close>

definition rule_ok :: "rule \<Rightarrow> bool" where
  "rule_ok r \<longleftrightarrow> (case rl_Role r of None \<Rightarrow> True | Some x \<Rightarrow> x \<in> set manifest_roles)
     \<and> (case rl_Format r of None \<Rightarrow> True | Some x \<Rightarrow> x \<in> set manifest_formats)
     \<and> (case rl_License r of None \<Rightarrow> True | Some x \<Rightarrow> x \<in> set license_kinds - {''membership''})
     \<and> (if rl_Ignore r then rl_Framework r = None \<and> rl_Version r = None \<and> rl_Role r = None \<and> rl_Format r = None
        else rl_Framework r \<noteq> None \<and> rl_Version r \<noteq> None \<and> rl_Role r \<noteq> None \<and> rl_Format r \<noteq> None)"

definition GetFramework :: "string \<Rightarrow> ('v, 'sp) pipe \<Rightarrow> (framework_row \<times> ('v, 'sp) pipe) option" where
  "GetFramework code p = map_option (\<lambda>f. (f, p)) (List.find (\<lambda>f. fw_code f = code) (frameworks (pp_corpus p)))"

definition ListReferenceSources :: "text_order \<Rightarrow> ('v, 'sp) pipe \<Rightarrow> (reference_source list \<times> ('v, 'sp) pipe) option" where
  "ListReferenceSources col p = Some (sort_key (\<lambda>r. col (rs_Prefix r)) (map fst (filter snd (pp_refs p))), p)"

definition ListControlTitles ::
  "text_order \<Rightarrow> string \<Rightarrow> string \<Rightarrow> ('v, 'sp) pipe \<Rightarrow> (title_row list \<times> ('v, 'sp) pipe) option" where
  "ListControlTitles col fw v p =
     Some (sort_key (\<lambda>t. col (ct_norm t)) (filter (\<lambda>t. ct_framework t = fw \<and> ct_version t = v) (pp_titles p)), p)"

end
