(* ===== verification/Normalize.thy ===== *)
theory Normalize
  imports Pipeline_Db
begin

text \<open>
  The normalize stage (\<open>pkg/normalize/normalize.go\<close>): dispatch of the files by citation scheme, and the
  writer of a parsed tree, \<open>writeTree\<close>, as actions on the database.  No transaction is open, so a failing
  statement leaves what the ones before it wrote.

  The tree builders come in a record; the ones modelled are in theories of their own.  \<open>ev_msg\<close> renders an
  error for the stage-error column and \<open>ev_quote\<close> is the \<open>%q\<close> verb of \<open>fmt\<close>.  Ordinals are unbounded.  An index out of range is \<open>IndexPanic\<close>, the outcome of a run that never returns \<open>Diverges\<close>.
\<close>

section \<open>Trees (oscal.go)\<close>

record control_node =
  cn_Citation :: string
  cn_Norm :: string
  cn_Kind :: string
  cn_Status :: string
  cn_Title :: string
  cn_TitleOriginal :: "string option"
  cn_Body :: "string option"
  cn_ParentIdx :: int
  cn_Ordinal :: int
  cn_Amends :: "string option"
  cn_Action :: "string option"

record tree_edge =
  te_FromIdx :: nat
  te_ToFramework :: string
  te_ToVersion :: "string option"
  te_ToNorm :: string
  te_Source :: string
  te_Relationship :: string
  te_Provenance :: string

record unresolved_link =
  ul_Citation :: string
  ul_Href :: string

record ref_skips =
  rk_PerPrefix :: "string \<Rightarrow> nat"
  rk_UnknownPfx :: "string \<Rightarrow> nat"

record tree =
  tr_Title :: string
  tr_Controls :: "control_node list"
  tr_Mappings :: "tree_edge list"
  tr_Unresolved :: "unresolved_link list"
  tr_RefSkips :: "ref_skips option"

record doc_identity =
  di_ManifestID :: int
  di_RelPath :: string
  di_Sha :: string
  di_Framework :: string
  di_Version :: string
  di_Role :: string
  di_Qual :: string
  di_Gate :: string

text \<open>
  A builder that does not give a tree rejects the capture with an error, panics, or never returns.
\<close>

datatype build_fail = Rejected string | Panics | Never

type_synonym builder = "json option \<Rightarrow> string \<Rightarrow> string \<Rightarrow> build_fail + tree"

record builders =
  nb_OSCAL :: builder
  nb_CSF :: "reference_source list \<Rightarrow> builder"
  nb_CIS :: builder
  nb_CCM :: builder
  nb_PCI :: builder
  nb_TSC :: builder
  nb_COBIT :: builder
  nb_ISO27001 :: builder
  nb_ISOAmendment :: builder
  nb_ISOControlCatalog :: builder
  nb_TCVN11930 :: builder
  nb_TCVN14423 :: builder

datatype norm_err =
    SourceFileErr | RawExtractErr | RefSourcesErr | BuildErr string | UpsertDocErr | CountErr | DeleteErr
  | DuplicateNorm string nat nat | InsertErr string | MappingErr nat | ResolveErr | MarkErr | IndexPanic | TitlesErr
  | FrameworkErr | KeyErr | Diverges

definition fatal :: "norm_err \<Rightarrow> bool" where
  "fatal e \<longleftrightarrow> e = IndexPanic \<or> e = Diverges"

lemma fatal_simps [simp]:
  "fatal IndexPanic" "fatal Diverges" "\<not> fatal SourceFileErr" "\<not> fatal RawExtractErr" "\<not> fatal RefSourcesErr"
  "\<not> fatal (BuildErr msg)" "\<not> fatal UpsertDocErr" "\<not> fatal CountErr" "\<not> fatal DeleteErr" "\<not> fatal (DuplicateNorm x i j)"
  "\<not> fatal (InsertErr c)" "\<not> fatal (MappingErr k)" "\<not> fatal ResolveErr" "\<not> fatal MarkErr" "\<not> fatal TitlesErr"
  "\<not> fatal FrameworkErr" "\<not> fatal KeyErr"
  by (simp_all add: fatal_def)

fun build_err :: "build_fail \<Rightarrow> norm_err" where
  "build_err (Rejected msg) = BuildErr msg"
| "build_err Panics = IndexPanic"
| "build_err Never = Diverges"

record norm_env =
  ev_fault :: "nat \<Rightarrow> bool"
  ev_col :: text_order
  ev_build :: builders
  ev_msg :: "norm_err \<Rightarrow> string"
  ev_quote :: "string \<Rightarrow> string"

type_synonym ('v, 'sp, 'a) norm_act = "(('v, 'sp) pipe \<times> nat, norm_err, 'a) act"

section \<open>Writing a tree\<close>

text \<open>Curated titles: nil when there are none.\<close>

definition loadTitleMap :: "norm_env \<Rightarrow> string \<Rightarrow> string \<Rightarrow> ('v, 'sp, string \<Rightarrow> string option) norm_act" where
  "loadTitleMap ev fwCode verLabel =
     bind (stmt (ev_fault ev) TitlesErr (ListControlTitles (ev_col ev) fwCode verLabel)) (\<lambda>rows.
     ret (map_of (rev (map (\<lambda>r. (ct_norm r, ct_title r)) rows))))"

text \<open>The duplicate check: the first repeated norm with its two positions.\<close>

fun find_dup :: "nat \<Rightarrow> (string \<times> nat) list \<Rightarrow> string list \<Rightarrow> (string \<times> nat \<times> nat) option" where
  "find_dup i seen [] = None"
| "find_dup i seen (x # xs) =
     (case map_of seen x of Some prev \<Rightarrow> Some (x, prev, i) | None \<Rightarrow> find_dup (Suc i) ((x, i) # seen) xs)"

definition row_of_node :: "int \<Rightarrow> (string \<Rightarrow> string option) \<Rightarrow> int option \<Rightarrow> control_node \<Rightarrow> control_row" where
  "row_of_node doc titles parent cr =
     \<lparr>sc_id = 0, sc_document = doc, sc_parent = parent, sc_citation = cn_Citation cr, sc_norm = cn_Norm cr,
      sc_kind = cn_Kind cr, sc_status = cn_Status cr,
      sc_title = (case titles (cn_Norm cr) of None \<Rightarrow> cn_Title cr | Some t \<Rightarrow> t),
      sc_title_original = cn_TitleOriginal cr, sc_body = cn_Body cr, sc_amends = cn_Amends cr,
      sc_action = cn_Action cr, sc_ordinal = cn_Ordinal cr\<rparr>"

text \<open>
  The insert loop.  \<open>dbIDs\<close> starts as \<open>n\<close> zeros; the first \<open>length ids\<close> are filled.
\<close>

fun insert_controls ::
  "norm_env \<Rightarrow> int \<Rightarrow> (string \<Rightarrow> string option) \<Rightarrow> nat \<Rightarrow> int list \<Rightarrow> control_node list \<Rightarrow> ('v, 'sp, int list) norm_act" where
  "insert_controls ev doc titles n ids [] = ret ids"
| "insert_controls ev doc titles n ids (cr # crs) =
     (let p = cn_ParentIdx cr in
      if 0 \<le> p \<and> n \<le> nat p then fail IndexPanic
      else
        let parent = (if p < 0 then None else Some (if nat p < length ids then ids ! nat p else 0)) in
        bind (stmt (ev_fault ev) (InsertErr (cn_Citation cr)) (on_corpus (InsertControl (row_of_node doc titles parent cr)))) (\<lambda>i.
        insert_controls ev doc titles n (ids @ [i]) crs))"

definition row_of_edge :: "int \<Rightarrow> tree_edge \<Rightarrow> mapping_row" where
  "row_of_edge from m =
     \<lparr>cm_from = from, cm_to_framework = te_ToFramework m, cm_to_version = te_ToVersion m, cm_to_norm = te_ToNorm m,
      cm_to_control = None, cm_source = te_Source m, cm_relationship = te_Relationship m, cm_provenance = te_Provenance m\<rparr>"

definition insert_edge :: "norm_env \<Rightarrow> int list \<Rightarrow> tree_edge \<Rightarrow> ('v, 'sp, unit) norm_act" where
  "insert_edge ev ids m =
     (if length ids \<le> te_FromIdx m then fail IndexPanic
      else stmt (ev_fault ev) (MappingErr (te_FromIdx m)) (on_corpus (UpsertControlMapping (row_of_edge (ids ! te_FromIdx m) m))))"

definition docKey :: "doc_identity \<Rightarrow> string" where
  "docKey doc = di_Framework doc @ ''|'' @ di_Version doc @ ''|'' @ di_Role doc
     @ (if di_Qual doc \<noteq> [] then '':'' @ di_Qual doc else [])"

definition doc_params :: "doc_identity \<Rightarrow> tree \<Rightarrow> doc_row" where
  "doc_params doc t =
     \<lparr>d_id = 0, d_key = docKey doc, d_framework = di_Framework doc, d_version = di_Version doc, d_role = di_Role doc,
      d_qualifier = di_Qual doc, d_title = tr_Title t, d_sha = di_Sha doc, d_gate = di_Gate doc, d_mapedged = False\<rparr>"

definition writeTree :: "norm_env \<Rightarrow> doc_identity \<Rightarrow> tree \<Rightarrow> ('v, 'sp, unit) norm_act" where
  "writeTree ev doc t =
     bind (try_act (loadTitleMap ev (di_Framework doc) (di_Version doc))) (\<lambda>tm.
     let titles = (case tm of Inl _ \<Rightarrow> (\<lambda>_. None) | Inr m \<Rightarrow> m) in
     bind (stmt (ev_fault ev) UpsertDocErr (on_corpus (UpsertDocument (doc_params doc t)))) (\<lambda>sdoc.
     bind (stmt (ev_fault ev) CountErr (on_corpus (CountMappingsForDocument (d_id sdoc)))) (\<lambda>edgesBefore.
     bind (stmt (ev_fault ev) DeleteErr (on_corpus (DeleteControlsForDocument (d_id sdoc)))) (\<lambda>_.
     case find_dup 0 [] (map cn_Norm (tr_Controls t)) of
       Some (x, i, j) \<Rightarrow> fail (DuplicateNorm x i j)
     | None \<Rightarrow>
         bind (insert_controls ev (d_id sdoc) titles (length (tr_Controls t)) [] (tr_Controls t)) (\<lambda>ids.
         bind (each (insert_edge ev ids) (tr_Mappings t)) (\<lambda>_.
         bind (stmt (ev_fault ev) ResolveErr (on_corpus ResolveControlMappings)) (\<lambda>_.
         stmt (ev_fault ev) MarkErr (MarkNormalized (di_ManifestID doc)))))))))"

section \<open>The stage per scheme\<close>

text \<open>Load the capture, build the tree, write it.\<close>

definition identity_of :: "manifest_row \<Rightarrow> source_row \<Rightarrow> doc_identity" where
  "identity_of f sf =
     \<lparr>di_ManifestID = mf_id f, di_RelPath = mf_rel f, di_Sha = mf_sha f, di_Framework = deref (mf_framework f),
      di_Version = deref (mf_version f), di_Role = deref (mf_role f), di_Qual = mf_qualifier f, di_Gate = sf_gate sf\<rparr>"

definition load_capture :: "norm_env \<Rightarrow> string \<Rightarrow> manifest_row \<Rightarrow> ('v, 'sp, source_row \<times> raw_row) norm_act" where
  "load_capture ev kind f =
     bind (stmt (ev_fault ev) SourceFileErr (GetSourceFile (mf_rel f) (mf_sha f))) (\<lambda>sf.
     bind (stmt (ev_fault ev) RawExtractErr (GetRawExtract (sf_id sf) kind)) (\<lambda>re. ret (sf, re)))"

definition write_built :: "norm_env \<Rightarrow> builder \<Rightarrow> manifest_row \<Rightarrow> source_row \<Rightarrow> raw_row \<Rightarrow> ('v, 'sp, unit) norm_act" where
  "write_built ev build f sf re =
     (case build (rw_content re) (deref (mf_framework f)) (deref (mf_version f)) of
        Inl e \<Rightarrow> fail (build_err e)
      | Inr t \<Rightarrow> writeTree ev (identity_of f sf) t)"

definition normalize_capture :: "norm_env \<Rightarrow> string \<Rightarrow> builder \<Rightarrow> manifest_row \<Rightarrow> ('v, 'sp, unit) norm_act" where
  "normalize_capture ev kind build f = bind (load_capture ev kind f) (\<lambda>(sf, re). write_built ev build f sf re)"

definition normalizeOSCAL :: "norm_env \<Rightarrow> manifest_row \<Rightarrow> ('v, 'sp, unit) norm_act" where
  "normalizeOSCAL ev = normalize_capture ev ''oscal-catalog-json'' (nb_OSCAL (ev_build ev))"

definition normalizeCSF :: "norm_env \<Rightarrow> manifest_row \<Rightarrow> ('v, 'sp, unit) norm_act" where
  "normalizeCSF ev f =
     bind (load_capture ev ''workbook-rows-json'' f) (\<lambda>(sf, re).
     bind (stmt (ev_fault ev) RefSourcesErr (ListReferenceSources (ev_col ev))) (\<lambda>refSources.
     write_built ev (nb_CSF (ev_build ev) refSources) f sf re))"

definition normalizeCIS :: "norm_env \<Rightarrow> manifest_row \<Rightarrow> ('v, 'sp, unit) norm_act" where
  "normalizeCIS ev = normalize_capture ev ''workbook-rows-json'' (nb_CIS (ev_build ev))"

definition normalizeCCM :: "norm_env \<Rightarrow> manifest_row \<Rightarrow> ('v, 'sp, unit) norm_act" where
  "normalizeCCM ev = normalize_capture ev ''workbook-rows-json'' (nb_CCM (ev_build ev))"

definition normalizePCI :: "norm_env \<Rightarrow> manifest_row \<Rightarrow> ('v, 'sp, unit) norm_act" where
  "normalizePCI ev = normalize_capture ev ''pdf-pages-json'' (nb_PCI (ev_build ev))"

definition normalizeTSC :: "norm_env \<Rightarrow> manifest_row \<Rightarrow> ('v, 'sp, unit) norm_act" where
  "normalizeTSC ev = normalize_capture ev ''pdf-pages-json'' (nb_TSC (ev_build ev))"

definition normalizeCOBIT :: "norm_env \<Rightarrow> manifest_row \<Rightarrow> ('v, 'sp, unit) norm_act" where
  "normalizeCOBIT ev = normalize_capture ev ''pdf-pages-json'' (nb_COBIT (ev_build ev))"

definition normalizeISOAMS :: "norm_env \<Rightarrow> manifest_row \<Rightarrow> ('v, 'sp, unit) norm_act" where
  "normalizeISOAMS ev = normalize_capture ev ''pdf-pages-json'' (nb_ISO27001 (ev_build ev))"

definition normalizeISOAmendment :: "norm_env \<Rightarrow> manifest_row \<Rightarrow> ('v, 'sp, unit) norm_act" where
  "normalizeISOAmendment ev = normalize_capture ev ''pdf-pages-json'' (nb_ISOAmendment (ev_build ev))"

definition normalizeISOControlCatalog :: "norm_env \<Rightarrow> manifest_row \<Rightarrow> ('v, 'sp, unit) norm_act" where
  "normalizeISOControlCatalog ev = normalize_capture ev ''pdf-pages-json'' (nb_ISOControlCatalog (ev_build ev))"

definition normalizeTCVN11930 :: "norm_env \<Rightarrow> manifest_row \<Rightarrow> ('v, 'sp, unit) norm_act" where
  "normalizeTCVN11930 ev = normalize_capture ev ''pdf-pages-json'' (nb_TCVN11930 (ev_build ev))"

definition normalizeTCVN14423 :: "norm_env \<Rightarrow> manifest_row \<Rightarrow> ('v, 'sp, unit) norm_act" where
  "normalizeTCVN14423 ev = normalize_capture ev ''txt-pages-json'' (nb_TCVN14423 (ev_build ev))"

section \<open>The run\<close>

datatype verdict = Succeeded | Failed | Skipped

record norm_summary =
  ns_Succeeded :: nat
  ns_Failed :: nat
  ns_Skipped :: nat

text \<open>
  The stage error is recorded on the manifest row; a failure to record it is ignored.  A panic and a
  builder that never returns are not error values: they end the run.
\<close>

definition stage_message :: "norm_env \<Rightarrow> manifest_row \<Rightarrow> norm_err \<Rightarrow> string" where
  "stage_message ev f e =
     (if e = FrameworkErr then ''normalize: cannot load framework '' @ ev_quote ev (deref (mf_framework f)) @ '': '' @ ev_msg ev e
      else ''normalize: '' @ mf_rel f @ '': '' @ ev_msg ev e)"

definition record_error :: "norm_env \<Rightarrow> manifest_row \<Rightarrow> norm_err \<Rightarrow> ('v, 'sp, verdict) norm_act" where
  "record_error ev f e =
     bind (try_act (stmt (ev_fault ev) MarkErr (SetStageError (mf_id f) (stage_message ev f e)))) (\<lambda>_. ret Failed)"

definition run_one :: "norm_env \<Rightarrow> manifest_row \<Rightarrow> ('v, 'sp, unit) norm_act \<Rightarrow> ('v, 'sp, verdict) norm_act" where
  "run_one ev f m = bind (try_act m) (\<lambda>r. case r of
       Inl e \<Rightarrow> if fatal e then fail e else record_error ev f e
     | Inr _ \<Rightarrow> ret Succeeded)"

definition by_scheme :: "norm_env \<Rightarrow> manifest_row \<Rightarrow> string \<Rightarrow> string \<Rightarrow> ('v, 'sp, unit) norm_act option" where
  "by_scheme ev f fwCode scheme =
     (if scheme = ''oscal-catalog'' then Some (normalizeOSCAL ev f)
      else if scheme = ''csf-workbook'' then Some (normalizeCSF ev f)
      else if scheme = ''cis-workbook'' then Some (normalizeCIS ev f)
      else if scheme = ''ccm-workbook'' then Some (normalizeCCM ev f)
      else if scheme = ''pci-requirement'' then Some (normalizePCI ev f)
      else if scheme = ''tsc-criteria'' then Some (normalizeTSC ev f)
      else if scheme = ''cobit-objective'' then Some (normalizeCOBIT ev f)
      else if scheme = ''iso-ams'' then Some (normalizeISOAMS ev f)
      else if scheme = ''iso-control-catalog'' then Some (normalizeISOControlCatalog ev f)
      else if scheme = ''tcvn-clause'' then
        (if fwCode = ''tcvn11930'' then Some (normalizeTCVN11930 ev f)
         else if fwCode = ''tcvn14423'' then Some (normalizeTCVN14423 ev f)
         else None)
      else None)"

definition run_main :: "norm_env \<Rightarrow> manifest_row \<Rightarrow> string \<Rightarrow> ('v, 'sp, verdict) norm_act" where
  "run_main ev f fwCode =
     bind (try_act (stmt (ev_fault ev) FrameworkErr (GetFramework fwCode))) (\<lambda>r.
     case r of
       Inl e \<Rightarrow> record_error ev f e
     | Inr fw \<Rightarrow> (case by_scheme ev f fwCode (fw_scheme fw) of None \<Rightarrow> ret Skipped | Some m \<Rightarrow> run_one ev f m))"

definition run_amendment :: "norm_env \<Rightarrow> manifest_row \<Rightarrow> string \<Rightarrow> ('v, 'sp, verdict) norm_act" where
  "run_amendment ev f fwCode =
     bind (try_act (stmt (ev_fault ev) FrameworkErr (GetFramework fwCode))) (\<lambda>r.
     case r of
       Inl _ \<Rightarrow> ret Skipped
     | Inr fw \<Rightarrow>
         if fw_scheme fw \<noteq> ''iso-ams'' then ret Skipped
         else bind (try_act (stmt (ev_fault ev) KeyErr
                (on_corpus (GetDocumentByKey (fwCode @ ''|'' @ deref (mf_version f) @ ''|main''))))) (\<lambda>base.
              case base of Inl _ \<Rightarrow> ret Skipped | Inr _ \<Rightarrow> run_one ev f (normalizeISOAmendment ev f)))"

definition run_file :: "norm_env \<Rightarrow> manifest_row \<Rightarrow> ('v, 'sp, verdict) norm_act" where
  "run_file ev f =
     (let fwCode = deref (mf_framework f); role = deref (mf_role f) in
      if fwCode = [] then ret Skipped
      else if role \<noteq> ''main'' then (if role = ''amendment'' then run_amendment ev f fwCode else ret Skipped)
      else run_main ev f fwCode)"

definition count_verdicts :: "verdict list \<Rightarrow> norm_summary" where
  "count_verdicts vs =
     \<lparr>ns_Succeeded = length (filter (\<lambda>v. v = Succeeded) vs), ns_Failed = length (filter (\<lambda>v. v = Failed) vs),
      ns_Skipped = length (filter (\<lambda>v. v = Skipped) vs)\<rparr>"

definition Run :: "norm_env \<Rightarrow> manifest_row list \<Rightarrow> ('v, 'sp, norm_summary) norm_act" where
  "Run ev files = bind (each (run_file ev) files) (\<lambda>vs. ret (count_verdicts vs))"

end
