(* ===== verification/Oscal.thy ===== *)
theory Oscal
  imports Normalize Citation
begin

text \<open>
  The tree builder for OSCAL catalogs (\<open>pkg/normalize/oscal.go\<close>): decoding, labels, the id index, link
  resolution, rendering of parameter inserts, and the recursive walk.

  \<open>renderInserts\<close> searches its own output again, so it may run for ever on catalogs whose parameters insert
  each other; it is a partial function, and None, not returning, passes up to \<open>BuildOSCALTree\<close>.  An insert
  with no space before the closing braces slices out of range, which is a panic.
\<close>

section \<open>The catalog\<close>

record oscal_prop =
  pr_Name :: string
  pr_Value :: string

record oscal_select =
  se_HowMany :: string
  se_Choice :: "string list"

record oscal_param =
  pa_ID :: string
  pa_Label :: string
  pa_Select :: "oscal_select option"

record oscal_link =
  lk_Href :: string
  lk_Rel :: string

datatype oscal_part = Oscal_Part (op_ID: string) (op_Name: string) (op_Prose: string) (op_Parts: "oscal_part list")

datatype oscal_control =
  Oscal_Control (oc_ID: string) (oc_Title: string) (oc_Props: "oscal_prop list") (oc_Params: "oscal_param list")
    (oc_Parts: "oscal_part list") (oc_Links: "oscal_link list") (oc_Controls: "oscal_control list")

record oscal_group =
  og_ID :: string
  og_Title :: string
  og_Props :: "oscal_prop list"
  og_Controls :: "oscal_control list"

record oscal_catalog =
  ca_Title :: string
  ca_Groups :: "oscal_group list option"
  ca_Params :: "oscal_param list"

section \<open>Decoding\<close>

definition dec_prop :: "json \<Rightarrow> oscal_prop option" where
  "dec_prop = dec_obj (\<lambda>kvs.
     case dec_str_field ''name'' kvs of None \<Rightarrow> None | Some n \<Rightarrow>
     case dec_str_field ''value'' kvs of None \<Rightarrow> None | Some v \<Rightarrow> Some \<lparr>pr_Name = n, pr_Value = v\<rparr>)"

definition dec_select :: "(string \<times> json) list \<Rightarrow> oscal_select option" where
  "dec_select kvs =
     (case dec_str_field ''how-many'' kvs of None \<Rightarrow> None | Some h \<Rightarrow>
      case dec_list_field dec_str ''choice'' kvs of None \<Rightarrow> None | Some c \<Rightarrow> Some \<lparr>se_HowMany = h, se_Choice = c\<rparr>)"

text \<open>A pointer field: null and missing are nil.\<close>

definition dec_ptr_field :: "((string \<times> json) list \<Rightarrow> 'a option) \<Rightarrow> string \<Rightarrow> (string \<times> json) list \<Rightarrow> 'a option option" where
  "dec_ptr_field d name kvs =
     (case jfield name kvs of None \<Rightarrow> Some None | Some JNull \<Rightarrow> Some None | Some j \<Rightarrow> map_option Some (dec_obj d j))"

definition dec_param :: "json \<Rightarrow> oscal_param option" where
  "dec_param = dec_obj (\<lambda>kvs.
     case dec_str_field ''id'' kvs of None \<Rightarrow> None | Some i \<Rightarrow>
     case dec_str_field ''label'' kvs of None \<Rightarrow> None | Some l \<Rightarrow>
     case dec_ptr_field dec_select ''select'' kvs of None \<Rightarrow> None | Some s \<Rightarrow>
       Some \<lparr>pa_ID = i, pa_Label = l, pa_Select = s\<rparr>)"

definition dec_link :: "json \<Rightarrow> oscal_link option" where
  "dec_link = dec_obj (\<lambda>kvs.
     case dec_str_field ''href'' kvs of None \<Rightarrow> None | Some h \<Rightarrow>
     case dec_str_field ''rel'' kvs of None \<Rightarrow> None | Some r \<Rightarrow> Some \<lparr>lk_Href = h, lk_Rel = r\<rparr>)"

function dec_part :: "json \<Rightarrow> oscal_part option" where
  "dec_part (JObj kvs) =
     (case dec_str_field ''id'' kvs of None \<Rightarrow> None | Some i \<Rightarrow>
      case dec_str_field ''name'' kvs of None \<Rightarrow> None | Some n \<Rightarrow>
      case dec_str_field ''prose'' kvs of None \<Rightarrow> None | Some p \<Rightarrow>
      case dec_list_field dec_part ''parts'' kvs of None \<Rightarrow> None | Some ps \<Rightarrow> Some (Oscal_Part i n p ps))"
| "dec_part JNull = Some (Oscal_Part [] [] [] [])"
| "dec_part (JBool b) = None"
| "dec_part (JNum n) = None"
| "dec_part (JStr s) = None"
| "dec_part (JArr xs) = None"
  by pat_completeness auto
termination by (relation "measure size") auto

function dec_control :: "json \<Rightarrow> oscal_control option" where
  "dec_control (JObj kvs) =
     (case dec_str_field ''id'' kvs of None \<Rightarrow> None | Some i \<Rightarrow>
      case dec_str_field ''title'' kvs of None \<Rightarrow> None | Some t \<Rightarrow>
      case dec_list_field dec_prop ''props'' kvs of None \<Rightarrow> None | Some ps \<Rightarrow>
      case dec_list_field dec_param ''params'' kvs of None \<Rightarrow> None | Some qs \<Rightarrow>
      case dec_list_field dec_part ''parts'' kvs of None \<Rightarrow> None | Some rs \<Rightarrow>
      case dec_list_field dec_link ''links'' kvs of None \<Rightarrow> None | Some ls \<Rightarrow>
      case dec_list_field dec_control ''controls'' kvs of None \<Rightarrow> None | Some cs \<Rightarrow>
        Some (Oscal_Control i t ps qs rs ls cs))"
| "dec_control JNull = Some (Oscal_Control [] [] [] [] [] [] [])"
| "dec_control (JBool b) = None"
| "dec_control (JNum n) = None"
| "dec_control (JStr s) = None"
| "dec_control (JArr xs) = None"
  by pat_completeness auto
termination by (relation "measure size") auto

definition dec_group :: "json \<Rightarrow> oscal_group option" where
  "dec_group = dec_obj (\<lambda>kvs.
     case dec_str_field ''id'' kvs of None \<Rightarrow> None | Some i \<Rightarrow>
     case dec_str_field ''title'' kvs of None \<Rightarrow> None | Some t \<Rightarrow>
     case dec_list_field dec_prop ''props'' kvs of None \<Rightarrow> None | Some ps \<Rightarrow>
     case dec_list_field dec_control ''controls'' kvs of None \<Rightarrow> None | Some cs \<Rightarrow>
       Some \<lparr>og_ID = i, og_Title = t, og_Props = ps, og_Controls = cs\<rparr>)"

definition dec_metadata :: "(string \<times> json) list \<Rightarrow> string option" where
  "dec_metadata kvs =
     (case dec_str_field ''title'' kvs of None \<Rightarrow> None | Some t \<Rightarrow>
      case dec_str_field ''version'' kvs of None \<Rightarrow> None | Some _ \<Rightarrow> Some t)"

definition dec_catalog :: "(string \<times> json) list \<Rightarrow> oscal_catalog option" where
  "dec_catalog kvs =
     (case dec_obj_field dec_metadata ''metadata'' kvs of None \<Rightarrow> None | Some t \<Rightarrow>
      case dec_slice_field dec_group ''groups'' kvs of None \<Rightarrow> None | Some gs \<Rightarrow>
      case dec_list_field dec_param ''params'' kvs of None \<Rightarrow> None | Some ps \<Rightarrow>
        Some \<lparr>ca_Title = t, ca_Groups = gs, ca_Params = ps\<rparr>)"

definition dec_document :: "json \<Rightarrow> oscal_catalog option" where
  "dec_document = dec_obj (dec_obj_field dec_catalog ''catalog'')"

section \<open>Labels and links\<close>

definition label_of :: "oscal_prop list \<Rightarrow> string \<Rightarrow> string" where
  "label_of ps i = (case List.find (\<lambda>p. pr_Name p = ''label'') ps of Some p \<Rightarrow> pr_Value p | None \<Rightarrow> to_upper i)"

definition groupLabel :: "oscal_group \<Rightarrow> string" where
  "groupLabel g = label_of (og_Props g) (og_ID g)"

definition controlLabel :: "oscal_control \<Rightarrow> string" where
  "controlLabel c = label_of (oc_Props c) (oc_ID c)"

definition controlStatus :: "oscal_control \<Rightarrow> string" where
  "controlStatus c =
     (if list_ex (\<lambda>p. pr_Name p = ''status'' \<and> pr_Value p = ''withdrawn'') (oc_Props c) then ''withdrawn'' else ''active'')"

definition citation_norm :: "string \<Rightarrow> string" where
  "citation_norm label = to_upper (filter (\<lambda>c. c \<noteq> CHR '' '') label)"

function (sequential) buildIDIndex :: "oscal_control list \<Rightarrow> (string \<rightharpoonup> string) \<Rightarrow> (string \<rightharpoonup> string)" where
  "buildIDIndex [] idx = idx"
| "buildIDIndex (c # cs) idx = buildIDIndex cs (buildIDIndex (oc_Controls c) (idx(oc_ID c \<mapsto> controlLabel c)))"
  by pat_completeness auto
termination
proof (relation "measure (\<lambda>(cs, _). size_list size cs)")
  fix c :: oscal_control and cs :: "oscal_control list" and idx :: "string \<rightharpoonup> string"
  show "((oc_Controls c, idx(oc_ID c \<mapsto> controlLabel c)), (c # cs, idx)) \<in> measure (\<lambda>(cs, _). size_list size cs)"
    by (cases c) simp
qed auto

function (sequential) add_params :: "oscal_control list \<Rightarrow> (string \<rightharpoonup> oscal_param) \<Rightarrow> (string \<rightharpoonup> oscal_param)" where
  "add_params [] idx = idx"
| "add_params (c # cs) idx =
     add_params cs (add_params (oc_Controls c) (fold (\<lambda>p m. m(pa_ID p \<mapsto> p)) (oc_Params c) idx))"
  by pat_completeness auto
termination
proof (relation "measure (\<lambda>(cs, _). size_list size cs)")
  fix c :: oscal_control and cs :: "oscal_control list" and idx :: "string \<rightharpoonup> oscal_param"
  show "((oc_Controls c, fold (\<lambda>p m. m(pa_ID p \<mapsto> p)) (oc_Params c) idx), (c # cs, idx)) \<in> measure (\<lambda>(cs, _). size_list size cs)"
    by (cases c) simp
qed auto

definition addControlParams :: "oscal_control \<Rightarrow> (string \<rightharpoonup> oscal_param) \<Rightarrow> (string \<rightharpoonup> oscal_param)" where
  "addControlParams c = add_params [c]"

definition resolveHref :: "string \<Rightarrow> (string \<rightharpoonup> string) \<Rightarrow> string" where
  "resolveHref href idToLabel =
     (let t = (if has_prefix ''#'' href then drop 1 href else href);
          t' = takeWhile (\<lambda>c. c \<noteq> CHR ''_'') t;
          target = (if t' = [] then t else t')
      in case idToLabel target of None \<Rightarrow> [] | Some label \<Rightarrow> citation_norm label)"

section \<open>Parameter inserts\<close>

definition insert_start :: string where
  "insert_start = ''{{ insert: param, ''"

definition insert_end :: string where
  "insert_end = '' }}''"

definition renderParam :: "string \<Rightarrow> (string \<rightharpoonup> oscal_param) \<Rightarrow> string" where
  "renderParam paramID paramIdx =
     (case paramIdx paramID of
        None \<Rightarrow> ''[Assignment: '' @ paramID @ '']''
      | Some p \<Rightarrow>
          (case pa_Select p of
             Some s \<Rightarrow>
               if se_Choice s \<noteq> [] then
                 (if se_HowMany s = ''one-or-more'' then ''[Selection (one or more): '' @ join ''; '' (se_Choice s) @ '']''
                  else ''[Selection: '' @ join ''; '' (se_Choice s) @ '']'')
               else if pa_Label p \<noteq> [] then ''[Assignment: '' @ pa_Label p @ '']''
               else ''[Assignment: '' @ paramID @ '']''
           | None \<Rightarrow>
               if pa_Label p \<noteq> [] then ''[Assignment: '' @ pa_Label p @ '']''
               else ''[Assignment: '' @ paramID @ '']''))"

text \<open>The next insert of a text: none, one whose slice is out of range, or its surroundings and inner text.\<close>

datatype insert_found = No_Insert | Bad_Insert | Insert string string string

definition find_insert :: "string \<Rightarrow> insert_found" where
  "find_insert s =
     (case find_sub insert_start s of None \<Rightarrow> No_Insert
      | Some (pre, rest) \<Rightarrow>
          (case find_sub insert_end (insert_start @ rest) of None \<Rightarrow> No_Insert
           | Some (seg, post) \<Rightarrow>
               if length seg < length insert_start then Bad_Insert
               else Insert pre (drop (length insert_start) seg) post))"

text \<open>None inside is the panic.\<close>

partial_function (option) renderInserts :: "(string \<rightharpoonup> oscal_param) \<Rightarrow> string \<Rightarrow> string option option" where
  "renderInserts paramIdx result =
     (case find_insert result of
        No_Insert \<Rightarrow> Some (Some result)
      | Bad_Insert \<Rightarrow> Some None
      | Insert pre inner post \<Rightarrow> renderInserts paramIdx (pre @ renderParam (trim_space inner) paramIdx @ post))"

definition rendered :: "(string \<rightharpoonup> oscal_param) \<Rightarrow> string \<Rightarrow> build_fail + string" where
  "rendered paramIdx prose =
     (case renderInserts paramIdx prose of None \<Rightarrow> Inl Never | Some None \<Rightarrow> Inl Panics | Some (Some s) \<Rightarrow> Inr s)"

section \<open>Bodies\<close>

fun try_map :: "('a \<Rightarrow> 'e + 'b) \<Rightarrow> 'a list \<Rightarrow> 'e + 'b list" where
  "try_map f [] = Inr []"
| "try_map f (x # xs) =
     (case f x of Inl e \<Rightarrow> Inl e | Inr y \<Rightarrow> (case try_map f xs of Inl e \<Rightarrow> Inl e | Inr ys \<Rightarrow> Inr (y # ys)))"

fun try_fold :: "('a \<Rightarrow> 's \<Rightarrow> 'e + 's) \<Rightarrow> 'a list \<Rightarrow> 's \<Rightarrow> 'e + 's" where
  "try_fold f [] s = Inr s"
| "try_fold f (x # xs) s = (case f x s of Inl e \<Rightarrow> Inl e | Inr s' \<Rightarrow> try_fold f xs s')"

lemma try_map_cong [fundef_cong]:
  "xs = ys \<Longrightarrow> (\<And>x. x \<in> set ys \<Longrightarrow> f x = g x) \<Longrightarrow> try_map f xs = try_map g ys"
  by (induction ys arbitrary: xs) (auto cong: sum.case_cong)

lemma try_fold_cong [fundef_cong]:
  "xs = ys \<Longrightarrow> s = t \<Longrightarrow> (\<And>x u. x \<in> set ys \<Longrightarrow> f x u = g x u) \<Longrightarrow> try_fold f xs s = try_fold g ys t"
  by (induction ys arbitrary: xs s t) (auto cong: sum.case_cong)

definition newline :: string where
  "newline = [CHR 0x0A]"

fun flattenPart :: "oscal_part \<Rightarrow> (string \<rightharpoonup> oscal_param) \<Rightarrow> string \<Rightarrow> build_fail + string" where
  "flattenPart (Oscal_Part i n prose subs) paramIdx indent =
     (case (if prose = [] then Inr [] else map_sum id (\<lambda>r. [indent @ r]) (rendered paramIdx prose)) of
        Inl e \<Rightarrow> Inl e
      | Inr lines \<Rightarrow>
          (case try_map (\<lambda>sub. flattenPart sub paramIdx (indent @ ''  '')) subs of
             Inl e \<Rightarrow> Inl e
           | Inr texts \<Rightarrow> Inr (join newline (lines @ filter (\<lambda>t. t \<noteq> []) texts))))"

definition buildBody :: "oscal_control \<Rightarrow> (string \<rightharpoonup> oscal_param) \<Rightarrow> build_fail + string option" where
  "buildBody c paramIdx =
     (case try_map (\<lambda>p. flattenPart p paramIdx []) (filter (\<lambda>p. op_Name p = ''statement'' \<or> op_Name p = ''guidance'') (oc_Parts c)) of
        Inl e \<Rightarrow> Inl e
      | Inr texts \<Rightarrow>
          (let parts = filter (\<lambda>t. t \<noteq> []) texts
           in Inr (if parts = [] then None else Some (join (newline @ newline) parts))))"

section \<open>The walk\<close>

record walk =
  wk_tree :: tree
  wk_params :: "string \<rightharpoonup> oscal_param"
  wk_ordinal :: int

definition row_for :: "string \<Rightarrow> string \<Rightarrow> string \<Rightarrow> string \<Rightarrow> string option \<Rightarrow> int \<Rightarrow> int \<Rightarrow> control_node" where
  "row_for label kind status title body parent ordinal =
     \<lparr>cn_Citation = label, cn_Norm = citation_norm label, cn_Kind = kind, cn_Status = status, cn_Title = title,
      cn_TitleOriginal = Some title, cn_Body = body, cn_ParentIdx = parent, cn_Ordinal = ordinal, cn_Amends = None,
      cn_Action = None\<rparr>"

definition add_row :: "control_node \<Rightarrow> walk \<Rightarrow> walk" where
  "add_row r w = w\<lparr>wk_tree := (wk_tree w)\<lparr>tr_Controls := tr_Controls (wk_tree w) @ [r]\<rparr>, wk_ordinal := wk_ordinal w + 1\<rparr>"

text \<open>The links of a withdrawn control: an edge, or an unresolved link.\<close>

definition withdrawn_link ::
  "string \<Rightarrow> string \<Rightarrow> (string \<rightharpoonup> string) \<Rightarrow> string \<Rightarrow> nat \<Rightarrow> oscal_link \<Rightarrow> tree \<Rightarrow> tree" where
  "withdrawn_link fw v idToLabel label thisIdx link t =
     (if lk_Rel link = ''incorporated-into'' \<or> lk_Rel link = ''moved-to'' then
        (let targetNorm = resolveHref (lk_Href link) idToLabel in
         if targetNorm = [] then t\<lparr>tr_Unresolved := tr_Unresolved t @ [\<lparr>ul_Citation = label, ul_Href = lk_Href link\<rparr>]\<rparr>
         else t\<lparr>tr_Mappings := tr_Mappings t @
           [\<lparr>te_FromIdx = thisIdx, te_ToFramework = fw, te_ToVersion = Some v, te_ToNorm = targetNorm,
             te_Source = ''publisher-catalog'', te_Relationship = lk_Rel link, te_Provenance = lk_Href link\<rparr>]\<rparr>)
      else t)"

fun walkOSCALControls ::
  "string \<Rightarrow> string \<Rightarrow> (string \<rightharpoonup> string) \<Rightarrow> int \<Rightarrow> string \<Rightarrow> oscal_control \<Rightarrow> walk \<Rightarrow> build_fail + walk" where
  "walkOSCALControls fw v idToLabel parentIdx kind (Oscal_Control i title props params parts links subs) w =
     (let c = Oscal_Control i title props params parts links subs;
          thisIdx = length (tr_Controls (wk_tree w)); label = controlLabel c; status = controlStatus c in
      case buildBody c (wk_params w) of
        Inl e \<Rightarrow> Inl e
      | Inr body \<Rightarrow>
          (let w1 = add_row (row_for label kind status title body parentIdx (wk_ordinal w)) w;
               w2 = (if status = ''withdrawn''
                     then w1\<lparr>wk_tree := fold (withdrawn_link fw v idToLabel label thisIdx) links (wk_tree w1)\<rparr> else w1)
           in try_fold (\<lambda>sub u. walkOSCALControls fw v idToLabel (int thisIdx) ''enhancement'' sub
                                   (u\<lparr>wk_params := addControlParams sub (wk_params u)\<rparr>)) subs w2))"

definition walk_group ::
  "string \<Rightarrow> string \<Rightarrow> (string \<rightharpoonup> string) \<Rightarrow> oscal_group \<Rightarrow> walk \<Rightarrow> build_fail + walk" where
  "walk_group fw v idToLabel g w =
     (let familyIdx = length (tr_Controls (wk_tree w));
          w1 = add_row (row_for (groupLabel g) ''family'' ''active'' (og_Title g) None (-1) (wk_ordinal w)) w;
          w2 = w1\<lparr>wk_params := fold addControlParams (og_Controls g) (wk_params w1)\<rparr>
      in try_fold (walkOSCALControls fw v idToLabel (int familyIdx) ''control'') (og_Controls g) w2)"

text \<open>The message of a decoding error is cut short: the text of \<open>encoding/json\<close> is left out.\<close>

definition BuildOSCALTree :: builder where
  "BuildOSCALTree raw fw v =
     (case Option.bind raw dec_document of
        None \<Rightarrow> Inl (Rejected ''unmarshal catalog'')
      | Some cat \<Rightarrow>
          if ca_Title cat = [] then Inl (Rejected ''missing catalog.metadata.title'')
          else (case ca_Groups cat of
            None \<Rightarrow> Inl (Rejected ''missing catalog.groups'')
          | Some groups \<Rightarrow>
              let paramIdx = fold (\<lambda>p m. m(pa_ID p \<mapsto> p)) (ca_Params cat) Map.empty;
                  idToLabel = fold (\<lambda>g m. buildIDIndex (og_Controls g) (m(og_ID g \<mapsto> groupLabel g))) groups Map.empty;
                  start = \<lparr>wk_tree = \<lparr>tr_Title = ca_Title cat, tr_Controls = [], tr_Mappings = [], tr_Unresolved = [],
                              tr_RefSkips = None\<rparr>, wk_params = paramIdx, wk_ordinal = 0\<rparr>
              in map_sum id wk_tree (try_fold (walk_group fw v idToLabel) groups start)))"

end
