(* ===== verification/Normalize_Props.thy ===== *)
theory Normalize_Props
  imports Normalize
begin

text \<open>
  The invariant of the silver tables and its preservation by every statement and action of the normalize
  stage, and what \<open>writeTree\<close> leaves behind when it succeeds.
\<close>

section \<open>The invariant of the silver tables\<close>

text \<open>
  Beyond keys and references it says that a parent is an older control of the same document; this is what
  makes the deletion of a document's controls stay inside the document, and the walk to the root end.
\<close>

definition control_key :: "control_row \<Rightarrow> int \<times> string" where
  "control_key c = (sc_document c, sc_citation c)"

definition parent_ok :: "('v, 'sp) corpus \<Rightarrow> control_row \<Rightarrow> bool" where
  "parent_ok db c \<longleftrightarrow> (\<forall>p. sc_parent c = Some p \<longrightarrow>
     p < sc_id c \<and> (\<exists>c' \<in> set (controls db). sc_id c' = p \<and> sc_document c' = sc_document c))"

definition silver_wf :: "('v, 'sp) corpus \<Rightarrow> bool" where
  "silver_wf db \<longleftrightarrow>
     distinct (map d_id (documents db)) \<and> (\<forall>d \<in> set (documents db). d_id d < next_doc db)
   \<and> distinct (map d_key (documents db))
   \<and> distinct (map sc_id (controls db)) \<and> (\<forall>c \<in> set (controls db). 0 < sc_id c \<and> sc_id c < next_control db)
   \<and> 0 < next_control db
   \<and> distinct (map control_key (controls db))
   \<and> (\<forall>c \<in> set (controls db). sc_document c \<in> d_id ` set (documents db) \<and> parent_ok db c)
   \<and> distinct (map mapping_key (mappings db))
   \<and> (\<forall>m \<in> set (mappings db). cm_from m \<in> sc_id ` set (controls db)
        \<and> (\<forall>t. cm_to_control m = Some t \<longrightarrow> t \<in> sc_id ` set (controls db)))"

lemma silver_wfD:
  assumes "silver_wf db"
  shows "distinct (map d_id (documents db))" "distinct (map d_key (documents db))"
    "distinct (map sc_id (controls db))" "distinct (map control_key (controls db))"
    "distinct (map mapping_key (mappings db))" "0 < next_control db"
    "\<And>d. d \<in> set (documents db) \<Longrightarrow> d_id d < next_doc db"
    "\<And>c. c \<in> set (controls db) \<Longrightarrow> 0 < sc_id c \<and> sc_id c < next_control db"
    "\<And>c. c \<in> set (controls db) \<Longrightarrow> sc_document c \<in> d_id ` set (documents db)"
    "\<And>c. c \<in> set (controls db) \<Longrightarrow> parent_ok db c"
    "\<And>m. m \<in> set (mappings db) \<Longrightarrow> cm_from m \<in> sc_id ` set (controls db)"
    "\<And>m t. m \<in> set (mappings db) \<Longrightarrow> cm_to_control m = Some t \<Longrightarrow> t \<in> sc_id ` set (controls db)"
  using assms by (auto simp: silver_wf_def)

text \<open>An update of the documents that keeps their identifiers and keys.\<close>

lemma silver_wf_documents:
  assumes "silver_wf db" and "map d_id ds = map d_id (documents db)" and "map d_key ds = map d_key (documents db)"
  shows "silver_wf (db\<lparr>documents := ds\<rparr>)"
proof -
  have "d_id ` set ds = d_id ` set (documents db)" using assms(2) by (metis set_map)
  moreover from this have "\<forall>d \<in> set ds. d_id d < next_doc db"
    using silver_wfD(7) [OF assms(1)] by (metis imageE imageI)
  ultimately show ?thesis
    using assms by (simp add: silver_wf_def parent_ok_def)
qed

lemma UpsertDocument_wf:
  assumes "silver_wf db" and "UpsertDocument p db = Some (d, db')"
  shows "silver_wf db'"
proof (cases "List.find (\<lambda>d. d_key d = d_key p) (documents db)")
  case (Some old)
  let ?upd = "\<lambda>d. if d_key d = d_key p then d\<lparr>d_title := d_title p, d_sha := d_sha p, d_gate := d_gate p\<rparr> else d"
  have "db' = db\<lparr>documents := map ?upd (documents db)\<rparr>"
    using assms(2) Some by (auto simp: UpsertDocument_def Let_def split: if_splits)
  then show ?thesis using assms(1) by (auto intro!: silver_wf_documents)
next
  case None
  let ?d = "p\<lparr>d_id := next_doc db, d_mapedged := False\<rparr>"
  have db': "db' = db\<lparr>documents := documents db @ [?d], next_doc := next_doc db + 1\<rparr>"
    using assms(2) None by (auto simp: UpsertDocument_def Let_def split: if_splits)
  have "d_key p \<notin> d_key ` set (documents db)" using None by (auto simp: find_None_iff)
  moreover have "next_doc db \<notin> d_id ` set (documents db)" using silver_wfD(7) [OF assms(1)] by fastforce
  ultimately show ?thesis
    using assms(1) by (auto simp: db' silver_wf_def parent_ok_def)
qed

section \<open>Deleting a document's controls\<close>

lemma cascade_closed:
  "(\<And>c p. c \<in> set cs \<Longrightarrow> sc_parent c = Some p \<Longrightarrow> p \<in> dead \<Longrightarrow> sc_id c \<in> dead) \<Longrightarrow> cascade n cs dead = dead"
proof (induction n)
  case (Suc n)
  have "sc_id ` set (filter (\<lambda>c. case sc_parent c of None \<Rightarrow> False | Some p \<Rightarrow> p \<in> dead) cs) \<subseteq> dead"
    using Suc.prems by (auto split: option.splits)
  then show ?case using Suc by (simp add: Un_absorb2)
qed simp

lemma cascade_own:
  assumes "silver_wf db"
  shows "cascade n (controls db) (sc_id ` {c \<in> set (controls db). sc_document c = i}) = sc_id ` {c \<in> set (controls db). sc_document c = i}"
proof (rule cascade_closed)
  fix c p assume c: "c \<in> set (controls db)" "sc_parent c = Some p" and "p \<in> sc_id ` {c \<in> set (controls db). sc_document c = i}"
  then obtain q where q: "q \<in> set (controls db)" "sc_id q = p" "sc_document q = i" by auto
  obtain c' where c': "c' \<in> set (controls db)" "sc_id c' = p" "sc_document c' = sc_document c"
    using silver_wfD(10) [OF assms c(1)] c(2) by (auto simp: parent_ok_def)
  have "c' = q" using key_unique [OF silver_wfD(3) [OF assms] c'(1) q(1)] c' q by simp
  then show "sc_id c \<in> sc_id ` {c \<in> set (controls db). sc_document c = i}" using c c' q by auto
qed

definition drop_controls :: "int \<Rightarrow> ('v, 'sp) corpus \<Rightarrow> ('v, 'sp) corpus" where
  "drop_controls i db =
     (let db' = delete_controls (sc_id ` {c \<in> set (controls db). sc_document c = i}) db
      in db'\<lparr>documents := map (\<lambda>d. if d_id d = i then d\<lparr>d_mapedged := False\<rparr> else d) (documents db')\<rparr>)"

lemma DeleteControlsForDocument_wf:
  assumes "silver_wf db"
  shows "DeleteControlsForDocument i db = Some (length (filter (\<lambda>c. sc_document c = i) (controls db)), drop_controls i db)"
  using cascade_own [OF assms] by (simp add: DeleteControlsForDocument_def drop_controls_def Let_def)

lemma drop_controls_controls:
  assumes "silver_wf db"
  shows "controls (drop_controls i db) = filter (\<lambda>c. sc_document c \<noteq> i) (controls db)"
proof -
  have "(sc_id c \<in> sc_id ` {c \<in> set (controls db). sc_document c = i}) = (sc_document c = i)" if "c \<in> set (controls db)" for c
    using key_unique [OF silver_wfD(3) [OF assms]] that by blast
  then show ?thesis
    by (auto simp: drop_controls_def delete_controls_def Let_def intro!: filter_cong)
qed

lemma drop_controls_other:
  "next_control (drop_controls i db) = next_control db" "versions (drop_controls i db) = versions db"
  "next_doc (drop_controls i db) = next_doc db"
  "map d_id (documents (drop_controls i db)) = map d_id (documents db)"
  "map d_key (documents (drop_controls i db)) = map d_key (documents db)"
  by (auto simp: drop_controls_def delete_controls_def Let_def)

lemma mapping_key_unlink [simp]: "mapping_key (m\<lparr>cm_to_control := t\<rparr>) = mapping_key m"
  by (simp add: mapping_key_def)

lemma drop_controls_wf:
  assumes "silver_wf db"
  shows "silver_wf (drop_controls i db)"
proof -
  let ?dead = "sc_id ` {c \<in> set (controls db). sc_document c = i}"
  let ?unlink = "\<lambda>m. case cm_to_control m of None \<Rightarrow> m | Some t \<Rightarrow> if t \<in> ?dead then m\<lparr>cm_to_control := None\<rparr> else m"
  let ?cs = "filter (\<lambda>c. sc_document c \<noteq> i) (controls db)"
  have cs: "controls (drop_controls i db) = ?cs" by (rule drop_controls_controls [OF assms])
  have ids: "sc_id ` set ?cs = sc_id ` set (controls db) - ?dead"
    using key_unique [OF silver_wfD(3) [OF assms]] by (auto simp: image_iff)
  have ms: "mappings (drop_controls i db) = map ?unlink (filter (\<lambda>m. cm_from m \<notin> ?dead) (mappings db))"
    by (simp add: drop_controls_def delete_controls_def Let_def)
  have keys: "map mapping_key (map ?unlink xs) = map mapping_key xs" for xs
    by (auto split: option.splits)
  have "distinct (map mapping_key (mappings (drop_controls i db)))"
    unfolding ms keys using silver_wfD(5) [OF assms] by (rule distinct_map_filter)
  moreover have "cm_from m \<in> sc_id ` set ?cs \<and> (\<forall>t. cm_to_control m = Some t \<longrightarrow> t \<in> sc_id ` set ?cs)"
    if "m \<in> set (mappings (drop_controls i db))" for m
    using that silver_wfD(11,12) [OF assms] unfolding ms ids
    by (auto split: option.splits if_splits)
  moreover have "parent_ok (drop_controls i db) c" if "c \<in> set ?cs" for c
    using that silver_wfD(10) [OF assms, of c] by (fastforce simp: parent_ok_def cs)
  moreover have "d_id ` set (documents (drop_controls i db)) = d_id ` set (documents db)"
    using drop_controls_other(4) [of i db] by (metis set_map)
  moreover have "\<forall>d \<in> set (documents (drop_controls i db)). d_id d < next_doc db"
    using calculation(4) silver_wfD(7) [OF assms] by (metis imageE imageI)
  ultimately show ?thesis
    using silver_wfD [OF assms] drop_controls_other [of i db]
    by (simp add: silver_wf_def cs distinct_map_filter)
qed

section \<open>Inserting controls and edges\<close>

definition own_ids :: "int \<Rightarrow> int list \<Rightarrow> ('v, 'sp) corpus \<Rightarrow> bool" where
  "own_ids doc ids db \<longleftrightarrow> (\<forall>i \<in> set ids. \<exists>c \<in> set (controls db). sc_id c = i \<and> sc_document c = doc)"

lemma InsertControl_ok:
  assumes "InsertControl c db = Some (i, db')"
  shows "i = next_control db"
    "db' = db\<lparr>controls := controls db @ [c\<lparr>sc_id := i\<rparr>], next_control := i + 1\<rparr>"
    "sc_document c \<in> d_id ` set (documents db)" "control_key c \<notin> control_key ` set (controls db)"
    "\<And>p. sc_parent c = Some p \<Longrightarrow> p \<in> sc_id ` set (controls db)"
  using assms by (auto simp: InsertControl_def control_key_def image_iff split: if_splits option.splits)

lemma InsertControl_wf:
  assumes "silver_wf db" and "InsertControl c db = Some (i, db')" and "sc_document c = doc"
    and "own_ids doc ids db" and "\<And>p. sc_parent c = Some p \<Longrightarrow> p \<in> insert 0 (set ids)"
  shows "silver_wf db' \<and> own_ids doc (ids @ [i]) db'"
proof -
  note ok = InsertControl_ok [OF assms(2)]
  have parent: "\<exists>q \<in> set (controls db). sc_id q = p \<and> sc_document q = doc" if "sc_parent c = Some p" for p
  proof -
    have "p \<noteq> 0" using ok(5) [OF that] silver_wfD(8) [OF assms(1)] by fastforce
    then show ?thesis using assms(4,5) that by (auto simp: own_ids_def)
  qed
  have new: "parent_ok db' (c\<lparr>sc_id := i\<rparr>)"
    using parent silver_wfD(8) [OF assms(1)] assms(3) by (fastforce simp: parent_ok_def ok(1,2))
  have old: "parent_ok db' q" if "q \<in> set (controls db)" for q
    using silver_wfD(10) [OF assms(1) that] by (fastforce simp: parent_ok_def ok(2))
  have fresh: "next_control db \<notin> sc_id ` set (controls db)" using silver_wfD(8) [OF assms(1)] by fastforce
  have key: "control_key (c\<lparr>sc_id := i\<rparr>) = control_key c" by (simp add: control_key_def)
  have cs: "controls db' = controls db @ [c\<lparr>sc_id := i\<rparr>]" by (simp add: ok(2))
  have "\<forall>q \<in> set (controls db'). sc_document q \<in> d_id ` set (documents db') \<and> parent_ok db' q"
    using new old ok(3) silver_wfD(9) [OF assms(1)] unfolding cs by (auto simp: ok(2))
  moreover have "\<forall>q \<in> set (controls db'). 0 < sc_id q \<and> sc_id q < next_control db'"
    using silver_wfD(6,8) [OF assms(1)] unfolding cs by (fastforce simp: ok(1,2))
  moreover have "distinct (map control_key (controls db'))"
    using silver_wfD(4) [OF assms(1)] ok(4) unfolding cs by (simp add: key)
  moreover have "distinct (map sc_id (controls db'))"
    using silver_wfD(3) [OF assms(1)] fresh unfolding cs by (simp add: ok(1))
  moreover have "\<forall>m \<in> set (mappings db). cm_from m \<in> sc_id ` set (controls db')
        \<and> (\<forall>t. cm_to_control m = Some t \<longrightarrow> t \<in> sc_id ` set (controls db'))"
    using silver_wfD(11,12) [OF assms(1)] unfolding cs by auto
  moreover have "own_ids doc (ids @ [i]) db'"
    using assms(3,4) unfolding own_ids_def cs by auto
  ultimately show ?thesis
    using silver_wfD(1,2,5,6,7) [OF assms(1)] by (simp add: silver_wf_def ok(1,2))
qed

text \<open>Statements that change the mappings alone.\<close>

lemma silver_wf_mappings:
  assumes "silver_wf db" and "distinct (map mapping_key ms)"
    and "\<And>m. m \<in> set ms \<Longrightarrow> cm_from m \<in> sc_id ` set (controls db)"
    and "\<And>m t. m \<in> set ms \<Longrightarrow> cm_to_control m = Some t \<Longrightarrow> t \<in> sc_id ` set (controls db)"
  shows "silver_wf (db\<lparr>mappings := ms\<rparr>)"
  using assms by (simp add: silver_wf_def parent_ok_def)

lemma UpsertControlMapping_wf:
  assumes "silver_wf db" and "UpsertControlMapping p db = Some (u, db')"
  shows "silver_wf db'"
proof -
  let ?upd = "\<lambda>m. if mapping_key m = mapping_key p
                 then m\<lparr>cm_relationship := cm_relationship p, cm_provenance := cm_provenance p\<rparr> else m"
  have from_p: "cm_from p \<in> sc_id ` set (controls db)"
    using assms(2) by (auto simp: UpsertControlMapping_def split: if_splits)
  have key: "mapping_key \<circ> ?upd = mapping_key" by (auto simp: mapping_key_def)
  note D = silver_wfD [OF assms(1)]
  show ?thesis
  proof (cases "mapping_key p \<in> mapping_key ` set (mappings db)")
    case True
    then have db': "db' = db\<lparr>mappings := map ?upd (mappings db)\<rparr>"
      using assms(2) by (auto simp: UpsertControlMapping_def split: if_splits)
    show ?thesis unfolding db'
    proof (rule silver_wf_mappings [OF assms(1)])
      show "distinct (map mapping_key (map ?upd (mappings db)))" using D(5) by (simp only: map_map key)
    qed (use D(11,12) in \<open>auto split: if_splits\<close>)
  next
    case False
    then have db': "db' = db\<lparr>mappings := mappings db @ [p\<lparr>cm_to_control := None\<rparr>]\<rparr>"
      using assms(2) by (auto simp: UpsertControlMapping_def split: if_splits)
    show ?thesis unfolding db'
      by (rule silver_wf_mappings [OF assms(1)]) (use D(5,11,12) False from_p in auto)
  qed
qed

lemma resolve_mapping_key [simp]: "mapping_key (resolve_mapping ts m) = mapping_key m"
  by (simp add: resolve_mapping_def mapping_key_def split: list.splits)

lemma resolve_mapping_from [simp]: "cm_from (resolve_mapping ts m) = cm_from m"
  by (simp add: resolve_mapping_def split: list.splits)

lemma resolve_mapping_target:
  "cm_to_control (resolve_mapping ts m) = Some t \<Longrightarrow>
     cm_to_control m = Some t \<or> (\<exists>c \<in> set (ts m). sc_id c = t)"
  by (auto simp: resolve_mapping_def split: if_splits list.splits)

lemma ResolveControlMappings_wf:
  assumes "silver_wf db" and "ResolveControlMappings db = Some (k, db')"
  shows "silver_wf db'"
proof -
  have db': "db' = db\<lparr>mappings := map (resolve_mapping (mapping_targets db)) (mappings db)\<rparr>"
    using assms(2) by (simp add: ResolveControlMappings_def)
  have keys: "map mapping_key (map (resolve_mapping (mapping_targets db)) (mappings db)) = map mapping_key (mappings db)"
    by simp
  show ?thesis unfolding db'
  proof (rule silver_wf_mappings [OF assms(1)])
    show "distinct (map mapping_key (map (resolve_mapping (mapping_targets db)) (mappings db)))"
      unfolding keys by (rule silver_wfD(5) [OF assms(1)])
  next
    fix m t
    assume "m \<in> set (map (resolve_mapping (mapping_targets db)) (mappings db))" and t: "cm_to_control m = Some t"
    then obtain m0 where m0: "m0 \<in> set (mappings db)" "m = resolve_mapping (mapping_targets db) m0" by auto
    then consider "cm_to_control m0 = Some t" | "\<exists>c \<in> set (mapping_targets db m0). sc_id c = t"
      using resolve_mapping_target t by blast
    then show "t \<in> sc_id ` set (controls db)"
      using silver_wfD(12) [OF assms(1) m0(1)] by cases (auto simp: mapping_targets_def)
  qed (use silver_wfD(11) [OF assms(1)] in auto)
qed

end
