(* ===== verification/Normalize_Run.thy ===== *)
theory Normalize_Run
  imports Normalize_Props
begin

text \<open>
  The actions of the normalize stage keep the silver tables well formed, on success, on every failure and
  for every pattern of lost statements; what a successful \<open>writeTree\<close> leaves behind.
\<close>

section \<open>Well-formedness through the actions\<close>

abbreviation wf_state :: "('v, 'sp) pipe \<times> nat \<Rightarrow> bool" where
  "wf_state \<equiv> \<lambda>(p, n). silver_wf (pp_corpus p)"

abbreviation keeps_wf :: "(('v, 'sp) pipe \<times> nat, 'e, 'a) act \<Rightarrow> bool" where
  "keeps_wf m \<equiv> valid wf_state m (\<lambda>_. wf_state) (\<lambda>_. wf_state)"

named_theorems wf_keeping

lemma on_corpus_keeps_wf:
  assumes "\<And>db x db'. silver_wf db \<Longrightarrow> f db = Some (x, db') \<Longrightarrow> silver_wf db'"
  shows "keeps_wf (stmt fault e (on_corpus f))"
  using assms by (intro valid_stmt) (auto simp: on_corpus_def)

lemma same_corpus_keeps_wf:
  assumes "\<And>p x p'. f p = Some (x, p') \<Longrightarrow> pp_corpus p' = pp_corpus p"
  shows "keeps_wf (stmt fault e f)"
  using assms by (intro valid_stmt) fastforce+

lemma ret_keeps_wf [wf_keeping]: "keeps_wf (ret x)"
  by (rule valid_ret) simp

lemma fail_keeps_wf [wf_keeping]: "keeps_wf (fail e)"
  by (rule valid_fail) simp

lemma try_keeps_wf [wf_keeping]: "keeps_wf m \<Longrightarrow> keeps_wf (try_act m)"
  by (rule valid_try)

lemma bind_keeps_wf [wf_keeping]: "keeps_wf m \<Longrightarrow> (\<And>x. keeps_wf (f x)) \<Longrightarrow> keeps_wf (bind m f)"
  by (rule valid_bind)

lemma each_keeps_wf [wf_keeping]: "(\<And>x. keeps_wf (f x)) \<Longrightarrow> keeps_wf (each f xs)"
  by (rule valid_each)

lemma UpsertDocument_keeps_wf [wf_keeping]: "keeps_wf (stmt fault e (on_corpus (UpsertDocument d)))"
  by (rule on_corpus_keeps_wf) (rule UpsertDocument_wf)

lemma CountMappings_keeps_wf [wf_keeping]: "keeps_wf (stmt fault e (on_corpus (CountMappingsForDocument i)))"
  by (rule on_corpus_keeps_wf) (simp add: CountMappingsForDocument_def)

lemma Delete_keeps_wf [wf_keeping]: "keeps_wf (stmt fault e (on_corpus (DeleteControlsForDocument i)))"
  by (rule on_corpus_keeps_wf) (auto simp: DeleteControlsForDocument_wf drop_controls_wf)

lemma UpsertMapping_keeps_wf [wf_keeping]: "keeps_wf (stmt fault e (on_corpus (UpsertControlMapping m)))"
  by (rule on_corpus_keeps_wf) (rule UpsertControlMapping_wf)

lemma Resolve_keeps_wf [wf_keeping]: "keeps_wf (stmt fault e (on_corpus ResolveControlMappings))"
  by (rule on_corpus_keeps_wf) (rule ResolveControlMappings_wf)

lemma GetDocumentByKey_keeps_wf [wf_keeping]: "keeps_wf (stmt fault e (on_corpus (GetDocumentByKey k)))"
  by (rule on_corpus_keeps_wf) (auto simp: GetDocumentByKey_def)

lemma manifest_keeps_wf [wf_keeping]:
  "keeps_wf (stmt fault e (MarkNormalized i))" "keeps_wf (stmt fault e (SetStageError i msg))"
  by (rule same_corpus_keeps_wf; auto simp: MarkNormalized_def SetStageError_def upd_file_def)+

lemma reads_keep_wf [wf_keeping]:
  "keeps_wf (stmt fault e (GetSourceFile rel sha))" "keeps_wf (stmt fault e (GetRawExtract i k))"
  "keeps_wf (stmt fault e (GetFramework code))" "keeps_wf (stmt fault e (ListReferenceSources col))"
  "keeps_wf (stmt fault e (ListControlTitles col fw v))"
  by (rule same_corpus_keeps_wf;
      auto simp: GetSourceFile_def GetRawExtract_def GetFramework_def ListReferenceSources_def ListControlTitles_def)+

lemma insert_controls_keeps:
  "valid (\<lambda>(p :: ('v, 'sp) pipe, n). silver_wf (pp_corpus p) \<and> own_ids doc ids (pp_corpus p)) (insert_controls ev doc titles k ids crs)
     (\<lambda>_. wf_state) (\<lambda>_. wf_state)"
proof (induction crs arbitrary: ids)
  case (Cons cr crs)
  let ?P = "\<lambda>ids (p :: ('v, 'sp) pipe, n :: nat). silver_wf (pp_corpus p) \<and> own_ids doc ids (pp_corpus p)"
  let ?j = "nat (cn_ParentIdx cr)"
  let ?parent = "if cn_ParentIdx cr < 0 then None else Some (if ?j < length ids then ids ! ?j else 0)"
  have parent: "p \<in> insert 0 (set ids)" if "sc_parent (row_of_node doc titles ?parent cr) = Some p" for p
    using that by (auto simp: row_of_node_def split: if_splits)
  have ins: "valid (?P ids) (stmt (ev_fault ev) e (on_corpus (InsertControl (row_of_node doc titles ?parent cr))))
      (\<lambda>i. ?P (ids @ [i])) (\<lambda>_. wf_state)" for e :: norm_err
  proof (rule valid_stmt)
    fix p n i p'
    assume P: "?P ids (p, n)" and "on_corpus (InsertControl (row_of_node doc titles ?parent cr)) p = Some (i, p')"
    then obtain db' where i: "InsertControl (row_of_node doc titles ?parent cr) (pp_corpus p) = Some (i, db')"
        "p' = p\<lparr>pp_corpus := db'\<rparr>" by (auto simp: on_corpus_def)
    have "silver_wf db' \<and> own_ids doc (ids @ [i]) db'"
      by (rule InsertControl_wf [OF _ i(1) _ _ parent]) (use P in \<open>auto simp: row_of_node_def\<close>)
    then show "?P (ids @ [i]) (p', Suc n)" by (simp add: i(2))
  qed auto
  have go: "valid (?P ids) (bind (stmt (ev_fault ev) e (on_corpus (InsertControl (row_of_node doc titles ?parent cr))))
      (\<lambda>i. insert_controls ev doc titles k (ids @ [i]) crs)) (\<lambda>_. wf_state) (\<lambda>_. wf_state)" for e
    by (rule valid_bind, rule ins, rule Cons.IH)
  show ?case using go by (simp add: Let_def) (auto intro!: valid_fail)
qed (auto intro!: valid_ret)

lemma insert_controls_keeps_wf [wf_keeping]: "keeps_wf (insert_controls ev doc titles k [] crs)"
  by (rule valid_weaken [OF insert_controls_keeps]) (auto simp: own_ids_def)

lemma insert_edge_keeps_wf [wf_keeping]: "keeps_wf (insert_edge ev ids m)"
  by (auto simp: insert_edge_def intro!: wf_keeping)

lemma writeTree_keeps_wf [wf_keeping]: "keeps_wf (writeTree ev doc t)"
  unfolding writeTree_def loadTitleMap_def Let_def
  by (intro wf_keeping) (auto split: option.splits sum.splits intro!: wf_keeping)

lemma load_capture_keeps_wf [wf_keeping]: "keeps_wf (load_capture ev kind f)"
  unfolding load_capture_def by (intro wf_keeping)

lemma write_built_keeps_wf [wf_keeping]: "keeps_wf (write_built ev b f sf re)"
  unfolding write_built_def by (cases "b (rw_content re) (deref (mf_framework f)) (deref (mf_version f))")
    (auto intro!: wf_keeping)

lemma capture_keeps_wf [wf_keeping]: "keeps_wf (normalize_capture ev kind b f)"
  unfolding normalize_capture_def by (intro wf_keeping) (auto split: prod.splits intro!: wf_keeping)

lemma normalizeCSF_keeps_wf [wf_keeping]: "keeps_wf (normalizeCSF ev f)"
  unfolding normalizeCSF_def by (intro wf_keeping) (auto split: prod.splits intro!: wf_keeping)

lemma amendment_keeps_wf [wf_keeping]: "keeps_wf (normalizeISOAmendment ev f)"
  unfolding normalizeISOAmendment_def by (rule capture_keeps_wf)

lemma by_scheme_keeps_wf: "by_scheme ev f fw scheme = Some m \<Longrightarrow> keeps_wf m"
  by (auto simp: by_scheme_def normalizeOSCAL_def normalizeCIS_def normalizeCCM_def normalizePCI_def normalizeTSC_def
      normalizeCOBIT_def normalizeISOAMS_def normalizeISOControlCatalog_def normalizeTCVN11930_def
      normalizeTCVN14423_def capture_keeps_wf normalizeCSF_keeps_wf split: if_splits)

lemma run_one_keeps_wf [wf_keeping]: "keeps_wf m \<Longrightarrow> keeps_wf (run_one ev f m)"
  unfolding run_one_def record_error_def by (intro wf_keeping) (auto split: sum.splits intro!: wf_keeping)

lemma run_file_keeps_wf [wf_keeping]: "keeps_wf (run_file ev f)"
proof -
  have main: "keeps_wf (run_main ev f fw)" for fw
    unfolding run_main_def record_error_def
    by (intro wf_keeping) (auto split: sum.splits option.splits intro!: wf_keeping by_scheme_keeps_wf)
  have am: "keeps_wf (run_amendment ev f fw)" for fw
    unfolding run_amendment_def by (intro wf_keeping) (auto split: sum.splits intro!: wf_keeping)
  show ?thesis using main am by (auto simp: run_file_def Let_def intro!: wf_keeping)
qed

lemma Run_keeps_wf: "keeps_wf (Run ev files)"
  unfolding Run_def by (intro wf_keeping)

end
