(* ===== verification/Normalize_Write.thy ===== *)
theory Normalize_Write
  imports Normalize_Run
begin

text \<open>
  What the writer of a tree does when it returns: the rows it appends, the edges it upserts, and that
  every parent it was given precedes its child; and that a tree whose indexes are in range never panics.
\<close>

section \<open>The rows of a tree\<close>

fun tree_rows :: "int \<Rightarrow> (string \<Rightarrow> string option) \<Rightarrow> int \<Rightarrow> nat \<Rightarrow> control_node list \<Rightarrow> control_row list" where
  "tree_rows doc titles base j [] = []"
| "tree_rows doc titles base j (cr # crs) =
     (row_of_node doc titles (if cn_ParentIdx cr < 0 then None else Some (base + cn_ParentIdx cr)) cr)\<lparr>sc_id := base + int j\<rparr>
       # tree_rows doc titles base (Suc j) crs"

fun parents_precede :: "nat \<Rightarrow> control_node list \<Rightarrow> bool" where
  "parents_precede j [] \<longleftrightarrow> True"
| "parents_precede j (cr # crs) \<longleftrightarrow> cn_ParentIdx cr < int j \<and> parents_precede (Suc j) crs"

definition well_indexed :: "tree \<Rightarrow> bool" where
  "well_indexed t \<longleftrightarrow> (\<forall>cr \<in> set (tr_Controls t). cn_ParentIdx cr < int (length (tr_Controls t)))
     \<and> (\<forall>m \<in> set (tr_Mappings t). te_FromIdx m < length (tr_Controls t))"

lemma parents_precede_bound: "parents_precede j crs \<Longrightarrow> \<forall>cr \<in> set crs. cn_ParentIdx cr < int (j + length crs)"
proof (induction crs arbitrary: j)
  case (Cons cr crs)
  then show ?case by (force dest!: Cons.IH)
qed simp

lemma parents_precede_append:
  "parents_precede j (xs @ ys) \<longleftrightarrow> parents_precede j xs \<and> parents_precede (j + length xs) ys"
  by (induction xs arbitrary: j) auto

lemma parents_precede_nth:
  "parents_precede j crs \<longleftrightarrow> (\<forall>k < length crs. cn_ParentIdx (crs ! k) < int (j + k))"
proof (induction crs arbitrary: j)
  case (Cons cr crs)
  show ?case by (simp add: Cons.IH All_less_Suc2 ac_simps)
qed simp

section \<open>The insert loop\<close>

definition ids_from :: "int \<Rightarrow> nat \<Rightarrow> int list" where
  "ids_from base k = map (\<lambda>j. base + int j) [0..<k]"

lemma ids_from_simps [simp]: "length (ids_from base k) = k" "j < k \<Longrightarrow> ids_from base k ! j = base + int j"
  "ids_from base k @ [base + int k] = ids_from base (Suc k)" "ids_from base 0 = []"
  by (simp_all add: ids_from_def)

lemma insert_controls_ok:
  assumes "insert_controls ev doc titles k (ids_from base j) crs (p, n) = (Inr ids, (p', n'))"
    and "silver_wf (pp_corpus p)" and "own_ids doc (ids_from base j) (pp_corpus p)"
    and "next_control (pp_corpus p) = base + int j"
  shows "ids = ids_from base (j + length crs)" "parents_precede j crs"
    "p' = p\<lparr>pp_corpus := (pp_corpus p)\<lparr>controls := controls (pp_corpus p) @ tree_rows doc titles base j crs,
        next_control := base + int (j + length crs)\<rparr>\<rparr>"
  using assms
proof (atomize (full), induction crs arbitrary: j p n)
  case Nil
  then show ?case by (simp add: ret_ok)
next
  case (Cons cr crs)
  let ?q = "nat (cn_ParentIdx cr)"
  let ?parent = "if cn_ParentIdx cr < 0 then None else Some (if ?q < j then base + cn_ParentIdx cr else 0)"
  let ?row = "row_of_node doc titles ?parent cr"
  have parent_eq: "(if cn_ParentIdx cr < 0 then None
      else Some (if ?q < length (ids_from base j) then ids_from base j ! ?q else 0)) = ?parent"
    by simp
  obtain i db' where ins: "InsertControl ?row (pp_corpus p) = Some (i, db')"
    and rest: "insert_controls ev doc titles k (ids_from base j @ [i]) crs (p\<lparr>pp_corpus := db'\<rparr>, Suc n) = (Inr ids, (p', n'))"
    using Cons.prems(1) unfolding insert_controls.simps Let_def parent_eq
    by (auto simp: act_ok on_corpus_def split: if_splits)
  note ok = InsertControl_ok [OF ins]
  have i: "i = base + int j" using ok(1) Cons.prems(4) by simp
  have "silver_wf db' \<and> own_ids doc (ids_from base j @ [i]) db'"
    by (rule InsertControl_wf [OF Cons.prems(2) ins _ Cons.prems(3)])
       (auto simp: row_of_node_def ids_from_def image_iff split: if_splits, metis atLeast0LessThan lessThan_iff nat_less_iff not_less zle_int nat_0_le)
  moreover have before: "cn_ParentIdx cr < int j"
  proof (rule ccontr)
    assume "\<not> cn_ParentIdx cr < int j"
    then have "sc_parent ?row = Some 0" by (auto simp: row_of_node_def nat_less_iff)
    then show False using ok(5) silver_wfD(8) [OF Cons.prems(2)] by fastforce
  qed
  ultimately have IH: "ids = ids_from base (Suc j + length crs) \<and> parents_precede (Suc j) crs
     \<and> p' = p\<lparr>pp_corpus := db'\<lparr>controls := controls db' @ tree_rows doc titles base (Suc j) crs,
          next_control := base + int (Suc j + length crs)\<rparr>\<rparr>"
    using Cons.IH [of "Suc j" "p\<lparr>pp_corpus := db'\<rparr>" "Suc n"] rest ok(2) by (simp add: i)
  have "?row\<lparr>sc_id := i\<rparr> # tree_rows doc titles base (Suc j) crs = tree_rows doc titles base j (cr # crs)"
    using before by (simp add: i)
  then show ?case
    using IH before by (simp add: ok(2))
qed

section \<open>The edge loop\<close>

definition edge_key :: "int \<Rightarrow> tree_edge \<Rightarrow> int \<times> string \<times> string option \<times> string \<times> string" where
  "edge_key base m = (base + int (te_FromIdx m), te_ToFramework m, te_ToVersion m, te_ToNorm m, te_Source m)"

lemma UpsertControlMapping_ok:
  assumes "UpsertControlMapping m db = Some (u, db')"
  shows "\<exists>ms. db' = db\<lparr>mappings := ms\<rparr> \<and> mapping_key ` set ms = insert (mapping_key m) (mapping_key ` set (mappings db))"
proof -
  let ?upd = "\<lambda>x. if mapping_key x = mapping_key m
                 then x\<lparr>cm_relationship := cm_relationship m, cm_provenance := cm_provenance m\<rparr> else x"
  have "mapping_key (?upd x) = mapping_key x" for x by (simp add: mapping_key_def)
  then have upd: "mapping_key ` set (map ?upd (mappings db)) = mapping_key ` set (mappings db)"
    by (metis (no_types, lifting) image_cong image_image list.set_map)
  show ?thesis
  proof (cases "mapping_key m \<in> mapping_key ` set (mappings db)")
    case True
    then have "db' = db\<lparr>mappings := map ?upd (mappings db)\<rparr>"
      using assms by (auto simp only: UpsertControlMapping_def split: if_splits)
    then show ?thesis using upd True by (intro exI [of _ "map ?upd (mappings db)"]) (simp only: insert_absorb simp_thms)
  next
    case False
    then have "db' = db\<lparr>mappings := mappings db @ [m\<lparr>cm_to_control := None\<rparr>]\<rparr>"
      using assms by (auto simp only: UpsertControlMapping_def split: if_splits)
    then show ?thesis by (intro exI [of _ "mappings db @ [m\<lparr>cm_to_control := None\<rparr>]"]) simp
  qed
qed

lemma insert_edges_ok:
  assumes "each (insert_edge ev (ids_from base k)) ms (p, n) = (Inr us, (p', n'))"
  shows "(\<forall>m \<in> set ms. te_FromIdx m < k)
     \<and> (\<exists>rows. p' = p\<lparr>pp_corpus := (pp_corpus p)\<lparr>mappings := rows\<rparr>\<rparr>
          \<and> mapping_key ` set rows = mapping_key ` set (mappings (pp_corpus p)) \<union> edge_key base ` set ms)"
  using assms
proof (induction ms arbitrary: p n us)
  case Nil
  then show ?case by (auto simp: ret_ok intro!: exI [of _ "mappings (pp_corpus p)"])
next
  case (Cons m ms)
  then obtain db' us' where k: "te_FromIdx m < k"
    and up: "UpsertControlMapping (row_of_edge (base + int (te_FromIdx m)) m) (pp_corpus p) = Some ((), db')"
    and rest: "each (insert_edge ev (ids_from base k)) ms (p\<lparr>pp_corpus := db'\<rparr>, Suc n) = (Inr us', (p', n'))"
    unfolding each.simps bind_ok insert_edge_def [of _ _ m]
    by (auto simp: stmt_ok ret_ok fail_ok on_corpus_def split: if_splits)
  have key: "mapping_key (row_of_edge (base + int (te_FromIdx m)) m) = edge_key base m"
    by (simp add: row_of_edge_def mapping_key_def edge_key_def)
  obtain ms1 where db': "db' = (pp_corpus p)\<lparr>mappings := ms1\<rparr>"
    and keys: "mapping_key ` set ms1 = insert (edge_key base m) (mapping_key ` set (mappings (pp_corpus p)))"
    using UpsertControlMapping_ok [OF up] key by auto
  from Cons.IH [OF rest] k show ?case by (auto simp: db' keys)
qed

section \<open>The other steps\<close>

lemma UpsertDocument_ok:
  assumes "UpsertDocument q db = Some (d, db')"
  shows "d \<in> set (documents db')" "d_key d = d_key q" "d_title d = d_title q" "d_sha d = d_sha q" "d_gate d = d_gate q"
    "\<exists>ds nd. db' = db\<lparr>documents := ds, next_doc := nd\<rparr>"
proof -
  let ?upd = "\<lambda>d. if d_key d = d_key q then d\<lparr>d_title := d_title q, d_sha := d_sha q, d_gate := d_gate q\<rparr> else d"
  have "d \<in> set (documents db') \<and> d_key d = d_key q \<and> d_title d = d_title q \<and> d_sha d = d_sha q \<and> d_gate d = d_gate q
     \<and> (\<exists>ds nd. db' = db\<lparr>documents := ds, next_doc := nd\<rparr>)"
  proof (cases "List.find (\<lambda>d. d_key d = d_key q) (documents db)")
    case (Some old)
    then have old: "old \<in> set (documents db)" "d_key old = d_key q" by (auto simp: find_Some_iff)
    have d: "d = ?upd old" and db': "db' = db\<lparr>documents := map ?upd (documents db)\<rparr>"
      using assms Some by (auto simp: UpsertDocument_def Let_def split: if_splits)
    have "\<exists>ds nd. db' = db\<lparr>documents := ds, next_doc := nd\<rparr>"
      unfolding db' by (intro exI [of _ "map ?upd (documents db)"] exI [of _ "next_doc db"]) simp
    moreover have "d \<in> set (documents db')" using old unfolding d db' by simp
    ultimately show ?thesis using old d by simp
  next
    case None
    then show ?thesis using assms by (auto simp: UpsertDocument_def Let_def split: if_splits)
  qed
  then show "d \<in> set (documents db')" "d_key d = d_key q" "d_title d = d_title q" "d_sha d = d_sha q" "d_gate d = d_gate q"
    "\<exists>ds nd. db' = db\<lparr>documents := ds, next_doc := nd\<rparr>" by simp_all
qed

lemma find_dup_None: "find_dup i seen xs = None \<longleftrightarrow> distinct xs \<and> (\<forall>x \<in> set xs. map_of seen x = None)"
  by (induction xs arbitrary: i seen) (auto split: option.splits)

lemma drop_controls_document:
  "d \<in> set (documents db) \<Longrightarrow> d_id d = i \<Longrightarrow> d\<lparr>d_mapedged := False\<rparr> \<in> set (documents (drop_controls i db))"
  by (auto simp: drop_controls_def delete_controls_def Let_def image_iff intro!: bexI [of _ d])

lemma drop_controls_keys:
  "mapping_key ` set (mappings (drop_controls i db))
     = mapping_key ` {m \<in> set (mappings db). cm_from m \<notin> sc_id ` {c \<in> set (controls db). sc_document c = i}}"
proof -
  let ?dead = "sc_id ` {c \<in> set (controls db). sc_document c = i}"
  let ?unlink = "\<lambda>m. case cm_to_control m of None \<Rightarrow> m | Some t \<Rightarrow> if t \<in> ?dead then m\<lparr>cm_to_control := None\<rparr> else m"
  have "mapping_key (?unlink m) = mapping_key m" for m by (auto split: option.splits)
  moreover have "mappings (drop_controls i db) = map ?unlink (filter (\<lambda>m. cm_from m \<notin> ?dead) (mappings db))"
    by (simp add: drop_controls_def delete_controls_def Let_def)
  ultimately show ?thesis by (simp add: image_image)
qed

definition title_map :: "norm_env \<Rightarrow> doc_identity \<Rightarrow> ('v, 'sp) pipe \<times> nat \<Rightarrow> string \<Rightarrow> string option" where
  "title_map ev doc s = (case fst (loadTitleMap ev (di_Framework doc) (di_Version doc) s) of Inl _ \<Rightarrow> (\<lambda>_. None) | Inr m \<Rightarrow> m)"

lemma loadTitleMap_state: "loadTitleMap ev fw v (p, n) = (r, s) \<Longrightarrow> s = (p, Suc n)"
  by (auto simp: loadTitleMap_def bind_def stmt_def ret_def ListControlTitles_def split: if_splits)

section \<open>No panic\<close>

abbreviation no_panic :: "(('v, 'sp) pipe \<times> nat, norm_err, 'a) act \<Rightarrow> bool" where
  "no_panic m \<equiv> valid (\<lambda>_. True) m (\<lambda>_ _. True) (\<lambda>e _. \<not> fatal e)"

lemma no_panic_bind: "no_panic m \<Longrightarrow> (\<And>x. no_panic (f x)) \<Longrightarrow> no_panic (bind m f)"
  by (rule valid_bind)

lemma no_panic_stmt: "\<not> fatal e \<Longrightarrow> no_panic (stmt fault e f)"
  by (rule valid_stmt) auto

lemma no_panic_each: "(\<And>x. x \<in> set xs \<Longrightarrow> no_panic (f x)) \<Longrightarrow> no_panic (each f xs)"
proof (induction xs)
  case (Cons x xs)
  then show ?case by (auto intro!: no_panic_bind valid_ret)
qed (auto intro!: valid_ret)

lemma no_panic_try: "no_panic (try_act m)"
  by (rule valid_try) (simp add: valid_def split: prod.splits sum.splits)

lemma insert_controls_length:
  "(\<And>cr. cr \<in> set crs \<Longrightarrow> cn_ParentIdx cr < int k) \<Longrightarrow>
   valid (\<lambda>_. True) (insert_controls ev doc titles k ids crs :: ('v, 'sp, int list) norm_act)
     (\<lambda>ids' _. length ids' = length ids + length crs) (\<lambda>e _. \<not> fatal e)"
proof (induction crs arbitrary: ids)
  case (Cons cr crs)
  have "\<not> (0 \<le> cn_ParentIdx cr \<and> k \<le> nat (cn_ParentIdx cr))"
    using Cons.prems [of cr] by (auto simp: nat_less_iff not_le)
  moreover have "valid (\<lambda>_. True) (insert_controls ev doc titles k (ids @ [i]) crs :: ('v, 'sp, int list) norm_act)
     (\<lambda>ids' _. length ids' = length ids + length (cr # crs)) (\<lambda>e _. \<not> fatal e)" for i
    using Cons.IH [of "ids @ [i]"] Cons.prems by simp
  ultimately show ?case
    by (auto simp: Let_def intro!: valid_bind [where R = "\<lambda>_ _. True"] no_panic_stmt)
qed (auto intro!: valid_ret)

lemma writeTree_no_panic:
  assumes "well_indexed t"
  shows "no_panic (writeTree ev doc t)"
proof -
  let ?crs = "tr_Controls t"
  have edges: "no_panic (bind (each (insert_edge ev ids) (tr_Mappings t)) (\<lambda>_.
         bind (stmt (ev_fault ev) ResolveErr (on_corpus ResolveControlMappings)) (\<lambda>_.
         stmt (ev_fault ev) MarkErr (MarkNormalized (di_ManifestID doc)))))" if "length ids = length ?crs" for ids
    using that assms
    by (intro no_panic_bind no_panic_each) (auto simp: insert_edge_def well_indexed_def intro!: no_panic_stmt)
  have "no_panic (bind (insert_controls ev i titles (length ?crs) [] ?crs) (\<lambda>ids.
         bind (each (insert_edge ev ids) (tr_Mappings t)) (\<lambda>_.
         bind (stmt (ev_fault ev) ResolveErr (on_corpus ResolveControlMappings)) (\<lambda>_.
         stmt (ev_fault ev) MarkErr (MarkNormalized (di_ManifestID doc))))))" for i titles
  proof (rule valid_bind)
    show "valid (\<lambda>_. True) (insert_controls ev i titles (length ?crs) [] ?crs)
        (\<lambda>ids _. length ids = length ?crs) (\<lambda>e _. \<not> fatal e)"
      using insert_controls_length [of ?crs "length ?crs" ev i titles "[]"] assms by (simp add: well_indexed_def)
  next
    fix ids
    show "valid (\<lambda>_. length ids = length ?crs) (bind (each (insert_edge ev ids) (tr_Mappings t)) (\<lambda>_.
         bind (stmt (ev_fault ev) ResolveErr (on_corpus ResolveControlMappings)) (\<lambda>_.
         stmt (ev_fault ev) MarkErr (MarkNormalized (di_ManifestID doc))))) (\<lambda>_ _. True) (\<lambda>e _. \<not> fatal e)"
      using edges [of ids] by (cases "length ids = length ?crs") (auto simp: valid_def)
  qed
  then show ?thesis
    unfolding writeTree_def Let_def
    by (intro no_panic_bind no_panic_try no_panic_stmt) (auto split: option.splits intro!: valid_fail)
qed

definition builds_in_range :: "builder \<Rightarrow> bool" where
  "builds_in_range b \<longleftrightarrow> (\<forall>raw fw v. case b raw fw v of Inr t \<Rightarrow> well_indexed t | Inl e \<Rightarrow> \<not> fatal (build_err e))"

definition builders_in_range :: "builders \<Rightarrow> bool" where
  "builders_in_range b \<longleftrightarrow> list_all builds_in_range [nb_OSCAL b, nb_CIS b, nb_CCM b, nb_PCI b, nb_TSC b, nb_COBIT b,
     nb_ISO27001 b, nb_ISOAmendment b, nb_ISOControlCatalog b, nb_TCVN11930 b, nb_TCVN14423 b]
   \<and> (\<forall>refs. builds_in_range (nb_CSF b refs))"

lemma load_capture_no_panic: "no_panic (load_capture ev kind f)"
  unfolding load_capture_def by (intro no_panic_bind no_panic_stmt) (auto intro!: valid_ret)

lemma write_built_no_panic:
  assumes "builds_in_range b"
  shows "no_panic (write_built ev b f sf re)"
proof -
  let ?r = "b (rw_content re) (deref (mf_framework f)) (deref (mf_version f))"
  have "case ?r of Inr t \<Rightarrow> well_indexed t | Inl e \<Rightarrow> \<not> fatal (build_err e)"
    using assms by (simp add: builds_in_range_def)
  then show ?thesis
    unfolding write_built_def by (cases ?r) (auto intro!: valid_fail writeTree_no_panic)
qed

lemma capture_no_panic: "builds_in_range b \<Longrightarrow> no_panic (normalize_capture ev kind b f)"
  unfolding normalize_capture_def
  by (intro no_panic_bind load_capture_no_panic) (auto split: prod.splits intro!: write_built_no_panic)

lemma CSF_no_panic: "(\<forall>refs. builds_in_range (nb_CSF (ev_build ev) refs)) \<Longrightarrow> no_panic (normalizeCSF ev f)"
  unfolding normalizeCSF_def
  by (intro no_panic_bind load_capture_no_panic)
     (auto split: prod.splits intro!: no_panic_bind no_panic_stmt write_built_no_panic)

lemmas schemes = by_scheme_def normalizeOSCAL_def normalizeCIS_def normalizeCCM_def normalizePCI_def normalizeTSC_def
  normalizeCOBIT_def normalizeISOAMS_def normalizeISOAmendment_def normalizeISOControlCatalog_def
  normalizeTCVN11930_def normalizeTCVN14423_def

lemma by_scheme_no_panic:
  "builders_in_range (ev_build ev) \<Longrightarrow> by_scheme ev f fw scheme = Some m \<Longrightarrow> no_panic m"
  unfolding builders_in_range_def
  by (auto simp: schemes split: if_splits intro!: capture_no_panic CSF_no_panic)

section \<open>The verdict of a file\<close>

text \<open>A run of one file never fails; what the manifest then says of it.\<close>

definition errored :: "norm_env \<Rightarrow> manifest_row \<Rightarrow> ('v, 'sp) pipe \<Rightarrow> bool" where
  "errored ev f p \<longleftrightarrow> (\<exists>e. \<forall>g \<in> set (pp_manifest p). mf_id g = mf_id f \<longrightarrow>
     mf_error g = stage_message ev f e)"

definition marked :: "int \<Rightarrow> ('v, 'sp) pipe \<Rightarrow> bool" where
  "marked i p \<longleftrightarrow> (\<forall>g \<in> set (pp_manifest p). mf_id g = i \<longrightarrow> mf_normalized g \<and> \<not> mf_indexed g \<and> mf_error g = [])"

text \<open>What a verdict says of the state; a lost statement is the last one run.\<close>

definition verdict_holds ::
  "norm_env \<Rightarrow> manifest_row \<Rightarrow> ('v, 'sp) pipe \<Rightarrow> verdict \<Rightarrow> ('v, 'sp) pipe \<times> nat \<Rightarrow> bool" where
  "verdict_holds ev f p0 v = (\<lambda>(p, n). case v of
      Succeeded \<Rightarrow> marked (mf_id f) p
    | Failed \<Rightarrow> errored ev f p \<or> ev_fault ev (n - 1)
    | Skipped \<Rightarrow> p = p0)"

lemma tail_bind:
  "(\<And>x. valid (\<lambda>_. True) (f x) Q (\<lambda>_ _. True)) \<Longrightarrow> valid (\<lambda>_. True) (bind m f) Q (\<lambda>_ _. True)"
  by (rule valid_bind [where R = "\<lambda>_ _. True"]) (auto simp: valid_def split: prod.splits sum.splits)

lemma MarkNormalized_marked: "valid (\<lambda>_. True) (stmt fault e (MarkNormalized i)) (\<lambda>_ (p, n). marked i p) (\<lambda>_ _. True)"
proof (rule valid_stmt)
  fix p n x p'
  assume "MarkNormalized i p = Some (x, p')"
  then have "pp_manifest p' = map (\<lambda>f. if mf_id f = i then f\<lparr>mf_normalized := True, mf_indexed := False, mf_error := []\<rparr> else f) (pp_manifest p)"
    by (auto simp: MarkNormalized_def upd_file_def)
  then show "case (p', Suc n) of (p, n) \<Rightarrow> marked i p" by (simp add: marked_def ball_Un)
qed simp

lemma writeTree_marked: "valid (\<lambda>_. True) (writeTree ev doc t) (\<lambda>_ (p, n). marked (di_ManifestID doc) p) (\<lambda>_ _. True)"
  unfolding writeTree_def Let_def
proof (intro tail_bind)
  fix r d k u
  show "valid (\<lambda>_. True) (case find_dup 0 [] (map cn_Norm (tr_Controls t)) of None \<Rightarrow>
      bind (insert_controls ev (d_id d) (case r of Inl _ \<Rightarrow> (\<lambda>_. None) | Inr m \<Rightarrow> m) (length (tr_Controls t)) [] (tr_Controls t)) (\<lambda>ids.
      bind (each (insert_edge ev ids) (tr_Mappings t)) (\<lambda>_.
      bind (stmt (ev_fault ev) ResolveErr (on_corpus ResolveControlMappings)) (\<lambda>_.
      stmt (ev_fault ev) MarkErr (MarkNormalized (di_ManifestID doc)))))
    | Some (x, i, j) \<Rightarrow> fail (DuplicateNorm x i j)) (\<lambda>_ (p, n). marked (di_ManifestID doc) p) (\<lambda>_ _. True)"
    by (cases "find_dup 0 [] (map cn_Norm (tr_Controls t))")
       (auto split: prod.splits intro!: tail_bind MarkNormalized_marked valid_fail)
qed

abbreviation marks :: "manifest_row \<Rightarrow> (('v, 'sp) pipe \<times> nat, norm_err, unit) act \<Rightarrow> bool" where
  "marks f m \<equiv> valid (\<lambda>_. True) m (\<lambda>_ (p, n). marked (mf_id f) p) (\<lambda>_ _. True)"

lemma write_built_marked: "marks f (write_built ev b f sf re)"
  unfolding write_built_def
  using writeTree_marked [of ev "identity_of f sf"]
  by (cases "b (rw_content re) (deref (mf_framework f)) (deref (mf_version f))") (auto simp: identity_of_def intro!: valid_fail)

lemma capture_marked: "marks f (normalize_capture ev kind b f)"
  unfolding normalize_capture_def by (rule tail_bind) (auto split: prod.splits intro!: write_built_marked)

lemma CSF_marked: "marks f (normalizeCSF ev f)"
  unfolding normalizeCSF_def
  by (rule tail_bind) (auto split: prod.splits intro!: tail_bind write_built_marked)

lemma by_scheme_marked: "by_scheme ev f fw scheme = Some m \<Longrightarrow> marks f m"
  by (auto simp: schemes split: if_splits intro!: capture_marked CSF_marked)

lemma record_error_verdict:
  "valid (\<lambda>_. True) (record_error ev f e :: ('v, 'sp, verdict) norm_act) (verdict_holds ev f p0) (\<lambda>_ _. False)"
proof (rule validI)
  fix s s' :: "('v, 'sp) pipe \<times> nat" and v assume "record_error ev f e s = (Inr v, s')"
  then show "verdict_holds ev f p0 v s'"
    by (cases s) (auto simp: record_error_def act_ok stmt_def SetStageError_def upd_file_def verdict_holds_def errored_def
        split: if_splits prod.splits)
qed (auto simp: record_error_def bind_def try_act_def ret_def split: prod.splits)

text \<open>The only error of a run is the panic, and a file whose stage action cannot panic has none.\<close>

lemma run_one_verdict:
  assumes "marks f m"
  shows "valid (\<lambda>_. True) (run_one ev f m) (verdict_holds ev f p0) (\<lambda>e _. fatal e)"
  unfolding run_one_def
proof (rule valid_bind)
  show "valid (\<lambda>_. True) (try_act m) (\<lambda>r s. case r of Inl _ \<Rightarrow> True | Inr _ \<Rightarrow> marked (mf_id f) (fst s)) (\<lambda>e _. fatal e)"
    using assms by (intro valid_try) (auto simp: valid_def split: prod.splits sum.splits)
next
  fix r
  show "valid (\<lambda>s. case r of Inl _ \<Rightarrow> True | Inr _ \<Rightarrow> marked (mf_id f) (fst s))
      (case r of Inl e \<Rightarrow> if fatal e then fail e else record_error ev f e | Inr _ \<Rightarrow> ret Succeeded)
      (verdict_holds ev f p0) (\<lambda>e _. fatal e)"
  proof (cases r)
    case (Inl e)
    then show ?thesis by (auto intro!: valid_fail valid_weaken [OF record_error_verdict])
  next
    case (Inr u)
    then show ?thesis by (auto simp: verdict_holds_def intro!: valid_ret)
  qed
qed

abbreviation total :: "(('v, 'sp) pipe \<times> nat, norm_err, 'a) act \<Rightarrow> bool" where
  "total m \<equiv> valid (\<lambda>_. True) m (\<lambda>_ _. True) (\<lambda>_ _. False)"

lemma total_bind: "total m \<Longrightarrow> (\<And>x. total (f x)) \<Longrightarrow> total (bind m f)"
  by (rule valid_bind)

lemma total_try: "total (try_act m)"
  by (rule valid_try) (auto simp: valid_def split: prod.splits sum.splits)

lemma total_record: "total (record_error ev f e)"
  by (rule valid_weaken [OF record_error_verdict]) auto

lemma total_ret: "total (ret x)"
  by (rule valid_ret) simp

lemma run_one_total:
  assumes "no_panic m"
  shows "total (run_one ev f m)"
  unfolding run_one_def
proof (rule valid_bind)
  show "valid (\<lambda>_. True) (try_act m) (\<lambda>r _. \<forall>e. r = Inl e \<longrightarrow> \<not> fatal e) (\<lambda>_ _. False)"
    using assms by (intro valid_try) (auto simp: valid_def split: prod.splits sum.splits)
next
  fix r
  show "valid (\<lambda>_. \<forall>e. r = Inl e \<longrightarrow> \<not> fatal e)
      (case r of Inl e \<Rightarrow> if fatal e then fail e else record_error ev f e | Inr _ \<Rightarrow> ret Succeeded)
      (\<lambda>_ _. True) (\<lambda>_ _. False)"
    by (cases r) (auto intro!: valid_fail valid_ret valid_weaken [OF total_record])
qed

lemma run_file_total:
  assumes "builders_in_range (ev_build ev)"
  shows "total (run_file ev f)"
proof -
  have am: "no_panic (normalizeISOAmendment ev f)"
    using assms by (auto simp: schemes builders_in_range_def intro!: capture_no_panic)
  have main: "total (run_main ev f fw)" for fw
    unfolding run_main_def using by_scheme_no_panic [OF assms]
    by (intro total_bind total_try) (auto split: sum.splits option.splits intro!: total_record total_ret run_one_total)
  have amendment: "total (run_amendment ev f fw)" for fw
    unfolding run_amendment_def
    by (intro total_bind total_try) (auto split: sum.splits intro!: total_bind total_try total_ret run_one_total am)
  show ?thesis using main amendment by (auto simp: run_file_def Let_def intro!: total_ret)
qed

lemma each_length: "each f xs s = (Inr ys, s') \<Longrightarrow> length ys = length xs"
  by (induction xs arbitrary: s ys) (auto simp: bind_ok ret_ok)

lemma count_verdicts_total:
  "ns_Succeeded (count_verdicts vs) + ns_Failed (count_verdicts vs) + ns_Skipped (count_verdicts vs) = length vs"
proof (induction vs)
  case (Cons v vs)
  then show ?case by (cases v) (auto simp: count_verdicts_def)
qed (simp add: count_verdicts_def)

text \<open>A statement that reads keeps the whole state.\<close>

lemma try_read:
  assumes "\<And>p x p'. f p = Some (x, p') \<Longrightarrow> p' = p"
  shows "valid (\<lambda>(p, n). p = p0) (try_act (stmt fault e f)) (\<lambda>_ (p, n). p = p0) E"
  using assms by (intro valid_try valid_stmt) fastforce+

lemma run_file_verdict_valid:
  "valid (\<lambda>(p, n). p = p0) (run_file ev f) (verdict_holds ev f p0) (\<lambda>e _. fatal e)"
proof -
  let ?at = "\<lambda>(p, n :: nat). p = p0"
  have skip: "valid ?at (ret Skipped) (verdict_holds ev f p0) (\<lambda>e _. fatal e)"
    by (auto simp: verdict_holds_def intro!: valid_ret)
  have rec: "valid ?at (record_error ev f e) (verdict_holds ev f p0) (\<lambda>e _. fatal e)" for e
    by (rule valid_weaken [OF record_error_verdict]) auto
  have one: "valid ?at (run_one ev f m) (verdict_holds ev f p0) (\<lambda>e _. fatal e)" if "marks f m" for m
    by (rule valid_weaken [OF run_one_verdict [OF that]]) auto
  have am: "marks f (normalizeISOAmendment ev f)" by (auto simp: schemes intro!: capture_marked)
  have main: "valid ?at (run_main ev f fw) (verdict_holds ev f p0) (\<lambda>e _. fatal e)" for fw
    unfolding run_main_def
  proof (rule valid_bind [OF try_read])
    fix r
    show "valid ?at (case r of Inl e \<Rightarrow> record_error ev f e | Inr w \<Rightarrow>
        (case by_scheme ev f fw (fw_scheme w) of None \<Rightarrow> ret Skipped | Some m \<Rightarrow> run_one ev f m))
        (verdict_holds ev f p0) (\<lambda>e _. fatal e)"
      using by_scheme_marked by (cases r) (auto split: option.splits intro!: rec skip one)
  qed (auto simp: GetFramework_def)
  have amendment: "valid ?at (run_amendment ev f fw) (verdict_holds ev f p0) (\<lambda>e _. fatal e)" for fw
    unfolding run_amendment_def
  proof (rule valid_bind [OF try_read])
    fix r
    have key: "valid ?at (bind (try_act (stmt (ev_fault ev) KeyErr
                (on_corpus (GetDocumentByKey (fw @ ''|'' @ deref (mf_version f) @ ''|main'')))))
          (\<lambda>base. case base of Inl _ \<Rightarrow> ret Skipped | Inr _ \<Rightarrow> run_one ev f (normalizeISOAmendment ev f)))
        (verdict_holds ev f p0) (\<lambda>e _. fatal e)"
    proof (rule valid_bind [OF try_read])
      fix base
      show "valid ?at (case base of Inl _ \<Rightarrow> ret Skipped | Inr _ \<Rightarrow> run_one ev f (normalizeISOAmendment ev f))
        (verdict_holds ev f p0) (\<lambda>e _. fatal e)"
        by (cases base) (auto intro!: skip one am)
    qed (auto simp: on_corpus_def GetDocumentByKey_def)
    show "valid ?at (case r of Inl _ \<Rightarrow> ret Skipped | Inr w \<Rightarrow>
        if fw_scheme w \<noteq> ''iso-ams'' then ret Skipped
        else bind (try_act (stmt (ev_fault ev) KeyErr
                (on_corpus (GetDocumentByKey (fw @ ''|'' @ deref (mf_version f) @ ''|main'')))))
          (\<lambda>base. case base of Inl _ \<Rightarrow> ret Skipped | Inr _ \<Rightarrow> run_one ev f (normalizeISOAmendment ev f)))
        (verdict_holds ev f p0) (\<lambda>e _. fatal e)"
      using skip key by (cases r) auto
  qed (auto simp: GetFramework_def)
  show ?thesis using main amendment skip by (simp add: run_file_def Let_def)
qed

end
