(* ===== verification/Oscal_Props.thy ===== *)
theory Oscal_Props
  imports Oscal Normalize_Write "HOL-Library.Sublist"
begin

text \<open>
  Rendering of inserts returns on catalogs whose parameter texts hold no closing brace, and is then the
  expected substitution; the tree of a catalog is its preorder, each parent before its children.
\<close>

section \<open>Occurrences around brackets\<close>

lemma sublist_split_char:
  assumes "c \<notin> set p"
  shows "sublist p (xs @ c # ys) \<longleftrightarrow> sublist p xs \<or> sublist p ys"
  using assms by (auto simp: sublist_append sublist_Cons_right prefix_Cons)

definition bad_insert :: string where
  "bad_insert = ''{{ insert: param, }}''"

lemma bracket_split: "sublist bad_insert (p @ ''['' @ m @ '']'' @ q) \<longleftrightarrow> sublist bad_insert p \<or> sublist bad_insert m \<or> sublist bad_insert q"
  using sublist_split_char [of "CHR ''[''" bad_insert p "m @ '']'' @ q"] sublist_split_char [of "CHR '']''" bad_insert m q]
  by (simp add: bad_insert_def)

section \<open>Trimming\<close>

lemma trim_left_suffix: "\<exists>a. s = a @ trim_left s"
proof (induction s rule: trim_left.induct)
  case (1 s)
  show ?case
  proof (cases "space_len s = 0")
    case True
    then show ?thesis by (simp add: trim_left.simps)
  next
    case False
    then obtain a where "drop (space_len s) s = a @ trim_left (drop (space_len s) s)" using 1 by blast
    then have "s = (take (space_len s) s @ a) @ trim_left s"
      using False by (metis append_assoc append_take_drop_id trim_left.simps)
    then show ?thesis by blast
  qed
qed

lemma trim_right_prefix: "\<exists>b. s = trim_right s @ b"
  by (induction s rule: trim_right.induct) auto

lemma trim_space_infix: "\<exists>a b. s = a @ trim_space s @ b"
  using trim_left_suffix [of s] trim_right_prefix [of "trim_left s"] unfolding trim_space_def by metis

section \<open>Rendering returns\<close>

definition plain_text :: "char \<Rightarrow> oscal_param \<Rightarrow> bool" where
  "plain_text c p \<longleftrightarrow> c \<notin> set (pa_Label p) \<and> (\<forall>s. pa_Select p = Some s \<longrightarrow> (\<forall>x \<in> set (se_Choice s). c \<notin> set x))"

definition plain_params :: "char \<Rightarrow> (string \<rightharpoonup> oscal_param) \<Rightarrow> bool" where
  "plain_params c idx \<longleftrightarrow> (\<forall>i p. idx i = Some p \<longrightarrow> plain_text c p)"

lemma set_join: "set (join sep xs) \<subseteq> set sep \<union> (\<Union>x \<in> set xs. set x)"
  by (induction sep xs rule: join.induct) auto

text \<open>A rendered parameter is bracketed, and what is inside is its id or free of the character.\<close>

lemma renderParam_shape:
  assumes "plain_params c idx" and c: "c = CHR ''{'' \<or> c = CHR ''}''"
  obtains m where "renderParam i idx = ''['' @ m @ '']''" "m = ''Assignment: '' @ i \<or> c \<notin> set m"
proof -
  note out = that
  have bare: "c \<notin> set ''Assignment: ''" "c \<notin> set ''Selection: ''" "c \<notin> set ''Selection (one or more): ''" "c \<notin> set ''; ''"
    using c by (elim disjE; simp)+
  show thesis
  proof (cases "idx i")
    case None
    then show thesis by (intro out [of "''Assignment: '' @ i"]) (auto simp: renderParam_def)
  next
    case (Some p)
    then have p: "plain_text c p" using assms(1) by (auto simp: plain_params_def)
    have label: thesis if "renderParam i idx = ''['' @ (''Assignment: '' @ pa_Label p) @ '']''"
      by (rule out [OF that]) (use p bare(1) in \<open>simp add: plain_text_def\<close>)
    have default: thesis if "renderParam i idx = ''['' @ (''Assignment: '' @ i) @ '']''"
      by (rule out [OF that]) simp
    show thesis
    proof (cases "pa_Select p")
      case None
      then show thesis using Some label default by (cases "pa_Label p = []") (auto simp: renderParam_def)
    next
      case sel: (Some s)
      have joined: "c \<notin> set (join ''; '' (se_Choice s))"
        using p sel bare(4) set_join [of "''; ''" "se_Choice s"] unfolding plain_text_def by blast
      have choice: thesis if "renderParam i idx = ''['' @ (k @ join ''; '' (se_Choice s)) @ '']''"
        and "c \<notin> set k" for k
        by (rule out [OF that(1)]) (use that(2) joined in simp)
      show thesis
      proof (cases "se_Choice s = []")
        case True
        then show thesis using Some sel label default by (cases "pa_Label p = []") (auto simp: renderParam_def)
      next
        case False
        then show thesis
          using Some sel choice [OF _ bare(3)] choice [OF _ bare(2)]
          by (cases "se_HowMany s = ''one-or-more''") (auto simp: renderParam_def)
      qed
    qed
  qed
qed

lemma find_insert_Insert:
  assumes "find_insert s = Insert pre inner post"
  shows "s = pre @ insert_start @ inner @ insert_end @ post"
proof -
  obtain rest seg where "find_sub insert_start s = Some (pre, rest)"
    and seg: "find_sub insert_end (insert_start @ rest) = Some (seg, post)"
    and len: "\<not> length seg < length insert_start" and inner: "inner = drop (length insert_start) seg"
    using assms by (auto simp: find_insert_def split: option.splits if_splits)
  then have s: "s = pre @ insert_start @ rest" by (auto dest: find_sub_Some)
  have eq: "insert_start @ rest = seg @ insert_end @ post" using find_sub_Some [OF seg] .
  then have "seg = insert_start @ inner"
    using len inner by (metis append_eq_append_conv_if append_take_drop_id not_less)
  then show ?thesis using s eq by simp
qed

lemma find_insert_Bad:
  assumes "find_insert s = Bad_Insert"
  shows "sublist bad_insert s"
proof -
  obtain pre rest seg post where pre: "find_sub insert_start s = Some (pre, rest)"
    and seg: "find_sub insert_end (insert_start @ rest) = Some (seg, post)" and len: "length seg < length insert_start"
    using assms by (auto simp: find_insert_def split: option.splits if_splits)
  have s: "s = pre @ insert_start @ rest" using find_sub_Some [OF pre] .
  have eq: "insert_start @ rest = seg @ insert_end @ post" using find_sub_Some [OF seg] .
  have at: "insert_start ! length seg = CHR '' ''" and after: "Suc (length seg) < length insert_start \<Longrightarrow> insert_start ! Suc (length seg) = CHR ''}''"
  proof -
    have "(insert_start @ rest) ! length seg = CHR '' ''" "(insert_start @ rest) ! Suc (length seg) = CHR ''}''"
      unfolding eq by (simp_all add: insert_end_def nth_append)
    then show "insert_start ! length seg = CHR '' ''"
      and "Suc (length seg) < length insert_start \<Longrightarrow> insert_start ! Suc (length seg) = CHR ''}''"
      using len by (simp_all add: nth_append)
  qed
  have "\<not> Suc (length seg) < length insert_start"
  proof
    assume "Suc (length seg) < length insert_start"
    then have "CHR ''}'' \<in> set insert_start" using after by (metis nth_mem)
    then show False by (simp add: insert_start_def)
  qed
  then have "length seg = 17" using len by (simp add: insert_start_def)
  then have "drop 17 (insert_start @ rest) = insert_end @ post" unfolding eq by simp
  then have "rest = ''}}'' @ post" by (simp add: insert_start_def insert_end_def)
  then have "s = pre @ bad_insert @ post" by (simp add: s bad_insert_def insert_start_def)
  then show ?thesis by (auto simp: sublist_def)
qed

definition braces :: "string \<Rightarrow> nat" where
  "braces s = length (filter (\<lambda>c. c = CHR ''}'') s)"

lemma braces_append [simp]: "braces (a @ b) = braces a + braces b"
  by (simp add: braces_def)

lemma braces_0: "CHR ''}'' \<notin> set s \<Longrightarrow> braces s = 0"
  by (auto simp: braces_def filter_empty_conv)

lemma braces_infix: "s = a @ t @ b \<Longrightarrow> braces t \<le> braces s"
  by simp

text \<open>Each round consumes the closing braces of one insert and adds none, and makes no bad insert.\<close>

lemma render_step:
  assumes "plain_params (CHR ''}'') idx" and "find_insert s = Insert pre inner post"
  shows "braces (pre @ renderParam (trim_space inner) idx @ post) < braces s"
    and "sublist bad_insert (pre @ renderParam (trim_space inner) idx @ post) \<Longrightarrow> sublist bad_insert s"
proof -
  have s: "s = pre @ insert_start @ inner @ insert_end @ post" by (rule find_insert_Insert [OF assms(2)])
  obtain a b where trim: "inner = a @ trim_space inner @ b" using trim_space_infix by blast
  obtain m where m: "renderParam (trim_space inner) idx = ''['' @ m @ '']''"
      "m = ''Assignment: '' @ trim_space inner \<or> CHR ''}'' \<notin> set m"
    by (rule renderParam_shape [OF assms(1)]) auto
  have "braces m \<le> braces (trim_space inner)" using m(2) by (auto simp: braces_0) (simp add: braces_def)
  also have "\<dots> \<le> braces inner" by (rule braces_infix [OF trim])
  finally have "braces m \<le> braces inner" .
  then show "braces (pre @ renderParam (trim_space inner) idx @ post) < braces s"
    unfolding m(1) s by (simp add: braces_def insert_end_def)
  assume "sublist bad_insert (pre @ renderParam (trim_space inner) idx @ post)"
  then consider "sublist bad_insert pre" | "sublist bad_insert m" | "sublist bad_insert post"
    unfolding m(1) append_assoc bracket_split by blast
  then show "sublist bad_insert s"
  proof cases
    case 1
    then show ?thesis unfolding s by (simp add: sublist_append)
  next
    case 2
    have "CHR ''}'' \<in> set m" using 2 by (auto simp: bad_insert_def dest: set_mono_sublist)
    then have "m = ''Assignment: '' @ trim_space inner" using m(2) by blast
    then have "sublist bad_insert (trim_space inner)"
      using 2 by (simp add: bad_insert_def sublist_Cons_right)
    then have "sublist bad_insert inner" by (subst trim) (simp add: sublist_append)
    then show ?thesis unfolding s by (simp add: sublist_append)
  next
    case 3
    then show ?thesis unfolding s by (simp add: sublist_append)
  qed
qed

lemma renderInserts_returns:
  assumes "plain_params (CHR ''}'') idx" and "\<not> sublist bad_insert s"
  shows "\<exists>t. renderInserts idx s = Some (Some t)"
  using assms(2)
proof (induction "braces s" arbitrary: s rule: less_induct)
  case less
  show ?case
  proof (cases "find_insert s")
    case No_Insert
    then show ?thesis by (simp add: renderInserts.simps)
  next
    case Bad_Insert
    then show ?thesis using find_insert_Bad less.prems by blast
  next
    case (Insert pre inner post)
    then show ?thesis
      using less.hyps [OF render_step(1) [OF assms(1) Insert]] render_step(2) [OF assms(1) Insert] less.prems
      by (simp add: renderInserts.simps [of idx s]) blast
  qed
qed

text \<open>Where it does not: a parameter that inserts itself, and an insert without an id.\<close>

lemma find_start: "CHR ''{'' \<notin> set a \<Longrightarrow> find_sub insert_start (a @ insert_start @ b) = Some (a, b)"
proof (induction a)
  case Nil
  then show ?case by (simp add: insert_start_def has_prefix_def)
next
  case (Cons c a)
  then have "\<not> has_prefix insert_start (c # a @ insert_start @ b)" by (auto simp: insert_start_def has_prefix_def)
  then show ?case using Cons by simp
qed

lemma find_end: "CHR ''}'' \<notin> set a \<Longrightarrow> find_sub insert_end (a @ insert_end @ b) = Some (a, b)"
proof (induction a)
  case Nil
  then show ?case by (simp add: insert_end_def has_prefix_def)
next
  case (Cons c a)
  then have "\<not> has_prefix insert_end (c # a @ insert_end @ b)"
    by (cases a) (auto simp: insert_end_def has_prefix_def)
  then show ?case using Cons by simp
qed

lemma find_no_start: "CHR ''{'' \<notin> set a \<Longrightarrow> find_insert a = No_Insert"
proof -
  assume "CHR ''{'' \<notin> set a"
  then have "find_sub insert_start a = None"
    by (cases "find_sub insert_start a") (auto simp: insert_start_def dest!: find_sub_Some)
  then show ?thesis by (simp add: find_insert_def)
qed

lemma find_insert_at:
  "CHR ''{'' \<notin> set a \<Longrightarrow> CHR ''}'' \<notin> set i \<Longrightarrow> find_insert (a @ insert_start @ i @ insert_end @ b) = Insert a i b"
  using find_end [of "insert_start @ i" b] by (simp add: find_insert_def find_start) (simp add: insert_start_def)

definition self_param :: oscal_param where
  "self_param = \<lparr>pa_ID = ''p'', pa_Label = ''{{ insert: param, p }}'', pa_Select = None\<rparr>"

fun wrapped :: "nat \<Rightarrow> string \<times> string" where
  "wrapped 0 = ([], [])"
| "wrapped (Suc k) = (fst (wrapped k) @ ''[Assignment: '', '']'' @ snd (wrapped k))"

lemma find_wrapped:
  "find_insert (fst (wrapped k) @ ''{{ insert: param, p }}'' @ snd (wrapped k)) = Insert (fst (wrapped k)) ''p'' (snd (wrapped k))"
proof -
  have "CHR ''{'' \<notin> set (fst (wrapped k))" by (induction k) auto
  then show ?thesis
    using find_insert_at [of "fst (wrapped k)" "''p''" "snd (wrapped k)"] by (simp add: insert_start_def insert_end_def)
qed

lemma wrapped_step:
  "fst (wrapped k) @ renderParam (trim_space ''p'') [''p'' \<mapsto> self_param] @ snd (wrapped k)
     = fst (wrapped (Suc k)) @ ''{{ insert: param, p }}'' @ snd (wrapped (Suc k))"
proof -
  have "trim_space ''p'' = ''p''" by code_simp
  then show ?thesis by (simp add: renderParam_def self_param_def)
qed

lemma self_insert_no_result:
  assumes "renderInserts idx x = Some r"
  shows "\<forall>k. idx = [''p'' \<mapsto> self_param] \<longrightarrow> x \<noteq> fst (wrapped k) @ ''{{ insert: param, p }}'' @ snd (wrapped k)"
proof (rule renderInserts.raw_induct [OF _ assms], intro allI impI notI)
  fix f :: "(string \<rightharpoonup> oscal_param) \<Rightarrow> string \<Rightarrow> string option option" and idx x r k
  assume IH: "\<And>idx x r. f idx x = Some r \<Longrightarrow>
      \<forall>k. idx = [''p'' \<mapsto> self_param] \<longrightarrow> x \<noteq> fst (wrapped k) @ ''{{ insert: param, p }}'' @ snd (wrapped k)"
    and body: "(case find_insert x of No_Insert \<Rightarrow> Some (Some x) | Bad_Insert \<Rightarrow> Some None
      | Insert pre inner post \<Rightarrow> f idx (pre @ renderParam (trim_space inner) idx @ post)) = Some r"
    and idx: "idx = [''p'' \<mapsto> self_param]" and x: "x = fst (wrapped k) @ ''{{ insert: param, p }}'' @ snd (wrapped k)"
  have "f idx (fst (wrapped (Suc k)) @ ''{{ insert: param, p }}'' @ snd (wrapped (Suc k))) = Some r"
    using body unfolding x idx find_wrapped insert_found.case wrapped_step .
  then show False using IH idx by blast
qed

lemma self_insert_never_returns:
  "renderInserts [''p'' \<mapsto> self_param] ''{{ insert: param, p }}'' = None"
  using self_insert_no_result [of "[''p'' \<mapsto> self_param]" "''{{ insert: param, p }}''", THEN spec, of _ 0]
  by (cases "renderInserts [''p'' \<mapsto> self_param] ''{{ insert: param, p }}''") auto

lemma empty_insert_panics: "renderInserts idx ''{{ insert: param, }}'' = Some None"
proof -
  have "find_insert ''{{ insert: param, }}'' = Bad_Insert" by code_simp
  then show ?thesis by (simp add: renderInserts.simps)
qed

section \<open>Rendering is substitution\<close>

datatype piece = Text string | Ref string

fun write_piece :: "piece \<Rightarrow> string" where
  "write_piece (Text t) = t"
| "write_piece (Ref i) = insert_start @ i @ insert_end"

fun piece_value :: "(string \<rightharpoonup> oscal_param) \<Rightarrow> piece \<Rightarrow> string" where
  "piece_value idx (Text t) = t"
| "piece_value idx (Ref i) = renderParam (trim_space i) idx"

fun piece_ok :: "piece \<Rightarrow> bool" where
  "piece_ok (Text t) \<longleftrightarrow> CHR ''{'' \<notin> set t"
| "piece_ok (Ref i) \<longleftrightarrow> CHR ''{'' \<notin> set i \<and> CHR ''}'' \<notin> set i"

lemma piece_value_no_brace: "plain_params (CHR ''{'') idx \<Longrightarrow> piece_ok x \<Longrightarrow> CHR ''{'' \<notin> set (piece_value idx x)"
proof (cases x)
  case (Ref i)
  assume idx: "plain_params (CHR ''{'') idx" and "piece_ok x"
  then have i: "CHR ''{'' \<notin> set i" using Ref by simp
  obtain a b where "i = a @ trim_space i @ b" using trim_space_infix by blast
  then have "CHR ''{'' \<notin> set (trim_space i)" using i by (metis Un_iff set_append)
  obtain m where "renderParam (trim_space i) idx = ''['' @ m @ '']''" "m = ''Assignment: '' @ trim_space i \<or> CHR ''{'' \<notin> set m"
    by (rule renderParam_shape [OF idx]) simp
  then show ?thesis using \<open>CHR ''{'' \<notin> set (trim_space i)\<close> Ref by auto
qed simp

lemma renderInserts_pieces:
  assumes "plain_params (CHR ''{'') idx"
  shows "CHR ''{'' \<notin> set a \<Longrightarrow> list_all piece_ok ps \<Longrightarrow>
     renderInserts idx (a @ concat (map write_piece ps)) = Some (Some (a @ concat (map (piece_value idx) ps)))"
proof (induction ps arbitrary: a)
  case Nil
  then show ?case by (simp add: renderInserts.simps find_no_start)
next
  case (Cons x ps)
  show ?case
  proof (cases x)
    case (Text t)
    then show ?thesis using Cons.IH [of "a @ t"] Cons.prems by simp
  next
    case (Ref i)
    have "renderInserts idx (a @ concat (map write_piece (x # ps)))
        = renderInserts idx ((a @ piece_value idx x) @ concat (map write_piece ps))"
      using find_insert_at [of a i "concat (map write_piece ps)"] Cons.prems Ref
      by (subst renderInserts.simps) simp
    then show ?thesis
      using Cons.IH [of "a @ piece_value idx x"] Cons.prems piece_value_no_brace [OF assms, of x] by simp
  qed
qed

end
