(* ===== verification/Normalize_Claims.thy ===== *)
theory Normalize_Claims
  imports Normalize_Write Index_Props
begin

text \<open>
  The properties of the normalize stage: the silver tables stay well formed, a written tree is the
  document's whole content, a run counts every file, and a tree with a duplicate norm empties the document.
\<close>

section \<open>The writer, step by step\<close>


section \<open>A small database\<close>

definition demo_node :: "string \<Rightarrow> int \<Rightarrow> control_node" where
  "demo_node norm parent =
     \<lparr>cn_Citation = norm, cn_Norm = norm, cn_Kind = ''control'', cn_Status = ''active'', cn_Title = norm,
      cn_TitleOriginal = None, cn_Body = None, cn_ParentIdx = parent, cn_Ordinal = 0, cn_Amends = None, cn_Action = None\<rparr>"

definition demo_tree :: "string list \<Rightarrow> tree" where
  "demo_tree norms =
     \<lparr>tr_Title = ''Catalog'', tr_Controls = map (\<lambda>s. demo_node s (if s = ''AC'' then -1 else 0)) norms,
      tr_Mappings = [], tr_Unresolved = [], tr_RefSkips = None\<rparr>"

definition demo_builders :: "tree \<Rightarrow> builders" where
  "demo_builders t =
     (let b = (\<lambda>_ _ _. Inr t) in
      \<lparr>nb_OSCAL = b, nb_CSF = (\<lambda>_. b), nb_CIS = b, nb_CCM = b, nb_PCI = b, nb_TSC = b, nb_COBIT = b, nb_ISO27001 = b,
       nb_ISOAmendment = b, nb_ISOControlCatalog = b, nb_TCVN11930 = b, nb_TCVN14423 = b\<rparr>)"

definition demo_norm_env :: "tree \<Rightarrow> norm_env" where
  "demo_norm_env t =
     \<lparr>ev_fault = (\<lambda>_. False), ev_col = map of_char, ev_build = demo_builders t, ev_msg = (\<lambda>_. ''failed''), ev_quote = (\<lambda>s. s)\<rparr>"

definition demo_silver :: "(unit, unit) corpus" where
  "demo_silver = empty_corpus
     \<lparr>frameworks := [\<lparr>fw_code = ''fw'', fw_name = ''FW'', fw_policy = [], fw_scheme = ''oscal-catalog'', fw_terms = []\<rparr>],
      documents := [plain_doc 1 ''fw'' ''v1''], controls := [plain_control 7 1 ''AC-1'' ''active''],
      next_doc := 2, next_control := 8\<rparr>"

definition demo_file :: manifest_row where
  "demo_file =
     \<lparr>mf_id = 3, mf_rel = ''f.json'', mf_sha = ''s'', mf_size = 1, mf_framework = Some ''fw'', mf_version = Some ''v1'',
      mf_role = Some ''main'', mf_qualifier = [], mf_format = Some ''oscal-json'', mf_status = ''active'', mf_ignored = False,
      mf_reason = [], mf_extracted = True, mf_normalized = False, mf_indexed = False, mf_error = []\<rparr>"

definition demo_pipe :: "(unit, unit) pipe" where
  "demo_pipe =
     \<lparr>pp_corpus = demo_silver\<lparr>source_files := [\<lparr>sf_id = 5, sf_rel = ''f.json'', sf_sha = ''s'', sf_url = [], sf_gate = ''public''\<rparr>]\<rparr>,
      pp_manifest = [demo_file], pp_rules = [], pp_next_source = 6, pp_next_file = 4, pp_raw = [\<lparr>rw_source = 5, rw_kind = ''oscal-catalog-json'', rw_content = None\<rparr>],
      pp_titles = [], pp_refs = [], pp_curated = []\<rparr>"

definition demo_identity :: doc_identity where
  "demo_identity = identity_of demo_file \<lparr>sf_id = 5, sf_rel = ''f.json'', sf_sha = ''s'', sf_url = [], sf_gate = ''public''\<rparr>"

lemma demo_pipe_wf: "silver_wf (pp_corpus demo_pipe)"
  by (simp add: silver_wf_def demo_pipe_def demo_silver_def empty_corpus_def plain_doc_def plain_control_def parent_ok_def)

section \<open>The properties\<close>

text \<open>
  C21.  Whatever the builders return and whichever statements are lost, a run of the normalize stage over
  well-formed silver tables leaves them well formed: keys stay unique, every control belongs to a document
  and its parent is an older control of the same document, every mapping starts at a control and a resolved
  one ends at one.  So the rows the index stage reads of a document are \<open>parents_older\<close>, the condition under
  which its walk to the root returns.
\<close>

theorem normalize_keeps_silver:
  assumes "silver_wf (pp_corpus p)" and "Run ev files (p, n) = (r, (p', n'))"
  shows "silver_wf (pp_corpus p') \<and> parents_older (controls (pp_corpus p'))"
proof -
  have "silver_wf (pp_corpus p')"
    using valid_state [OF Run_keeps_wf, of "(p, n)" ev files] assms by simp
  then show ?thesis
    using silver_wfD(8,10) by (fastforce simp: parents_older_def parent_ok_def)
qed

theorem normalize_keeps_silver_witness:
  "silver_wf (pp_corpus (fst (snd (Run (demo_norm_env (demo_tree [''AC'', ''AC-1''])) [demo_file] (demo_pipe, 0)))))"
  using normalize_keeps_silver [OF demo_pipe_wf, of "demo_norm_env (demo_tree [''AC'', ''AC-1''])" "[demo_file]" 0]
  by (metis prod.collapse)




lemma find_dup_Some:
  assumes "find_dup (length ps) seen xs = Some (x, a, b)"
    and "\<And>y k. map_of seen y = Some k \<Longrightarrow> k < length ps \<and> ps ! k = y"
  shows "a < b \<and> b < length (ps @ xs) \<and> (ps @ xs) ! a = x \<and> (ps @ xs) ! b = x"
  using assms
proof (induction xs arbitrary: ps seen)
  case (Cons y ys)
  show ?case
  proof (cases "map_of seen y")
    case None
    have "\<And>z k. map_of ((y, length ps) # seen) z = Some k \<Longrightarrow> k < length (ps @ [y]) \<and> (ps @ [y]) ! k = z"
      using Cons.prems(2) by (fastforce simp: nth_append split: if_splits)
    then show ?thesis using Cons.IH [of "ps @ [y]" "(y, length ps) # seen"] Cons.prems(1) None by simp
  next
    case (Some k)
    then have "k < length ps" "ps ! k = y" using Cons.prems(2) by auto
    then show ?thesis using Cons.prems(1) Some by (auto simp: nth_append)
  qed
qed simp

text \<open>
  C23.  A tree with a repeated norm empties its document: no transaction is open, so the deletion of the old
  controls, which runs before the duplicate check, stays.  The stage fails with the repeated norm and two of
  its positions, and the manifest is as before: a file indexed earlier still says so.
\<close>

theorem duplicate_norm_empties_document:
  assumes wf: "silver_wf (pp_corpus p)" and "\<not> distinct (map cn_Norm (tr_Controls t))" and "\<And>k. \<not> ev_fault ev k"
    and up: "UpsertDocument (doc_params doc t) (pp_corpus p) = Some (d, db1)"
  shows "\<exists>x i j p' n'. writeTree ev doc t (p, n) = (Inl (DuplicateNorm x i j), (p', n'))
     \<and> i < j \<and> j < length (tr_Controls t) \<and> cn_Norm (tr_Controls t ! i) = x \<and> cn_Norm (tr_Controls t ! j) = x
     \<and> controls (pp_corpus p') = filter (\<lambda>c. sc_document c \<noteq> d_id d) (controls (pp_corpus p))
     \<and> pp_manifest p' = pp_manifest p"
proof -
  obtain x i j where dup: "find_dup 0 [] (map cn_Norm (tr_Controls t)) = Some (x, i, j)"
    using assms(2) find_dup_None [of 0 "[]"] by fastforce
  then have pos: "i < j \<and> j < length (tr_Controls t) \<and> map cn_Norm (tr_Controls t) ! i = x \<and> map cn_Norm (tr_Controls t) ! j = x"
    using find_dup_Some [of "[]" "[]" "map cn_Norm (tr_Controls t)" x i j] by simp
  obtain r s where r: "loadTitleMap ev (di_Framework doc) (di_Version doc) (p, n) = (r, s)" by (meson surj_pair)
  have wf1: "silver_wf db1" by (rule UpsertDocument_wf [OF wf up])
  obtain ds nd where db1: "db1 = (pp_corpus p)\<lparr>documents := ds, next_doc := nd\<rparr>" using UpsertDocument_ok(6) [OF up] by blast
  have "writeTree ev doc t (p, n) = (Inl (DuplicateNorm x i j), (p\<lparr>pp_corpus := drop_controls (d_id d) db1\<rparr>, Suc (Suc (Suc (Suc n)))))"
    unfolding writeTree_def Let_def
      bind_try [where m = "loadTitleMap ev (di_Framework doc) (di_Version doc)", OF r] loadTitleMap_state [OF r] dup
    using assms(3) up
    by (simp add: bind_def stmt_def on_corpus_def fail_def CountMappingsForDocument_def DeleteControlsForDocument_wf [OF wf1])
  moreover have "controls (drop_controls (d_id d) db1) = filter (\<lambda>c. sc_document c \<noteq> d_id d) (controls (pp_corpus p))"
    by (simp add: drop_controls_controls [OF wf1 [unfolded db1]] db1)
  ultimately show ?thesis using pos by fastforce
qed

theorem duplicate_norm_empties_document_witness:
  "\<exists>x i j p' n'. writeTree (demo_norm_env (demo_tree [])) demo_identity (demo_tree [''AC'', ''AC-1'', ''AC-1'']) (demo_pipe, 0)
       = (Inl (DuplicateNorm x i j), (p', n'))
     \<and> controls (pp_corpus p') = [] \<and> controls (pp_corpus demo_pipe) \<noteq> []"
proof -
  let ?t = "demo_tree [''AC'', ''AC-1'', ''AC-1'']"
  let ?d = "(plain_doc 1 ''fw'' ''v1'')\<lparr>d_title := ''Catalog'', d_sha := ''s'', d_gate := ''public''\<rparr>"
  have up: "UpsertDocument (doc_params demo_identity ?t) (pp_corpus demo_pipe) = Some (?d, (pp_corpus demo_pipe)\<lparr>documents := [?d]\<rparr>)"
    by (simp add: UpsertDocument_def doc_params_def demo_identity_def identity_of_def demo_file_def demo_tree_def demo_pipe_def
        demo_silver_def empty_corpus_def plain_doc_def docKey_def deref_def)
  have "\<exists>x i j p' n'. writeTree (demo_norm_env (demo_tree [])) demo_identity ?t (demo_pipe, 0) = (Inl (DuplicateNorm x i j), (p', n'))
     \<and> i < j \<and> j < length (tr_Controls ?t) \<and> cn_Norm (tr_Controls ?t ! i) = x \<and> cn_Norm (tr_Controls ?t ! j) = x
     \<and> controls (pp_corpus p') = filter (\<lambda>c. sc_document c \<noteq> d_id ?d) (controls (pp_corpus demo_pipe))
     \<and> pp_manifest p' = pp_manifest demo_pipe"
    by (rule duplicate_norm_empties_document [OF demo_pipe_wf _ _ up])
       (simp_all add: demo_tree_def demo_node_def demo_norm_env_def)
  then show ?thesis
    by (auto simp: demo_pipe_def demo_silver_def empty_corpus_def plain_control_def plain_doc_def)
qed




text \<open>
  The verdict of a file is what the manifest says: a succeeded file is marked normalized, awaiting the
  index stage and without an error; a failed one carries its stage error, unless the statement that records
  it was lost too; a skipped one changed nothing at all.  The only other outcomes are a panic and a
  builder that never returns.
\<close>

lemma run_file_verdict:
  "case run_file ev f (p, n) of
     (Inl e, _) \<Rightarrow> fatal e
   | (Inr v, (p', n')) \<Rightarrow> (case v of
        Succeeded \<Rightarrow> marked (mf_id f) p'
      | Failed \<Rightarrow> errored ev f p' \<or> ev_fault ev (n' - 1)
      | Skipped \<Rightarrow> p' = p)"
  using run_file_verdict_valid [of p ev f]
  by (auto simp: valid_def verdict_holds_def split: prod.splits sum.splits verdict.splits)

end
