(* ===== verification/Oscal_Claims.thy ===== *)
theory Oscal_Claims
  imports Oscal_Props Normalize_Claims
begin

text \<open>
  The tree of an OSCAL catalog against its outline, and when the builder returns.
\<close>

section \<open>The outline of a catalog\<close>

text \<open>
  A control is listed by its path, the labels from its group down to it, with its kind and status.  In a
  tree the path of a row is that of the row its parent index names, with its own citation.
\<close>

type_synonym listed = "string list \<times> string \<times> string"

fun outline :: "string list \<Rightarrow> string \<Rightarrow> oscal_control \<Rightarrow> listed list" where
  "outline path kind (Oscal_Control i title props params parts links subs) =
     (let c = Oscal_Control i title props params parts links subs; here = path @ [controlLabel c] in
      (here, kind, controlStatus c) # concat (map (outline here ''enhancement'') subs))"

definition group_outline :: "oscal_group \<Rightarrow> listed list" where
  "group_outline g =
     ([groupLabel g], ''family'', ''active'') # concat (map (outline [groupLabel g] ''control'') (og_Controls g))"

fun row_paths :: "string list list \<Rightarrow> control_node list \<Rightarrow> string list list" where
  "row_paths ps [] = ps"
| "row_paths ps (r # rs) =
     row_paths (ps @ [(if cn_ParentIdx r < 0 then [] else ps ! nat (cn_ParentIdx r)) @ [cn_Citation r]]) rs"

definition listing :: "control_node list \<Rightarrow> listed list" where
  "listing rs = zip (row_paths [] rs) (map (\<lambda>r. (cn_Kind r, cn_Status r)) rs)"

lemma length_row_paths [simp]: "length (row_paths ps rs) = length ps + length rs"
  by (induction ps rs rule: row_paths.induct) auto

lemma row_paths_append [simp]: "row_paths ps (xs @ ys) = row_paths (row_paths ps xs) ys"
  by (induction ps xs rule: row_paths.induct) auto

lemma length_listing [simp]: "length (listing rs) = length rs"
  by (simp add: listing_def)

lemma listing_Nil [simp]: "listing [] = []"
  by (simp add: listing_def)

lemma listing_snoc:
  "cn_ParentIdx r < int (length rs) \<Longrightarrow> listing (rs @ [r]) = listing rs
     @ [((if cn_ParentIdx r < 0 then [] else fst (listing rs ! nat (cn_ParentIdx r))) @ [cn_Citation r], cn_Kind r, cn_Status r)]"
  by (simp add: listing_def nat_less_iff)

section \<open>The walk\<close>

definition walk_inv :: "walk \<Rightarrow> bool" where
  "walk_inv w \<longleftrightarrow> parents_precede 0 (tr_Controls (wk_tree w))
     \<and> wk_ordinal w = int (length (tr_Controls (wk_tree w)))
     \<and> map cn_Ordinal (tr_Controls (wk_tree w)) = map int [0..<length (tr_Controls (wk_tree w))]
     \<and> (\<forall>m \<in> set (tr_Mappings (wk_tree w)). te_FromIdx m < length (tr_Controls (wk_tree w))
          \<and> cn_Status (tr_Controls (wk_tree w) ! te_FromIdx m) = ''withdrawn'')"

definition grows :: "walk \<Rightarrow> walk \<Rightarrow> listed list \<Rightarrow> bool" where
  "grows w w' out \<longleftrightarrow> listing (tr_Controls (wk_tree w')) = listing (tr_Controls (wk_tree w)) @ out
     \<and> tr_Title (wk_tree w') = tr_Title (wk_tree w)"

text \<open>The row at an index has the given path.\<close>

definition has_path :: "nat \<Rightarrow> string list \<Rightarrow> walk \<Rightarrow> bool" where
  "has_path k path w \<longleftrightarrow> k < length (tr_Controls (wk_tree w)) \<and> fst (listing (tr_Controls (wk_tree w)) ! k) = path"

lemma grows_path: "has_path k path u \<Longrightarrow> grows u w out \<Longrightarrow> has_path k path w"
proof -
  assume "has_path k path u" and g: "grows u w out"
  then have "length (tr_Controls (wk_tree w)) = length (tr_Controls (wk_tree u)) + length out"
    unfolding grows_def by (metis length_append length_listing)
  then show ?thesis using \<open>has_path k path u\<close> g by (simp add: has_path_def grows_def nth_append)
qed

lemma grows_last_path: "grows u w [(path, x)] \<Longrightarrow> has_path (length (tr_Controls (wk_tree u))) path w"
proof -
  assume g: "grows u w [(path, x)]"
  then have "length (tr_Controls (wk_tree w)) = Suc (length (tr_Controls (wk_tree u)))"
    unfolding grows_def by (metis length_append_singleton length_listing)
  then show ?thesis using g by (simp add: has_path_def grows_def nth_append)
qed

lemma grows_trans: "grows u v a \<Longrightarrow> grows v w b \<Longrightarrow> grows u w (a @ b)"
  by (simp add: grows_def)

lemma try_fold_grows:
  assumes "\<And>x u u'. x \<in> set xs \<Longrightarrow> walk_inv u \<Longrightarrow> P u \<Longrightarrow> f x u = Inr u' \<Longrightarrow> walk_inv u' \<and> grows u u' (out x)"
    and "\<And>u u' o'. P u \<Longrightarrow> grows u u' o' \<Longrightarrow> P u'" and "walk_inv u" and "P u" and "try_fold f xs u = Inr u'"
  shows "walk_inv u' \<and> grows u u' (concat (map out xs))"
  using assms
proof (induction xs arbitrary: u)
  case Nil
  then show ?case by (simp add: grows_def)
next
  case (Cons x xs)
  obtain v where v: "f x u = Inr v" and rest: "try_fold f xs v = Inr u'"
    using Cons.prems(5) by (auto split: sum.splits)
  have 1: "walk_inv v" "grows u v (out x)" using Cons.prems(1) [OF _ Cons.prems(3,4) v] by auto
  have "walk_inv u' \<and> grows v u' (concat (map out xs))"
    by (rule Cons.IH) (use Cons.prems(1,2,4) 1 rest in auto)
  then show ?case using grows_trans [OF 1(2)] by simp
qed

lemma add_row_inv:
  assumes "walk_inv w" and "parent < int (length (tr_Controls (wk_tree w)))"
  shows "walk_inv (add_row (row_for label kind status title body parent (wk_ordinal w)) w)"
  using assms
  by (auto simp: walk_inv_def add_row_def row_for_def parents_precede_append nth_append)

lemma add_row_grows:
  "has_path k path w \<Longrightarrow>
     grows w (add_row (row_for label kind status title body (int k) n) w) [(path @ [label], kind, status)]"
  "grows w (add_row (row_for label kind status title body (-1) n) w) [([label], kind, status)]"
  by (simp_all add: grows_def add_row_def row_for_def has_path_def listing_snoc)

lemma withdrawn_link_tree:
  "tr_Controls (withdrawn_link fw v ids label k link t) = tr_Controls t"
  "tr_Title (withdrawn_link fw v ids label k link t) = tr_Title t"
  "m \<in> set (tr_Mappings (withdrawn_link fw v ids label k link t)) \<Longrightarrow> m \<in> set (tr_Mappings t) \<or> te_FromIdx m = k"
  by (auto simp: withdrawn_link_def Let_def split: if_splits)

lemma withdrawn_links_tree:
  "tr_Controls (fold (withdrawn_link fw v ids label k) links t) = tr_Controls t
   \<and> tr_Title (fold (withdrawn_link fw v ids label k) links t) = tr_Title t
   \<and> (\<forall>m \<in> set (tr_Mappings (fold (withdrawn_link fw v ids label k) links t)). m \<in> set (tr_Mappings t) \<or> te_FromIdx m = k)"
proof (induction links arbitrary: t)
  case (Cons l ls)
  show ?case using Cons [of "withdrawn_link fw v ids label k l t"] withdrawn_link_tree [where link = l and t = t] by fastforce
qed simp

lemma walk_params_inv [simp]:
  "walk_inv (u\<lparr>wk_params := ps\<rparr>) = walk_inv u" "grows (u\<lparr>wk_params := ps\<rparr>) w out = grows u w out"
  "grows w (u\<lparr>wk_params := ps\<rparr>) out = grows w u out"
  by (simp_all add: walk_inv_def grows_def)

lemma has_path_params [simp]: "has_path k path (u\<lparr>wk_params := ps\<rparr>) = has_path k path u"
  by (simp add: has_path_def)

lemma walk_grows:
  "walkOSCALControls fw v ids (int p) kind c w = Inr w' \<Longrightarrow> walk_inv w \<Longrightarrow> has_path p path w
     \<Longrightarrow> walk_inv w' \<and> grows w w' (outline path kind c)"
proof (induction c arbitrary: p path kind w w')
  case (Oscal_Control i title props params parts links subs)
  let ?c = "Oscal_Control i title props params parts links subs"
  let ?k = "length (tr_Controls (wk_tree w))"
  let ?here = "path @ [controlLabel ?c]"
  obtain body where body: "buildBody ?c (wk_params w) = Inr body"
    using Oscal_Control.prems(1) by (auto simp: Let_def split: sum.splits)
  define st where "st = controlStatus ?c"
  define w1 where "w1 = add_row (row_for (controlLabel ?c) kind st title body (int p) (wk_ordinal w)) w"
  define t2 where "t2 = fold (withdrawn_link fw v ids (controlLabel ?c) ?k) links (wk_tree w1)"
  define w2 where "w2 = (if st = ''withdrawn'' then w1\<lparr>wk_tree := t2\<rparr> else w1)"
  have rest: "try_fold (\<lambda>sub u. walkOSCALControls fw v ids (int ?k) ''enhancement'' sub
      (u\<lparr>wk_params := addControlParams sub (wk_params u)\<rparr>)) subs w2 = Inr w'"
    using Oscal_Control.prems(1) body unfolding w2_def t2_def w1_def st_def by (simp add: Let_def)
  have "p < ?k" using Oscal_Control.prems(3) by (simp add: has_path_def)
  then have inv1: "walk_inv w1" unfolding w1_def by (intro add_row_inv [OF Oscal_Control.prems(2)]) simp
  have len1: "length (tr_Controls (wk_tree w1)) = Suc ?k" by (simp add: w1_def add_row_def)
  have last: "cn_Status (tr_Controls (wk_tree w1) ! ?k) = st" by (simp add: w1_def add_row_def row_for_def)
  have links: "tr_Controls t2 = tr_Controls (wk_tree w1)" "tr_Title t2 = tr_Title (wk_tree w1)"
    "\<And>m. m \<in> set (tr_Mappings t2) \<Longrightarrow> m \<in> set (tr_Mappings (wk_tree w1)) \<or> te_FromIdx m = ?k"
    unfolding t2_def using withdrawn_links_tree by blast+
  have inv2: "walk_inv w2"
    using inv1 links(1,2) len1 last by (auto simp: walk_inv_def w2_def dest!: links(3))
  have "grows w w1 [(?here, kind, st)]" unfolding w1_def by (rule add_row_grows(1) [OF Oscal_Control.prems(3)])
  then have grow2: "grows w w2 [(?here, kind, st)]" using links(1,2) by (auto simp: grows_def w2_def)
  have here: "has_path ?k ?here w2" by (rule grows_last_path [OF grow2])
  have "walk_inv w' \<and> grows w2 w' (concat (map (outline ?here ''enhancement'') subs))"
  proof (rule try_fold_grows [where P = "has_path ?k ?here", OF _ _ inv2 here rest])
    fix sub u u'
    assume sub: "sub \<in> set subs" and u: "walk_inv u" "has_path ?k ?here u"
      and step: "walkOSCALControls fw v ids (int ?k) ''enhancement'' sub (u\<lparr>wk_params := addControlParams sub (wk_params u)\<rparr>) = Inr u'"
    show "walk_inv u' \<and> grows u u' (outline ?here ''enhancement'' sub)"
      using Oscal_Control.IH [OF sub step, of ?here] u by simp
  qed (rule grows_path)
  then show ?case using grows_trans [OF grow2] by (simp add: Let_def st_def)
qed

lemma group_grows:
  assumes "walk_inv w" and "walk_group fw v ids g w = Inr w'"
  shows "walk_inv w' \<and> grows w w' (group_outline g)"
proof -
  define w1 where "w1 = add_row (row_for (groupLabel g) ''family'' ''active'' (og_Title g) None (-1) (wk_ordinal w)) w"
  let ?w2 = "w1\<lparr>wk_params := fold addControlParams (og_Controls g) (wk_params w1)\<rparr>"
  let ?k = "length (tr_Controls (wk_tree w))"
  have rest: "try_fold (walkOSCALControls fw v ids (int ?k) ''control'') (og_Controls g) ?w2 = Inr w'"
    using assms(2) by (simp add: walk_group_def Let_def w1_def)
  have inv: "walk_inv ?w2" using add_row_inv [OF assms(1), of "-1"] by (simp add: w1_def)
  have grow: "grows w ?w2 [([groupLabel g], ''family'', ''active'')]" using add_row_grows(2) by (simp add: w1_def)
  have here: "has_path ?k [groupLabel g] ?w2" by (rule grows_last_path [OF grow])
  have "walk_inv w' \<and> grows ?w2 w' (concat (map (outline [groupLabel g] ''control'') (og_Controls g)))"
    by (rule try_fold_grows [where P = "has_path ?k [groupLabel g]", OF _ _ inv here rest]) (rule walk_grows grows_path; assumption)+
  then show ?thesis using grows_trans [OF grow] by (simp add: group_outline_def)
qed

section \<open>Flat catalogs\<close>

fun flat_part :: "oscal_part \<Rightarrow> bool" where
  "flat_part (Oscal_Part i n prose subs) \<longleftrightarrow> \<not> sublist bad_insert prose \<and> list_all flat_part subs"

fun flat_control :: "oscal_control \<Rightarrow> bool" where
  "flat_control (Oscal_Control i title props params parts links subs) \<longleftrightarrow>
     list_all (plain_text (CHR ''}'')) params \<and> list_all flat_part parts \<and> list_all flat_control subs"

definition flat_catalog :: "oscal_catalog \<Rightarrow> oscal_group list \<Rightarrow> bool" where
  "flat_catalog cat groups \<longleftrightarrow> list_all (plain_text (CHR ''}'')) (ca_Params cat)
     \<and> list_all (\<lambda>g. list_all flat_control (og_Controls g)) groups"

abbreviation plain :: "(string \<rightharpoonup> oscal_param) \<Rightarrow> bool" where
  "plain \<equiv> plain_params (CHR ''}'')"

lemma plain_upd: "plain idx \<Longrightarrow> list_all (plain_text (CHR ''}'')) ps \<Longrightarrow> plain (fold (\<lambda>p m. m(pa_ID p \<mapsto> p)) ps idx)"
proof (induction ps arbitrary: idx)
  case (Cons p ps)
  have "plain (idx(pa_ID p \<mapsto> p))" using Cons.prems by (simp add: plain_params_def)
  then show ?case using Cons.IH Cons.prems(2) by (simp del: fun_upd_apply)
qed simp

lemma plain_add_params: "plain idx \<Longrightarrow> list_all flat_control cs \<Longrightarrow> plain (add_params cs idx)"
proof (induction cs idx rule: add_params.induct)
  case (2 c cs idx)
  obtain i t ps qs rs ls subs where c: "c = Oscal_Control i t ps qs rs ls subs" by (cases c)
  then show ?case using 2 by (simp add: plain_upd)
qed simp

lemma plain_addControlParams: "plain idx \<Longrightarrow> flat_control c \<Longrightarrow> plain (addControlParams c idx)"
  using plain_add_params [of idx "[c]"] unfolding addControlParams_def by (simp del: add_params.simps)

lemma try_map_ok: "(\<And>x. x \<in> set xs \<Longrightarrow> \<exists>y. f x = Inr y) \<Longrightarrow> \<exists>ys. try_map f xs = Inr ys"
proof (induction xs)
  case (Cons x xs)
  then obtain y ys where "f x = Inr y" "try_map f xs = Inr ys" by fastforce
  then show ?case by simp
qed simp

lemma try_fold_ok:
  assumes "\<And>x u. x \<in> set xs \<Longrightarrow> P u \<Longrightarrow> \<exists>u'. f x u = Inr u' \<and> P u'" and "P u"
  shows "\<exists>u'. try_fold f xs u = Inr u' \<and> P u'"
  using assms
proof (induction xs arbitrary: u)
  case (Cons x xs)
  obtain v where "f x u = Inr v" "P v" using Cons.prems by auto
  moreover have "\<exists>u'. try_fold f xs v = Inr u' \<and> P u'" using Cons.IH Cons.prems(1) \<open>P v\<close> by simp
  ultimately show ?case by simp
qed simp

lemma flattenPart_ok: "plain idx \<Longrightarrow> flat_part p \<Longrightarrow> \<exists>t. flattenPart p idx indent = Inr t"
proof (induction p arbitrary: indent)
  case (Oscal_Part i n prose subs)
  obtain t where "renderInserts idx prose = Some (Some t)" using renderInserts_returns Oscal_Part.prems by fastforce
  then have "rendered idx prose = Inr t" by (simp add: rendered_def)
  moreover have "\<exists>ts. try_map (\<lambda>sub. flattenPart sub idx (indent @ ''  '')) subs = Inr ts"
    by (rule try_map_ok) (use Oscal_Part in \<open>auto simp: list_all_iff\<close>)
  ultimately show ?case by auto
qed

lemma buildBody_ok: "plain idx \<Longrightarrow> flat_control c \<Longrightarrow> \<exists>b. buildBody c idx = Inr b"
proof -
  assume "plain idx" and "flat_control c"
  then have "\<exists>ts. try_map (\<lambda>p. flattenPart p idx []) (filter (\<lambda>p. op_Name p = ''statement'' \<or> op_Name p = ''guidance'') (oc_Parts c)) = Inr ts"
    by (intro try_map_ok flattenPart_ok) (cases c; auto simp: list_all_iff)+
  then show ?thesis by (auto simp: buildBody_def Let_def)
qed

lemma add_row_params [simp]: "wk_params (add_row r w) = wk_params w"
  by (simp add: add_row_def)

lemma walk_ok: "plain (wk_params w) \<Longrightarrow> flat_control c \<Longrightarrow>
    \<exists>w'. walkOSCALControls fw v ids parent kind c w = Inr w' \<and> plain (wk_params w')"
proof (induction c arbitrary: parent kind w)
  case (Oscal_Control i title props params parts links subs)
  let ?c = "Oscal_Control i title props params parts links subs"
  obtain body where body: "buildBody ?c (wk_params w) = Inr body" using buildBody_ok Oscal_Control.prems by blast
  define k where "k = length (tr_Controls (wk_tree w))"
  define w1 where "w1 = add_row (row_for (controlLabel ?c) kind (controlStatus ?c) title body parent (wk_ordinal w)) w"
  define w2 where "w2 = (if controlStatus ?c = ''withdrawn''
     then w1\<lparr>wk_tree := fold (withdrawn_link fw v ids (controlLabel ?c) k) links (wk_tree w1)\<rparr> else w1)"
  have "plain (wk_params w2)" using Oscal_Control.prems(1) by (simp add: w2_def w1_def)
  moreover have "\<exists>u'. walkOSCALControls fw v ids (int k) ''enhancement'' sub
      (u\<lparr>wk_params := addControlParams sub (wk_params u)\<rparr>) = Inr u' \<and> plain (wk_params u')"
    if "sub \<in> set subs" "plain (wk_params u)" for sub u
    using that Oscal_Control.prems(2)
    by (intro Oscal_Control.IH) (auto simp: list_all_iff intro: plain_addControlParams)
  ultimately have "\<exists>w'. try_fold (\<lambda>sub u. walkOSCALControls fw v ids (int k) ''enhancement'' sub
      (u\<lparr>wk_params := addControlParams sub (wk_params u)\<rparr>)) subs w2 = Inr w' \<and> plain (wk_params w')"
    by (intro try_fold_ok [where P = "\<lambda>u. plain (wk_params u)"])
  then show ?case using body unfolding w2_def w1_def k_def by (simp add: Let_def)
qed

lemma group_ok:
  assumes "plain (wk_params w)" and "list_all flat_control (og_Controls g)"
  shows "\<exists>w'. walk_group fw v ids g w = Inr w' \<and> plain (wk_params w')"
proof -
  have "plain (fold addControlParams cs idx)" if "plain idx" "list_all flat_control cs" for cs idx
    using that by (induction cs arbitrary: idx) (auto simp: plain_addControlParams)
  then show ?thesis
    unfolding walk_group_def Let_def using assms
    by (intro try_fold_ok [where P = "\<lambda>u. plain (wk_params u)"] walk_ok) (auto simp: list_all_iff)
qed

lemma walk_start: "walk_inv \<lparr>wk_tree = \<lparr>tr_Title = t, tr_Controls = [], tr_Mappings = [], tr_Unresolved = [],
    tr_RefSkips = None\<rparr>, wk_params = ps, wk_ordinal = 0\<rparr>"
  by (simp add: walk_inv_def)

section \<open>The properties\<close>

text \<open>
  C25.  The tree of a catalog: its controls are the groups and their nested controls in document order, each
  with its path of labels, kind and status; every parent comes before its child, the ordinals count the rows, and an edge leaves a withdrawn control.  So its indexes are in range for the
  writer.
\<close>

theorem oscal_tree:
  assumes "BuildOSCALTree raw fw v = Inr t"
  shows "\<exists>cat groups. Option.bind raw dec_document = Some cat \<and> ca_Groups cat = Some groups
     \<and> tr_Title t = ca_Title cat \<and> tr_Title t \<noteq> []
     \<and> listing (tr_Controls t) = concat (map group_outline groups)
     \<and> parents_precede 0 (tr_Controls t) \<and> well_indexed t
     \<and> map cn_Ordinal (tr_Controls t) = map int [0..<length (tr_Controls t)]
     \<and> (\<forall>m \<in> set (tr_Mappings t). cn_Status (tr_Controls t ! te_FromIdx m) = ''withdrawn'')"
proof -
  obtain cat where cat: "Option.bind raw dec_document = Some cat" "ca_Title cat \<noteq> []"
    using assms by (auto simp: BuildOSCALTree_def split: option.splits if_splits)
  obtain groups where groups: "ca_Groups cat = Some groups"
    using assms cat by (auto simp: BuildOSCALTree_def split: option.splits)
  define start where "start = \<lparr>wk_tree = \<lparr>tr_Title = ca_Title cat, tr_Controls = [], tr_Mappings = [], tr_Unresolved = [],
     tr_RefSkips = None\<rparr>, wk_params = fold (\<lambda>p m. m(pa_ID p \<mapsto> p)) (ca_Params cat) Map.empty, wk_ordinal = 0\<rparr>"
  define ids where "ids = fold (\<lambda>g m. buildIDIndex (og_Controls g) (m(og_ID g \<mapsto> groupLabel g))) groups Map.empty"
  have "map_sum id wk_tree (try_fold (walk_group fw v ids) groups start) = Inr t"
    using assms cat groups by (simp add: BuildOSCALTree_def Let_def start_def ids_def del: fun_upd_apply)
  then obtain w where w: "try_fold (walk_group fw v ids) groups start = Inr w" "t = wk_tree w"
    by (cases "try_fold (walk_group fw v ids) groups start") auto
  have "walk_inv w \<and> grows start w (concat (map group_outline groups))"
    by (rule try_fold_grows [OF _ _ _ _ w(1), where P = "\<lambda>_. True"]) (auto simp: start_def walk_start group_grows)
  then have inv: "walk_inv w" and grow: "grows start w (concat (map group_outline groups))" by auto
  have "well_indexed t"
    using inv parents_precede_bound [of 0 "tr_Controls t"] by (auto simp: well_indexed_def walk_inv_def w(2))
  then show ?thesis
    using inv grow cat groups by (auto simp: walk_inv_def grows_def w(2) start_def)
qed

lemma flat_catalog_builds:
  assumes "dec_document j = Some cat" and "ca_Title cat \<noteq> []" and "ca_Groups cat = Some groups" and "flat_catalog cat groups"
  shows "\<exists>t. BuildOSCALTree (Some j) fw v = Inr t"
proof -
  define start where "start = \<lparr>wk_tree = \<lparr>tr_Title = ca_Title cat, tr_Controls = [], tr_Mappings = [], tr_Unresolved = [],
     tr_RefSkips = None\<rparr>, wk_params = fold (\<lambda>p m. m(pa_ID p \<mapsto> p)) (ca_Params cat) Map.empty, wk_ordinal = 0\<rparr>"
  define ids where "ids = fold (\<lambda>g m. buildIDIndex (og_Controls g) (m(og_ID g \<mapsto> groupLabel g))) groups Map.empty"
  have "plain (wk_params start)"
    using assms(4) plain_upd [of Map.empty "ca_Params cat"] unfolding flat_catalog_def start_def
    by (simp add: plain_params_def del: fun_upd_apply)
  then have "\<exists>w. try_fold (walk_group fw v ids) groups start = Inr w \<and> plain (wk_params w)"
    using assms(4) by (intro try_fold_ok group_ok) (auto simp: flat_catalog_def list_all_iff)
  then show ?thesis
    using assms(1-3) by (auto simp: BuildOSCALTree_def Let_def start_def ids_def simp del: fun_upd_apply)
qed

text \<open>
  The builder returns a tree for every catalog with a title and a group list in which no parameter text
  holds a closing brace and no prose has an insert without an id; without the first condition the rendering
  of inserts may run for ever, without the second it panics.
\<close>

lemma oscal_returns:
  assumes "dec_document j = Some cat" and "ca_Title cat \<noteq> []" and "ca_Groups cat = Some groups" and "flat_catalog cat groups"
  shows "\<exists>t. BuildOSCALTree (Some j) fw v = Inr t"
  using assms by (rule flat_catalog_builds)

definition demo_catalog :: json where
  "demo_catalog = JObj [(''catalog'', JObj [
     (''metadata'', JObj [(''title'', JStr ''SP 800-53'')]),
     (''groups'', JArr [JObj [(''id'', JStr ''ac''), (''title'', JStr ''Access Control''),
        (''controls'', JArr [
           JObj [(''id'', JStr ''ac-1''), (''title'', JStr ''Policy''),
                 (''params'', JArr [JObj [(''id'', JStr ''p1''), (''label'', JStr ''frequency'')]]),
                 (''parts'', JArr [JObj [(''name'', JStr ''statement''), (''prose'', JStr ''Review {{ insert: param, p1 }}.'')]])],
           JObj [(''id'', JStr ''ac-2''), (''title'', JStr ''Old''),
                 (''props'', JArr [JObj [(''name'', JStr ''status''), (''value'', JStr ''withdrawn'')]]),
                 (''links'', JArr [JObj [(''href'', JStr ''#ac-1''), (''rel'', JStr ''moved-to'')]])]])]])])]"

definition demo_cat :: oscal_catalog where
  "demo_cat = \<lparr>ca_Title = ''SP 800-53'', ca_Groups = Some [\<lparr>og_ID = ''ac'', og_Title = ''Access Control'', og_Props = [],
     og_Controls = [Oscal_Control ''ac-1'' ''Policy'' [] [\<lparr>pa_ID = ''p1'', pa_Label = ''frequency'', pa_Select = None\<rparr>]
        [Oscal_Part [] ''statement'' ''Review {{ insert: param, p1 }}.'' []] [] [],
      Oscal_Control ''ac-2'' ''Old'' [\<lparr>pr_Name = ''status'', pr_Value = ''withdrawn''\<rparr>] [] []
        [\<lparr>lk_Href = ''#ac-1'', lk_Rel = ''moved-to''\<rparr>] []]\<rparr>], ca_Params = []\<rparr>"

lemma demo_decodes: "dec_document demo_catalog = Some demo_cat"
  by code_simp

lemma demo_flat: "flat_catalog demo_cat (the (ca_Groups demo_cat))"
proof -
  have "\<not> sublist bad_insert ''Review {{ insert: param, p1 }}.''" by (simp add: bad_insert_def sublist_Cons_right)
  then show ?thesis by (simp add: flat_catalog_def demo_cat_def plain_text_def)
qed

lemma demo_builds: "\<exists>t. BuildOSCALTree (Some demo_catalog) ''nist80053'' ''5'' = Inr t"
  by (rule flat_catalog_builds [OF demo_decodes _ _ demo_flat]) (simp_all add: demo_cat_def)

lemma oscal_returns_witness: "\<exists>t. BuildOSCALTree (Some demo_catalog) ''nist80053'' ''5'' = Inr t"
  by (rule oscal_returns [OF demo_decodes _ _ demo_flat]) (simp_all add: demo_cat_def)

lemma demo_outline:
  "concat (map group_outline (the (ca_Groups demo_cat)))
     = [([''AC''], ''family'', ''active''), ([''AC'', ''AC-1''], ''control'', ''active''),
        ([''AC'', ''AC-2''], ''control'', ''withdrawn'')]"
  by code_simp

theorem oscal_tree_witness:
  "\<exists>t. BuildOSCALTree (Some demo_catalog) ''nist80053'' ''5'' = Inr t
     \<and> listing (tr_Controls t) = [([''AC''], ''family'', ''active''), ([''AC'', ''AC-1''], ''control'', ''active''),
          ([''AC'', ''AC-2''], ''control'', ''withdrawn'')]"
proof -
  obtain t where t: "BuildOSCALTree (Some demo_catalog) ''nist80053'' ''5'' = Inr t" using demo_builds by blast
  obtain groups where "ca_Groups demo_cat = Some groups" and "listing (tr_Controls t) = concat (map group_outline groups)"
    using oscal_tree [OF t] by (auto simp: demo_decodes)
  then show ?thesis using t demo_outline by simp
qed

text \<open>
  C26.  Rendering is substitution: a prose made of texts without an opening brace and of inserts of ids without
  braces renders, when no parameter text holds an opening brace, as the same texts with every insert replaced
  by its parameter.
\<close>

theorem rendering_is_substitution:
  assumes "plain_params (CHR ''{'') idx" and "list_all piece_ok ps"
  shows "rendered idx (concat (map write_piece ps)) = Inr (concat (map (piece_value idx) ps))"
  using renderInserts_pieces [OF assms(1), of "[]"] assms(2) by (simp add: rendered_def)

theorem rendering_is_substitution_witness:
  "rendered [''p1'' \<mapsto> \<lparr>pa_ID = ''p1'', pa_Label = ''frequency'', pa_Select = None\<rparr>]
     (concat (map write_piece [Text ''Review '', Ref ''p1'', Text ''.'']))
   = Inr (concat (map (piece_value [''p1'' \<mapsto> \<lparr>pa_ID = ''p1'', pa_Label = ''frequency'', pa_Select = None\<rparr>])
        [Text ''Review '', Ref ''p1'', Text ''.'']))"
  by (rule rendering_is_substitution) (simp_all add: plain_params_def plain_text_def)

end
