(* ===== verification/Server_Main.thy ===== *)
theory Server_Main
  imports OAuth_Server Mcp
begin

text \<open>
  The HTTP server command (\<open>cmd/server/main.go\<close>): the choice of the auth mode, the routes, and the stack of
  middlewares around them.  A handler maps a request and the server's state to the new state and the reply.

  Parameters: the MCP handler of the SDK (\<open>mcp\<close>, with a state of its own), the SDK's \<open>RequireBearerToken\<close>
  (\<open>gate\<close>), the token bucket of \<open>x/time/rate\<close> (a \<open>limiter_lib\<close>), bcrypt, and \<open>os\<close>, which reads the
  environment variables.  The OAuth handlers are those of \<open>OAuth_Server\<close> on the decoded query and form.
  Bodies, their size cap and write deadlines are left out.  Two successive readings of the clock in the
  rate limiter are one.
\<close>

section \<open>Requests and replies\<close>

record web_request =
  wq_Method :: string
  wq_Path :: string
  wq_Host :: string
  wq_RemoteAddr :: string
  wq_Header :: "string \<Rightarrow> string list"
  wq_Decoded :: request

definition header_get :: "web_request \<Rightarrow> string \<Rightarrow> string" where
  "header_get r k = (case wq_Header r k of [] \<Rightarrow> [] | v # _ \<Rightarrow> v)"

datatype 'x answer =
    Error_Text nat string
  | Plain string string
  | OAuth_Answer response
  | Mcp_Answer 'x
  | Landing
  | Moved string
  | Panicked

record 'x reply =
  rp_Header :: "(string \<times> string) list"
  rp_Answer :: "'x answer"

definition say :: "'x answer \<Rightarrow> 'x reply" where
  "say a = \<lparr>rp_Header = [], rp_Answer = a\<rparr>"

definition with_header :: "string \<Rightarrow> string \<Rightarrow> 'x reply \<Rightarrow> 'x reply" where
  "with_header k v rp = rp\<lparr>rp_Header := (k, v) # rp_Header rp\<rparr>"

type_synonym 'b clients = "(string, 'b \<times> time) fmap"

record ('s, 'b, 'm) web_state =
  ws_store :: 's
  ws_mcp :: 'm
  ws_global :: "'b clients"
  ws_brute :: "'b clients"

record web_env =
  we_now :: time
  we_oauth :: req_env
  we_verify :: "env \<times> env"

type_synonym ('s, 'b, 'm, 'x) handler =
  "web_env \<Rightarrow> web_request \<Rightarrow> ('s, 'b, 'm) web_state \<Rightarrow> ('s, 'b, 'm) web_state \<times> 'x reply"

definition newline_text :: string where
  "newline_text = [CHR 0x0A]"

section \<open>Environment variables\<close>

definition true_words :: "string list" where
  "true_words = [''1'', ''t'', ''T'', ''TRUE'', ''true'', ''True'']"

definition false_words :: "string list" where
  "false_words = [''0'', ''f'', ''F'', ''FALSE'', ''false'', ''False'']"

definition envBool :: "(string \<Rightarrow> string) \<Rightarrow> string \<Rightarrow> bool \<Rightarrow> bool" where
  "envBool os key def =
     (let v = os key in
      if v \<noteq> [] then (if v \<in> set true_words then True else if v \<in> set false_words then False else def) else def)"

text \<open>\<open>strconv.Atoi\<close>: a sign, digits, 64 bits.\<close>

definition digits_value :: "string \<Rightarrow> int" where
  "digits_value s = foldl (\<lambda>n c. 10 * n + (of_char c - 48)) 0 s"

definition atoi :: "string \<Rightarrow> int option" where
  "atoi s =
     (let (neg, ds) = (case s of [] \<Rightarrow> (False, []) | c # cs \<Rightarrow>
            if c = CHR ''-'' then (True, cs) else if c = CHR ''+'' then (False, cs) else (False, s));
          n = (if neg then - digits_value ds else digits_value ds)
      in if ds = [] \<or> \<not> list_all is_digit ds \<or> n < - (2 ^ 63) \<or> 2 ^ 63 \<le> n then None else Some n)"

definition envInt :: "(string \<Rightarrow> string) \<Rightarrow> string \<Rightarrow> int \<Rightarrow> int" where
  "envInt os key def =
     (let v = os key in
      if v \<noteq> [] then (case atoi v of None \<Rightarrow> def | Some n \<Rightarrow> if 0 < n then n else def) else def)"

text \<open>\<open>pf\<close> is \<open>strconv.ParseFloat\<close>.\<close>

definition envFloat :: "(string \<Rightarrow> rat option) \<Rightarrow> (string \<Rightarrow> string) \<Rightarrow> string \<Rightarrow> rat \<Rightarrow> rat" where
  "envFloat pf os key def =
     (let v = os key in
      if v \<noteq> [] then (case pf v of None \<Rightarrow> def | Some n \<Rightarrow> if 0 < n then n else def) else def)"

definition splitComma :: "string \<Rightarrow> string list" where
  "splitComma s = filter (\<lambda>k. k \<noteq> []) (map trim_space (split_on (CHR '','') s))"

section \<open>The client address\<close>

text \<open>\<open>net.SplitHostPort\<close>: the host, or None for an error.\<close>

definition split_host :: "string \<Rightarrow> string option" where
  "split_host hp =
     (case last_index (CHR '':'') hp of
        None \<Rightarrow> None
      | Some i \<Rightarrow>
          if has_prefix ''['' hp then
            (case first_index (CHR '']'') hp of
               None \<Rightarrow> None
             | Some e \<Rightarrow>
                 if Suc e = i \<and> CHR ''['' \<notin> set (drop 1 hp) \<and> CHR '']'' \<notin> set (drop (Suc e) hp)
                 then Some (take (e - 1) (drop 1 hp)) else None)
          else if CHR '':'' \<in> set (take i hp) \<or> CHR ''['' \<in> set hp \<or> CHR '']'' \<in> set hp then None
          else Some (take i hp))"

definition trustedProxyHops :: "(string \<Rightarrow> string) \<Rightarrow> nat" where
  "trustedProxyHops os =
     (let n = envInt os ''COMPLIARY_TRUSTED_PROXY_HOPS'' 1 in if 1 \<le> n then nat n else 1)"

definition remote_host :: "web_request \<Rightarrow> string" where
  "remote_host r = (case split_host (wq_RemoteAddr r) of Some h \<Rightarrow> h | None \<Rightarrow> wq_RemoteAddr r)"

definition clientIP :: "(string \<Rightarrow> string) \<Rightarrow> web_request \<Rightarrow> bool \<Rightarrow> string" where
  "clientIP os r trustProxy =
     (let xff = header_get r ''X-Forwarded-For''; parts = split_on (CHR '','') xff; hops = trustedProxyHops os in
      if trustProxy \<and> xff \<noteq> [] \<and> hops \<le> length parts \<and> trim_space (parts ! (length parts - hops)) \<noteq> []
      then trim_space (parts ! (length parts - hops))
      else remote_host r)"

section \<open>The rate limiter\<close>

record 'b limiter_lib =
  lb_new :: "rat \<Rightarrow> int \<Rightarrow> 'b"
  lb_allow :: "time \<Rightarrow> 'b \<Rightarrow> bool \<times> 'b"

record rate_limiter =
  rl_rps :: rat
  rl_burst :: int
  rl_trustProxy :: bool

definition newRateLimiter :: "rat \<Rightarrow> int \<Rightarrow> bool \<Rightarrow> rate_limiter" where
  "newRateLimiter rps burst trust = \<lparr>rl_rps = rps, rl_burst = burst, rl_trustProxy = trust\<rparr>"

text \<open>The client's bucket, made when it is new; its last use is now.\<close>

definition limiter :: "'b limiter_lib \<Rightarrow> rate_limiter \<Rightarrow> time \<Rightarrow> string \<Rightarrow> 'b clients \<Rightarrow> 'b \<times> 'b clients" where
  "limiter lib rl now ip cl =
     (let b = (case fmlookup cl ip of None \<Rightarrow> lb_new lib (rl_rps rl) (rl_burst rl) | Some (b, _) \<Rightarrow> b)
      in (b, fmupd ip (b, now) cl))"

text \<open>\<open>limiter(ip).Allow()\<close>: the bucket is shared with the table.\<close>

definition allow_client :: "'b limiter_lib \<Rightarrow> rate_limiter \<Rightarrow> time \<Rightarrow> string \<Rightarrow> 'b clients \<Rightarrow> bool \<times> 'b clients" where
  "allow_client lib rl now ip cl =
     (let (b, cl') = limiter lib rl now ip cl; (ok, b') = lb_allow lib now b in (ok, fmupd ip (b', now) cl'))"

text \<open>One tick of the evictor.\<close>

definition evict_idle :: "time \<Rightarrow> time \<Rightarrow> 'b clients \<Rightarrow> 'b clients" where
  "evict_idle ttl now cl = fmkeep (\<lambda>_ (b, seen). \<not> seen < now - ttl) cl"

definition rate_middleware ::
  "'b limiter_lib \<Rightarrow> (string \<Rightarrow> string) \<Rightarrow> rate_limiter \<Rightarrow> ('s, 'b, 'm, 'x) handler \<Rightarrow> ('s, 'b, 'm, 'x) handler" where
  "rate_middleware lib os rl nxt e r s =
     (let (ok, cl) = allow_client lib rl (we_now e) (clientIP os r (rl_trustProxy rl)) (ws_global s);
          s' = s\<lparr>ws_global := cl\<rparr>
      in if \<not> ok then (s', with_header ''Retry-After'' ''1'' (say (Error_Text 429 ''too many requests'')))
         else nxt e r s')"

definition oauthEndpointLimit ::
  "'b limiter_lib \<Rightarrow> (string \<Rightarrow> string) \<Rightarrow> rate_limiter \<Rightarrow> ('s, 'b, 'm, 'x) handler \<Rightarrow> ('s, 'b, 'm, 'x) handler" where
  "oauthEndpointLimit lib os rl nxt e r s =
     (if wq_Method r = ''POST'' \<and> (wq_Path r = ''/oauth/authorize'' \<or> wq_Path r = ''/oauth/token'') then
        (let (ok, cl) = allow_client lib rl (we_now e) (clientIP os r (rl_trustProxy rl)) (ws_brute s);
             s' = s\<lparr>ws_brute := cl\<rparr>
         in if \<not> ok then (s', with_header ''Retry-After'' ''60'' (say (Error_Text 429 ''too many requests'')))
            else nxt e r s')
      else nxt e r s)"

section \<open>Authentication\<close>

definition presentedToken :: "web_request \<Rightarrow> string" where
  "presentedToken r =
     (let h = header_get r ''Authorization'' in
      if 7 < length h \<and> equal_fold (take 7 h) ''bearer '' then trim_space (drop 7 h) else [])"

definition tokenMatch :: "string \<Rightarrow> string \<Rightarrow> bool" where
  "tokenMatch got want = (if got = [] then False else got = want)"

definition bearerAuth :: "string \<Rightarrow> ('s, 'b, 'm, 'x) handler \<Rightarrow> ('s, 'b, 'm, 'x) handler" where
  "bearerAuth token nxt e r s =
     (if token = [] \<or> wq_Path r \<noteq> ''/mcp'' then nxt e r s
      else if \<not> tokenMatch (presentedToken r) token
      then (s, with_header ''WWW-Authenticate'' ''Bearer'' (say (Error_Text 401 ''unauthorized'')))
      else nxt e r s)"

definition em_dash :: string where
  "em_dash = [CHR 0xE2, CHR 0x80, CHR 0x94]"

definition mcpReject :: "('s, 'b, 'm, 'x) handler \<Rightarrow> ('s, 'b, 'm, 'x) handler" where
  "mcpReject nxt e r s =
     (if wq_Path r = ''/mcp''
      then (s, say (Error_Text 401 (''unauthorized '' @ em_dash @ '' set auth env vars or COMPLIARY_MCP_PUBLIC=true'')))
      else nxt e r s)"

text \<open>
  The SDK's bearer middleware: from a verifier, the metadata URL and the required scopes, it either answers
  itself or lets the request pass; the verifier may change the token store.
\<close>

type_synonym ('s, 'x) bearer_gate =
  "(string \<Rightarrow> 's \<Rightarrow> 's \<times> (string + token_info)) \<Rightarrow> string \<Rightarrow> string list \<Rightarrow> web_env \<Rightarrow> web_request \<Rightarrow> 's
     \<Rightarrow> 's \<times> 'x reply option"

definition require_bearer ::
  "('s, 'x) bearer_gate \<Rightarrow> (web_env \<Rightarrow> string \<Rightarrow> 's \<Rightarrow> 's \<times> (string + token_info)) \<Rightarrow> string \<Rightarrow> string list
     \<Rightarrow> ('s, 'b, 'm, 'x) handler \<Rightarrow> ('s, 'b, 'm, 'x) handler" where
  "require_bearer gate verifier url scopes nxt e r s =
     (case gate (verifier e) url scopes e r (ws_store s) of
        (st, Some rp) \<Rightarrow> (s\<lparr>ws_store := st\<rparr>, rp)
      | (st, None) \<Rightarrow> nxt e r (s\<lparr>ws_store := st\<rparr>))"

definition mcpOnly ::
  "(('s, 'b, 'm, 'x) handler \<Rightarrow> ('s, 'b, 'm, 'x) handler) \<Rightarrow> ('s, 'b, 'm, 'x) handler \<Rightarrow> ('s, 'b, 'm, 'x) handler" where
  "mcpOnly bearerMW fallback e r s =
     (if wq_Path r = ''/mcp'' then bearerMW fallback e r s else fallback e r s)"

section \<open>Origin checks\<close>

definition originAllowed :: "string \<Rightarrow> string list \<Rightarrow> bool" where
  "originAllowed got secrets = (if got = [] then False else foldl (\<lambda>ok s. if got = s then True else ok) False secrets)"

definition originVerify :: "string list \<Rightarrow> ('s, 'b, 'm, 'x) handler \<Rightarrow> ('s, 'b, 'm, 'x) handler" where
  "originVerify secrets nxt e r s =
     (if secrets = [] \<or> wq_Path r = ''/healthz'' then nxt e r s
      else if \<not> originAllowed (trim_space (header_get r ''X-Origin-Verify'')) secrets
      then (s, say (Error_Text 403 ''forbidden''))
      else nxt e r s)"

text \<open>\<open>http.CrossOriginProtection\<close>: which origins it accepts as trusted, and which requests it denies.\<close>

definition trusted_origin :: "string \<Rightarrow> bool" where
  "trusted_origin origin =
     (case url_parse origin of None \<Rightarrow> False
      | Some u \<Rightarrow> u_Scheme u \<noteq> [] \<and> u_Host u \<noteq> [] \<and> u_Path u = []
          \<and> snd (cut (CHR ''#'') origin) = [] \<and> snd (cut (CHR ''?'') (fst (cut (CHR ''#'') origin))) = [])"

definition cross_origin_denied :: "string list \<Rightarrow> web_request \<Rightarrow> bool" where
  "cross_origin_denied trusted r =
     (if wq_Method r \<in> {''GET'', ''HEAD'', ''OPTIONS''} then False
      else let origin = header_get r ''Origin''; site = header_get r ''Sec-Fetch-Site'' in
        if site = ''same-origin'' \<or> site = ''none'' then False
        else if site \<noteq> [] then origin \<notin> set trusted
        else if origin = [] then False
        else if (case url_parse origin of None \<Rightarrow> False | Some u \<Rightarrow> u_Host u = wq_Host r) then False
        else origin \<notin> set trusted)"

definition crossOriginProtected :: "(string \<Rightarrow> string) \<Rightarrow> ('s, 'b, 'm, 'x) handler \<Rightarrow> ('s, 'b, 'm, 'x) handler" where
  "crossOriginProtected os h e r s =
     (let trusted = filter trusted_origin (splitComma (os ''COMPLIARY_MCP_ALLOWED_ORIGINS'')) in
      if cross_origin_denied trusted r then (s, say (Error_Text 403 ''cross-origin request'')) else h e r s)"

section \<open>Outer middlewares\<close>

definition securityHeaders :: "('s, 'b, 'm, 'x) handler \<Rightarrow> ('s, 'b, 'm, 'x) handler" where
  "securityHeaders nxt e r s = map_prod id (with_header ''X-Content-Type-Options'' ''nosniff'') (nxt e r s)"

text \<open>A panic is answered with 500; headers set before it stay.\<close>

definition recoverPanic :: "('s, 'b, 'm, 'x) handler \<Rightarrow> ('s, 'b, 'm, 'x) handler" where
  "recoverPanic nxt e r s =
     map_prod id (\<lambda>rp. if rp_Answer rp = Panicked then rp\<lparr>rp_Answer := Error_Text 500 ''internal error''\<rparr> else rp) (nxt e r s)"

section \<open>Routes\<close>

definition healthzHandler :: "'x reply" where
  "healthzHandler = say (Plain [] ''ok'')"

definition cached :: "string \<Rightarrow> 'x reply \<Rightarrow> 'x reply" where
  "cached age = with_header ''Cache-Control'' (''public, max-age='' @ age)"

definition robotsHandler :: "'x reply" where
  "robotsHandler = cached ''86400'' (say (Plain ''text/plain; charset=utf-8''
     (join newline_text [''User-agent: *'', ''Disallow: /mcp'', ''Disallow: /oauth/'',
        ''Sitemap: https://compliary.danny.vn/sitemap.xml'', []])))"

definition sitemapHandler :: "'x reply" where
  "sitemapHandler = cached ''86400'' (say (Plain ''application/xml; charset=utf-8''
     (join newline_text [''<?xml version=\"1.0\" encoding=\"UTF-8\"?>'',
        ''<urlset xmlns=\"http://www.sitemaps.org/schemas/sitemap/0.9\">'',
        ''  <url><loc>https://compliary.danny.vn/</loc><changefreq>weekly</changefreq></url>'', ''</urlset>'', []])))"

text \<open>
  The mux: an unclean path is redirected to its clean form, a pattern with GET answers 405 to other methods
  (HEAD apart).  \<open>path.Clean\<close> drops empty and dot elements and resolves the double ones.
\<close>

definition clean_step :: "string list \<Rightarrow> string \<Rightarrow> string list" where
  "clean_step acc el = (if el = [] \<or> el = ''.'' then acc else if el = ''..'' then tl acc else el # acc)"

definition clean_path :: "string \<Rightarrow> string" where
  "clean_path p =
     (let np = ''/'' @ join ''/'' (rev (foldl clean_step [] (split_on (CHR ''/'') p)))
      in if p \<noteq> [] \<and> last p = CHR ''/'' \<and> np \<noteq> ''/'' then np @ ''/'' else np)"

definition get_only :: "web_request \<Rightarrow> 'x reply \<Rightarrow> 'x reply" where
  "get_only r rp = (if wq_Method r = ''GET'' \<or> wq_Method r = ''HEAD'' then rp else say (Error_Text 405 ''Method Not Allowed''))"

record ('s, 'm, 'x) web_parts =
  wp_H :: "string \<Rightarrow> byte list"
  wp_bcrypt :: "string \<Rightarrow> string \<Rightarrow> bool"
  wp_Store :: "'s oauth_store"
  wp_mcp :: "web_env \<Rightarrow> web_request \<Rightarrow> 'm \<Rightarrow> 'm \<times> 'x answer"
  wp_ogSVG :: string

definition mcp_handler :: "('s, 'm, 'x) web_parts \<Rightarrow> ('s, 'b, 'm, 'x) handler" where
  "mcp_handler W e r s = (case wp_mcp W e r (ws_mcp s) of (m, a) \<Rightarrow> (s\<lparr>ws_mcp := m\<rparr>, say a))"

definition oauth_handler :: "('s, 'm, 'x) web_parts \<Rightarrow> server \<Rightarrow> ('s, 'b, 'm, 'x) handler" where
  "oauth_handler W srv e r s =
     (case Handler (wp_H W) (wp_bcrypt W) (wp_Store W) srv (we_oauth e)
             ((wq_Decoded r)\<lparr>r_Method := wq_Method r, r_Path := wq_Path r\<rparr>) (ws_store s) of
        (st, rp) \<Rightarrow> (s\<lparr>ws_store := st\<rparr>, say (OAuth_Answer rp)))"

definition mux :: "(string \<Rightarrow> string) \<Rightarrow> ('s, 'm, 'x) web_parts \<Rightarrow> server option \<Rightarrow> ('s, 'b, 'm, 'x) handler" where
  "mux os W oauthSrv e r s =
     (let p = wq_Path r in
      if wq_Method r \<noteq> ''CONNECT'' \<and> clean_path p \<noteq> p then (s, say (Moved (clean_path p)))
      else if p = ''/healthz'' then (s, get_only r healthzHandler)
      else if p = ''/'' then (s, get_only r (cached ''60'' (say Landing)))
      else if p = ''/robots.txt'' then (s, get_only r robotsHandler)
      else if p = ''/sitemap.xml'' then (s, get_only r sitemapHandler)
      else if p = ''/og.svg'' then (s, get_only r (cached ''86400'' (say (Plain ''image/svg+xml'' (wp_ogSVG W)))))
      else if p = ''/mcp'' then crossOriginProtected os (mcp_handler W) e r s
      else (case oauthSrv of
          None \<Rightarrow> (s, say (Error_Text 404 ''404 page not found''))
        | Some srv \<Rightarrow>
            if p = ''/.well-known/oauth-protected-resource'' \<or> p = ''/.well-known/oauth-authorization-server'' then
              (if wq_Method r = ''GET'' \<or> wq_Method r = ''HEAD'' then oauth_handler W srv e r s
               else (s, say (Error_Text 405 ''Method Not Allowed'')))
            else if p = ''/oauth'' then (s, say (Moved ''/oauth/''))
            else if has_prefix ''/oauth/'' p then oauth_handler W srv e r s
            else (s, say (Error_Text 404 ''404 page not found''))))"

section \<open>The whole server\<close>

definition server_verifier ::
  "('s, 'm, 'x) web_parts \<Rightarrow> server \<Rightarrow> string \<Rightarrow> web_env \<Rightarrow> string \<Rightarrow> 's \<Rightarrow> 's \<times> (string + token_info)" where
  "server_verifier W srv token e tok st =
     (if token \<noteq> [] then BearerFallback (wp_Store W) srv (fst (we_verify e)) (snd (we_verify e)) (we_now e) token tok st
      else TokenVerifier (wp_Store W) srv (fst (we_verify e)) (snd (we_verify e)) tok st)"

definition authenticated ::
  "('s, 'x) bearer_gate \<Rightarrow> ('s, 'm, 'x) web_parts \<Rightarrow> server option \<Rightarrow> string \<Rightarrow> string \<Rightarrow> bool
     \<Rightarrow> ('s, 'b, 'm, 'x) handler \<Rightarrow> ('s, 'b, 'm, 'x) handler" where
  "authenticated gate W oauthSrv token publicURL mcpPublic h =
     (case oauthSrv of
        Some srv \<Rightarrow> mcpOnly (require_bearer gate (server_verifier W srv token)
                       (publicURL @ ''/.well-known/oauth-protected-resource'') [''mcp:read'']) h
      | None \<Rightarrow> if token \<noteq> [] then bearerAuth token h else if \<not> mcpPublic then mcpReject h else h)"

definition secure ::
  "(string \<Rightarrow> rat option) \<Rightarrow> (string \<Rightarrow> string) \<Rightarrow> 'b limiter_lib \<Rightarrow> ('s, 'x) bearer_gate \<Rightarrow> ('s, 'm, 'x) web_parts
     \<Rightarrow> server option \<Rightarrow> string \<Rightarrow> string \<Rightarrow> bool \<Rightarrow> ('s, 'b, 'm, 'x) handler \<Rightarrow> ('s, 'b, 'm, 'x) handler" where
  "secure pf os lib gate W oauthSrv token publicURL mcpPublic h =
     (let trustProxy = envBool os ''COMPLIARY_TRUST_PROXY'' False;
          rl = newRateLimiter (envFloat pf os ''COMPLIARY_MCP_RATE_RPS'' 50) (envInt os ''COMPLIARY_MCP_RATE_BURST'' 100) trustProxy;
          perMin = envInt os ''COMPLIARY_OAUTH_RATE_PER_MIN'' 10;
          h1 = authenticated gate W oauthSrv token publicURL mcpPublic h;
          h2 = (if oauthSrv \<noteq> None
                then oauthEndpointLimit lib os (newRateLimiter (of_int perMin / 60) perMin trustProxy) h1 else h1);
          h3 = originVerify (splitComma (os ''COMPLIARY_ORIGIN_VERIFY_SECRET'')) h2
      in recoverPanic (securityHeaders (rate_middleware lib os rl h3)))"

record server_setup =
  su_projection :: projection
  su_oauth :: "server option"
  su_token :: string
  su_publicURL :: string
  su_mcpPublic :: bool

text \<open>
  The mode: \<open>is_hash\<close> tells a bcrypt hash, \<open>gen_hash\<close> makes one (None fails), \<open>new_ok\<close> whether \<open>oauth.New\<close>
  returns without an error.
\<close>

definition startup ::
  "(string \<Rightarrow> string) \<Rightarrow> (string \<Rightarrow> bool) \<Rightarrow> (string \<Rightarrow> string option) \<Rightarrow> bool \<Rightarrow> string + server_setup" where
  "startup os is_hash gen_hash new_ok =
     (let token = trim_space (os ''COMPLIARY_MCP_TOKEN''); publicURL = trim_right_slashes (os ''COMPLIARY_PUBLIC_URL'');
          operatorSecret = os ''COMPLIARY_OAUTH_OPERATOR_SECRET''; mcpPublic = envBool os ''COMPLIARY_MCP_PUBLIC'' False;
          made = (\<lambda>proj srv. \<lparr>su_projection = proj, su_oauth = srv, su_token = token, su_publicURL = publicURL,
                               su_mcpPublic = mcpPublic\<rparr>)
      in if publicURL \<noteq> [] \<and> operatorSecret \<noteq> [] then
           (case (if is_hash operatorSecret then Some operatorSecret else gen_hash operatorSecret) of
              None \<Rightarrow> Inl ''hash operator secret''
            | Some h \<Rightarrow> if \<not> new_ok then Inl ''build OAuth server''
                        else Inr (made ProjectionFull (Some (newServer publicURL h []))))
         else if token \<noteq> [] then Inr (made ProjectionFull None)
         else Inr (made ProjectionReduced None))"

definition serve ::
  "(string \<Rightarrow> rat option) \<Rightarrow> (string \<Rightarrow> string) \<Rightarrow> 'b limiter_lib \<Rightarrow> ('s, 'x) bearer_gate \<Rightarrow> ('s, 'm, 'x) web_parts \<Rightarrow> server_setup
     \<Rightarrow> ('s, 'b, 'm, 'x) handler" where
  "serve pf os lib gate W u =
     secure pf os lib gate W (su_oauth u) (su_token u) (su_publicURL u) (su_mcpPublic u) (mux os W (su_oauth u))"

end
