(* ===== verification/Server_Claims.thy ===== *)
theory Server_Claims
  imports Server_Main OAuth_Store_Props
begin

text \<open>
  The properties of the HTTP server: what reaches the MCP handler, what gets past the origin check, which
  address a request is limited by, and that evicting idle clients never changes an answer of the limiter.
\<close>

section \<open>The MCP endpoint\<close>

text \<open>
  What the SDK documents of its middleware: it lets a request pass only when the Authorization header holds
  a bearer token that the verifier accepts with every required scope.
\<close>

definition bearer_token :: "web_request \<Rightarrow> string option" where
  "bearer_token r =
     (case str_fields (header_get r ''Authorization'') of
        [a, tok] \<Rightarrow> if equal_fold a ''bearer'' then Some tok else None
      | _ \<Rightarrow> None)"

definition gate_sound :: "('s, 'x) bearer_gate \<Rightarrow> bool" where
  "gate_sound gate \<longleftrightarrow> (\<forall>verify url scopes e r st st'. gate verify url scopes e r st = (st', None) \<longrightarrow>
     (\<exists>tok info. bearer_token r = Some tok \<and> snd (verify tok st) = Inr info \<and> set scopes \<subseteq> set (ti_Scopes info)))"

section \<open>A server to apply the properties to\<close>

text \<open>A bucket that refills at a rate per second up to a burst; a refused request leaves it as it is.\<close>

record bucket =
  bk_rps :: rat
  bk_burst :: rat
  bk_tokens :: rat
  bk_last :: time

definition token_bucket :: "bucket limiter_lib" where
  "token_bucket =
     \<lparr>lb_new = (\<lambda>rps burst. \<lparr>bk_rps = rps, bk_burst = of_int burst, bk_tokens = of_int burst, bk_last = 0\<rparr>),
      lb_allow = (\<lambda>t b.
        let tokens = min (bk_burst b) (bk_tokens b + bk_rps b * of_int (t - bk_last b) / of_int second_ns) in
        if 1 \<le> tokens then (True, b\<lparr>bk_tokens := tokens - 1, bk_last := t\<rparr>) else (False, b))\<rparr>"

text \<open>A bearer middleware that keeps to the documentation.\<close>

definition strict_gate :: "('s, 'x) bearer_gate" where
  "strict_gate verify url scopes e r st =
     (case bearer_token r of
        None \<Rightarrow> (st, Some (say (Error_Text 401 ''no bearer token'')))
      | Some tok \<Rightarrow> (case verify tok st of
            (st', Inl msg) \<Rightarrow> (st', Some (say (Error_Text 401 msg)))
          | (st', Inr info) \<Rightarrow>
              if list_all (\<lambda>sc. sc \<in> set (ti_Scopes info)) scopes then (st', None)
              else (st', Some (say (Error_Text 403 ''insufficient scope'')))))"

lemma strict_gate_sound: "gate_sound strict_gate"
  by (auto simp: gate_sound_def strict_gate_def list_all_iff split: option.splits prod.splits sum.splits if_splits)

definition demo_os :: "string \<Rightarrow> string" where
  "demo_os = (\<lambda>_. [])(''COMPLIARY_PUBLIC_URL'' := ''https://c/'', ''COMPLIARY_OAUTH_OPERATOR_SECRET'' := ''$2a$'',
     ''COMPLIARY_ORIGIN_VERIFY_SECRET'' := ''one, two'')"

definition demo_get :: "string \<Rightarrow> (string \<Rightarrow> string list) \<Rightarrow> web_request" where
  "demo_get path hs = \<lparr>wq_Method = ''GET'', wq_Path = path, wq_Host = ''c'', wq_RemoteAddr = ''10.0.0.1:99'', wq_Header = hs,
     wq_Decoded = \<lparr>r_Method = ''GET'', r_Path = path, r_Query = (\<lambda>_. []), r_Form = None, r_Meta = None\<rparr>\<rparr>"

definition demo_parts :: "(store, nat, unit) web_parts" where
  "demo_parts = \<lparr>wp_H = bytes_of, wp_bcrypt = (\<lambda>_ _. False), wp_Store = memory_store bytes_of,
     wp_mcp = (\<lambda>_ _ m. (m, Mcp_Answer ())), wp_ogSVG = []\<rparr>"

definition demo_web :: "(store, bucket, nat) web_state" where
  "demo_web = \<lparr>ws_store = newStore, ws_mcp = 0, ws_global = fmempty, ws_brute = fmempty\<rparr>"

lemmas demo_server = demo_os_def demo_get_def demo_parts_def demo_web_def


section \<open>What reaches the MCP handler\<close>

text \<open>The credential the mode asks for: an accepted bearer token with the scope, or the static token.\<close>

definition has_credential :: "('s, 'm, 'x) web_parts \<Rightarrow> server_setup \<Rightarrow> web_env \<Rightarrow> web_request \<Rightarrow> 's \<Rightarrow> bool" where
  "has_credential W u e r st \<longleftrightarrow>
     (case su_oauth u of
        Some srv \<Rightarrow> (case bearer_token r of None \<Rightarrow> False
          | Some tok \<Rightarrow> (case snd (server_verifier W srv (su_token u) e tok st) of
                Inl _ \<Rightarrow> False | Inr info \<Rightarrow> ''mcp:read'' \<in> set (ti_Scopes info)))
      | None \<Rightarrow> su_token u \<noteq> [] \<and> presentedToken r = su_token u)"

lemma mux_elsewhere: "wq_Path r \<noteq> ''/mcp'' \<Longrightarrow> mux os (W\<lparr>wp_mcp := m\<rparr>) srv e r s = mux os W srv e r s"
  by (simp add: mux_def Let_def oauth_handler_def split: option.splits)

lemma server_verifier_mcp [simp]: "server_verifier (W\<lparr>wp_mcp := m\<rparr>) srv token = server_verifier W srv token"
  by (simp add: fun_eq_iff server_verifier_def)

lemma authenticated_blocks:
  assumes started: "startup os is_hash gen_hash new_ok = Inr u" and closed: "su_projection u = ProjectionFull \<or> \<not> su_mcpPublic u"
    and sound: "gate_sound gate" and none: "\<not> has_credential W u e r (ws_store s)"
  shows "authenticated gate (W\<lparr>wp_mcp := m\<rparr>) (su_oauth u) (su_token u) (su_publicURL u) (su_mcpPublic u)
           (mux os (W\<lparr>wp_mcp := m\<rparr>) (su_oauth u)) e r s
       = authenticated gate W (su_oauth u) (su_token u) (su_publicURL u) (su_mcpPublic u) (mux os W (su_oauth u)) e r s"
proof (cases "wq_Path r = ''/mcp''")
  case False
  then show ?thesis
    by (auto simp: authenticated_def mcpOnly_def bearerAuth_def mcpReject_def mux_elsewhere split: option.splits)
next
  case True
  show ?thesis
  proof (cases "su_oauth u")
    case (Some srv)
    let ?g = "gate (server_verifier W srv (su_token u) e) (su_publicURL u @ ''/.well-known/oauth-protected-resource'')
        [''mcp:read''] e r (ws_store s)"
    have "snd ?g \<noteq> None"
    proof
      assume "snd ?g = None"
      then have "?g = (fst ?g, None)" by (metis prod.collapse)
      then obtain tok info where "bearer_token r = Some tok" "snd (server_verifier W srv (su_token u) e tok (ws_store s)) = Inr info"
          "set [''mcp:read''] \<subseteq> set (ti_Scopes info)"
        using sound unfolding gate_sound_def by blast
      then show False using none Some by (simp add: has_credential_def)
    qed
    then show ?thesis using True Some
      by (auto simp: authenticated_def mcpOnly_def require_bearer_def split: option.splits prod.splits)
  next
    case None
    have full: "su_projection u = ProjectionFull \<Longrightarrow> su_token u \<noteq> []"
      using started None by (auto simp: startup_def Let_def split: if_splits option.splits)
    show ?thesis
    proof (cases "su_token u = []")
      case True
      then show ?thesis using closed full None \<open>wq_Path r = ''/mcp''\<close> by (auto simp: authenticated_def mcpReject_def)
    next
      case False
      then have "presentedToken r \<noteq> su_token u" using none None by (simp add: has_credential_def)
      then show ?thesis using False None \<open>wq_Path r = ''/mcp''\<close> by (simp add: authenticated_def bearerAuth_def tokenMatch_def)
    qed
  qed
qed

text \<open>The middlewares around authentication pass the same token store on.\<close>

lemma brute_gate_cong:
  assumes "\<And>s'. ws_store s' = ws_store s \<Longrightarrow> h1 e r s' = h2 e r s'"
  shows "oauthEndpointLimit lib os rl h1 e r s = oauthEndpointLimit lib os rl h2 e r s"
  using assms by (auto simp: oauthEndpointLimit_def Let_def split: prod.splits)

lemma origin_cong: "h1 e r s = h2 e r s \<Longrightarrow> originVerify secrets h1 e r s = originVerify secrets h2 e r s"
  by (simp add: originVerify_def)

lemma rate_cong:
  assumes "\<And>s'. ws_store s' = ws_store s \<Longrightarrow> h1 e r s' = h2 e r s'"
  shows "rate_middleware lib os rl h1 e r s = rate_middleware lib os rl h2 e r s"
  using assms by (auto simp: rate_middleware_def Let_def split: prod.splits)

lemma secure_cong:
  assumes "\<And>s'. ws_store s' = ws_store s \<Longrightarrow>
      authenticated gate W1 srv token url pub h1 e r s' = authenticated gate W2 srv token url pub h2 e r s'"
  shows "secure pf os lib gate W1 srv token url pub h1 e r s = secure pf os lib gate W2 srv token url pub h2 e r s"
  unfolding secure_def Let_def recoverPanic_def securityHeaders_def
  by (intro arg_cong [where f = "map_prod id f" for f] rate_cong origin_cong)
     (cases srv; use assms in \<open>auto intro!: brute_gate_cong\<close>)

text \<open>
  C27.  With the full projection, or with no anonymous access, a request without the credential the mode asks
  for is answered, and changes the state, in a way that does not depend on the MCP handler at all: the
  handler never sees it.
\<close>

theorem mcp_needs_credential:
  assumes "startup os is_hash gen_hash new_ok = Inr u" and "su_projection u = ProjectionFull \<or> \<not> su_mcpPublic u"
    and "gate_sound gate" and "\<not> has_credential W u e r (ws_store s)"
  shows "serve pf os lib gate (W\<lparr>wp_mcp := m\<rparr>) u e r s = serve pf os lib gate W u e r s"
  unfolding serve_def by (intro secure_cong authenticated_blocks [OF assms(1-3)]) (use assms(4) in simp)

theorem mcp_needs_credential_witness:
  "\<exists>u. startup demo_os (\<lambda>_. True) Some True = Inr u \<and> su_oauth u \<noteq> None
     \<and> (\<forall>e. serve (\<lambda>_. None) demo_os token_bucket strict_gate (demo_parts\<lparr>wp_mcp := \<lambda>_ _ m. (m + 1, Panicked)\<rparr>) u e
              (demo_get ''/mcp'' (\<lambda>_. [])) demo_web
            = serve (\<lambda>_. None) demo_os token_bucket strict_gate demo_parts u e (demo_get ''/mcp'' (\<lambda>_. [])) demo_web)"
proof -
  have url: "trim_right_slashes ''https://c/'' = ''https://c''" by code_simp
  obtain u where u: "startup demo_os (\<lambda>_. True) Some True = Inr u"
    by (simp add: startup_def Let_def demo_os_def url)
  then have "su_projection u = ProjectionFull" "su_oauth u \<noteq> None"
    by (auto simp: startup_def Let_def demo_os_def url)
  then show ?thesis using u mcp_needs_credential [OF u _ strict_gate_sound, of demo_parts _ "demo_get ''/mcp'' (\<lambda>_. [])" demo_web]
    by (auto simp: has_credential_def demo_get_def bearer_token_def header_get_def str_fields_def)
qed

section \<open>The origin check\<close>

lemma originAllowed_iff: "originAllowed got secrets \<longleftrightarrow> got \<noteq> [] \<and> got \<in> set secrets"
proof -
  have "foldl (\<lambda>ok s. if got = s then True else ok) b secrets \<longleftrightarrow> b \<or> got \<in> set secrets" for b
    by (induction secrets arbitrary: b) auto
  then show ?thesis by (simp add: originAllowed_def)
qed

lemma splitComma_no_blank: "[] \<notin> set (splitComma s)"
  by (auto simp: splitComma_def)

text \<open>
  When origin secrets are configured, a request to anything but the health check that carries none of them
  is answered 403, or 429 by the global limiter before it, and touches neither the token store, nor the MCP
  handler's state, nor the brute-force limiter.
\<close>

lemma origin_secret_required:
  assumes "splitComma (os ''COMPLIARY_ORIGIN_VERIFY_SECRET'') \<noteq> []" and "wq_Path r \<noteq> ''/healthz''"
    and "trim_space (header_get r ''X-Origin-Verify'') \<notin> set (splitComma (os ''COMPLIARY_ORIGIN_VERIFY_SECRET''))"
  shows "(case serve pf os lib gate W u e r s of (s', rp) \<Rightarrow>
       (rp_Answer rp = Error_Text 403 ''forbidden'' \<or> rp_Answer rp = Error_Text 429 ''too many requests'')
     \<and> ws_store s' = ws_store s \<and> ws_mcp s' = ws_mcp s \<and> ws_brute s' = ws_brute s)"
  using assms
  by (auto simp: serve_def secure_def Let_def recoverPanic_def securityHeaders_def rate_middleware_def originVerify_def
      originAllowed_iff with_header_def say_def split: prod.splits)

lemma origin_secret_required_witness:
  "\<forall>u e. (case serve (\<lambda>_. None) demo_os token_bucket strict_gate demo_parts u e
        (demo_get ''/mcp'' ((\<lambda>_. [])(''X-Origin-Verify'' := [''three'']))) demo_web of (s', rp) \<Rightarrow>
       (rp_Answer rp = Error_Text 403 ''forbidden'' \<or> rp_Answer rp = Error_Text 429 ''too many requests'')
     \<and> ws_store s' = ws_store demo_web \<and> ws_mcp s' = ws_mcp demo_web \<and> ws_brute s' = ws_brute demo_web)"
proof -
  have "splitComma (demo_os ''COMPLIARY_ORIGIN_VERIFY_SECRET'') = [''one'', ''two'']" by code_simp
  moreover have "trim_space (header_get (demo_get ''/mcp'' ((\<lambda>_. [])(''X-Origin-Verify'' := [''three'']))) ''X-Origin-Verify'') = ''three''"
    by code_simp
  ultimately show ?thesis by (intro allI origin_secret_required) (auto simp: demo_get_def)
qed

section \<open>The client address\<close>

text \<open>
  C28.  Behind a trusted edge of \<open>h\<close> hops the limiter keys on the first of the \<open>h\<close> entries the edge appended to
  X-Forwarded-For, whatever the client put before them in that header and whatever other lines of the header
  follow.
\<close>

theorem clientIP_not_spoofable:
  assumes "length (split_on (CHR '','') appended) = trustedProxyHops os" and "appended \<noteq> []"
    and "trim_space (hd (split_on (CHR '','') appended)) \<noteq> []"
    and "wq_Header r ''X-Forwarded-For'' = (if direct then appended else injected @ '','' @ appended) # others"
  shows "clientIP os r True = trim_space (hd (split_on (CHR '','') appended))"
proof -
  let ?parts = "split_on (CHR '','') (header_get r ''X-Forwarded-For'')"
  obtain pre where parts: "?parts = pre @ split_on (CHR '','') appended"
    using assms(4) split_on_append [of "CHR '',''" injected appended]
    by (cases direct) (auto simp: header_get_def)
  have "?parts ! (length ?parts - trustedProxyHops os) = hd (split_on (CHR '','') appended)"
    using assms(1) by (simp add: parts nth_append hd_conv_nth)
  moreover have "header_get r ''X-Forwarded-For'' \<noteq> []" using assms(2,4) by (simp add: header_get_def)
  moreover have "trustedProxyHops os \<le> length ?parts" using assms(1) by (simp add: parts)
  ultimately show ?thesis using assms(3) by (simp add: clientIP_def Let_def)
qed

theorem clientIP_not_spoofable_witness:
  "clientIP demo_os (demo_get ''/mcp'' ((\<lambda>_. [])(''X-Forwarded-For'' := [''6.6.6.6,7.7.7.7, 203.0.113.9'']))) True = ''203.0.113.9''"
proof -
  have "trim_space (hd (split_on (CHR '','') '' 203.0.113.9'')) = ''203.0.113.9''" by code_simp
  moreover have "length (split_on (CHR '','') '' 203.0.113.9'') = trustedProxyHops demo_os" by code_simp
  ultimately show ?thesis
    using clientIP_not_spoofable [of "'' 203.0.113.9''" demo_os "demo_get ''/mcp'' ((\<lambda>_. [])(''X-Forwarded-For'' := [''6.6.6.6,7.7.7.7, 203.0.113.9'']))"
        False "''6.6.6.6,7.7.7.7''" "[]"]
    by (simp add: demo_get_def)
qed

text \<open>
  Only the first line of the header is read: an edge that adds a line of its own instead of appending to the
  client's leaves the client in charge of its key.
\<close>

lemma clientIP_second_line:
  assumes "os ''COMPLIARY_TRUSTED_PROXY_HOPS'' = []" and "CHR '','' \<notin> set spoofed" and "trim_space spoofed \<noteq> []"
    and "wq_Header r ''X-Forwarded-For'' = [spoofed, genuine]"
  shows "clientIP os r True = trim_space spoofed"
proof -
  have "split_on (CHR '','') s = [s]" if "CHR '','' \<notin> set s" for s
    using that by (induction s) auto
  moreover have "trustedProxyHops os = 1" using assms(1) by (simp add: trustedProxyHops_def envInt_def)
  moreover have "spoofed \<noteq> []" using assms(3) by (auto simp: trim_space_def trim_left.simps)
  ultimately show ?thesis using assms(2-4) by (simp add: clientIP_def Let_def header_get_def)
qed

section \<open>Evicting idle clients\<close>

datatype limiter_event = Ask time string | Sweep time

fun event_time :: "limiter_event \<Rightarrow> time" where
  "event_time (Ask t ip) = t"
| "event_time (Sweep t) = t"

fun limiter_run :: "'b limiter_lib \<Rightarrow> rate_limiter \<Rightarrow> time \<Rightarrow> limiter_event list \<Rightarrow> 'b clients \<Rightarrow> bool list" where
  "limiter_run lib rl ttl [] cl = []"
| "limiter_run lib rl ttl (Ask t ip # evs) cl =
     (case allow_client lib rl t ip cl of (ok, cl') \<Rightarrow> ok # limiter_run lib rl ttl evs cl')"
| "limiter_run lib rl ttl (Sweep t # evs) cl = limiter_run lib rl ttl evs (evict_idle ttl t cl)"

text \<open>The reference: every client has a bucket of its own for ever.\<close>

definition fresh_bucket :: "'b limiter_lib \<Rightarrow> rate_limiter \<Rightarrow> 'b" where
  "fresh_bucket lib rl = lb_new lib (rl_rps rl) (rl_burst rl)"

fun bucket_per_client :: "'b limiter_lib \<Rightarrow> limiter_event list \<Rightarrow> (string \<Rightarrow> 'b) \<Rightarrow> bool list" where
  "bucket_per_client lib [] bs = []"
| "bucket_per_client lib (Ask t ip # evs) bs =
     (case lb_allow lib t (bs ip) of (ok, b) \<Rightarrow> ok # bucket_per_client lib evs (bs(ip := b)))"
| "bucket_per_client lib (Sweep t # evs) bs = bucket_per_client lib evs bs"

fun in_order :: "time \<Rightarrow> limiter_event list \<Rightarrow> bool" where
  "in_order now [] \<longleftrightarrow> True"
| "in_order now (ev # evs) \<longleftrightarrow> now \<le> event_time ev \<and> in_order (event_time ev) evs"

text \<open>A bucket in use, with the time of its last use; and the refilling of idle ones.\<close>

inductive in_use :: "'b limiter_lib \<Rightarrow> rate_limiter \<Rightarrow> 'b \<Rightarrow> time \<Rightarrow> bool" for lib rl where
  first: "0 \<le> t \<Longrightarrow> in_use lib rl (snd (lb_allow lib t (fresh_bucket lib rl))) t"
| again: "in_use lib rl b t0 \<Longrightarrow> t0 \<le> t \<Longrightarrow> in_use lib rl (snd (lb_allow lib t b)) t"

definition refills :: "'b limiter_lib \<Rightarrow> rate_limiter \<Rightarrow> time \<Rightarrow> bool" where
  "refills lib rl ttl \<longleftrightarrow> (\<forall>b t0 t. in_use lib rl b t0 \<longrightarrow> t0 + ttl < t \<longrightarrow>
     lb_allow lib t b = lb_allow lib t (fresh_bucket lib rl))"

definition agrees :: "'b limiter_lib \<Rightarrow> rate_limiter \<Rightarrow> time \<Rightarrow> time \<Rightarrow> 'b clients \<Rightarrow> (string \<Rightarrow> 'b) \<Rightarrow> bool" where
  "agrees lib rl ttl now cl bs \<longleftrightarrow> (\<forall>ip. case fmlookup cl ip of
      Some (b, seen) \<Rightarrow> bs ip = b \<and> in_use lib rl b seen \<and> seen \<le> now
    | None \<Rightarrow> bs ip = fresh_bucket lib rl \<or> (\<exists>seen. in_use lib rl (bs ip) seen \<and> seen + ttl < now))"

lemma agrees_later: "agrees lib rl ttl now cl bs \<Longrightarrow> now \<le> t \<Longrightarrow> agrees lib rl ttl t cl bs"
  unfolding agrees_def by (fastforce split: option.splits)

lemma agrees_evict:
  assumes "agrees lib rl ttl now cl bs"
  shows "agrees lib rl ttl now (evict_idle ttl now cl) bs"
  unfolding agrees_def
proof
  fix ip
  show "case fmlookup (evict_idle ttl now cl) ip of
      Some (b, seen) \<Rightarrow> bs ip = b \<and> in_use lib rl b seen \<and> seen \<le> now
    | None \<Rightarrow> bs ip = fresh_bucket lib rl \<or> (\<exists>seen. in_use lib rl (bs ip) seen \<and> seen + ttl < now)"
    using assms [unfolded agrees_def, THEN spec, of ip]
    by (cases "fmlookup cl ip") (auto simp: evict_idle_def intro!: exI)
qed

lemma agrees_ask:
  assumes ag: "agrees lib rl ttl t cl bs" and "0 \<le> t" and "refills lib rl ttl"
    and step: "allow_client lib rl t ip cl = (ok, cl')"
  shows "fst (lb_allow lib t (bs ip)) = ok \<and> agrees lib rl ttl t cl' (bs(ip := snd (lb_allow lib t (bs ip))))"
proof -
  define b where "b = (case fmlookup cl ip of None \<Rightarrow> fresh_bucket lib rl | Some (b, _) \<Rightarrow> b)"
  note at = ag [unfolded agrees_def, THEN spec, of ip]
  have same: "lb_allow lib t b = lb_allow lib t (bs ip)"
    using at assms(3) by (auto simp: b_def refills_def split: option.splits)
  have used: "in_use lib rl (snd (lb_allow lib t (bs ip))) t"
  proof (cases "fmlookup cl ip")
    case None
    then show ?thesis using same assms(2) in_use.first [of t lib rl] by (simp add: b_def)
  next
    case (Some v)
    then show ?thesis using at by (cases v) (auto intro: in_use.again)
  qed
  have new: "fst (lb_allow lib t b) = ok" "cl' = fmupd ip (snd (lb_allow lib t b), t) (fmupd ip (b, t) cl)"
    using step by (auto simp: allow_client_def limiter_def Let_def b_def fresh_bucket_def split: prod.splits option.splits)
  have "agrees lib rl ttl t cl' (bs(ip := snd (lb_allow lib t (bs ip))))"
    unfolding agrees_def
  proof
    fix i
    show "case fmlookup cl' i of
        Some (b, seen) \<Rightarrow> (bs(ip := snd (lb_allow lib t (bs ip)))) i = b \<and> in_use lib rl b seen \<and> seen \<le> t
      | None \<Rightarrow> (bs(ip := snd (lb_allow lib t (bs ip)))) i = fresh_bucket lib rl
          \<or> (\<exists>seen. in_use lib rl ((bs(ip := snd (lb_allow lib t (bs ip)))) i) seen \<and> seen + ttl < t)"
    proof (cases "i = ip")
      case True
      then show ?thesis using used by (simp add: new(2) same)
    next
      case False
      then show ?thesis using ag [unfolded agrees_def, THEN spec, of i] by (auto simp: new(2) split: option.splits prod.splits)
    qed
  qed
  then show ?thesis using new(1) by (simp add: same)
qed

lemma limiter_run_reference:
  assumes "refills lib rl ttl"
  shows "agrees lib rl ttl now cl bs \<Longrightarrow> 0 \<le> now \<Longrightarrow> in_order now evs
     \<Longrightarrow> limiter_run lib rl ttl evs cl = bucket_per_client lib evs bs"
proof (induction evs arbitrary: now cl bs)
  case (Cons ev evs)
  show ?case
  proof (cases ev)
    case (Ask t ip)
    obtain ok cl' where step: "allow_client lib rl t ip cl = (ok, cl')" by fastforce
    have "agrees lib rl ttl t cl bs" using Cons.prems Ask agrees_later by auto
    then have "fst (lb_allow lib t (bs ip)) = ok" "agrees lib rl ttl t cl' (bs(ip := snd (lb_allow lib t (bs ip))))"
      using agrees_ask [OF _ _ assms step] Cons.prems Ask by auto
    then show ?thesis using Cons.IH [of t cl' "bs(ip := snd (lb_allow lib t (bs ip)))"] Cons.prems Ask step
      by (simp add: case_prod_beta del: fun_upd_apply)
  next
    case (Sweep t)
    then have "agrees lib rl ttl t (evict_idle ttl t cl) bs" using Cons.prems by (auto intro: agrees_evict agrees_later)
    then show ?thesis using Cons Sweep by simp
  qed
qed simp

text \<open>
  C29.  When a bucket left alone for the eviction interval answers like a new one, evicting idle clients changes
  no answer: the limiter, over any sequence of requests and evictor ticks in time order, answers as if every
  client had kept a bucket of its own from the start.
\<close>

theorem limiter_is_per_client:
  assumes "refills lib rl ttl" and "in_order 0 evs"
  shows "limiter_run lib rl ttl evs fmempty = bucket_per_client lib evs (\<lambda>_. fresh_bucket lib rl)"
  using assms by (intro limiter_run_reference) (auto simp: agrees_def)

section \<open>Token buckets refill\<close>

lemma bucket_shape:
  assumes "in_use token_bucket rl b t" and "0 \<le> rl_rps rl" and "0 \<le> rl_burst rl"
  shows "bk_rps b = rl_rps rl \<and> bk_burst b = of_int (rl_burst rl) \<and> 0 \<le> bk_tokens b \<and> bk_last b \<le> t \<and> 0 \<le> t"
  using assms
proof (induction rule: in_use.induct)
  case (first t)
  then show ?case
    by (auto simp: token_bucket_def fresh_bucket_def Let_def)
next
  case (again b t0 t)
  then show ?case by (auto simp: token_bucket_def Let_def)
qed

lemma token_bucket_refills:
  assumes "0 \<le> rl_rps rl" and "1 \<le> rl_burst rl" and "0 \<le> ttl"
    and "of_int (rl_burst rl) \<le> rl_rps rl * of_int ttl / of_int second_ns"
  shows "refills token_bucket rl ttl"
  unfolding refills_def
proof (intro allI impI)
  fix b t0 t assume used: "in_use token_bucket rl b t0" and t: "t0 + ttl < t"
  have burst: "0 \<le> rl_burst rl" "(1 :: rat) \<le> of_int (rl_burst rl)" using assms(2) by simp_all
  note b = bucket_shape [OF used assms(1) burst(1)]
  have sec: "(0 :: rat) < of_int second_ns" by (simp add: second_ns_def)
  have full: "min (of_int (rl_burst rl)) (x + rl_rps rl * of_int d / of_int second_ns) = of_int (rl_burst rl)"
    if "0 \<le> x" "ttl \<le> d" for x and d :: int
  proof -
    have "rl_rps rl * of_int ttl / of_int second_ns \<le> rl_rps rl * of_int d / of_int second_ns"
      using that(2) assms(1) sec by (intro divide_right_mono mult_left_mono) auto
    then show ?thesis using that(1) assms(4) by linarith
  qed
  have d1: "ttl \<le> t - bk_last b" using b t by linarith
  have d2: "ttl \<le> t - 0" using b t by linarith
  have "bk_burst b = of_int (rl_burst rl)" "bk_rps b = rl_rps rl" "0 \<le> bk_tokens b" using b by auto
  then have 1: "min (bk_burst b) (bk_tokens b + bk_rps b * of_int (t - bk_last b) / of_int second_ns) = of_int (rl_burst rl)"
    using full [OF _ d1] by simp
  have 2: "min (of_int (rl_burst rl)) (of_int (rl_burst rl) + rl_rps rl * of_int (t - 0) / of_int second_ns) = of_int (rl_burst rl)"
    using full [OF _ d2, of "of_int (rl_burst rl)"] burst(1) by simp
  show "lb_allow token_bucket t b = lb_allow token_bucket t (fresh_bucket token_bucket rl)"
    using 1 2 b burst(2) by (cases b) (auto simp: token_bucket_def fresh_bucket_def Let_def min_def split: if_splits)
qed

theorem limiter_is_per_client_witness:
  "(let rl = newRateLimiter 50 100 True;
        evs = [Ask 0 ''a'', Ask 5 ''b'', Sweep (1000 * second_ns), Ask (1001 * second_ns) ''a'']
    in limiter_run token_bucket rl (600 * second_ns) evs fmempty = bucket_per_client token_bucket evs (\<lambda>_. fresh_bucket token_bucket rl))"
proof -
  have "refills token_bucket (newRateLimiter 50 100 True) (600 * second_ns)"
    by (rule token_bucket_refills) (simp_all add: newRateLimiter_def second_ns_def)
  then show ?thesis unfolding Let_def by (rule limiter_is_per_client) (simp add: second_ns_def)
qed

end
