(* ===== verification/Workbook.thy ===== *)
theory Workbook
  imports Normalize Citation Go_Url "HOL-Library.AList"
begin

text \<open>
  What the builders for workbook captures share: the capture's cells as a grid (\<open>parseGrid\<close>, \<open>splitRef\<close> of
  \<open>pkg/normalize/csf.go\<close>), decimal numbers, and regular expressions with several groups.

  A Go map of the grid is an association list with distinct keys.  An int has 64 bits and wraps around.
\<close>

section \<open>Numbers\<close>

definition wrap64 :: "int \<Rightarrow> int" where
  "wrap64 n = signed_take_bit 63 n"

definition digit_char :: "nat \<Rightarrow> char" where
  "digit_char d = char_of (48 + d)"

fun nat_text :: "nat \<Rightarrow> string" where
  "nat_text n = (if n < 10 then [digit_char n] else nat_text (n div 10) @ [digit_char (n mod 10)])"

declare nat_text.simps [simp del]

text \<open>The \<open>%d\<close> verb.\<close>

definition int_text :: "int \<Rightarrow> string" where
  "int_text n = (if n < 0 then ''-'' @ nat_text (nat (- n)) else nat_text (nat n))"

lemma wrap64_id: "- (2 ^ 63) \<le> n \<Longrightarrow> n < 2 ^ 63 \<Longrightarrow> wrap64 n = n"
  unfolding wrap64_def by (rule signed_take_bit_int_eq_self) simp_all

section \<open>The capture\<close>

record cell =
  wc_Ref :: string
  wc_Value :: string

record sheet =
  sh_Name :: string
  sh_Rows :: "cell list"

definition dec_cell :: "json \<Rightarrow> cell option" where
  "dec_cell = dec_obj (\<lambda>kvs. case (dec_str_field ''ref'' kvs, dec_str_field ''value'' kvs) of
       (Some r, Some v) \<Rightarrow> Some \<lparr>wc_Ref = r, wc_Value = v\<rparr> | _ \<Rightarrow> None)"

definition dec_sheet :: "json \<Rightarrow> sheet option" where
  "dec_sheet = dec_obj (\<lambda>kvs. case (dec_str_field ''name'' kvs, dec_list_field dec_cell ''rows'' kvs) of
       (Some n, Some cs) \<Rightarrow> Some \<lparr>sh_Name = n, sh_Rows = cs\<rparr> | _ \<Rightarrow> None)"

definition dec_workbook :: "json \<Rightarrow> sheet list option" where
  "dec_workbook = dec_obj (dec_list_field dec_sheet ''sheets'')"

section \<open>The grid\<close>

definition is_upper :: "char \<Rightarrow> bool" where
  "is_upper c \<longleftrightarrow> 65 \<le> (of_char c :: nat) \<and> (of_char c :: nat) \<le> 90"

fun split_step :: "char \<Rightarrow> string \<times> int \<Rightarrow> string \<times> int" where
  "split_step ch (col, row) =
     (if is_upper ch then (col @ [ch], row)
      else if is_digit ch then (col, wrap64 (row * 10 + (of_char ch - 48)))
      else (col, row))"

definition splitRef :: "string \<Rightarrow> string \<times> int" where
  "splitRef ref = fold split_step ref ([], 0)"

type_synonym grid = "(int \<times> (string \<times> string) list) list"

definition cols_of :: "grid \<Rightarrow> int \<Rightarrow> (string \<times> string) list" where
  "cols_of g row = (case map_of g row of None \<Rightarrow> [] | Some cs \<Rightarrow> cs)"

definition put_cell :: "cell \<Rightarrow> grid \<Rightarrow> grid" where
  "put_cell c g =
     (case splitRef (wc_Ref c) of (col, row) \<Rightarrow>
        if row = 0 then g else AList.update row (AList.update col (wc_Value c) (cols_of g row)) g)"

definition parseGrid :: "cell list \<Rightarrow> grid" where
  "parseGrid cells = fold put_cell cells []"

text \<open>The text of a cell, and the text with blanks trimmed; the rows after row \<open>n\<close> in order.\<close>

definition cell_at :: "grid \<Rightarrow> int \<Rightarrow> string \<Rightarrow> string" where
  "cell_at g row col = (case map_of (cols_of g row) col of None \<Rightarrow> [] | Some v \<Rightarrow> v)"

definition trimmed :: "grid \<Rightarrow> int \<Rightarrow> string \<Rightarrow> string" where
  "trimmed g row col = trim_space (cell_at g row col)"

definition rows_after :: "int \<Rightarrow> grid \<Rightarrow> int list" where
  "rows_after n g = sort (filter (\<lambda>r. n < r) (map fst g))"

lemma put_cell_keys: "distinct (map fst g) \<Longrightarrow> distinct (map fst (put_cell c g))"
  by (auto simp: put_cell_def distinct_update split: prod.splits)

lemma parseGrid_keys: "distinct (map fst (parseGrid cells))"
proof -
  have "distinct (map fst g) \<Longrightarrow> distinct (map fst (fold put_cell cells g))" for g
    by (induction cells arbitrary: g) (auto intro: put_cell_keys)
  then show ?thesis by (simp add: parseGrid_def)
qed

lemma rows_after_sorted: "sorted (rows_after n g)"
  by (simp add: rows_after_def)

lemma rows_after_distinct: "distinct (rows_after n (parseGrid cells))"
  using parseGrid_keys [of cells] by (simp add: rows_after_def distinct_filter)

lemma rows_after_iff: "r \<in> set (rows_after n g) \<longleftrightarrow> n < r \<and> r \<in> fst ` set g"
  by (auto simp: rows_after_def)

section \<open>Printing a reference and reading it\<close>

lemma digit_char: "d < 10 \<Longrightarrow> is_digit (digit_char d) \<and> (of_char (digit_char d) :: int) = 48 + int d"
  by (simp add: digit_char_def is_digit_def of_char_of flip: of_nat_of_char [where 'a = int])

lemma fold_upper: "list_all is_upper cs \<Longrightarrow> fold split_step cs (col, row) = (col @ cs, row)"
  by (induction cs arbitrary: col) auto

lemma digit_not_upper: "is_digit c \<Longrightarrow> \<not> is_upper c"
  by (auto simp: is_digit_def is_upper_def)

lemma fold_digits: "int n < 2 ^ 63 \<Longrightarrow> fold split_step (nat_text n) (col, 0) = (col, int n)"
proof (induction n rule: nat_text.induct)
  case (1 n)
  show ?case
  proof (cases "n < 10")
    case True
    then show ?thesis using digit_char [of n] 1 wrap64_id [of "int n"]
      by (simp add: nat_text.simps [of n] digit_not_upper)
  next
    case False
    have le: "n div 10 \<le> n" by simp
    then have "int (n div 10) < 2 ^ 63" using "1.prems" by linarith
    then have "fold split_step (nat_text (n div 10)) (col, 0) = (col, int (n div 10))" using "1.IH" False by blast
    moreover have "int (n div 10) * 10 + int (n mod 10) = int n" by (simp add: zdiv_int zmod_int)
    ultimately show ?thesis using False digit_char [of "n mod 10"] "1.prems" wrap64_id [of "int n"]
      by (simp add: nat_text.simps [of n] digit_not_upper algebra_simps)
  qed
qed

lemma splitRef_print:
  assumes "list_all is_upper col" and "0 \<le> row" and "row < 2 ^ 63"
  shows "splitRef (col @ int_text row) = (col, row)"
  using assms fold_digits [of "nat row" col] by (simp add: splitRef_def int_text_def fold_upper)

section \<open>Regular expressions with groups\<close>

text \<open>
  Expressions matched from the start of a text to its end (\<open>^...$\<close>), with numbered groups and lazy
  repetition; \<open>pat_match\<close> lists the rests of the text in the order a backtracking matcher tries them.
  A dot is any byte but a newline: the expressions never split a rune, as what surrounds a dot is ASCII.
\<close>

datatype pat =
    Chr bool "(nat \<times> nat) list"
  | Cat pat pat
  | Or pat pat
  | Maybe pat
  | Many bool pat
  | Group nat pat

type_synonym groups = "(nat \<times> string) list"

text \<open>\<open>Many True\<close> is greedy, \<open>Many False\<close> lazy.\<close>

fun many_iter :: "nat \<Rightarrow> bool \<Rightarrow> (string \<times> groups \<Rightarrow> (string \<times> groups) list) \<Rightarrow> string \<times> groups \<Rightarrow> (string \<times> groups) list" where
  "many_iter 0 greedy f p = [p]"
| "many_iter (Suc n) greedy f p =
     (let go = concat (map (\<lambda>q. if length (fst p) \<le> length (fst q) then [] else many_iter n greedy f q) (f p))
      in if greedy then go @ [p] else p # go)"

definition in_ranges :: "(nat \<times> nat) list \<Rightarrow> char \<Rightarrow> bool" where
  "in_ranges rs c \<longleftrightarrow> list_ex (\<lambda>(a, b). a \<le> (of_char c :: nat) \<and> (of_char c :: nat) \<le> b) rs"

primrec pat_match :: "pat \<Rightarrow> string \<times> groups \<Rightarrow> (string \<times> groups) list" where
  "pat_match (Chr neg rs) = (\<lambda>(s, c). case s of [] \<Rightarrow> [] | x # xs \<Rightarrow> if in_ranges rs x \<noteq> neg then [(xs, c)] else [])"
| "pat_match (Cat a b) = (\<lambda>p. concat (map (pat_match b) (pat_match a p)))"
| "pat_match (Or a b) = (\<lambda>p. pat_match a p @ pat_match b p)"
| "pat_match (Maybe a) = (\<lambda>p. pat_match a p @ [p])"
| "pat_match (Many greedy a) = (\<lambda>p. many_iter (length (fst p)) greedy (pat_match a) p)"
| "pat_match (Group k a) = (\<lambda>(s, c). map (\<lambda>(t, d). (t, (k, take (length s - length t) s) # d)) (pat_match a (s, c)))"

text \<open>\<open>FindStringSubmatch\<close>: a group that took no part is the empty string.\<close>

definition submatch :: "pat \<Rightarrow> string \<Rightarrow> (nat \<Rightarrow> string) option" where
  "submatch r s =
     (case filter (\<lambda>(t, c). t = []) (pat_match r (s, [])) of
        [] \<Rightarrow> None
      | (_, c) # _ \<Rightarrow> Some (\<lambda>k. case map_of c k of None \<Rightarrow> [] | Some x \<Rightarrow> x))"

definition matches_pat :: "pat \<Rightarrow> string \<Rightarrow> bool" where
  "matches_pat r s \<longleftrightarrow> submatch r s \<noteq> None"

definition word :: "string \<Rightarrow> pat list" where
  "word s = map (\<lambda>c. Chr False [(of_char c, of_char c)]) s"

fun cat :: "pat list \<Rightarrow> pat" where
  "cat [] = Maybe (Chr False [])"
| "cat [r] = r"
| "cat (r # q # rs) = Cat r (cat (q # rs))"

definition some :: "pat \<Rightarrow> pat" where "some r = Cat r (Many True r)"

definition upper :: pat where "upper = Chr False [(65, 90)]"
definition digit :: pat where "digit = Chr False [(48, 57)]"
definition blank_pat :: pat where "blank_pat = Chr False [(9, 10), (12, 13), (32, 32)]"
definition dot :: pat where "dot = Chr True [(10, 10)]"

end
