(* ===== verification/Csf.thy ===== *)
theory Csf
  imports Workbook "HOL-Library.List_Lexorder" "HOL-Library.Char_ord"
begin

text \<open>
  The builder for the NIST CSF 2.0 workbook (\<open>pkg/normalize/csf.go\<close>): functions, categories and
  subcategories as a tree, withdrawal notes and informative references as mapping edges.  \<open>quote\<close> is the
  \<open>%q\<close> verb of \<open>fmt\<close>.
\<close>

section \<open>Expressions\<close>

definition two_upper :: pat where "two_upper = Cat upper upper"

definition category_pat :: pat where
  "category_pat = cat [two_upper, Chr False [(46, 46)], two_upper, Many True upper]"

definition reFuncID :: pat where
  "reFuncID = cat ([some upper, some blank_pat] @ word ''('' @ [Group 1 two_upper] @ word '')''
     @ [Maybe (cat (word '':'' @ [Many True blank_pat, Group 2 (some dot)]))])"

definition reCatID :: pat where
  "reCatID = cat ([Group 1 (Cat dot (Many False dot)), some blank_pat] @ word ''('' @ [Group 2 category_pat] @ word ''):''
     @ [Many True blank_pat, Group 3 (some dot)])"

definition reSubID :: pat where
  "reSubID = cat ([Group 1 (cat ([category_pat] @ word ''-'' @ [some digit]))] @ word '':'' @ [Many True blank_pat, Group 2 (some dot)])"

definition reWithdrawn :: pat where
  "reWithdrawn = cat (word ''[Withdrawn:'' @ [Many True blank_pat, Group 1 (some dot)] @ word '']'')"

definition reTargetID :: pat where
  "reTargetID = Cat two_upper (Maybe (cat [Chr False [(46, 46)], two_upper, Many True upper,
     Maybe (cat (word ''-'' @ [some digit]))]))"

section \<open>Parsed rows\<close>

record csf_row =
  pr_SheetRow :: int
  pr_Kind :: string
  pr_ID :: string
  pr_Title :: string
  pr_Status :: string
  pr_Body :: "string option"
  pr_Action :: string
  pr_Targets :: "string list"
  pr_CellRef :: string
  pr_ColE :: string

text \<open>\<open>parseTargetList\<close>: the targets that are CSF ids.\<close>

definition parseTargetList :: "string \<Rightarrow> string list" where
  "parseTargetList s = filter (matches_pat reTargetID) (map trim_space (split_on (CHR '','') s))"

text \<open>The action and the targets of a withdrawal note.\<close>

definition parseWithdrawalNote :: "string \<Rightarrow> string \<times> string list" where
  "parseWithdrawalNote n =
     (let note = trim_space n; targets = (\<lambda>p. parseTargetList (trim_space (drop (length p) note))) in
      if has_prefix ''Incorporated into'' note then (''incorporated-into'', targets ''Incorporated into'')
      else if has_prefix ''Moved to'' note then (''moved-to'', targets ''Moved to'')
      else if has_prefix ''Moved into'' note then (''moved-to'', targets ''Moved into'')
      else ([], []))"

definition row_error :: "(string \<Rightarrow> string) \<Rightarrow> int \<Rightarrow> string \<Rightarrow> string \<Rightarrow> string \<Rightarrow> string" where
  "row_error quote r what col v =
     ''row '' @ int_text r @ '': cannot parse '' @ what @ '' from col '' @ col @ '': '' @ quote v"

definition parseCategoryRow :: "(string \<Rightarrow> string) \<Rightarrow> int \<Rightarrow> string \<Rightarrow> string + csf_row" where
  "parseCategoryRow quote r b =
     (case submatch reCatID b of
        None \<Rightarrow> Inl (row_error quote r ''category'' ''B'' b)
      | Some m \<Rightarrow>
          let rest = trim_space (m 3);
              pr = \<lparr>pr_SheetRow = r, pr_Kind = ''category'', pr_ID = m 2, pr_Title = rest, pr_Status = ''active'',
                    pr_Body = None, pr_Action = [], pr_Targets = [], pr_CellRef = ''B'' @ int_text r, pr_ColE = []\<rparr>
          in case submatch reWithdrawn rest of
               Some wm \<Rightarrow> (case parseWithdrawalNote (wm 1) of (a, ts) \<Rightarrow>
                   Inr (pr\<lparr>pr_Title := m 1, pr_Status := ''withdrawn'', pr_Action := a, pr_Targets := ts\<rparr>))
             | None \<Rightarrow> Inr pr)"

definition blank_line :: string where
  "blank_line = [CHR 0x0A, CHR 0x0A]"

definition parseSubcategoryRow :: "(string \<Rightarrow> string) \<Rightarrow> int \<Rightarrow> string \<Rightarrow> string \<Rightarrow> string + csf_row" where
  "parseSubcategoryRow quote r c d =
     (case submatch reSubID c of
        None \<Rightarrow> Inl (row_error quote r ''subcategory'' ''C'' c)
      | Some m \<Rightarrow>
          let rest = trim_space (m 2);
              pr = \<lparr>pr_SheetRow = r, pr_Kind = ''subcategory'', pr_ID = m 1, pr_Title = rest, pr_Status = ''active'',
                    pr_Body = Some (if d = [] then rest else rest @ blank_line @ d), pr_Action = [], pr_Targets = [],
                    pr_CellRef = ''C'' @ int_text r, pr_ColE = []\<rparr>
          in case submatch reWithdrawn rest of
               Some wm \<Rightarrow> (case parseWithdrawalNote (wm 1) of (a, ts) \<Rightarrow>
                   Inr (pr\<lparr>pr_Title := [], pr_Status := ''withdrawn'', pr_Body := None, pr_Action := a, pr_Targets := ts\<rparr>))
             | None \<Rightarrow> Inr pr)"

text \<open>First pass: each function once, the described row preferred.\<close>

record func_info =
  fi_row :: int
  fi_title :: string
  fi_colE :: string

fun see_functions ::
  "(string \<Rightarrow> string) \<Rightarrow> grid \<Rightarrow> (string \<rightharpoonup> func_info) \<Rightarrow> int list \<Rightarrow> string + (string \<rightharpoonup> func_info)" where
  "see_functions quote g seen [] = Inr seen"
| "see_functions quote g seen (r # rs) =
     (let a = trimmed g r ''A'' in
      if a = [] then see_functions quote g seen rs
      else (case submatch reFuncID a of
          None \<Rightarrow> Inl (row_error quote r ''function'' ''A'' a)
        | Some m \<Rightarrow>
            let desc = trim_space (m 2); fi = \<lparr>fi_row = r, fi_title = desc, fi_colE = trimmed g r ''E''\<rparr> in
            (case seen (m 1) of
               Some old \<Rightarrow> see_functions quote g (if desc \<noteq> [] \<and> fi_title old = [] then seen(m 1 \<mapsto> fi) else seen) rs
             | None \<Rightarrow> see_functions quote g (seen(m 1 \<mapsto> fi)) rs)))"

definition function_row :: "string \<Rightarrow> func_info \<Rightarrow> csf_row" where
  "function_row i fi =
     \<lparr>pr_SheetRow = fi_row fi, pr_Kind = ''function'', pr_ID = i, pr_Title = fi_title fi, pr_Status = ''active'',
      pr_Body = None, pr_Action = [], pr_Targets = [], pr_CellRef = ''A'' @ int_text (fi_row fi), pr_ColE = fi_colE fi\<rparr>"

text \<open>Second pass; \<open>emitted\<close> are the functions emitted.\<close>

fun csf_rows ::
  "(string \<Rightarrow> string) \<Rightarrow> grid \<Rightarrow> (string \<rightharpoonup> func_info) \<Rightarrow> string set \<Rightarrow> int list \<Rightarrow> string + csf_row list" where
  "csf_rows quote g funcs emitted [] = Inr []"
| "csf_rows quote g funcs emitted (r # rs) =
     (let a = trimmed g r ''A''; b = trimmed g r ''B''; c = trimmed g r ''C''; d = trimmed g r ''D''; e = trimmed g r ''E'' in
      if a \<noteq> [] then
        (case submatch reFuncID a of
           None \<Rightarrow> csf_rows quote g funcs emitted rs
         | Some m \<Rightarrow>
             if m 1 \<in> emitted then csf_rows quote g funcs emitted rs
             else map_sum id ((#) (function_row (m 1) (the (funcs (m 1))))) (csf_rows quote g funcs (insert (m 1) emitted) rs))
      else if b \<noteq> [] then
        (case parseCategoryRow quote r b of
           Inl err \<Rightarrow> Inl err
         | Inr pr \<Rightarrow> map_sum id ((#) (pr\<lparr>pr_ColE := e\<rparr>)) (csf_rows quote g funcs emitted rs))
      else if c \<noteq> [] then
        (case parseSubcategoryRow quote r c d of
           Inl err \<Rightarrow> Inl err
         | Inr pr \<Rightarrow> map_sum id ((#) (pr\<lparr>pr_ColE := e\<rparr>)) (csf_rows quote g funcs emitted rs))
      else csf_rows quote g funcs emitted rs)"

definition parseCSFRows :: "(string \<Rightarrow> string) \<Rightarrow> grid \<Rightarrow> string + csf_row list" where
  "parseCSFRows quote g =
     (case see_functions quote g Map.empty (rows_after 2 g) of
        Inl err \<Rightarrow> Inl err
      | Inr funcs \<Rightarrow> csf_rows quote g funcs {} (rows_after 2 g))"

section \<open>References\<close>

text \<open>The citation of a reference line, None for a skip.\<close>

fun trim_commas :: "string \<Rightarrow> string" where
  "trim_commas [] = []"
| "trim_commas (c # cs) = (if list_all (\<lambda>x. x = CHR '','') (c # cs) then [] else c # trim_commas cs)"

definition iso_cite :: "bool \<Rightarrow> string \<Rightarrow> string option" where
  "iso_cite annexA cite =
     (if cite = [] \<or> equal_fold cite ''none'' then None
      else let c = trim_space (trim_commas cite) in
        if CHR '','' \<in> set c then None else Some (if annexA then ''A.'' @ c else c))"

definition parseISOCitation :: "string \<Rightarrow> string option" where
  "parseISOCitation rest =
     (if \<not> has_prefix ''2022:'' rest then None
      else let after = trim_space (drop 5 rest); tail = (\<lambda>p. trim_space (drop (length p) after)) in
        if has_prefix ''Annex A Controls:'' after then iso_cite True (tail ''Annex A Controls:'')
        else if has_prefix ''Mandatory Clause:'' after then iso_cite False (tail ''Mandatory Clause:'')
        else if has_prefix ''Control'' after then iso_cite True (tail ''Control'')
        else None)"

definition parseRefCitation :: "string \<Rightarrow> string \<Rightarrow> string option" where
  "parseRefCitation prefix rest =
     (if prefix = ''ISO/IEC 27001'' then parseISOCitation rest
      else let cite = trim_space rest in if cite = [] then None else Some cite)"

type_synonym edge_key = "string \<times> string \<times> string"

record ref_state =
  fs_Mappings :: "tree_edge list"
  fs_Skips :: ref_skips
  fs_Seen :: "edge_key \<rightharpoonup> nat \<times> string list"

definition count_up :: "string \<Rightarrow> (string \<Rightarrow> nat) \<Rightarrow> string \<Rightarrow> nat" where
  "count_up p f = f(p := Suc (f p))"

text \<open>One line of column E.\<close>

definition ref_line :: "nat \<Rightarrow> string \<Rightarrow> (string \<rightharpoonup> reference_source) \<Rightarrow> string \<Rightarrow> ref_state \<Rightarrow> ref_state" where
  "ref_line controlIdx cellRef refMap line0 st =
     (let line = trim_space line0 in
      if line = [] then st
      else case first_index (CHR '':'') line of
        None \<Rightarrow> st
      | Some i \<Rightarrow>
          let prefix = trim_space (take i line); rest = trim_space (drop (Suc i) line) in
          case refMap prefix of
            None \<Rightarrow> st\<lparr>fs_Skips := (fs_Skips st)\<lparr>rk_UnknownPfx := count_up prefix (rk_UnknownPfx (fs_Skips st))\<rparr>\<rparr>
          | Some rs \<Rightarrow>
            (case parseRefCitation prefix rest of
               None \<Rightarrow> st\<lparr>fs_Skips := (fs_Skips st)\<lparr>rk_PerPrefix := count_up prefix (rk_PerPrefix (fs_Skips st))\<rparr>\<rparr>
             | Some cite \<Rightarrow>
                 let norm = to_upper (trim_space cite); dk = (rs_ToFramework rs, deref (rs_ToVersion rs), norm) in
                 case fs_Seen st dk of
                   Some (k, releases) \<Rightarrow>
                     let releases' = sort (releases @ [prefix]) in
                     st\<lparr>fs_Seen := (fs_Seen st)(dk \<mapsto> (k, releases')),
                        fs_Mappings := (fs_Mappings st)[k := (fs_Mappings st ! k)
                          \<lparr>te_Provenance := cellRef @ '' ['' @ join ''; '' releases' @ '']''\<rparr>]\<rparr>
                 | None \<Rightarrow>
                     st\<lparr>fs_Seen := (fs_Seen st)(dk \<mapsto> (length (fs_Mappings st), [prefix])),
                        fs_Mappings := fs_Mappings st @
                          [\<lparr>te_FromIdx = controlIdx, te_ToFramework = rs_ToFramework rs, te_ToVersion = rs_ToVersion rs,
                            te_ToNorm = norm, te_Source = rs_Source rs, te_Relationship = ''related'',
                            te_Provenance = cellRef @ '' ['' @ prefix @ '']''\<rparr>]\<rparr>))"

definition parseCSFReferences ::
  "(string \<rightharpoonup> reference_source) \<Rightarrow> string \<Rightarrow> nat \<Rightarrow> int \<Rightarrow> tree_edge list \<times> ref_skips \<Rightarrow> tree_edge list \<times> ref_skips" where
  "parseCSFReferences refMap colE controlIdx sheetRow ms =
     (let st = fold (ref_line controlIdx (''E'' @ int_text sheetRow) refMap) (split_on (CHR 0x0A) colE)
                 \<lparr>fs_Mappings = fst ms, fs_Skips = snd ms, fs_Seen = Map.empty\<rparr>
      in (fs_Mappings st, fs_Skips st))"

section \<open>The tree\<close>

definition extractCategoryPrefix :: "string \<Rightarrow> string" where
  "extractCategoryPrefix subID = (case last_index (CHR ''-'') subID of None \<Rightarrow> [] | Some i \<Rightarrow> take i subID)"

definition findSubcategoryParent :: "csf_row \<Rightarrow> (string \<rightharpoonup> nat) \<Rightarrow> int \<Rightarrow> int" where
  "findSubcategoryParent pr idToIdx currentFuncIdx =
     (let catPrefix = extractCategoryPrefix (pr_ID pr) in
      if catPrefix = [] then (if 0 \<le> currentFuncIdx then currentFuncIdx else -1)
      else (case idToIdx catPrefix of
          Some idx \<Rightarrow> int idx
        | None \<Rightarrow> if 0 \<le> currentFuncIdx then currentFuncIdx else -1))"

record csf_state =
  sf_Controls :: "control_node list"
  sf_Mappings :: "tree_edge list"
  sf_Index :: "string \<rightharpoonup> nat"
  sf_Func :: int

definition csf_parent :: "csf_row \<Rightarrow> csf_state \<Rightarrow> int" where
  "csf_parent pr st =
     (if pr_Kind pr = ''function'' then -1
      else if pr_Kind pr = ''category'' then (if 0 \<le> sf_Func st then sf_Func st else -1)
      else if pr_Kind pr = ''subcategory'' then findSubcategoryParent pr (sf_Index st) (sf_Func st)
      else 0)"

definition withdrawal_edges :: "string \<Rightarrow> string \<Rightarrow> nat \<Rightarrow> csf_row \<Rightarrow> tree_edge list" where
  "withdrawal_edges fw v idx pr =
     (if pr_Status pr = ''withdrawn'' \<and> pr_Action pr \<noteq> [] then
        map (\<lambda>target. \<lparr>te_FromIdx = idx, te_ToFramework = fw, te_ToVersion = Some v, te_ToNorm = to_upper target,
                       te_Source = ''publisher-catalog'', te_Relationship = pr_Action pr,
                       te_Provenance = ''CSF 2.0!'' @ pr_CellRef pr\<rparr>) (pr_Targets pr)
      else [])"

definition csf_control :: "csf_row \<Rightarrow> int \<Rightarrow> nat \<Rightarrow> control_node" where
  "csf_control pr parent ordinal =
     \<lparr>cn_Citation = pr_ID pr, cn_Norm = to_upper (pr_ID pr), cn_Kind = pr_Kind pr, cn_Status = pr_Status pr,
      cn_Title = pr_Title pr, cn_TitleOriginal = (if pr_Title pr = [] then None else Some (pr_Title pr)),
      cn_Body = pr_Body pr, cn_ParentIdx = parent, cn_Ordinal = int ordinal, cn_Amends = None, cn_Action = None\<rparr>"

definition csf_step :: "string \<Rightarrow> string \<Rightarrow> csf_row \<Rightarrow> csf_state \<Rightarrow> csf_state" where
  "csf_step fw v pr st =
     (let idx = length (sf_Controls st) in
      \<lparr>sf_Controls = sf_Controls st @ [csf_control pr (csf_parent pr st) idx],
       sf_Mappings = sf_Mappings st @ withdrawal_edges fw v idx pr,
       sf_Index = (sf_Index st)(pr_ID pr \<mapsto> idx),
       sf_Func = (if pr_Kind pr = ''function'' then int idx else sf_Func st)\<rparr>)"

definition csf_refs ::
  "(string \<rightharpoonup> reference_source) \<Rightarrow> (string \<rightharpoonup> nat) \<Rightarrow> csf_row \<Rightarrow> tree_edge list \<times> ref_skips \<Rightarrow> tree_edge list \<times> ref_skips" where
  "csf_refs refMap idToIdx pr ms =
     (if pr_ColE pr = [] then ms
      else parseCSFReferences refMap (pr_ColE pr) (case idToIdx (pr_ID pr) of None \<Rightarrow> 0 | Some i \<Rightarrow> i) (pr_SheetRow pr) ms)"

definition no_skips :: ref_skips where
  "no_skips = \<lparr>rk_PerPrefix = (\<lambda>_. 0), rk_UnknownPfx = (\<lambda>_. 0)\<rparr>"

definition buildCSFControlTree ::
  "csf_row list \<Rightarrow> string \<Rightarrow> string \<Rightarrow> reference_source list \<Rightarrow> (string \<rightharpoonup> reference_source) \<Rightarrow> tree" where
  "buildCSFControlTree parsed fw v refSources refMap =
     (let st = fold (csf_step fw v) parsed \<lparr>sf_Controls = [], sf_Mappings = [], sf_Index = Map.empty, sf_Func = -1\<rparr>;
          ms = (if refSources \<noteq> [] then fold (csf_refs refMap (sf_Index st)) parsed (sf_Mappings st, no_skips)
                else (sf_Mappings st, no_skips))
      in \<lparr>tr_Title = ''NIST Cybersecurity Framework (CSF) 2.0'', tr_Controls = sf_Controls st, tr_Mappings = fst ms,
          tr_Unresolved = [], tr_RefSkips = (if refSources \<noteq> [] then Some (snd ms) else None)\<rparr>)"

definition BuildCSFTree :: "(string \<Rightarrow> string) \<Rightarrow> reference_source list \<Rightarrow> builder" where
  "BuildCSFTree quote refSources raw fw v =
     (case Option.bind raw dec_workbook of
        None \<Rightarrow> Inl (Rejected ''unmarshal workbook'')
      | Some sheets \<Rightarrow> (case List.find (\<lambda>s. sh_Name s = ''CSF 2.0'') sheets of
            None \<Rightarrow> Inl (Rejected ''sheet 'CSF 2.0' not found'')
          | Some s \<Rightarrow> (case parseCSFRows quote (parseGrid (sh_Rows s)) of
                Inl err \<Rightarrow> Inl (Rejected err)
              | Inr parsed \<Rightarrow>
                  Inr (buildCSFControlTree parsed fw v refSources (fold (\<lambda>rs m. m(rs_Prefix rs \<mapsto> rs)) refSources Map.empty)))))"

end
