(* ===== verification/Csf_Props.thy ===== *)
theory Csf_Props
  imports Csf Normalize_Write "HOL-Library.Multiset"
begin

text \<open>
  The CSF tree against its reference definitions: the parent of a row is found by looking back from it, and
  the references of a row are its citations grouped by target.
\<close>

section \<open>The last position with a property\<close>

fun last_pos :: "('a \<Rightarrow> bool) \<Rightarrow> 'a list \<Rightarrow> nat option" where
  "last_pos P [] = None"
| "last_pos P (x # xs) =
     (case last_pos P xs of Some i \<Rightarrow> Some (Suc i) | None \<Rightarrow> if P x then Some 0 else None)"

lemma last_pos_snoc: "last_pos P (xs @ [x]) = (if P x then Some (length xs) else last_pos P xs)"
  by (induction xs) (auto split: option.splits)

lemma last_pos_Some: "last_pos P xs = Some i \<Longrightarrow> i < length xs \<and> P (xs ! i) \<and> (\<forall>j. i < j \<and> j < length xs \<longrightarrow> \<not> P (xs ! j))"
proof (induction xs arbitrary: i rule: rev_induct)
  case (snoc x xs)
  then show ?case by (auto simp: last_pos_snoc nth_append less_Suc_eq split: if_splits)
qed simp

lemma last_pos_None: "last_pos P xs = None \<longleftrightarrow> (\<forall>x \<in> set xs. \<not> P x)"
  by (induction xs rule: rev_induct) (auto simp: last_pos_snoc)

section \<open>Parents\<close>

definition position :: "nat option \<Rightarrow> int" where
  "position o1 = (case o1 of None \<Rightarrow> -1 | Some i \<Rightarrow> int i)"

definition looked_back :: "csf_row list \<Rightarrow> csf_row \<Rightarrow> int" where
  "looked_back earlier pr =
     (let func = position (last_pos (\<lambda>q. pr_Kind q = ''function'') earlier); c = extractCategoryPrefix (pr_ID pr) in
      if pr_Kind pr = ''function'' then -1
      else if pr_Kind pr = ''category'' then func
      else if pr_Kind pr = ''subcategory'' then
        (case (if c = [] then None else last_pos (\<lambda>q. pr_ID q = c) earlier) of Some i \<Rightarrow> int i | None \<Rightarrow> func)
      else 0)"

definition csf_start :: csf_state where
  "csf_start = \<lparr>sf_Controls = [], sf_Mappings = [], sf_Index = Map.empty, sf_Func = -1\<rparr>"

definition csf_state_of :: "string \<Rightarrow> string \<Rightarrow> csf_row list \<Rightarrow> csf_state" where
  "csf_state_of fw v rows = fold (csf_step fw v) rows csf_start"

lemma csf_state_snoc: "csf_state_of fw v (rows @ [pr]) = csf_step fw v pr (csf_state_of fw v rows)"
  by (simp add: csf_state_of_def)

lemma csf_state_Nil [simp]: "csf_state_of fw v [] = csf_start"
  by (simp add: csf_state_of_def)

lemma csf_state_length [simp]: "length (sf_Controls (csf_state_of fw v rows)) = length rows"
  by (induction rows rule: rev_induct) (simp_all add: csf_state_snoc csf_step_def csf_start_def Let_def)

lemma csf_state_index:
  "sf_Index (csf_state_of fw v rows) i = last_pos (\<lambda>q. pr_ID q = i) rows"
  by (induction rows rule: rev_induct)
     (auto simp: csf_state_snoc csf_step_def csf_start_def Let_def last_pos_snoc)

lemma csf_state_func:
  "sf_Func (csf_state_of fw v rows) = position (last_pos (\<lambda>q. pr_Kind q = ''function'') rows)"
  by (induction rows rule: rev_induct)
     (auto simp: csf_state_snoc csf_step_def csf_start_def Let_def last_pos_snoc position_def)

lemma csf_parent_back: "csf_parent pr (csf_state_of fw v rows) = looked_back rows pr"
  by (auto simp: csf_parent_def looked_back_def findSubcategoryParent_def csf_state_index csf_state_func Let_def
      position_def split: option.splits)

definition csf_outline :: "csf_row list \<Rightarrow> control_node list" where
  "csf_outline rows = map (\<lambda>i. csf_control (rows ! i) (looked_back (take i rows) (rows ! i)) i) [0..<length rows]"

lemma map_upt_snoc:
  assumes "\<And>i. i < length xs \<Longrightarrow> f' i = f i"
  shows "map f' [0..<length (xs @ [x])] = map f [0..<length xs] @ [f' (length xs)]"
  using assms by simp

lemma csf_state_controls: "sf_Controls (csf_state_of fw v rows) = csf_outline rows"
proof (induction rows rule: rev_induct)
  case (snoc pr rows)
  then show ?case
    unfolding csf_state_snoc csf_outline_def
    by (subst map_upt_snoc [where f = "\<lambda>i. csf_control (rows ! i) (looked_back (take i rows) (rows ! i)) i"])
       (simp_all add: nth_append csf_step_def Let_def csf_parent_back csf_outline_def)
qed (simp add: csf_outline_def csf_start_def)

lemma looked_back_less: "looked_back earlier pr < int (length earlier) \<or> pr_Kind pr \<notin> {''function'', ''category'', ''subcategory''}"
  by (auto simp: looked_back_def position_def Let_def dest!: last_pos_Some split: option.splits if_splits)

lemma csf_state_edges:
  "sf_Mappings (csf_state_of fw v rows) = concat (map (\<lambda>i. withdrawal_edges fw v i (rows ! i)) [0..<length rows])"
proof (induction rows rule: rev_induct)
  case (snoc pr rows)
  then show ?case
    unfolding csf_state_snoc
    by (subst map_upt_snoc [where f = "\<lambda>i. withdrawal_edges fw v i (rows ! i)"])
       (simp_all add: nth_append csf_step_def Let_def)
qed (simp add: csf_start_def)

section \<open>References\<close>

record ref_entry =
  en_Prefix :: string
  en_Source :: reference_source
  en_Norm :: string

definition entry_key :: "ref_entry \<Rightarrow> edge_key" where
  "entry_key e = (rs_ToFramework (en_Source e), deref (rs_ToVersion (en_Source e)), en_Norm e)"

text \<open>What a line cites, when its prefix is known and its citation can be read.\<close>

definition line_entry :: "(string \<rightharpoonup> reference_source) \<Rightarrow> string \<Rightarrow> ref_entry option" where
  "line_entry refMap line0 =
     (let line = trim_space line0 in
      case (if line = [] then None else first_index (CHR '':'') line) of
        None \<Rightarrow> None
      | Some i \<Rightarrow>
          let prefix = trim_space (take i line); rest = trim_space (drop (Suc i) line) in
          case refMap prefix of
            None \<Rightarrow> None
          | Some rs \<Rightarrow> map_option (\<lambda>cite. \<lparr>en_Prefix = prefix, en_Source = rs, en_Norm = to_upper (trim_space cite)\<rparr>)
              (parseRefCitation prefix rest))"

definition cited :: "(string \<rightharpoonup> reference_source) \<Rightarrow> string list \<Rightarrow> ref_entry list" where
  "cited refMap lines = List.map_filter (line_entry refMap) lines"

text \<open>One edge for each target, from its first citation, naming all the prefixes that cite it in order.\<close>

definition grouped_edge :: "nat \<Rightarrow> string \<Rightarrow> ref_entry list \<Rightarrow> ref_entry \<Rightarrow> tree_edge" where
  "grouped_edge idx cellRef es e =
     \<lparr>te_FromIdx = idx, te_ToFramework = rs_ToFramework (en_Source e), te_ToVersion = rs_ToVersion (en_Source e),
      te_ToNorm = en_Norm e, te_Source = rs_Source (en_Source e), te_Relationship = ''related'',
      te_Provenance = cellRef @ '' [''
        @ join ''; '' (sort (map en_Prefix (filter (\<lambda>x. entry_key x = entry_key e) es))) @ '']''\<rparr>"

definition grouped_edges :: "nat \<Rightarrow> string \<Rightarrow> ref_entry list \<Rightarrow> tree_edge list" where
  "grouped_edges idx cellRef es = map (grouped_edge idx cellRef es) (dedup_on entry_key {} es)"

lemma dedup_on_snoc:
  "dedup_on key seen (xs @ [x]) = dedup_on key seen xs @ (if key x \<in> seen \<union> key ` set xs then [] else [x])"
  by (induction xs arbitrary: seen) auto

text \<open>The state of the loop after some lines.\<close>

definition refs_agree :: "nat \<Rightarrow> string \<Rightarrow> tree_edge list \<Rightarrow> ref_entry list \<Rightarrow> ref_state \<Rightarrow> bool" where
  "refs_agree idx cellRef ms es st \<longleftrightarrow>
     fs_Mappings st = ms @ grouped_edges idx cellRef es
   \<and> (\<forall>dk. case fs_Seen st dk of
        None \<Rightarrow> dk \<notin> entry_key ` set es
      | Some (k, releases) \<Rightarrow> length ms \<le> k \<and> k - length ms < length (dedup_on entry_key {} es)
          \<and> entry_key (dedup_on entry_key {} es ! (k - length ms)) = dk
          \<and> releases = sort (map en_Prefix (filter (\<lambda>x. entry_key x = dk) es)))"

lemma ref_line_None:
  "line_entry refMap l = None \<Longrightarrow> fs_Mappings (ref_line idx cellRef refMap l st) = fs_Mappings st
     \<and> fs_Seen (ref_line idx cellRef refMap l st) = fs_Seen st"
  by (cases "trim_space l = []") (auto simp: line_entry_def ref_line_def Let_def split: option.splits)

lemma ref_line_Some:
  assumes "line_entry refMap l = Some e"
  shows "ref_line idx cellRef refMap l st =
    (case fs_Seen st (entry_key e) of
       Some (k, releases) \<Rightarrow>
         st\<lparr>fs_Seen := (fs_Seen st)(entry_key e \<mapsto> (k, sort (releases @ [en_Prefix e]))),
            fs_Mappings := (fs_Mappings st)[k := (fs_Mappings st ! k)
              \<lparr>te_Provenance := cellRef @ '' ['' @ join ''; '' (sort (releases @ [en_Prefix e])) @ '']''\<rparr>]\<rparr>
     | None \<Rightarrow>
         st\<lparr>fs_Seen := (fs_Seen st)(entry_key e \<mapsto> (length (fs_Mappings st), [en_Prefix e])),
            fs_Mappings := fs_Mappings st @ [grouped_edge idx cellRef [e] e]\<rparr>)"
  using assms
  by (auto simp: line_entry_def ref_line_def Let_def entry_key_def grouped_edge_def split: option.splits if_splits)

lemma grouped_edge_new:
  assumes "entry_key e \<notin> entry_key ` set es"
  shows "grouped_edges idx cellRef (es @ [e]) = grouped_edges idx cellRef es @ [grouped_edge idx cellRef [e] e]"
proof -
  have "grouped_edge idx cellRef (es @ [e]) d = grouped_edge idx cellRef es d" if "d \<in> set es" for d
    using that assms by (auto simp: grouped_edge_def)
  moreover have "filter (\<lambda>x. entry_key x = entry_key e) es = []" using assms by (simp add: filter_empty_conv) (metis imageI)
  then have "grouped_edge idx cellRef (es @ [e]) e = grouped_edge idx cellRef [e] e" by (simp add: grouped_edge_def)
  ultimately show ?thesis
    using assms set_dedup_on_subset [of entry_key "{}" es]
    by (auto simp: grouped_edges_def dedup_on_snoc subset_iff)
qed

lemma grouped_edge_old:
  assumes "k < length (dedup_on entry_key {} es)" and key: "entry_key (dedup_on entry_key {} es ! k) = entry_key e"
  shows "grouped_edges idx cellRef (es @ [e]) = (grouped_edges idx cellRef es)[k := (grouped_edges idx cellRef es ! k)
      \<lparr>te_Provenance := cellRef @ '' [''
        @ join ''; '' (sort (map en_Prefix (filter (\<lambda>x. entry_key x = entry_key e) es) @ [en_Prefix e])) @ '']''\<rparr>]"
proof -
  let ?ds = "dedup_on entry_key {} es"
  have "entry_key e \<in> entry_key ` set es"
    using assms set_dedup_on_subset [of entry_key "{}" es] by (metis imageI nth_mem subsetD)
  then have same: "dedup_on entry_key {} (es @ [e]) = ?ds" by (simp add: dedup_on_snoc)
  have other: "entry_key (?ds ! j) \<noteq> entry_key e" if "j < length ?ds" "j \<noteq> k" for j
    using that assms nth_eq_iff_index_eq [OF distinct_dedup_on [of entry_key "{}" es], of j k] by simp
  show ?thesis
    unfolding grouped_edges_def same
  proof (rule nth_equalityI)
    fix j assume "j < length (map (grouped_edge idx cellRef (es @ [e])) ?ds)"
    then show "map (grouped_edge idx cellRef (es @ [e])) ?ds ! j =
        (map (grouped_edge idx cellRef es) ?ds)[k := (map (grouped_edge idx cellRef es) ?ds ! k)
          \<lparr>te_Provenance := cellRef @ '' ['' @ join ''; '' (sort (map en_Prefix (filter (\<lambda>x. entry_key x = entry_key e) es) @ [en_Prefix e])) @ '']''\<rparr>] ! j"
      using assms other [of j] by (cases "j = k") (auto simp: grouped_edge_def)
  qed simp
qed

lemma sort_snoc_sort: "sort (sort xs @ [x]) = sort (xs @ [x])" for xs :: "string list"
  by (metis mset_append mset_sort sorted_list_of_multiset_mset)

lemma refs_agree_step:
  assumes "refs_agree idx cellRef ms es st"
  shows "refs_agree idx cellRef ms (es @ (case line_entry refMap l of None \<Rightarrow> [] | Some e \<Rightarrow> [e]))
           (ref_line idx cellRef refMap l st)"
proof (cases "line_entry refMap l")
  case None
  then show ?thesis using assms ref_line_None [OF None, of idx cellRef st] by (simp add: refs_agree_def)
next
  case (Some e)
  let ?ds = "dedup_on entry_key {} es"
  note ag = assms [unfolded refs_agree_def]
  show ?thesis
  proof (cases "fs_Seen st (entry_key e)")
    case None
    then have new: "entry_key e \<notin> entry_key ` set es" using ag by (metis (no_types, lifting) option.simps(4))
    then have empty: "filter (\<lambda>x. entry_key x = entry_key e) es = []" by (simp add: filter_empty_conv) (metis imageI)
    have len: "length (grouped_edges idx cellRef es) = length ?ds" by (simp add: grouped_edges_def)
    have ds: "dedup_on entry_key {} (es @ [e]) = ?ds @ [e]" using new by (simp add: dedup_on_snoc)
    show ?thesis
      unfolding refs_agree_def Some option.case
    proof (intro conjI allI)
      show "fs_Mappings (ref_line idx cellRef refMap l st) = ms @ grouped_edges idx cellRef (es @ [e])"
        using ag None by (simp add: ref_line_Some [OF Some] grouped_edge_new [OF new])
      fix dk
      show "case fs_Seen (ref_line idx cellRef refMap l st) dk of
          None \<Rightarrow> dk \<notin> entry_key ` set (es @ [e])
        | Some (k, releases) \<Rightarrow> length ms \<le> k \<and> k - length ms < length (dedup_on entry_key {} (es @ [e]))
            \<and> entry_key (dedup_on entry_key {} (es @ [e]) ! (k - length ms)) = dk
            \<and> releases = sort (map en_Prefix (filter (\<lambda>x. entry_key x = dk) (es @ [e])))"
      proof (cases "dk = entry_key e")
        case True
        then show ?thesis using ag None len by (simp add: ref_line_Some [OF Some] ds empty)
      next
        case False
        then show ?thesis using ag [THEN conjunct2, THEN spec, of dk] None
          by (auto simp: ref_line_Some [OF Some] ds nth_append split: option.splits)
      qed
    qed
  next
    case (Some p)
    note le = \<open>line_entry refMap l = Some e\<close>
    obtain k releases where p: "p = (k, releases)" by (cases p)
    have k: "length ms \<le> k" "k - length ms < length ?ds" "entry_key (?ds ! (k - length ms)) = entry_key e"
      "releases = sort (map en_Prefix (filter (\<lambda>x. entry_key x = entry_key e) es))"
      using ag [THEN conjunct2, THEN spec, of "entry_key e"] Some by (simp_all add: p)
    have "entry_key e \<in> entry_key ` set es"
      using k set_dedup_on_subset [of entry_key "{}" es] by (metis imageI nth_mem subsetD)
    then have ds: "dedup_on entry_key {} (es @ [e]) = ?ds" by (simp add: dedup_on_snoc)
    have len: "length (grouped_edges idx cellRef es) = length ?ds" by (simp add: grouped_edges_def)
    show ?thesis
      unfolding refs_agree_def le option.case
    proof (intro conjI allI)
      show "fs_Mappings (ref_line idx cellRef refMap l st) = ms @ grouped_edges idx cellRef (es @ [e])"
        using ag Some k len
        by (simp add: ref_line_Some [OF le] p grouped_edge_old [OF k(2,3)] sort_snoc_sort list_update_append nth_append)
      fix dk
      show "case fs_Seen (ref_line idx cellRef refMap l st) dk of
          None \<Rightarrow> dk \<notin> entry_key ` set (es @ [e])
        | Some (k, releases) \<Rightarrow> length ms \<le> k \<and> k - length ms < length (dedup_on entry_key {} (es @ [e]))
            \<and> entry_key (dedup_on entry_key {} (es @ [e]) ! (k - length ms)) = dk
            \<and> releases = sort (map en_Prefix (filter (\<lambda>x. entry_key x = dk) (es @ [e])))"
      proof (cases "dk = entry_key e")
        case True
        then show ?thesis using Some k by (simp add: ref_line_Some [OF le] p ds sort_snoc_sort)
      next
        case False
        then show ?thesis using ag [THEN conjunct2, THEN spec, of dk] Some
          by (auto simp: ref_line_Some [OF le] p ds split: option.splits)
      qed
    qed
  qed
qed

lemma parseCSFReferences_grouped:
  "fst (parseCSFReferences refMap colE idx row ms)
     = fst ms @ grouped_edges idx (''E'' @ int_text row) (cited refMap (split_on (CHR 0x0A) colE))"
proof -
  let ?c = "''E'' @ int_text row"
  have "refs_agree idx ?c m (es @ cited refMap lines) (fold (ref_line idx ?c refMap) lines st)"
    if "refs_agree idx ?c m es st" for m es lines st
    using that
  proof (induction lines arbitrary: es st)
    case (Cons l lines)
    show ?case using Cons.IH [OF refs_agree_step [OF Cons.prems, of refMap l]]
      by (cases "line_entry refMap l") (simp_all add: cited_def List.map_filter_simps)
  qed (simp add: cited_def List.map_filter_simps)
  from this [of "fst ms" "[]" "\<lparr>fs_Mappings = fst ms, fs_Skips = snd ms, fs_Seen = Map.empty\<rparr>"]
  show ?thesis
    by (simp add: parseCSFReferences_def Let_def refs_agree_def grouped_edges_def)
qed

section \<open>The whole tree\<close>

definition ref_map :: "reference_source list \<Rightarrow> string \<rightharpoonup> reference_source" where
  "ref_map refSources = fold (\<lambda>rs m. m(rs_Prefix rs \<mapsto> rs)) refSources Map.empty"

definition row_references :: "csf_row list \<Rightarrow> (string \<rightharpoonup> reference_source) \<Rightarrow> csf_row \<Rightarrow> tree_edge list" where
  "row_references rows refMap pr =
     (if pr_ColE pr = [] then []
      else grouped_edges (case last_pos (\<lambda>q. pr_ID q = pr_ID pr) rows of None \<Rightarrow> 0 | Some i \<Rightarrow> i)
             (''E'' @ int_text (pr_SheetRow pr)) (cited refMap (split_on (CHR 0x0A) (pr_ColE pr))))"

definition csf_edges :: "string \<Rightarrow> string \<Rightarrow> csf_row list \<Rightarrow> reference_source list \<Rightarrow> tree_edge list" where
  "csf_edges fw v rows refSources =
     concat (map (\<lambda>i. withdrawal_edges fw v i (rows ! i)) [0..<length rows])
     @ (if refSources = [] then [] else concat (map (row_references rows (ref_map refSources)) rows))"

lemma csf_refs_fold:
  "fst (fold (csf_refs refMap idx) rows ms) = fst ms @ concat (map (\<lambda>pr. if pr_ColE pr = [] then []
     else grouped_edges (case idx (pr_ID pr) of None \<Rightarrow> 0 | Some i \<Rightarrow> i) (''E'' @ int_text (pr_SheetRow pr))
            (cited refMap (split_on (CHR 0x0A) (pr_ColE pr)))) rows)"
  by (induction rows arbitrary: ms) (simp_all add: csf_refs_def parseCSFReferences_grouped)

lemma csf_tree_parts:
  fixes rows refs fw v
  defines "t \<equiv> buildCSFControlTree rows fw v refs (ref_map refs)"
  shows "tr_Controls t = csf_outline rows" "tr_Mappings t = csf_edges fw v rows refs"
  by (simp_all add: t_def buildCSFControlTree_def Let_def csf_edges_def row_references_def [abs_def] csf_refs_fold
      csf_state_controls csf_state_edges flip: csf_state_of_def csf_start_def)
     (simp add: csf_state_index cong: if_cong)

lemma withdrawal_edges_from: "m \<in> set (withdrawal_edges fw v i pr) \<Longrightarrow> te_FromIdx m = i"
  by (auto simp: withdrawal_edges_def split: if_splits)

lemma csf_edges_from:
  assumes "m \<in> set (csf_edges fw v rows refs)"
  shows "te_FromIdx m < length rows"
proof (cases "\<exists>i < length rows. m \<in> set (withdrawal_edges fw v i (rows ! i))")
  case True
  then show ?thesis using withdrawal_edges_from by blast
next
  case False
  then obtain pr where pr: "pr \<in> set rows" "m \<in> set (row_references rows (ref_map refs) pr)"
    using assms by (auto simp: csf_edges_def split: if_splits)
  then obtain i where i: "last_pos (\<lambda>q. pr_ID q = pr_ID pr) rows = Some i"
    using last_pos_None [of "\<lambda>q. pr_ID q = pr_ID pr" rows] by (cases "last_pos (\<lambda>q. pr_ID q = pr_ID pr) rows") auto
  then have "te_FromIdx m = i"
    using pr by (auto simp: row_references_def grouped_edges_def grouped_edge_def split: if_splits)
  then show ?thesis using last_pos_Some [OF i] by simp
qed

section \<open>What the rows are\<close>

definition row_status_ok :: "csf_row \<Rightarrow> bool" where
  "row_status_ok pr \<longleftrightarrow> pr_Status pr \<in> {''active'', ''withdrawn''} \<and> pr_Action pr \<in> {[], ''incorporated-into'', ''moved-to''}"

lemma note_action: "parseWithdrawalNote n = (a, ts) \<Longrightarrow> a \<in> {[], ''incorporated-into'', ''moved-to''}"
  by (auto simp: parseWithdrawalNote_def Let_def split: if_splits)

lemma category_kind: "parseCategoryRow quote r b = Inr pr \<Longrightarrow> pr_Kind pr = ''category'' \<and> pr_SheetRow pr = r \<and> pr_CellRef pr = ''B'' @ int_text r \<and> row_status_ok pr"
  by (auto simp: parseCategoryRow_def Let_def row_status_ok_def dest!: note_action split: option.splits prod.splits)

lemma subcategory_kind: "parseSubcategoryRow quote r c d = Inr pr \<Longrightarrow> pr_Kind pr = ''subcategory'' \<and> pr_SheetRow pr = r \<and> pr_CellRef pr = ''C'' @ int_text r \<and> row_status_ok pr"
  by (auto simp: parseSubcategoryRow_def Let_def row_status_ok_def dest!: note_action split: option.splits prod.splits)

definition kind_column :: "string \<Rightarrow> string" where
  "kind_column k = (if k = ''function'' then ''A'' else if k = ''category'' then ''B'' else ''C'')"

definition row_ok :: "int list \<Rightarrow> csf_row \<Rightarrow> bool" where
  "row_ok rs pr \<longleftrightarrow> pr_Kind pr \<in> {''function'', ''category'', ''subcategory''} \<and> row_status_ok pr \<and> pr_SheetRow pr \<in> set rs
     \<and> pr_CellRef pr = kind_column (pr_Kind pr) @ int_text (pr_SheetRow pr)"

lemma see_functions_mono:
  "see_functions quote g seen rs = Inr funcs \<Longrightarrow> seen x \<noteq> None \<Longrightarrow> funcs x \<noteq> None"
  by (induction quote g seen rs rule: see_functions.induct) (auto simp: Let_def split: option.splits if_splits)

lemma see_functions_rows:
  "see_functions quote g seen rs = Inr funcs \<Longrightarrow> funcs x = Some fi \<Longrightarrow> seen x = Some fi \<or> fi_row fi \<in> set rs"
proof (induction rs arbitrary: seen)
  case (Cons r rs)
  then show ?case
    by (auto simp: Let_def split: option.splits if_splits dest!: Cons.IH)
qed simp

lemma see_functions_found:
  "see_functions quote g seen rs = Inr funcs \<Longrightarrow> r \<in> set rs \<Longrightarrow> trimmed g r ''A'' \<noteq> []
     \<Longrightarrow> submatch reFuncID (trimmed g r ''A'') = Some m \<Longrightarrow> funcs (m 1) \<noteq> None"
proof (induction rs arbitrary: seen)
  case (Cons r' rs)
  show ?case
  proof (cases "r = r'")
    case False
    then have r: "r \<in> set rs" using Cons.prems by simp
    note ih = Cons.IH [OF _ r Cons.prems(3,4)]
    from Cons.prems(1) show ?thesis by (auto simp: Let_def split: option.splits if_splits dest!: ih)
  next
    case True
    then show ?thesis using Cons.prems by (auto simp: Let_def dest!: see_functions_mono [where x = "m 1"] split: option.splits if_splits)
  qed
qed simp

lemma map_sum_Inr_iff: "map_sum f h x = Inr y \<longleftrightarrow> (\<exists>z. x = Inr z \<and> y = h z)"
  by (cases x) auto

lemma csf_rows_ok:
  assumes "see_functions quote g Map.empty all_rows = Inr funcs"
  shows "set rs \<subseteq> set all_rows \<Longrightarrow> csf_rows quote g funcs emitted rs = Inr parsed \<Longrightarrow> pr \<in> set parsed \<Longrightarrow> row_ok (all_rows) pr"
proof (induction rs arbitrary: emitted parsed)
  case (Cons r rs)
  let ?a = "trimmed g r ''A''"
  have rec: "row_ok all_rows pr" if "csf_rows quote g funcs em rs = Inr ps" "pr \<in> set ps" for em ps
    using Cons.IH [OF _ that] Cons.prems by simp
  show ?case
  proof (cases "?a = []")
    case True
    then show ?thesis using Cons.prems rec
      by (auto simp: Let_def map_sum_Inr_iff dest!: category_kind subcategory_kind split: if_splits sum.split_asm)
         (auto simp: row_ok_def kind_column_def row_status_ok_def)
  next
    case False
    show ?thesis
    proof (cases "submatch reFuncID ?a")
      case None
      then show ?thesis using Cons.prems rec False by (auto simp: Let_def)
    next
      case (Some m)
      then obtain fi where fi: "funcs (m 1) = Some fi"
        using see_functions_found [OF assms, of r m] Cons.prems(1) False by auto
      then have "fi_row fi \<in> set all_rows" using see_functions_rows [OF assms fi] by simp
      then have "row_ok all_rows (function_row (m 1) fi)" by (simp add: function_row_def row_ok_def kind_column_def row_status_ok_def)
      then show ?thesis using Cons.prems rec False Some fi by (auto simp: Let_def map_sum_Inr_iff split: if_splits)
    qed
  qed
qed simp

lemma parseCSFRows_ok:
  "parseCSFRows quote g = Inr parsed \<Longrightarrow> pr \<in> set parsed \<Longrightarrow> row_ok (rows_after 2 g) pr"
  unfolding parseCSFRows_def using csf_rows_ok by (fastforce split: sum.splits)

text \<open>Row numbers fit in an int.\<close>

lemma wrap64_range: "- (2 ^ 63) \<le> wrap64 n \<and> wrap64 n < 2 ^ 63"
  unfolding wrap64_def using signed_take_bit_int_greater_eq_minus_exp [of 63 n] signed_take_bit_int_less_exp [of 63 n] by simp

lemma splitRef_range: "splitRef ref = (col, row) \<Longrightarrow> row < 2 ^ 63"
proof -
  have "snd (fold split_step ref (c, r)) < 2 ^ 63" if "r < 2 ^ 63" for c r
    using that wrap64_range by (induction ref arbitrary: c r) (auto simp: is_upper_def)
  from this [of 0 "[]"] show "splitRef ref = (col, row) \<Longrightarrow> row < 2 ^ 63" by (simp add: splitRef_def)
qed

lemma parseGrid_range: "r \<in> fst ` set (parseGrid cells) \<Longrightarrow> r < 2 ^ 63"
proof -
  have "\<forall>r \<in> fst ` set (fold put_cell cells g). r < 2 ^ 63" if "\<forall>r \<in> fst ` set g. r < 2 ^ 63" for g
    using that
  proof (induction cells arbitrary: g)
    case (Cons c cells)
    obtain col row where split: "splitRef (wc_Ref c) = (col, row)" by fastforce
    then have "fst ` set (put_cell c g) \<subseteq> insert row (fst ` set g)" by (auto simp add: put_cell_def dom_update)
    then have "\<forall>r \<in> fst ` set (put_cell c g). r < 2 ^ 63" using Cons.prems splitRef_range [OF split] by blast
    then show ?case using Cons.IH by simp
  qed simp
  from this [of "[]"] show "r \<in> fst ` set (parseGrid cells) \<Longrightarrow> r < 2 ^ 63" unfolding parseGrid_def by simp blast
qed

lemma cell_ref_reads_back:
  assumes "parseCSFRows quote (parseGrid cells) = Inr parsed" and "pr \<in> set parsed"
  shows "splitRef (pr_CellRef pr) = (kind_column (pr_Kind pr), pr_SheetRow pr)"
proof -
  have ok: "row_ok (rows_after 2 (parseGrid cells)) pr" using parseCSFRows_ok [OF assms] .
  then have "2 < pr_SheetRow pr" "pr_SheetRow pr < 2 ^ 63"
    using parseGrid_range [of "pr_SheetRow pr" cells] by (auto simp: row_ok_def rows_after_iff)
  moreover have "list_all is_upper (kind_column k)" for k by (simp add: kind_column_def is_upper_def)
  ultimately show ?thesis using ok splitRef_print [of "kind_column (pr_Kind pr)" "pr_SheetRow pr"]
    by (simp add: row_ok_def)
qed

section \<open>The tree is in order\<close>

lemma csf_outline_ordered:
  assumes "\<forall>pr \<in> set rows. pr_Kind pr \<in> {''function'', ''category'', ''subcategory''}"
  shows "parents_precede 0 (csf_outline rows)"
  unfolding parents_precede_nth
proof (intro allI impI)
  fix i assume "i < length (csf_outline rows)"
  then show "cn_ParentIdx (csf_outline rows ! i) < int (0 + i)"
    using assms looked_back_less [of "take i rows" "rows ! i"]
    by (fastforce simp: csf_outline_def csf_control_def)
qed

lemma BuildCSFTree_cases:
  assumes "BuildCSFTree quote refs raw fw v = Inr t"
  obtains cells parsed where "parseCSFRows quote (parseGrid cells) = Inr parsed"
    "t = buildCSFControlTree parsed fw v refs (ref_map refs)"
  using assms by (auto simp: BuildCSFTree_def ref_map_def split: option.splits sum.splits)

lemma csf_ordered:
  assumes "BuildCSFTree quote refs raw fw v = Inr t"
  shows "parents_precede 0 (tr_Controls t)" "\<forall>m \<in> set (tr_Mappings t). te_FromIdx m < length (tr_Controls t)"
proof -
  obtain cells parsed where p: "parseCSFRows quote (parseGrid cells) = Inr parsed"
    and t: "t = buildCSFControlTree parsed fw v refs (ref_map refs)" using assms by (rule BuildCSFTree_cases)
  have "\<forall>pr \<in> set parsed. pr_Kind pr \<in> {''function'', ''category'', ''subcategory''}"
    using parseCSFRows_ok [OF p] by (auto simp: row_ok_def)
  then show "parents_precede 0 (tr_Controls t)" by (simp add: t csf_tree_parts csf_outline_ordered)
  show "\<forall>m \<in> set (tr_Mappings t). te_FromIdx m < length (tr_Controls t)"
    using csf_edges_from [of _ fw v parsed refs] by (simp add: t csf_tree_parts csf_outline_def)
qed

end
