(* ===== verification/Cis_Ccm.thy ===== *)
theory Cis_Ccm
  imports Workbook
begin

text \<open>
  The builders for the CIS Controls workbook (\<open>pkg/normalize/cis.go\<close>) and the CSA CCM workbook
  (\<open>pkg/normalize/ccm.go\<close>): a two-level tree read off the rows of one sheet.
\<close>

section \<open>What both share\<close>

fun contains_sub :: "string \<Rightarrow> string \<Rightarrow> bool" where
  "contains_sub p s = (find_sub p s \<noteq> None)"

definition opt_text :: "string \<Rightarrow> string option" where
  "opt_text s = (if s = [] then None else Some s)"

definition plain_row :: "string \<Rightarrow> string \<Rightarrow> string \<Rightarrow> string \<Rightarrow> string option \<Rightarrow> int \<Rightarrow> nat \<Rightarrow> control_node" where
  "plain_row cite norm kind title body parent ordinal =
     \<lparr>cn_Citation = cite, cn_Norm = norm, cn_Kind = kind, cn_Status = ''active'', cn_Title = title,
      cn_TitleOriginal = opt_text title, cn_Body = body, cn_ParentIdx = parent, cn_Ordinal = int ordinal,
      cn_Amends = None, cn_Action = None\<rparr>"

definition tree_of :: "string \<Rightarrow> control_node list \<Rightarrow> tree" where
  "tree_of title cs =
     \<lparr>tr_Title = title, tr_Controls = cs, tr_Mappings = [], tr_Unresolved = [], tr_RefSkips = None\<rparr>"

definition line_break :: string where
  "line_break = [CHR 0x0A]"

section \<open>CIS Controls\<close>

definition buildCISSafeguardBody :: "string \<Rightarrow> string \<Rightarrow> string \<Rightarrow> string \<Rightarrow> string \<Rightarrow> string \<Rightarrow> string option" where
  "buildCISSafeguardBody description assetClass securityFunction ig1 ig2 ig3 =
     (let igs = (if equal_fold ig1 ''x'' then [''IG1''] else []) @ (if equal_fold ig2 ''x'' then [''IG2''] else [])
                @ (if equal_fold ig3 ''x'' then [''IG3''] else []);
          attrs = (if assetClass \<noteq> [] then [''Asset Class: '' @ assetClass] else [])
                @ (if securityFunction \<noteq> [] then [''Security Function: '' @ securityFunction] else [])
                @ (if igs \<noteq> [] then [''Implementation Groups: '' @ join '', '' igs] else [])
      in if description = [] \<and> attrs = [] then None
         else Some (if description \<noteq> [] \<and> attrs \<noteq> [] then description @ line_break @ line_break @ join line_break attrs
                    else if description \<noteq> [] then description
                    else join line_break attrs))"

text \<open>
  \<open>strings.TrimRight\<close> with the cutset of a no-break space and a blank, on a text without blanks at its ends.
\<close>

fun trim_nbsp :: "string \<Rightarrow> string" where
  "trim_nbsp s =
     (if s \<noteq> [] \<and> last s = CHR '' '' then trim_nbsp (butlast s)
      else if 2 \<le> length s \<and> drop (length s - 2) s = [CHR 0xC2, CHR 0xA0] then trim_nbsp (take (length s - 2) s)
      else s)"

declare trim_nbsp.simps [simp del]

text \<open>One row; \<open>nums\<close> is where each control number is.\<close>

type_synonym cis_state = "control_node list \<times> (string \<rightharpoonup> nat)"

definition cis_row :: "grid \<Rightarrow> int \<Rightarrow> cis_state \<Rightarrow> cis_state" where
  "cis_row g r st =
     (case st of (cs, nums) \<Rightarrow>
        let colA = trim_nbsp (trimmed g r ''A''); colB = trimmed g r ''B''; colE = trimmed g r ''E''; colF = trimmed g r ''F'' in
        if colA = [] then (cs, nums)
        else if colB = [] then
          (cs @ [plain_row colA colA ''control'' colE (opt_text colF) (-1) (length cs)], nums(colA \<mapsto> length cs))
        else
          (cs @ [plain_row colB colB ''safeguard'' colE
                   (buildCISSafeguardBody colF (trimmed g r ''C'') (trimmed g r ''D'') (trimmed g r ''G'') (trimmed g r ''H'') (trimmed g r ''I''))
                   (case nums colA of Some idx \<Rightarrow> int idx | None \<Rightarrow> -1) (length cs)], nums))"

definition BuildCISTree :: builder where
  "BuildCISTree raw fw v =
     (case Option.bind raw dec_workbook of
        None \<Rightarrow> Inl (Rejected ''unmarshal workbook'')
      | Some sheets \<Rightarrow> (case List.find (\<lambda>s. contains_sub ''Controls v8'' (sh_Name s)) sheets of
            None \<Rightarrow> Inl (Rejected ''no Controls data sheet found (expected name containing 'Controls v8')'')
          | Some s \<Rightarrow>
              let g = parseGrid (sh_Rows s)
              in Inr (tree_of (''CIS Controls '' @ (if has_prefix ''v'' v then v else ''v'' @ v))
                        (fst (fold (cis_row g) (rows_after 1 g) ([], Map.empty))))))"

section \<open>CSA CCM\<close>

definition ccmApplicabilityCols :: "(string \<times> string) list" where
  "ccmApplicabilityCols =
     [(''E'', ''CCM Lite''), (''F'', ''IaaS''), (''G'', ''PaaS''), (''H'', ''SaaS''), (''I'', ''Phys''), (''J'', ''Network''),
      (''K'', ''Compute''), (''L'', ''Storage''), (''M'', ''App''), (''N'', ''Data''), (''O'', ''Cybersecurity''),
      (''P'', ''Internal Audit''), (''Q'', ''Architecture Team''), (''R'', ''SW Development''), (''S'', ''Operations''),
      (''T'', ''Legal/Privacy''), (''U'', ''GRC Team''), (''V'', ''Supply Chain Management''), (''W'', ''HR'')]"

definition reDomainACR :: pat where
  "reDomainACR = Cat upper (some (Chr False [(65, 90), (38, 38)]))"

text \<open>\<open>strings.LastIndex\<close>: the text before and after the last occurrence.\<close>

fun last_sub :: "string \<Rightarrow> string \<Rightarrow> (string \<times> string) option" where
  "last_sub p [] = (if p = [] then Some ([], []) else None)"
| "last_sub p (c # cs) =
     (case last_sub p cs of
        Some (a, b) \<Rightarrow> Some (c # a, b)
      | None \<Rightarrow> if has_prefix p (c # cs) then Some ([], drop (length p) (c # cs)) else None)"

definition parseDomainHeader :: "string \<Rightarrow> (string \<times> string) option" where
  "parseDomainHeader s =
     (case last_sub '' - '' s of
        None \<Rightarrow> None
      | Some (a, b) \<Rightarrow>
          let name = trim_space a; acr = trim_space b in
          if matches_pat reDomainACR acr then Some (name, acr) else None)"

definition app_line :: "grid \<Rightarrow> int \<Rightarrow> string \<times> string \<Rightarrow> string option" where
  "app_line g r ac =
     (let val = trimmed g r (fst ac) in
      if val = [] then None else Some (snd ac @ '': '' @ (if val = ''True'' then ''Yes'' else val)))"

definition buildCCMBody :: "string \<Rightarrow> grid \<Rightarrow> int \<Rightarrow> string" where
  "buildCCMBody spec g r =
     (let parts = (if spec \<noteq> [] then [spec] else []); appLines = List.map_filter (app_line g r) ccmApplicabilityCols
      in join line_break (parts @ (if appLines \<noteq> [] then (if parts \<noteq> [] then [[]] else []) @ [join line_break appLines] else [])))"

definition ccm_row :: "grid \<Rightarrow> int \<Rightarrow> control_node list \<times> int \<Rightarrow> control_node list \<times> int" where
  "ccm_row g r st =
     (case st of (cs, cur) \<Rightarrow>
        let colA = trimmed g r ''A''; colB = trimmed g r ''B''; colC = trimmed g r ''C''; colD = trimmed g r ''D'' in
        if colA \<noteq> [] \<and> colC = [] then
          (case parseDomainHeader colA of
             None \<Rightarrow> (cs, cur)
           | Some (name, acr) \<Rightarrow>
               (cs @ [(plain_row acr (to_upper acr) ''domain'' name None (-1) (length cs))\<lparr>cn_TitleOriginal := Some name\<rparr>],
                int (length cs)))
        else if colC \<noteq> [] then
          (cs @ [plain_row colC (to_upper colC) ''control'' colB (opt_text (buildCCMBody colD g r)) cur (length cs)], cur)
        else (cs, cur))"

text \<open>
  The loop counts from 4 to the last row and skips numbers without cells: the rows after 3.  It never ends
  when the last row is the largest int, as the counter wraps around.
\<close>

definition BuildCCMTree :: builder where
  "BuildCCMTree raw fw v =
     (case Option.bind raw dec_workbook of
        None \<Rightarrow> Inl (Rejected ''unmarshal workbook'')
      | Some sheets \<Rightarrow> (case List.find (\<lambda>s. sh_Name s = ''CCM'') sheets of
            None \<Rightarrow> Inl (Rejected ''sheet 'CCM' not found'')
          | Some s \<Rightarrow>
              let g = parseGrid (sh_Rows s)
              in if 2 ^ 63 - 1 \<in> set (map fst g) then Inl Never
                 else Inr (tree_of (''CSA Cloud Controls Matrix (CCM) '' @ v)
                        (fst (fold (ccm_row g) (rows_after 3 g) ([], -1))))))"

end
