(* ===== verification/Workbook_Claims.thy ===== *)
theory Workbook_Claims
  imports Csf_Props Cis_Ccm
begin

text \<open>
  The properties of the workbook builders: the CSF tree against its reference definitions, the two-level
  trees of CIS and CCM, that the database can store what any of them builds, and that a recorded cell
  reference leads back to its row.
\<close>

section \<open>Two-level trees\<close>

text \<open>
  Both builders keep some rows as entries, a heading or an item with a key; an item hangs from the last
  heading it belongs to.
\<close>

record sheet_entry =
  et_Heading :: bool
  et_Key :: string
  et_Node :: control_node

definition two_level :: "(sheet_entry \<Rightarrow> sheet_entry \<Rightarrow> bool) \<Rightarrow> sheet_entry list \<Rightarrow> control_node list" where
  "two_level belongs es = map (\<lambda>i. (et_Node (es ! i))
     \<lparr>cn_ParentIdx := (if et_Heading (es ! i) then -1
        else position (last_pos (\<lambda>h. et_Heading h \<and> belongs (es ! i) h) (take i es))),
      cn_Ordinal := int i\<rparr>) [0..<length es]"

lemma two_level_Nil [simp]: "two_level belongs [] = []"
  by (simp add: two_level_def)

lemma two_level_length [simp]: "length (two_level belongs es) = length es"
  by (simp add: two_level_def)

lemma two_level_snoc:
  "two_level belongs (es @ [e]) = two_level belongs es @ [(et_Node e)
     \<lparr>cn_ParentIdx := (if et_Heading e then -1 else position (last_pos (\<lambda>h. et_Heading h \<and> belongs e h) es)),
      cn_Ordinal := int (length es)\<rparr>]"
  unfolding two_level_def
  by (subst map_upt_snoc [where f = "\<lambda>i. (et_Node (es ! i))
     \<lparr>cn_ParentIdx := (if et_Heading (es ! i) then -1
        else position (last_pos (\<lambda>h. et_Heading h \<and> belongs (es ! i) h) (take i es))),
      cn_Ordinal := int i\<rparr>"]) (simp_all add: nth_append)

definition cis_entry :: "grid \<Rightarrow> int \<Rightarrow> sheet_entry option" where
  "cis_entry g r =
     (let colA = trim_nbsp (trimmed g r ''A''); colB = trimmed g r ''B''; colE = trimmed g r ''E''; colF = trimmed g r ''F'' in
      if colA = [] then None
      else if colB = [] then
        Some \<lparr>et_Heading = True, et_Key = colA, et_Node = plain_row colA colA ''control'' colE (opt_text colF) 0 0\<rparr>
      else Some \<lparr>et_Heading = False, et_Key = colA, et_Node = plain_row colB colB ''safeguard'' colE
        (buildCISSafeguardBody colF (trimmed g r ''C'') (trimmed g r ''D'') (trimmed g r ''G'') (trimmed g r ''H'') (trimmed g r ''I'')) 0 0\<rparr>)"

definition ccm_entry :: "grid \<Rightarrow> int \<Rightarrow> sheet_entry option" where
  "ccm_entry g r =
     (let colA = trimmed g r ''A''; colB = trimmed g r ''B''; colC = trimmed g r ''C''; colD = trimmed g r ''D'' in
      if colC \<noteq> [] then
        Some \<lparr>et_Heading = False, et_Key = [], et_Node =
          plain_row colC (to_upper colC) ''control'' colB (opt_text (buildCCMBody colD g r)) 0 0\<rparr>
      else if colA = [] then None
      else map_option (\<lambda>(name, acr). \<lparr>et_Heading = True, et_Key = [], et_Node =
          (plain_row acr (to_upper acr) ''domain'' name None 0 0)\<lparr>cn_TitleOriginal := Some name\<rparr>\<rparr>) (parseDomainHeader colA))"

definition same_key :: "sheet_entry \<Rightarrow> sheet_entry \<Rightarrow> bool" where
  "same_key e h \<longleftrightarrow> et_Key h = et_Key e"

definition any_heading :: "sheet_entry \<Rightarrow> sheet_entry \<Rightarrow> bool" where
  "any_heading e h \<longleftrightarrow> True"

lemma cis_fold:
  "fold (cis_row g) rs (two_level same_key es, \<lambda>k. last_pos (\<lambda>h. et_Heading h \<and> et_Key h = k) es)
   = (two_level same_key (es @ List.map_filter (cis_entry g) rs),
      \<lambda>k. last_pos (\<lambda>h. et_Heading h \<and> et_Key h = k) (es @ List.map_filter (cis_entry g) rs))"
proof (induction rs arbitrary: es)
  case (Cons r rs)
  show ?case
  proof (cases "cis_entry g r")
    case None
    then have "cis_row g r st = st" for st by (auto simp: cis_entry_def cis_row_def Let_def split: if_splits prod.splits)
    then show ?thesis using Cons None by (simp add: List.map_filter_simps)
  next
    case (Some e)
    have "cis_row g r (two_level same_key es, \<lambda>k. last_pos (\<lambda>h. et_Heading h \<and> et_Key h = k) es)
       = (two_level same_key (es @ [e]), \<lambda>k. last_pos (\<lambda>h. et_Heading h \<and> et_Key h = k) (es @ [e]))"
      using Some
      by (auto simp: cis_entry_def cis_row_def Let_def two_level_snoc same_key_def plain_row_def position_def
          last_pos_snoc fun_eq_iff split: if_splits option.splits)
    then show ?thesis using Cons.IH [of "es @ [e]"] Some by (simp add: List.map_filter_simps)
  qed
qed (simp add: List.map_filter_simps)

lemma ccm_fold:
  "fold (ccm_row g) rs (two_level any_heading es, position (last_pos et_Heading es))
   = (two_level any_heading (es @ List.map_filter (ccm_entry g) rs),
      position (last_pos et_Heading (es @ List.map_filter (ccm_entry g) rs)))"
proof (induction rs arbitrary: es)
  case (Cons r rs)
  show ?case
  proof (cases "ccm_entry g r")
    case None
    then have "ccm_row g r st = st" for st
      by (auto simp: ccm_entry_def ccm_row_def Let_def split: if_splits prod.splits option.splits)
    then show ?thesis using Cons None by (simp add: List.map_filter_simps)
  next
    case (Some e)
    have "ccm_row g r (two_level any_heading es, position (last_pos et_Heading es))
       = (two_level any_heading (es @ [e]), position (last_pos et_Heading (es @ [e])))"
      using Some
      by (auto simp: ccm_entry_def ccm_row_def Let_def two_level_snoc any_heading_def plain_row_def position_def
          last_pos_snoc split: if_splits option.splits)
    then show ?thesis using Cons.IH [of "es @ [e]"] Some by (simp add: List.map_filter_simps)
  qed
qed (simp add: List.map_filter_simps)

section \<open>What the builders build\<close>

lemma BuildCSFTree_Some:
  assumes "BuildCSFTree quote refs (Some j) fw v = Inr t"
  shows "\<exists>sheets s parsed. dec_workbook j = Some sheets \<and> List.find (\<lambda>s. sh_Name s = ''CSF 2.0'') sheets = Some s
     \<and> parseCSFRows quote (parseGrid (sh_Rows s)) = Inr parsed \<and> t = buildCSFControlTree parsed fw v refs (ref_map refs)"
  using assms by (auto simp: BuildCSFTree_def ref_map_def split: option.splits sum.splits)

lemma CIS_tree:
  assumes "dec_workbook j = Some sheets" and "List.find (\<lambda>s. contains_sub ''Controls v8'' (sh_Name s)) sheets = Some s"
  shows "\<exists>title. BuildCISTree (Some j) fw v = Inr (tree_of title (two_level same_key
           (List.map_filter (cis_entry (parseGrid (sh_Rows s))) (rows_after 1 (parseGrid (sh_Rows s))))))"
proof -
  let ?g = "parseGrid (sh_Rows s)"
  have "fst (fold (cis_row ?g) (rows_after 1 ?g) ([], Map.empty)) = two_level same_key (List.map_filter (cis_entry ?g) (rows_after 1 ?g))"
    using cis_fold [of ?g "rows_after 1 ?g" "[]"] by simp
  then show ?thesis using assms by (auto simp: BuildCISTree_def Let_def)
qed

lemma CCM_tree:
  assumes "dec_workbook j = Some sheets" and "List.find (\<lambda>s. sh_Name s = ''CCM'') sheets = Some s"
    and "2 ^ 63 - 1 \<notin> fst ` set (parseGrid (sh_Rows s))"
  shows "\<exists>title. BuildCCMTree (Some j) fw v = Inr (tree_of title (two_level any_heading
           (List.map_filter (ccm_entry (parseGrid (sh_Rows s))) (rows_after 3 (parseGrid (sh_Rows s))))))"
proof -
  let ?g = "parseGrid (sh_Rows s)"
  have "fst (fold (ccm_row ?g) (rows_after 3 ?g) ([], -1)) = two_level any_heading (List.map_filter (ccm_entry ?g) (rows_after 3 ?g))"
    using ccm_fold [of ?g "rows_after 3 ?g" "[]"] by (simp add: position_def)
  then show ?thesis using assms by (auto simp: BuildCCMTree_def Let_def)
qed

lemma two_level_precede: "parents_precede 0 (two_level belongs es)"
  unfolding parents_precede_nth
proof (intro allI impI)
  fix i assume i: "i < length (two_level belongs es)"
  show "cn_ParentIdx (two_level belongs es ! i) < int (0 + i)"
    using i last_pos_Some [of "\<lambda>h. et_Heading h \<and> belongs (es ! i) h" "take i es"]
    by (auto simp: two_level_def position_def split: option.splits)
qed

lemma two_level_nodes: "cr \<in> set (two_level belongs es) \<Longrightarrow> \<exists>e \<in> set es. \<exists>p o1. cr = (et_Node e)\<lparr>cn_ParentIdx := p, cn_Ordinal := o1\<rparr>"
proof -
  assume "cr \<in> set (two_level belongs es)"
  then obtain i where "i < length es" "cr = two_level belongs es ! i" by (auto simp: in_set_conv_nth)
  then have "cr = (et_Node (es ! i))\<lparr>cn_ParentIdx := cn_ParentIdx cr, cn_Ordinal := cn_Ordinal cr\<rparr>" "es ! i \<in> set es"
    by (simp_all add: two_level_def)
  then show ?thesis by blast
qed

text \<open>
  What the database can store: no check of the tables fails on a row or an edge of the tree, parents come
  before their children and edges start at controls.
\<close>

definition storable :: "tree \<Rightarrow> bool" where
  "storable t \<longleftrightarrow> parents_precede 0 (tr_Controls t)
     \<and> (\<forall>cr \<in> set (tr_Controls t). control_checks (row_of_node 0 Map.empty None cr))
     \<and> (\<forall>m \<in> set (tr_Mappings t). te_FromIdx m < length (tr_Controls t) \<and> te_Relationship m \<in> set relationships)"

lemma two_level_storable:
  assumes "\<forall>e \<in> set es. \<exists>c n k ti tio b. et_Node e = (plain_row c n k ti b 0 0)\<lparr>cn_TitleOriginal := tio\<rparr>"
  shows "storable (tree_of title (two_level belongs es))"
proof -
  have "control_checks (row_of_node 0 Map.empty None cr)" if "cr \<in> set (two_level belongs es)" for cr
    using two_level_nodes [OF that] assms
    by (fastforce simp: control_checks_def row_of_node_def plain_row_def)
  then show ?thesis by (simp add: storable_def tree_of_def two_level_precede)
qed

lemma plain_title: "plain_row c n k ti b p o1 = (plain_row c n k ti b p o1)\<lparr>cn_TitleOriginal := opt_text ti\<rparr>"
  by (simp add: plain_row_def)

lemma cis_entries: "e \<in> set (List.map_filter (cis_entry g) rs) \<Longrightarrow> \<exists>c n k ti tio b. et_Node e = (plain_row c n k ti b 0 0)\<lparr>cn_TitleOriginal := tio\<rparr>"
  using plain_title by (fastforce simp: List.map_filter_def cis_entry_def Let_def split: if_splits)

lemma ccm_entries: "e \<in> set (List.map_filter (ccm_entry g) rs) \<Longrightarrow> \<exists>c n k ti tio b. et_Node e = (plain_row c n k ti b 0 0)\<lparr>cn_TitleOriginal := tio\<rparr>"
  using plain_title by (fastforce simp: List.map_filter_def ccm_entry_def Let_def split: if_splits)

lemma csf_storable:
  assumes "BuildCSFTree quote refs raw fw v = Inr t"
  shows "storable t"
proof -
  obtain cells parsed where p: "parseCSFRows quote (parseGrid cells) = Inr parsed"
    and t: "t = buildCSFControlTree parsed fw v refs (ref_map refs)" using assms by (rule BuildCSFTree_cases)
  have ok: "row_status_ok pr" if "pr \<in> set parsed" for pr using parseCSFRows_ok [OF p that] by (simp add: row_ok_def)
  have "control_checks (row_of_node 0 Map.empty None cr)" if "cr \<in> set (tr_Controls t)" for cr
  proof -
    have "cr \<in> set (csf_outline parsed)" using that by (simp add: t csf_tree_parts)
    then obtain i where "i < length parsed" "cr = csf_control (parsed ! i) (looked_back (take i parsed) (parsed ! i)) i"
      unfolding csf_outline_def by auto
    then show ?thesis using ok [OF nth_mem, of i]
      by (auto simp: control_checks_def row_of_node_def csf_control_def row_status_ok_def)
  qed
  moreover have "te_Relationship m \<in> set relationships" if "m \<in> set (tr_Mappings t)" for m
    using that ok [OF nth_mem]
    by (fastforce simp: t csf_tree_parts csf_edges_def withdrawal_edges_def row_references_def grouped_edges_def
        grouped_edge_def relationships_def row_status_ok_def split: if_splits)
  ultimately show ?thesis using csf_ordered [OF assms] by (simp add: storable_def)
qed

lemma CIS_storable: "BuildCISTree raw fw v = Inr t \<Longrightarrow> storable t"
proof -
  assume b: "BuildCISTree raw fw v = Inr t"
  then obtain j sheets s where j: "raw = Some j" "dec_workbook j = Some sheets"
    "List.find (\<lambda>s. contains_sub ''Controls v8'' (sh_Name s)) sheets = Some s"
    by (auto simp: BuildCISTree_def Let_def Option.bind_eq_Some_conv split: option.splits)
  then show ?thesis using b CIS_tree [OF j(2,3), of fw v] two_level_storable [OF ballI, OF cis_entries] by auto
qed

lemma CCM_storable: "BuildCCMTree raw fw v = Inr t \<Longrightarrow> storable t"
proof -
  assume b: "BuildCCMTree raw fw v = Inr t"
  then obtain j sheets s where j: "raw = Some j" "dec_workbook j = Some sheets"
    "List.find (\<lambda>s. sh_Name s = ''CCM'') sheets = Some s" "2 ^ 63 - 1 \<notin> fst ` set (parseGrid (sh_Rows s))"
    by (auto simp: BuildCCMTree_def Let_def Option.bind_eq_Some_conv split: option.splits if_splits)
  then show ?thesis using b CCM_tree [OF j(2-4), of fw v] two_level_storable [OF ballI, OF ccm_entries] by auto
qed

section \<open>A small workbook\<close>

definition json_cell :: "string \<times> string \<Rightarrow> json" where
  "json_cell rv = JObj [(''ref'', JStr (fst rv)), (''value'', JStr (snd rv))]"

definition json_book :: "string \<Rightarrow> (string \<times> string) list \<Rightarrow> json" where
  "json_book name cells = JObj [(''sheets'', JArr [JObj [(''name'', JStr name), (''rows'', JArr (map json_cell cells))]])]"

definition demo_csf :: json where
  "demo_csf = json_book ''CSF 2.0''
     [(''A3'', ''GO (GV): d''), (''B4'', ''O (GV.OC): s''), (''C5'', ''GV.OC-01: t''), (''E5'', ''S1: AC-1''),
      (''C6'', ''GV.OC-02: [Withdrawn: Moved to GV.OC-01]'')]"

definition demo_refs :: "reference_source list" where
  "demo_refs = [\<lparr>rs_Prefix = ''S1'', rs_ToFramework = ''nist80053'', rs_ToVersion = Some ''r5'', rs_Source = ''csf''\<rparr>]"

definition demo_cis :: json where
  "demo_cis = json_book ''Controls v8.1.2'' [(''A2'', ''1''), (''E2'', ''Inv''), (''A3'', ''1''), (''B3'', ''1.10''), (''E3'', ''T''), (''G3'', ''x'')]"

definition demo_ccm :: json where
  "demo_ccm = json_book ''CCM'' [(''A4'', ''Audit - A&A''), (''B5'', ''P''), (''C5'', ''A&A-01''), (''D5'', ''Do''), (''F5'', ''True''), (''A6'', ''End'')]"

definition cells_of :: "(string \<times> string) list \<Rightarrow> cell list" where
  "cells_of rvs = map (\<lambda>rv. \<lparr>wc_Ref = fst rv, wc_Value = snd rv\<rparr>) rvs"

definition demo_cis_sheet :: sheet where
  "demo_cis_sheet = \<lparr>sh_Name = ''Controls v8.1.2'', sh_Rows = cells_of
     [(''A2'', ''1''), (''E2'', ''Inv''), (''A3'', ''1''), (''B3'', ''1.10''), (''E3'', ''T''), (''G3'', ''x'')]\<rparr>"

definition demo_ccm_sheet :: sheet where
  "demo_ccm_sheet = \<lparr>sh_Name = ''CCM'', sh_Rows = cells_of
     [(''A4'', ''Audit - A&A''), (''B5'', ''P''), (''C5'', ''A&A-01''), (''D5'', ''Do''), (''F5'', ''True''), (''A6'', ''End'')]\<rparr>"

lemma demo_sheets:
  "dec_workbook demo_cis = Some [demo_cis_sheet]" "dec_workbook demo_ccm = Some [demo_ccm_sheet]"
  "List.find (\<lambda>s. contains_sub ''Controls v8'' (sh_Name s)) [demo_cis_sheet] = Some demo_cis_sheet"
  "List.find (\<lambda>s. sh_Name s = ''CCM'') [demo_ccm_sheet] = Some demo_ccm_sheet"
  "2 ^ 63 - 1 \<notin> fst ` set (parseGrid (sh_Rows demo_ccm_sheet))"
  by code_simp+

lemma demo_csf_builds: "\<exists>t. BuildCSFTree id demo_refs (Some demo_csf) ''nistcsf'' ''2.0'' = Inr t"
proof -
  have "isl (BuildCSFTree id demo_refs (Some demo_csf) ''nistcsf'' ''2.0'') = False" by code_simp
  then show ?thesis by (cases "BuildCSFTree id demo_refs (Some demo_csf) ''nistcsf'' ''2.0''") auto
qed

section \<open>The properties\<close>

text \<open>
  C30.  The tree of a CSF workbook is the reference tree of its rows.  Each row is a control whose parent is
  found by looking back: a category hangs from the last function, a subcategory from the last row whose
  identifier is its own without the number, or from the last function.  The edges are those of the
  withdrawal notes, in row order, and, when reference sources are given, for each row one edge per target
  cited, whose provenance lists in order every prefix that cites it.
\<close>

theorem csf_tree:
  assumes "BuildCSFTree quote refs (Some j) fw v = Inr t"
  shows "\<exists>sheets s parsed. dec_workbook j = Some sheets \<and> List.find (\<lambda>s. sh_Name s = ''CSF 2.0'') sheets = Some s
     \<and> parseCSFRows quote (parseGrid (sh_Rows s)) = Inr parsed
     \<and> tr_Controls t = csf_outline parsed \<and> tr_Mappings t = csf_edges fw v parsed refs"
  using BuildCSFTree_Some [OF assms] csf_tree_parts by blast

theorem csf_tree_witness:
  "\<exists>t sheets s parsed. BuildCSFTree id demo_refs (Some demo_csf) ''nistcsf'' ''2.0'' = Inr t
     \<and> dec_workbook demo_csf = Some sheets \<and> List.find (\<lambda>s. sh_Name s = ''CSF 2.0'') sheets = Some s
     \<and> parseCSFRows id (parseGrid (sh_Rows s)) = Inr parsed
     \<and> tr_Controls t = csf_outline parsed \<and> tr_Mappings t = csf_edges ''nistcsf'' ''2.0'' parsed demo_refs"
  using demo_csf_builds csf_tree by blast

text \<open>
  C31.  Printing and reading a cell reference: the reference recorded with a parsed CSF row, which goes into
  the provenance of its edges, is read back as the column of the row's kind and the row's number.
\<close>

theorem cell_ref_roundtrip:
  assumes "parseCSFRows quote (parseGrid cells) = Inr parsed" and "pr \<in> set parsed"
  shows "splitRef (pr_CellRef pr) = (kind_column (pr_Kind pr), pr_SheetRow pr)"
  using assms by (rule cell_ref_reads_back)

theorem cell_ref_roundtrip_witness:
  "splitRef ''A3'' = (kind_column ''function'', 3)"
proof -
  let ?cells = "[\<lparr>wc_Ref = ''A3'', wc_Value = ''GO (GV): d''\<rparr>]"
  have "parseCSFRows id (parseGrid ?cells) = Inr [\<lparr>pr_SheetRow = 3, pr_Kind = ''function'', pr_ID = ''GV'', pr_Title = ''d'',
      pr_Status = ''active'', pr_Body = None, pr_Action = [], pr_Targets = [], pr_CellRef = ''A3'', pr_ColE = []\<rparr>]"
    by code_simp
  from cell_ref_roundtrip [OF this] show ?thesis by simp
qed

text \<open>
  C32.  The trees of CIS and CCM workbooks: every row that is a heading or an item is a node, in row order
  with its position as ordinal; headings are roots, and an item hangs from the last heading before it, in
  CIS the last one with the item's control number.  (A CCM sheet with the largest int as a row number
  makes its builder loop for ever.)
\<close>

theorem two_level_trees:
  assumes "dec_workbook j = Some sheets"
  shows "(List.find (\<lambda>s. contains_sub ''Controls v8'' (sh_Name s)) sheets = Some s \<longrightarrow>
      (\<exists>title. BuildCISTree (Some j) fw v = Inr (tree_of title (two_level same_key
         (List.map_filter (cis_entry (parseGrid (sh_Rows s))) (rows_after 1 (parseGrid (sh_Rows s))))))))
   \<and> (List.find (\<lambda>s. sh_Name s = ''CCM'') sheets = Some s \<and> 2 ^ 63 - 1 \<notin> fst ` set (parseGrid (sh_Rows s)) \<longrightarrow>
      (\<exists>title. BuildCCMTree (Some j) fw v = Inr (tree_of title (two_level any_heading
         (List.map_filter (ccm_entry (parseGrid (sh_Rows s))) (rows_after 3 (parseGrid (sh_Rows s))))))))"
  using CIS_tree [OF assms] CCM_tree [OF assms] by blast

theorem two_level_trees_witness:
  "(\<exists>title. BuildCISTree (Some demo_cis) ''ciscontrols'' ''v8.1'' = Inr (tree_of title (two_level same_key
        (List.map_filter (cis_entry (parseGrid (sh_Rows demo_cis_sheet))) (rows_after 1 (parseGrid (sh_Rows demo_cis_sheet)))))))
   \<and> (\<exists>title. BuildCCMTree (Some demo_ccm) ''csaccm'' ''v4.1'' = Inr (tree_of title (two_level any_heading
        (List.map_filter (ccm_entry (parseGrid (sh_Rows demo_ccm_sheet))) (rows_after 3 (parseGrid (sh_Rows demo_ccm_sheet)))))))"
  using two_level_trees [OF demo_sheets(1), THEN conjunct1, THEN mp, OF demo_sheets(3)]
    two_level_trees [OF demo_sheets(2), THEN conjunct2, THEN mp, OF conjI [OF demo_sheets(4,5)]]
  by (rule conjI)

text \<open>
  C33.  What a workbook builder builds can be stored: parents come before their children, edges start at
  controls, and no check of the tables fails on a row or a relationship.
\<close>

theorem workbook_trees_storable:
  assumes "BuildCSFTree quote refs raw fw v = Inr t \<or> BuildCISTree raw fw v = Inr t \<or> BuildCCMTree raw fw v = Inr t"
  shows "storable t"
  using assms csf_storable CIS_storable CCM_storable by blast

theorem workbook_trees_storable_witness:
  "\<exists>t. BuildCSFTree id demo_refs (Some demo_csf) ''nistcsf'' ''2.0'' = Inr t \<and> storable t"
  using demo_csf_builds workbook_trees_storable by blast

end
