(* ===== verification/Normalize_Total.thy ===== *)
theory Normalize_Total
  imports Normalize_Claims Workbook_Claims
begin

text \<open>
  When no statement fails, writing a tree that the tables can store succeeds: the database rejects nothing
  but repeated norms and citations, and so the workbook builders never make the writer fail in another way.
\<close>

section \<open>The insert loop succeeds\<close>

lemma InsertControl_succeeds:
  assumes "sc_document c \<in> d_id ` set (documents db)" and "\<And>i. sc_parent c = Some i \<Longrightarrow> i \<in> sc_id ` set (controls db)"
    and "control_key c \<notin> control_key ` set (controls db)" and "control_checks c"
  shows "\<exists>i db'. InsertControl c db = Some (i, db')"
  using assms by (auto simp: InsertControl_def control_key_def image_iff split: option.splits)

lemma row_checks: "control_checks (row_of_node doc titles parent cr) = control_checks (row_of_node 0 Map.empty None cr)"
  by (simp add: control_checks_def row_of_node_def)

lemma insert_controls_succeeds:
  assumes "\<forall>n. \<not> ev_fault ev n" and "doc \<in> d_id ` set (documents (pp_corpus p))" and "silver_wf (pp_corpus p)"
    and "own_ids doc (ids_from base j) (pp_corpus p)" and "next_control (pp_corpus p) = base + int j"
    and "parents_precede j crs" and "k = j + length crs"
    and "\<forall>cr \<in> set crs. control_checks (row_of_node 0 Map.empty None cr)"
    and "distinct (map cn_Citation crs)" and "\<forall>cr \<in> set crs. (doc, cn_Citation cr) \<notin> control_key ` set (controls (pp_corpus p))"
  shows "\<exists>ids p' n'. insert_controls ev doc titles k (ids_from base j) crs (p, n) = (Inr ids, (p', n'))"
  using assms(2-)
proof (induction crs arbitrary: j p n)
  case Nil
  then show ?case by (simp add: ret_def)
next
  case (Cons cr crs)
  let ?parent = "if cn_ParentIdx cr < 0 then None
      else Some (if nat (cn_ParentIdx cr) < length (ids_from base j) then ids_from base j ! nat (cn_ParentIdx cr) else 0)"
  let ?row = "row_of_node doc titles ?parent cr"
  have in_range: "\<not> (0 \<le> cn_ParentIdx cr \<and> k \<le> nat (cn_ParentIdx cr))" using Cons.prems(5,6) by auto
  have par: "i \<in> set (ids_from base j)" if "sc_parent ?row = Some i" for i
    using that Cons.prems(5) by (auto simp: row_of_node_def ids_from_def image_iff split: if_splits)
      (metis atLeast0LessThan lessThan_iff nat_less_iff not_less zle_int nat_0_le)+
  have "i \<in> sc_id ` set (controls (pp_corpus p))" if "sc_parent ?row = Some i" for i
    using par [OF that] Cons.prems(3) by (auto simp: own_ids_def)
  moreover have key: "control_key ?row = (doc, cn_Citation cr)" by (simp add: control_key_def row_of_node_def)
  moreover have "sc_document ?row = doc" by (simp add: row_of_node_def)
  ultimately obtain i db' where ins: "InsertControl ?row (pp_corpus p) = Some (i, db')"
    using InsertControl_succeeds [of ?row "pp_corpus p"] Cons.prems(1,7,9) row_checks [of doc titles ?parent cr] by auto
  note ok = InsertControl_ok [OF ins]
  have i: "i = base + int j" using ok(1) Cons.prems(4) by simp
  have wf: "silver_wf db' \<and> own_ids doc (ids_from base j @ [i]) db'"
    by (rule InsertControl_wf [OF Cons.prems(2) ins _ Cons.prems(3)]) (use par in \<open>auto simp: row_of_node_def\<close>)
  have controls': "control_key ` set (controls db') = insert (doc, cn_Citation cr) (control_key ` set (controls (pp_corpus p)))"
    using key by (simp add: ok(2) control_key_def)
  have "\<exists>ids p' n'. insert_controls ev doc titles k (ids_from base (Suc j)) crs (p\<lparr>pp_corpus := db'\<rparr>, Suc n) = (Inr ids, (p', n'))"
  proof (rule Cons.IH)
    show "\<forall>c \<in> set crs. (doc, cn_Citation c) \<notin> control_key ` set (controls (pp_corpus (p\<lparr>pp_corpus := db'\<rparr>)))"
      using Cons.prems(8,9) controls' by (auto simp: image_iff)
  qed (use Cons.prems wf ok(2) in \<open>auto simp: i\<close>)
  then show ?case
    using assms(1) in_range ins unfolding insert_controls.simps Let_def if_not_P [OF in_range]
    by (simp add: bind_def stmt_def on_corpus_def i)
qed

section \<open>The edge loop succeeds\<close>

lemma insert_edges_succeed:
  assumes "\<forall>n. \<not> ev_fault ev n"
  shows "(\<forall>m \<in> set ms. te_FromIdx m < k \<and> te_Relationship m \<in> set relationships)
     \<Longrightarrow> (\<forall>i < k. base + int i \<in> sc_id ` set (controls (pp_corpus p)))
     \<Longrightarrow> \<exists>us p' n'. each (insert_edge ev (ids_from base k)) ms (p, n) = (Inr us, (p', n'))"
proof (induction ms arbitrary: p n)
  case Nil
  then show ?case by (simp add: ret_def)
next
  case (Cons m ms)
  have m: "te_FromIdx m < k" using Cons.prems(1) by simp
  let ?row = "row_of_edge (base + int (te_FromIdx m)) m"
  obtain db' where up: "UpsertControlMapping ?row (pp_corpus p) = Some ((), db')"
    using Cons.prems m by (auto simp: UpsertControlMapping_def row_of_edge_def)
  have "controls db' = controls (pp_corpus p)" using up by (auto simp: UpsertControlMapping_def split: if_splits)
  then obtain us p' n' where "each (insert_edge ev (ids_from base k)) ms (p\<lparr>pp_corpus := db'\<rparr>, Suc n) = (Inr us, (p', n'))"
    using Cons.IH [of "p\<lparr>pp_corpus := db'\<rparr>" "Suc n"] Cons.prems by auto
  then show ?case using assms m up by (simp add: bind_def insert_edge_def [of _ _ m] stmt_def on_corpus_def ret_def)
qed

section \<open>The writer succeeds\<close>

lemma tree_rows_ids: "sc_id ` set (tree_rows doc titles base j crs) = (\<lambda>i. base + int i) ` {j..<j + length crs}"
proof (induction crs arbitrary: j)
  case (Cons cr crs)
  have "{j..<j + length (cr # crs)} = insert j {Suc j..<Suc j + length crs}" by auto
  then show ?case by (simp add: Cons.IH)
qed simp

lemma writeTree_succeeds:
  assumes ok: "\<forall>n. \<not> ev_fault ev n" and wf: "silver_wf (pp_corpus p)"
    and doc: "UpsertDocument (doc_params doc t) (pp_corpus p) \<noteq> None"
    and t: "storable t" "distinct (map cn_Norm (tr_Controls t))" "distinct (map cn_Citation (tr_Controls t))"
  shows "\<exists>p' n'. writeTree ev doc t (p, n) = (Inr (), (p', n'))"
proof -
  let ?titles = "title_map ev doc (p, n)"
  let ?k = "length (tr_Controls t)"
  obtain r where r: "loadTitleMap ev (di_Framework doc) (di_Version doc) (p, n) = (r, (p, Suc n))"
    using loadTitleMap_state by (metis surj_pair)
  then have titles: "(case r of Inl _ \<Rightarrow> (\<lambda>_. None) | Inr m \<Rightarrow> m) = ?titles" by (simp add: title_map_def)
  obtain d db1 where up: "UpsertDocument (doc_params doc t) (pp_corpus p) = Some (d, db1)" using doc by auto
  have wf1: "silver_wf db1" by (rule UpsertDocument_wf [OF wf up])
  let ?db2 = "drop_controls (d_id d) db1"
  have wf2: "silver_wf ?db2" by (rule drop_controls_wf [OF wf1])
  have next2: "next_control ?db2 = next_control db1" by (rule drop_controls_other)
  have "d_id d \<in> set (map d_id (documents ?db2))" using UpsertDocument_ok(1) [OF up] by (simp add: drop_controls_other)
  then have own: "d_id d \<in> d_id ` set (documents ?db2)" by simp
  have fresh: "(d_id d, c) \<notin> control_key ` set (controls ?db2)" for c
    by (auto simp: drop_controls_controls [OF wf1] control_key_def)
  have "\<exists>ids p' n'. insert_controls ev (d_id d) ?titles ?k (ids_from (next_control db1) 0) (tr_Controls t)
      (p\<lparr>pp_corpus := ?db2\<rparr>, Suc (Suc (Suc (Suc n)))) = (Inr ids, (p', n'))"
    by (rule insert_controls_succeeds [OF ok]) (use own wf2 next2 t fresh in \<open>auto simp: storable_def own_ids_def\<close>)
  then obtain ids p3 n3 where ins: "insert_controls ev (d_id d) ?titles ?k (ids_from (next_control db1) 0) (tr_Controls t)
      (p\<lparr>pp_corpus := ?db2\<rparr>, Suc (Suc (Suc (Suc n)))) = (Inr ids, (p3, n3))"
    by blast
  note inserted = insert_controls_ok [OF ins, simplified, OF wf2 _ next2, unfolded own_ids_def, simplified]
  have "next_control db1 + int i \<in> sc_id ` set (tree_rows (d_id d) ?titles (next_control db1) 0 (tr_Controls t))"
    if "i < ?k" for i
    using that tree_rows_ids [of "d_id d" ?titles "next_control db1" 0 "tr_Controls t"] by auto
  then obtain us p4 n4 where edges: "each (insert_edge ev (ids_from (next_control db1) ?k)) (tr_Mappings t) (p3, n3) = (Inr us, (p4, n4))"
    using insert_edges_succeed [OF ok, of "tr_Mappings t" ?k "next_control db1" p3 n3] t(1)
    by (auto simp: storable_def inserted(3) image_Un)
  have dup: "find_dup 0 [] (map cn_Norm (tr_Controls t)) = None" using t(2) by (simp add: find_dup_None)
  show ?thesis
    unfolding writeTree_def Let_def bind_try [where m = "loadTitleMap ev (di_Framework doc) (di_Version doc)", OF r] titles dup option.case
    using ok ins edges
    by (simp add: bind_def stmt_def on_corpus_def up CountMappingsForDocument_def DeleteControlsForDocument_wf [OF wf1]
        inserted(1) ResolveControlMappings_def MarkNormalized_def upd_file_def)
qed

text \<open>
  C34.  When no statement fails and the document is accepted, a storable tree without repeated norms and
  citations is written: \<open>writeTree\<close> returns without an error.
\<close>

theorem storable_tree_is_written:
  assumes "\<forall>n. \<not> ev_fault ev n" and "silver_wf (pp_corpus p)" and "UpsertDocument (doc_params doc t) (pp_corpus p) \<noteq> None"
    and "storable t" and "distinct (map cn_Norm (tr_Controls t))" and "distinct (map cn_Citation (tr_Controls t))"
  shows "\<exists>p' n'. writeTree ev doc t (p, n) = (Inr (), (p', n'))"
  using assms by (rule writeTree_succeeds)

lemma demo_storable: "storable (demo_tree [''AC'', ''AC-1''])"
  by (simp add: storable_def demo_tree_def demo_node_def row_of_node_def control_checks_def)

theorem storable_tree_is_written_witness:
  "\<exists>p' n'. writeTree (demo_norm_env (demo_tree [''AC'', ''AC-1''])) demo_identity (demo_tree [''AC'', ''AC-1'']) (demo_pipe, 0)
     = (Inr (), (p', n'))"
proof -
  have "(UpsertDocument (doc_params demo_identity (demo_tree [''AC'', ''AC-1''])) (pp_corpus demo_pipe) = None) = False"
    by code_simp
  then show ?thesis
    by (intro storable_tree_is_written demo_pipe_wf demo_storable)
       (simp_all add: demo_norm_env_def demo_tree_def demo_node_def)
qed

end
