(* ===== verification/Map_Edges.thy ===== *)
theory Map_Edges
  imports Workbook Csf
begin

text \<open>
  The emitters of derived edges: ISO structural equivalences (\<open>pkg/normalize/mapedges.go\<close>), the NIST OLIR
  crosswalk (\<open>olir.go\<close>), the CIS mapping workbooks (\<open>cismap.go\<close>), curated edges (\<open>curated.go\<close>), the extra
  resolution passes (\<open>resolve.go\<close>), and the stage that runs them (\<open>runMapEdges\<close> of \<open>cmd/pipeline/main.go\<close>).

  Go visits the rows of a sheet, a map, in an order of its choice: \<open>me_order i\<close> permutes the row numbers of the
  \<open>i\<close>-th sheet.  Rows of \<open>raw_extract\<close> are listed by id.  The keys of the loops' \<open>seen\<close> maps are tuples here
  and the tuples' parts joined by an arrow in the code; the parts are citations, which hold no arrow.
\<close>

datatype map_err = EdgeLoad string | EdgeUpsert string string | EdgeResolve | EdgeCapture string | EdgeRelation | EdgeMark
  | EdgeUnmarshal string

record edges_env =
  me_fault :: "nat \<Rightarrow> bool"
  me_col :: text_order
  me_order :: "nat \<Rightarrow> string list \<Rightarrow> string list"

record edges_sum =
  ms_Emitted :: nat
  ms_Resolved :: nat

type_synonym ('v, 'sp, 'a) edges_act = "(('v, 'sp) pipe \<times> nat, map_err, 'a) act"

section \<open>Statements\<close>

definition edge_row :: "int \<Rightarrow> string \<Rightarrow> string option \<Rightarrow> string \<Rightarrow> string \<Rightarrow> string \<Rightarrow> string \<Rightarrow> mapping_row" where
  "edge_row from fw ver norm src rel prov =
     \<lparr>cm_from = from, cm_to_framework = fw, cm_to_version = ver, cm_to_norm = norm, cm_to_control = None,
      cm_source = src, cm_relationship = rel, cm_provenance = prov\<rparr>"

definition upsert_edge :: "edges_env \<Rightarrow> mapping_row \<Rightarrow> ('v, 'sp, unit) edges_act" where
  "upsert_edge ev m = stmt (me_fault ev) (EdgeUpsert (cm_to_framework m) (cm_to_norm m)) (on_corpus (UpsertControlMapping m))"

definition resolve_edges :: "edges_env \<Rightarrow> ('v, 'sp, nat) edges_act" where
  "resolve_edges ev = stmt (me_fault ev) EdgeResolve (on_corpus ResolveControlMappings)"

definition joined_controls :: "(doc_row \<Rightarrow> bool) \<Rightarrow> ('v, 'sp) corpus \<Rightarrow> control_row list" where
  "joined_controls P db = filter (\<lambda>c. list_ex (\<lambda>d. d_id d = sc_document c \<and> P d) (documents db)) (controls db)"

definition in_version :: "string \<Rightarrow> string \<Rightarrow> doc_row \<Rightarrow> bool" where
  "in_version fw v d \<longleftrightarrow> d_framework d = fw \<and> d_version d = v"

definition current_main :: "('v, 'sp) corpus \<Rightarrow> string \<Rightarrow> doc_row \<Rightarrow> bool" where
  "current_main db fw d \<longleftrightarrow> d_framework d = fw \<and> d_role d = ''main'' \<and> is_current_version db fw (d_version d)"

section \<open>ISO numbering (mapedges.go)\<close>

definition load_kind ::
  "text_order \<Rightarrow> string \<Rightarrow> string \<Rightarrow> ('v, 'sp) corpus \<Rightarrow> ((int \<times> string) list \<times> ('v, 'sp) corpus) option" where
  "load_kind col fw kind db =
     Some (sort_key (\<lambda>(i, n). col n) (map (\<lambda>c. (sc_id c, sc_norm c))
       (filter (\<lambda>c. sc_kind c = kind) (joined_controls (in_version fw ''2022'') db))), db)"

definition loadAnnexControls :: "text_order \<Rightarrow> ('v, 'sp) corpus \<Rightarrow> ((int \<times> string) list \<times> ('v, 'sp) corpus) option" where
  "loadAnnexControls col = load_kind col ''iso27001'' ''annex-control''"

definition load27002Controls :: "text_order \<Rightarrow> ('v, 'sp) corpus \<Rightarrow> ((int \<times> string) list \<times> ('v, 'sp) corpus) option" where
  "load27002Controls col = load_kind col ''iso27002'' ''control''"

definition iso_prov :: "string \<Rightarrow> string \<Rightarrow> string" where
  "iso_prov a b = ''derived from ISO numbering structure: '' @ a @ '' is structurally identical to '' @ b"

definition annex_edge :: "int \<Rightarrow> string \<Rightarrow> mapping_row" where
  "annex_edge i target = edge_row i ''iso27002'' (Some ''2022'') target ''iso-structural'' ''equivalent''
     (iso_prov ''27001 Annex A control A.x.y'' ''27002 control x.y'')"

definition guidance_edge :: "int \<Rightarrow> string \<Rightarrow> mapping_row" where
  "guidance_edge i norm = edge_row i ''iso27001'' (Some ''2022'') (''A.'' @ norm) ''iso-structural'' ''equivalent''
     (iso_prov ''27002 control x.y'' ''27001 Annex A control A.x.y'')"

definition emit_annex :: "edges_env \<Rightarrow> int \<times> string \<Rightarrow> ('v, 'sp, nat) edges_act" where
  "emit_annex ev ac =
     (if has_prefix ''A.'' (snd ac) then bind (upsert_edge ev (annex_edge (fst ac) (drop 2 (snd ac)))) (\<lambda>_. ret 1) else ret 0)"

definition emit_guidance :: "edges_env \<Rightarrow> int \<times> string \<Rightarrow> ('v, 'sp, nat) edges_act" where
  "emit_guidance ev c = bind (upsert_edge ev (guidance_edge (fst c) (snd c))) (\<lambda>_. ret 1)"

definition EmitISOStructuralEdges :: "edges_env \<Rightarrow> ('v, 'sp, edges_sum) edges_act" where
  "EmitISOStructuralEdges ev =
     bind (stmt (me_fault ev) (EdgeLoad ''annex controls'') (on_corpus (loadAnnexControls (me_col ev)))) (\<lambda>annexes.
     if annexes = [] then ret \<lparr>ms_Emitted = 0, ms_Resolved = 0\<rparr>
     else
       bind (each (emit_annex ev) annexes) (\<lambda>ns.
       bind (stmt (me_fault ev) (EdgeLoad ''27002 controls'') (on_corpus (load27002Controls (me_col ev)))) (\<lambda>cs.
       bind (each (emit_guidance ev) cs) (\<lambda>ks.
       bind (resolve_edges ev) (\<lambda>r. ret \<lparr>ms_Emitted = sum_list ns + sum_list ks, ms_Resolved = r\<rparr>)))))"

section \<open>Workbook rows by number\<close>

definition reCellRef :: pat where
  "reCellRef = Cat (Group 1 (some upper)) (Group 2 (some digit))"

type_synonym text_rows = "(string \<times> (string \<times> string) list) list"

definition put_text :: "cell \<Rightarrow> text_rows \<Rightarrow> text_rows" where
  "put_text c g =
     (case submatch reCellRef (wc_Ref c) of
        None \<Rightarrow> g
      | Some m \<Rightarrow> AList.update (m 2) (AList.update (m 1) (wc_Value c) (case map_of g (m 2) of None \<Rightarrow> [] | Some cs \<Rightarrow> cs)) g)"

definition text_rows :: "sheet \<Rightarrow> text_rows" where
  "text_rows sh = fold put_text (sh_Rows sh) []"

definition col_text :: "text_rows \<Rightarrow> string \<Rightarrow> string \<Rightarrow> string" where
  "col_text g num col = (case map_of g num of None \<Rightarrow> [] | Some cs \<Rightarrow> (case map_of cs col of None \<Rightarrow> [] | Some v \<Rightarrow> v))"

text \<open>What the rows of a workbook give, the sheets in order, the rows of a sheet in the order of the loop.\<close>

definition over_rows ::
  "(nat \<Rightarrow> string list \<Rightarrow> string list) \<Rightarrow> (string \<Rightarrow> bool) \<Rightarrow> (string \<Rightarrow> text_rows \<Rightarrow> string \<Rightarrow> 'a) \<Rightarrow> sheet list \<Rightarrow> 'a list" where
  "over_rows order wanted f sheets =
     concat (map (\<lambda>(i, sh). if wanted (sh_Name sh)
                    then map (f (sh_Name sh) (text_rows sh)) (order i (map fst (text_rows sh))) else [])
       (enumerate 0 sheets))"

section \<open>The OLIR crosswalk (olir.go)\<close>

definition reOLIRFocal :: pat where
  "reOLIRFocal = cat ([two_upper] @ word ''-'' @ [digit, digit, Maybe (cat (word ''('' @ [digit, digit] @ word '')''))])"

definition reOLIRISORef :: pat where
  "reOLIRISORef = cat [Maybe (cat (word ''A.'')), some digit, Many True (Cat (Chr False [(46, 46)]) (some digit))]"

record olir_pair =
  op_Focal :: string
  op_Ref :: string
  op_Prov :: string

definition row_prov :: "string \<Rightarrow> string \<Rightarrow> string" where
  "row_prov name num = ''sheet '' @ name @ '' row '' @ num"

definition olir_row :: "string \<Rightarrow> text_rows \<Rightarrow> string \<Rightarrow> olir_pair option" where
  "olir_row name g num =
     (let focal = trim_space (col_text g num ''A''); ref = trim_space (col_text g num ''D'') in
      if matches_pat reOLIRFocal focal \<and> matches_pat reOLIRISORef ref
      then Some \<lparr>op_Focal = to_upper focal, op_Ref = to_upper ref, op_Prov = row_prov name num\<rparr> else None)"

definition olir_key :: "olir_pair \<Rightarrow> string \<times> string" where
  "olir_key p = (op_Focal p, op_Ref p)"

definition parseOLIRPairs :: "(nat \<Rightarrow> string list \<Rightarrow> string list) \<Rightarrow> json option \<Rightarrow> olir_pair list option" where
  "parseOLIRPairs order raw =
     map_option (\<lambda>sheets. dedup_on olir_key {} (List.map_filter id (over_rows order (\<lambda>n. n \<noteq> ''Definitions'') olir_row sheets)))
       (Option.bind raw dec_workbook)"

definition loadControlIDsByNorm :: "string \<Rightarrow> ('v, 'sp) corpus \<Rightarrow> ((string \<rightharpoonup> int) \<times> ('v, 'sp) corpus) option" where
  "loadControlIDsByNorm fw db =
     Some (fold (\<lambda>c m. m(to_upper (sc_norm c) \<mapsto> sc_id c)) (joined_controls (current_main db fw) db) Map.empty, db)"

definition emit_olir :: "edges_env \<Rightarrow> (string \<rightharpoonup> int) \<Rightarrow> olir_pair \<Rightarrow> ('v, 'sp, nat) edges_act" where
  "emit_olir ev fromByNorm p =
     (case fromByNorm (op_Focal p) of
        None \<Rightarrow> ret 0
      | Some i \<Rightarrow> bind (upsert_edge ev (edge_row i ''iso27001'' (Some ''2022'') (op_Ref p) ''nist-olir'' ''related'' (op_Prov p)))
                    (\<lambda>_. ret 1))"

definition EmitOLIREdges :: "edges_env \<Rightarrow> json option \<Rightarrow> ('v, 'sp, edges_sum) edges_act" where
  "EmitOLIREdges ev raw =
     (case parseOLIRPairs (me_order ev) raw of
        None \<Rightarrow> fail (EdgeUnmarshal ''olir'')
      | Some pairs \<Rightarrow>
          bind (stmt (me_fault ev) (EdgeLoad ''nist80053'') (on_corpus (loadControlIDsByNorm ''nist80053''))) (\<lambda>fromByNorm.
          bind (each (emit_olir ev fromByNorm) pairs) (\<lambda>ns.
          bind (resolve_edges ev) (\<lambda>r. ret \<lparr>ms_Emitted = sum_list ns, ms_Resolved = r\<rparr>))))"

section \<open>The CIS mapping workbooks (cismap.go)\<close>

definition reCISISOAnnex :: pat where
  "reCISISOAnnex = cat (word ''A'' @ [Group 1 (some digit)] @ word ''.'' @ [Group 2 (some digit)])"

definition reCISISOClause :: pat where
  "reCISISOClause = Cat (some digit) (Many True (Cat (Chr False [(46, 46)]) (some digit)))"

definition reCISCSF :: pat where
  "reCISCSF = cat ([two_upper] @ word ''.'' @ [two_upper] @ word ''-'' @ [digit, digit])"

definition reCIS80053 :: pat where
  "reCIS80053 = cat ([Group 1 two_upper] @ word ''-'' @ [Group 2 (some digit), Maybe (cat (word ''('' @ [Group 3 (some digit)] @ word '')''))])"

definition normalizeCISISOTarget :: "string \<Rightarrow> string option" where
  "normalizeCISISOTarget raw =
     (let s = trim_space raw in
      case submatch reCISISOAnnex s of
        Some m \<Rightarrow> Some (''A.'' @ m 1 @ ''.'' @ m 2)
      | None \<Rightarrow> if matches_pat reCISISOClause s then Some s else None)"

definition normalizeCISCSFTarget :: "string \<Rightarrow> string option" where
  "normalizeCISCSFTarget raw = (let s = to_upper (trim_space raw) in if matches_pat reCISCSF s then Some s else None)"

definition pad2 :: "string \<Rightarrow> string" where
  "pad2 s = (if length s = 1 then CHR ''0'' # s else s)"

definition normalizeCIS80053Target :: "string \<Rightarrow> string option" where
  "normalizeCIS80053Target raw =
     (case submatch reCIS80053 (to_upper (trim_space raw)) of
        None \<Rightarrow> None
      | Some m \<Rightarrow> Some (m 1 @ ''-'' @ pad2 (m 2) @ (if m 3 \<noteq> [] then ''('' @ pad2 (m 3) @ '')'' else [])))"

record cis_spec =
  cp_RelPath :: string
  cp_ToFramework :: string
  cp_ToVersion :: string
  cp_Cite :: "string \<Rightarrow> string option"

definition CISMappingSpecs :: "cis_spec list" where
  "CISMappingSpecs =
     [\<lparr>cp_RelPath = ''cis/cis-controls-v8.1-mapping-to-iso-iec-27001-2022.xlsx'', cp_ToFramework = ''iso27001'',
       cp_ToVersion = ''2022'', cp_Cite = normalizeCISISOTarget\<rparr>,
      \<lparr>cp_RelPath = ''cis/cis-controls-v8.1-mapping-to-nist-csf-2.0.xlsx'', cp_ToFramework = ''nistcsf'',
       cp_ToVersion = ''2.0'', cp_Cite = normalizeCISCSFTarget\<rparr>,
      \<lparr>cp_RelPath = ''cis/cis-controls-v8.1-mapping-to-nist-sp-800-53-r5.xlsx'', cp_ToFramework = ''nist80053'',
       cp_ToVersion = ''r5'', cp_Cite = normalizeCIS80053Target\<rparr>]"

definition cisRelationships :: "string \<rightharpoonup> string" where
  "cisRelationships = [''equivalent'' \<mapsto> ''equivalent'', ''subset'' \<mapsto> ''subset-of'', ''superset'' \<mapsto> ''superset-of'']"

record cis_pair =
  cq_Title :: string
  cq_Relationship :: string
  cq_Norm :: string
  cq_Prov :: string

datatype cis_outcome = NotMapping | SkippedRow | MappingRow cis_pair

definition cis_map_row :: "(string \<Rightarrow> string option) \<Rightarrow> string \<Rightarrow> text_rows \<Rightarrow> string \<Rightarrow> cis_outcome" where
  "cis_map_row cite name g num =
     (let rel = to_lower (trim_space (col_text g num ''K'')); target = trim_space (col_text g num ''L'');
          title = trim_space (col_text g num ''F'') in
      if rel = [] \<and> target = [] then NotMapping
      else if rel = ''relationship'' then NotMapping
      else (case (if rel = [] then Some ''related'' else cisRelationships rel) of
          None \<Rightarrow> SkippedRow
        | Some mapped \<Rightarrow> (case cite target of
              None \<Rightarrow> SkippedRow
            | Some norm \<Rightarrow>
                if title = [] then SkippedRow
                else MappingRow \<lparr>cq_Title = title, cq_Relationship = mapped, cq_Norm = norm, cq_Prov = row_prov name num\<rparr>)))"

fun pair_of :: "cis_outcome \<Rightarrow> cis_pair option" where
  "pair_of (MappingRow p) = Some p"
| "pair_of _ = None"

text \<open>The pairs and the number of rows skipped.\<close>

definition parseCISMappingPairs ::
  "(nat \<Rightarrow> string list \<Rightarrow> string list) \<Rightarrow> json option \<Rightarrow> (string \<Rightarrow> string option) \<Rightarrow> (cis_pair list \<times> nat) option" where
  "parseCISMappingPairs order raw cite =
     map_option (\<lambda>sheets. let os = over_rows order (has_prefix ''All CIS'') (cis_map_row cite) sheets
         in (List.map_filter pair_of os, length (filter (\<lambda>x. x = SkippedRow) os)))
       (Option.bind raw dec_workbook)"

definition is_blank_char :: "char \<Rightarrow> bool" where
  "is_blank_char c \<longleftrightarrow> in_ranges [(9, 10), (12, 13), (32, 32)] c"

text \<open>\<open>reSpaces.ReplaceAllString\<close>: each run of blanks becomes one.\<close>

fun collapse :: "bool \<Rightarrow> string \<Rightarrow> string" where
  "collapse inside [] = []"
| "collapse inside (c # cs) =
     (if is_blank_char c then (if inside then collapse True cs else CHR '' '' # collapse True cs) else c # collapse False cs)"

definition normTitleKey :: "string \<Rightarrow> string" where
  "normTitleKey s = collapse False (to_lower (trim_space s))"

definition safeguard_titles :: "control_row \<Rightarrow> (string \<rightharpoonup> int) \<Rightarrow> string \<rightharpoonup> int" where
  "safeguard_titles c m =
     (let m1 = (if sc_title c \<noteq> [] then m(normTitleKey (sc_title c) \<mapsto> sc_id c) else m); orig = deref (sc_title_original c)
      in if orig \<noteq> [] then m1(normTitleKey orig \<mapsto> sc_id c) else m1)"

definition loadCISSafeguardsByTitle :: "('v, 'sp) corpus \<Rightarrow> ((string \<rightharpoonup> int) \<times> ('v, 'sp) corpus) option" where
  "loadCISSafeguardsByTitle db = Some (fold safeguard_titles (joined_controls (current_main db ''ciscontrols'') db) Map.empty, db)"

fun emit_cis :: "edges_env \<Rightarrow> cis_spec \<Rightarrow> (string \<rightharpoonup> int) \<Rightarrow> (int \<times> string \<times> string) set \<Rightarrow> cis_pair list \<Rightarrow> ('v, 'sp, nat) edges_act" where
  "emit_cis ev spec titles seen [] = ret 0"
| "emit_cis ev spec titles seen (p # ps) =
     (case titles (normTitleKey (cq_Title p)) of
        None \<Rightarrow> emit_cis ev spec titles seen ps
      | Some i \<Rightarrow>
          if (i, cq_Norm p, cq_Relationship p) \<in> seen then emit_cis ev spec titles seen ps
          else bind (upsert_edge ev (edge_row i (cp_ToFramework spec) (Some (cp_ToVersion spec)) (cq_Norm p) ''cis-v8.1-mappings''
                        (cq_Relationship p) (cq_Prov p))) (\<lambda>_.
               bind (emit_cis ev spec titles (insert (i, cq_Norm p, cq_Relationship p) seen) ps) (\<lambda>n. ret (Suc n))))"

definition EmitCISMappingEdges :: "edges_env \<Rightarrow> cis_spec \<Rightarrow> json option \<Rightarrow> ('v, 'sp, edges_sum) edges_act" where
  "EmitCISMappingEdges ev spec raw =
     (case parseCISMappingPairs (me_order ev) raw (cp_Cite spec) of
        None \<Rightarrow> fail (EdgeUnmarshal ''cismap'')
      | Some (pairs, skipped) \<Rightarrow>
          bind (stmt (me_fault ev) (EdgeLoad ''ciscontrols safeguards'') (on_corpus loadCISSafeguardsByTitle)) (\<lambda>titles.
          bind (emit_cis ev spec titles {} pairs) (\<lambda>n.
          bind (resolve_edges ev) (\<lambda>r. ret \<lparr>ms_Emitted = n, ms_Resolved = r\<rparr>))))"

section \<open>Curated edges (curated.go)\<close>

record curated_sum =
  cs_Total :: nat
  cs_Emitted :: nat
  cs_Unresolved :: nat
  cs_Resolved :: nat

definition fromKey :: "string \<Rightarrow> string \<Rightarrow> string \<Rightarrow> string" where
  "fromKey framework version citation = to_upper (framework @ ''|'' @ version @ ''|'' @ citation)"

definition loadCuratedEdges :: "text_order \<Rightarrow> ('v, 'sp) pipe \<Rightarrow> (curated_edge list \<times> ('v, 'sp) pipe) option" where
  "loadCuratedEdges col p =
     Some (sort_key (\<lambda>e. (col (ce_FromFramework e), col (ce_FromVersion e), col (ce_FromCitation e), col (ce_ToFramework e), col (ce_ToCitation e)))
             (pp_curated p), p)"

definition list_version :: "string \<Rightarrow> string \<Rightarrow> ('v, 'sp) corpus \<Rightarrow> (control_row list \<times> ('v, 'sp) corpus) option" where
  "list_version fw v db = Some (joined_controls (in_version fw v) db, db)"

definition index_version :: "string \<Rightarrow> string \<Rightarrow> control_row list \<Rightarrow> (string \<rightharpoonup> int) \<Rightarrow> string \<rightharpoonup> int" where
  "index_version fw v cs idx = fold (\<lambda>c m. m(fromKey fw v (sc_norm c) \<mapsto> sc_id c)) cs idx"

fun load_index :: "edges_env \<Rightarrow> (string \<times> string) list \<Rightarrow> (string \<rightharpoonup> int) \<Rightarrow> ('v, 'sp, string \<rightharpoonup> int) edges_act" where
  "load_index ev [] idx = ret idx"
| "load_index ev ((fw, v) # ps) idx =
     bind (stmt (me_fault ev) (EdgeLoad ''controls'') (on_corpus (list_version fw v))) (\<lambda>cs.
     load_index ev ps (index_version fw v cs idx))"

definition loadFromControlIndex :: "edges_env \<Rightarrow> curated_edge list \<Rightarrow> ('v, 'sp, string \<rightharpoonup> int) edges_act" where
  "loadFromControlIndex ev rows =
     load_index ev (dedup_on id {} (map (\<lambda>r. (ce_FromFramework r, ce_FromVersion r)) rows)) Map.empty"

definition curated_row :: "(string \<rightharpoonup> int) \<Rightarrow> curated_edge \<Rightarrow> mapping_row option" where
  "curated_row fromIndex r =
     map_option (\<lambda>i. edge_row i (ce_ToFramework r) (if ce_ToVersion r = [] then None else Some (ce_ToVersion r)) (ce_ToCitation r)
         (ce_Source r) (ce_Relationship r) (ce_Note r))
       (fromIndex (fromKey (ce_FromFramework r) (ce_FromVersion r) (ce_FromCitation r)))"

definition buildCuratedUpserts :: "curated_edge list \<Rightarrow> (string \<rightharpoonup> int) \<Rightarrow> mapping_row list \<times> curated_edge list" where
  "buildCuratedUpserts rows fromIndex =
     (List.map_filter (curated_row fromIndex) rows, filter (\<lambda>r. curated_row fromIndex r = None) rows)"

definition EmitCuratedEdges :: "edges_env \<Rightarrow> ('v, 'sp, curated_sum) edges_act" where
  "EmitCuratedEdges ev =
     bind (stmt (me_fault ev) (EdgeLoad ''curated edges'') (loadCuratedEdges (me_col ev))) (\<lambda>rows.
     if rows = [] then ret \<lparr>cs_Total = 0, cs_Emitted = 0, cs_Unresolved = 0, cs_Resolved = 0\<rparr>
     else
       bind (loadFromControlIndex ev rows) (\<lambda>fromIndex.
       let (params, unresolved) = buildCuratedUpserts rows fromIndex in
       bind (each (upsert_edge ev) params) (\<lambda>_.
       bind (resolve_edges ev) (\<lambda>r.
       ret \<lparr>cs_Total = length rows, cs_Emitted = length params, cs_Unresolved = length unresolved, cs_Resolved = r\<rparr>))))"

section \<open>Further resolution passes (resolve.go)\<close>

definition append_note :: "string \<Rightarrow> string \<Rightarrow> string" where
  "append_note prov note = prov @ (if prov = [] then [] else ''; '') @ note"

definition names_clause :: "('v, 'sp) corpus \<Rightarrow> string \<Rightarrow> string \<Rightarrow> bool" where
  "names_clause db v norm \<longleftrightarrow> list_ex (\<lambda>c. sc_norm c = norm \<and> sc_kind c = ''clause'') (joined_controls (in_version ''iso27001'' v) db)"

definition annex_ok :: "('v, 'sp) corpus \<Rightarrow> mapping_row \<Rightarrow> control_row \<Rightarrow> doc_row \<Rightarrow> bool" where
  "annex_ok db m c d \<longleftrightarrow>
     d_id d = sc_document c \<and> cm_to_framework m = ''iso27001'' \<and> d_framework d = ''iso27001''
   \<and> (case cm_to_version m of Some v \<Rightarrow> d_version d = v | None \<Rightarrow> is_current_version db ''iso27001'' (d_version d))
   \<and> sc_norm c = ''A.'' @ cm_to_norm m \<and> sc_kind c = ''annex-control'' \<and> \<not> names_clause db (d_version d) (cm_to_norm m)"

definition annex_targets :: "('v, 'sp) corpus \<Rightarrow> mapping_row \<Rightarrow> control_row list" where
  "annex_targets db m = filter (\<lambda>c. list_ex (annex_ok db m c) (documents db)) (controls db)"

definition annex_note :: "mapping_row \<Rightarrow> string" where
  "annex_note m = ''annex-prefix: resolved '' @ cm_to_norm m @ '' as A.'' @ cm_to_norm m"

definition ResolveAnnexPrefix :: "('v, 'sp) corpus \<Rightarrow> (nat \<times> ('v, 'sp) corpus) option" where
  "ResolveAnnexPrefix db =
     (let hit = (\<lambda>m. cm_to_control m = None \<and> annex_targets db m \<noteq> []) in
      Some (length (filter hit (mappings db)),
        db\<lparr>mappings := map (\<lambda>m. if hit m then m\<lparr>cm_to_control := Some (sc_id (hd (annex_targets db m))),
              cm_provenance := append_note (cm_provenance m) (annex_note m)\<rparr> else m) (mappings db)\<rparr>))"

definition successor_ok :: "mapping_row \<Rightarrow> relation_row \<Rightarrow> control_row \<Rightarrow> doc_row \<Rightarrow> bool" where
  "successor_ok m vr c d \<longleftrightarrow>
     d_id d = sc_document c \<and> d_framework d = vr_from_framework vr \<and> d_version d = vr_from_version vr
   \<and> cm_to_version m \<noteq> None \<and> vr_to_framework vr = cm_to_framework m \<and> Some (vr_to_version vr) = cm_to_version m
   \<and> vr_type vr = ''supersedes'' \<and> sc_norm c = cm_to_norm m"

definition successors :: "('v, 'sp) corpus \<Rightarrow> mapping_row \<Rightarrow> (relation_row \<times> control_row) list" where
  "successors db m = [(vr, c). vr \<leftarrow> relations db, c \<leftarrow> controls db, list_ex (successor_ok m vr c) (documents db)]"

definition successor_note :: "mapping_row \<Rightarrow> relation_row \<Rightarrow> string" where
  "successor_note m vr = ''version-supersession: cited '' @ deref (cm_to_version m) @ '' resolved in successor '' @ vr_from_version vr"

definition ResolveViaSupersession :: "('v, 'sp) corpus \<Rightarrow> (nat \<times> ('v, 'sp) corpus) option" where
  "ResolveViaSupersession db =
     (let hit = (\<lambda>m. cm_to_control m = None \<and> successors db m \<noteq> []) in
      Some (length (filter hit (mappings db)),
        db\<lparr>mappings := map (\<lambda>m. if hit m then m\<lparr>cm_to_control := Some (sc_id (snd (hd (successors db m)))),
              cm_provenance := append_note (cm_provenance m) (successor_note m (fst (hd (successors db m))))\<rparr> else m) (mappings db)\<rparr>))"

definition known_supersessions :: "relation_row list" where
  "known_supersessions =
     [\<lparr>vr_from_framework = ''ciscontrols'', vr_from_version = ''v8.1'', vr_to_framework = ''ciscontrols'', vr_to_version = ''v8'',
       vr_type = ''supersedes'', vr_note = ''CIS Controls v8.1 supersedes v8 (CIS change-log workbook)''\<rparr>,
      \<lparr>vr_from_framework = ''csaccm'', vr_from_version = ''v4.1'', vr_to_framework = ''csaccm'', vr_to_version = ''v4.0'',
       vr_type = ''supersedes'', vr_note = ''CSA CCM v4.1 supersedes v4.0 (CSA-documented)''\<rparr>]"

definition EmitVersionSupersessions :: "edges_env \<Rightarrow> ('v, 'sp, unit) edges_act" where
  "EmitVersionSupersessions ev =
     bind (each (\<lambda>r. stmt (me_fault ev) EdgeRelation (on_corpus (UpsertVersionRelation r))) known_supersessions) (\<lambda>_. ret ())"

definition MarkMapEdgesFresh :: "edges_env \<Rightarrow> ('v, 'sp, nat) edges_act" where
  "MarkMapEdgesFresh ev = stmt (me_fault ev) EdgeMark (on_corpus MarkDocumentsMapEdged)"

section \<open>The stage (cmd/pipeline)\<close>

definition latest_capture :: "string \<Rightarrow> ('v, 'sp) pipe \<Rightarrow> (json option \<times> ('v, 'sp) pipe) option" where
  "latest_capture rel p =
     (case filter (\<lambda>re. rw_kind re = ''workbook-rows-json'' \<and> list_ex (\<lambda>sf. sf_id sf = rw_source re \<and> sf_rel sf = rel)
                (source_files (pp_corpus p))) (pp_raw p) of
        [] \<Rightarrow> None
      | xs \<Rightarrow> Some (rw_content (last xs), p))"

definition find_capture :: "edges_env \<Rightarrow> string \<Rightarrow> ('v, 'sp, map_err + json option) edges_act" where
  "find_capture ev rel = try_act (stmt (me_fault ev) (EdgeCapture rel) (latest_capture rel))"

definition olirRelPath :: string where
  "olirRelPath = ''nist/nist-sp-800-53r5-to-iso27001-2022-olir.xlsx''"

definition runOLIREdges :: "edges_env \<Rightarrow> ('v, 'sp, edges_sum \<times> string list) edges_act" where
  "runOLIREdges ev =
     bind (find_capture ev olirRelPath) (\<lambda>r. case r of
       Inl _ \<Rightarrow> ret (\<lparr>ms_Emitted = 0, ms_Resolved = 0\<rparr>, [olirRelPath])
     | Inr raw \<Rightarrow> bind (EmitOLIREdges ev raw) (\<lambda>s. ret (s, [])))"

fun run_specs :: "edges_env \<Rightarrow> cis_spec list \<Rightarrow> edges_sum \<Rightarrow> string list \<Rightarrow> ('v, 'sp, edges_sum \<times> string list) edges_act" where
  "run_specs ev [] tot skipped = ret (tot, skipped)"
| "run_specs ev (spec # specs) tot skipped =
     bind (find_capture ev (cp_RelPath spec)) (\<lambda>r. case r of
       Inl _ \<Rightarrow> run_specs ev specs tot (skipped @ [cp_RelPath spec])
     | Inr raw \<Rightarrow> bind (EmitCISMappingEdges ev spec raw) (\<lambda>s.
         run_specs ev specs \<lparr>ms_Emitted = ms_Emitted tot + ms_Emitted s, ms_Resolved = ms_Resolved tot + ms_Resolved s\<rparr> skipped))"

definition runCISMappingEdges :: "edges_env \<Rightarrow> ('v, 'sp, edges_sum \<times> string list) edges_act" where
  "runCISMappingEdges ev = run_specs ev CISMappingSpecs \<lparr>ms_Emitted = 0, ms_Resolved = 0\<rparr> []"

record stage_sum =
  ss_Emitted :: nat
  ss_Skipped :: "string list"
  ss_Marked :: nat

definition runMapEdges :: "edges_env \<Rightarrow> ('v, 'sp, stage_sum) edges_act" where
  "runMapEdges ev =
     bind (EmitISOStructuralEdges ev) (\<lambda>s.
     bind (runOLIREdges ev) (\<lambda>(olir, olirSkipped).
     bind (runCISMappingEdges ev) (\<lambda>(cis, cisSkipped).
     let skipped = olirSkipped @ cisSkipped in
     bind (EmitCuratedEdges ev) (\<lambda>curated.
     bind (stmt (me_fault ev) EdgeResolve (on_corpus ResolveAnnexPrefix)) (\<lambda>_.
     bind (EmitVersionSupersessions ev) (\<lambda>_.
     bind (stmt (me_fault ev) EdgeResolve (on_corpus ResolveViaSupersession)) (\<lambda>_.
     bind (if skipped \<noteq> [] then ret 0 else MarkMapEdgesFresh ev) (\<lambda>marked.
     ret \<lparr>ss_Emitted = ms_Emitted s + ms_Emitted olir + ms_Emitted cis + cs_Emitted curated,
          ss_Skipped = skipped, ss_Marked = marked\<rparr>))))))))"

end
