(* ===== verification/Map_Edges_Props.thy ===== *)
theory Map_Edges_Props
  imports Map_Edges Normalize_Props
begin

text \<open>
  What the mapedges stage may change: edges gain keys and targets and lose none, and nothing else of the
  database moves until the last statement marks the documents.
\<close>

section \<open>Edges only grow\<close>

definition edges_kept :: "mapping_row list \<Rightarrow> mapping_row list \<Rightarrow> bool" where
  "edges_kept old new \<longleftrightarrow> (\<forall>m \<in> set old. \<exists>m' \<in> set new. mapping_key m' = mapping_key m
     \<and> (cm_to_control m \<noteq> None \<longrightarrow> cm_to_control m' = cm_to_control m))"

definition grows :: "('v, 'sp) corpus \<Rightarrow> ('v, 'sp) corpus \<Rightarrow> bool" where
  "grows db db' \<longleftrightarrow> (\<exists>ms rs. db' = db\<lparr>mappings := ms, relations := rs\<rparr>)
     \<and> edges_kept (mappings db) (mappings db') \<and> (silver_wf db \<longrightarrow> silver_wf db')"

definition pipe_grows :: "('v, 'sp) pipe \<times> nat \<Rightarrow> ('v, 'sp) pipe \<times> nat \<Rightarrow> bool" where
  "pipe_grows s s' \<longleftrightarrow> (\<exists>db. fst s' = (fst s)\<lparr>pp_corpus := db\<rparr> \<and> grows (pp_corpus (fst s)) db)"

lemma edges_kept_refl: "edges_kept ms ms"
  by (auto simp: edges_kept_def)

lemma edges_kept_trans:
  assumes "edges_kept a b" and "edges_kept b c"
  shows "edges_kept a c"
  unfolding edges_kept_def
proof
  fix m assume "m \<in> set a"
  then obtain m1 where 1: "m1 \<in> set b" "mapping_key m1 = mapping_key m" "cm_to_control m \<noteq> None \<longrightarrow> cm_to_control m1 = cm_to_control m"
    using assms(1) unfolding edges_kept_def by blast
  then obtain m2 where "m2 \<in> set c" "mapping_key m2 = mapping_key m1" "cm_to_control m1 \<noteq> None \<longrightarrow> cm_to_control m2 = cm_to_control m1"
    using assms(2) unfolding edges_kept_def by blast
  then show "\<exists>m' \<in> set c. mapping_key m' = mapping_key m \<and> (cm_to_control m \<noteq> None \<longrightarrow> cm_to_control m' = cm_to_control m)"
    using 1 by (intro bexI [of _ m2]) auto
qed

lemma grown_refl: "grows db db"
  unfolding grows_def
  by (intro conjI exI [of _ "mappings db"] exI [of _ "relations db"]) (simp_all add: edges_kept_refl)

lemma grown_trans:
  assumes "grows a b" and "grows b c"
  shows "grows a c"
proof -
  obtain ms rs ms' rs' where b: "b = a\<lparr>mappings := ms, relations := rs\<rparr>" and c: "c = b\<lparr>mappings := ms', relations := rs'\<rparr>"
    using assms unfolding grows_def by blast
  have "\<exists>ms rs. c = a\<lparr>mappings := ms, relations := rs\<rparr>"
    by (rule exI [of _ ms'], rule exI [of _ rs']) (simp add: b c)
  then show ?thesis using assms edges_kept_trans unfolding grows_def by blast
qed

lemma edges_kept_map:
  assumes "\<And>m. m \<in> set ms \<Longrightarrow> mapping_key (f m) = mapping_key m"
    and "\<And>m. m \<in> set ms \<Longrightarrow> cm_to_control m \<noteq> None \<Longrightarrow> cm_to_control (f m) = cm_to_control m"
  shows "edges_kept ms (map f ms)"
  unfolding edges_kept_def using assms by (intro ballI bexI [of _ "f _"]) auto

interpretation growth: progress pipe_grows
proof
  fix s :: "('v, 'sp) pipe \<times> nat"
  show "pipe_grows s s" by (auto simp: pipe_grows_def intro!: exI [of _ "pp_corpus (fst s)"] grown_refl)
next
  fix a b c :: "('v, 'sp) pipe \<times> nat"
  assume "pipe_grows a b" "pipe_grows b c"
  then obtain db1 db2 where "fst b = (fst a)\<lparr>pp_corpus := db1\<rparr>" "fst c = (fst b)\<lparr>pp_corpus := db2\<rparr>"
    "grows (pp_corpus (fst a)) db1" "grows (pp_corpus (fst b)) db2" unfolding pipe_grows_def by blast
  then show "pipe_grows a c"
    unfolding pipe_grows_def by (intro exI [of _ db2]) (auto intro: grown_trans)
qed

lemma obeys_stmt:
  assumes "\<And>p x p'. f p = Some (x, p') \<Longrightarrow> pipe_grows (p, n) (p', n)"
  shows "obeys pipe_grows (stmt fault e f)"
  unfolding obeys_def
proof
  fix s :: "('a, 'b) pipe \<times> nat"
  show "pipe_grows s (snd (stmt fault e f s))"
    using assms growth.same [of s] by (auto simp: stmt_def pipe_grows_def split: prod.splits option.splits)
qed

lemma on_corpus_grows:
  assumes "\<And>db x db'. f db = Some (x, db') \<Longrightarrow> grows db db'"
  shows "obeys pipe_grows (stmt fault e (on_corpus f))"
  by (rule obeys_stmt [where n = 0]) (auto simp: on_corpus_def pipe_grows_def dest: assms)

section \<open>The statements\<close>

lemma same_grows: "f db = Some (x, db) \<Longrightarrow> f db = Some (y, db') \<Longrightarrow> grows db db'"
  by (simp add: grown_refl)

lemma upsert_grows: "UpsertControlMapping p db = Some (u, db') \<Longrightarrow> grows db db'"
proof -
  assume up: "UpsertControlMapping p db = Some (u, db')"
  let ?upd = "\<lambda>m. if mapping_key m = mapping_key p
                 then m\<lparr>cm_relationship := cm_relationship p, cm_provenance := cm_provenance p\<rparr> else m"
  let ?ms = "if mapping_key p \<in> mapping_key ` set (mappings db) then map ?upd (mappings db)
             else mappings db @ [p\<lparr>cm_to_control := None\<rparr>]"
  have db': "db' = db\<lparr>mappings := ?ms\<rparr>" using up by (auto simp: UpsertControlMapping_def split: if_splits)
  have "edges_kept (mappings db) (map ?upd (mappings db))"
    by (rule edges_kept_map) (auto simp: mapping_key_def)
  then have "edges_kept (mappings db) ?ms" by (auto simp: edges_kept_def)
  moreover have "\<exists>ms rs. db' = db\<lparr>mappings := ms, relations := rs\<rparr>"
    by (rule exI [of _ ?ms], rule exI [of _ "relations db"]) (simp add: db')
  ultimately show ?thesis using UpsertControlMapping_wf [OF _ up] by (simp add: grows_def db')
qed

text \<open>A pass that fills in targets.\<close>

lemma targets_grow:
  assumes "\<And>m. mapping_key (f m) = mapping_key m"
    and "\<And>m. cm_to_control m \<noteq> None \<Longrightarrow> f m = m"
    and "\<And>m t. cm_to_control m = None \<Longrightarrow> cm_to_control (f m) = Some t \<Longrightarrow> t \<in> sc_id ` set (controls db)"
  shows "grows db (db\<lparr>mappings := map f (mappings db)\<rparr>)"
proof -
  have "silver_wf (db\<lparr>mappings := map f (mappings db)\<rparr>)" if wf: "silver_wf db"
  proof (rule silver_wf_mappings [OF wf])
    have "map mapping_key (map f (mappings db)) = map mapping_key (mappings db)" by (simp add: assms(1))
    then show "distinct (map mapping_key (map f (mappings db)))" using silver_wfD(5) [OF wf] by metis
  next
    fix m t assume "m \<in> set (map f (mappings db))" and t: "cm_to_control m = Some t"
    then obtain m0 where "m0 \<in> set (mappings db)" "m = f m0" by auto
    then show "t \<in> sc_id ` set (controls db)"
      using t assms(2,3) [of m0] silver_wfD(12) [OF wf, of m0] by (cases "cm_to_control m0") auto
  next
    fix m assume "m \<in> set (map f (mappings db))"
    then obtain m0 where "m0 \<in> set (mappings db)" "m = f m0" by auto
    then show "cm_from m \<in> sc_id ` set (controls db)"
      using assms(1) [of m0] silver_wfD(11) [OF wf, of m0] by (simp add: mapping_key_def)
  qed
  moreover have "\<exists>ms rs. db\<lparr>mappings := map f (mappings db)\<rparr> = db\<lparr>mappings := ms, relations := rs\<rparr>"
    by (rule exI [of _ "map f (mappings db)"], rule exI [of _ "relations db"]) simp
  moreover have "edges_kept (mappings db) (map f (mappings db))" by (rule edges_kept_map) (auto simp: assms(1,2))
  ultimately show ?thesis by (simp add: grows_def)
qed

lemma resolve_grows: "ResolveControlMappings db = Some (k, db') \<Longrightarrow> grows db db'"
proof -
  have "sc_id c \<in> sc_id ` set (controls db)" if "mapping_targets db m = c # cs" for m c cs
  proof -
    have "c \<in> set (mapping_targets db m)" using that by simp
    then show ?thesis by (simp add: mapping_targets_def)
  qed
  then have "grows db (db\<lparr>mappings := map (resolve_mapping (mapping_targets db)) (mappings db)\<rparr>)"
    by (intro targets_grow) (auto simp: resolve_mapping_def mapping_key_def split: list.splits)
  then show "ResolveControlMappings db = Some (k, db') \<Longrightarrow> grows db db'" by (simp add: ResolveControlMappings_def)
qed

lemma annex_grows: "ResolveAnnexPrefix db = Some (k, db') \<Longrightarrow> grows db db'"
proof -
  have "hd (annex_targets db m) \<in> set (controls db)" if "annex_targets db m \<noteq> []" for m
    using hd_in_set [OF that] by (simp add: annex_targets_def)
  then show "ResolveAnnexPrefix db = Some (k, db') \<Longrightarrow> grows db db'"
    by (auto simp: ResolveAnnexPrefix_def Let_def mapping_key_def intro!: targets_grow split: if_splits)
qed

lemma successor_grows: "ResolveViaSupersession db = Some (k, db') \<Longrightarrow> grows db db'"
proof -
  have "snd (hd (successors db m)) \<in> set (controls db)" if "successors db m \<noteq> []" for m
    using hd_in_set [OF that] by (auto simp: successors_def)
  then show "ResolveViaSupersession db = Some (k, db') \<Longrightarrow> grows db db'"
    by (auto simp: ResolveViaSupersession_def Let_def mapping_key_def intro!: targets_grow split: if_splits)
qed

lemma relation_grows: "UpsertVersionRelation r db = Some (u, db') \<Longrightarrow> grows db db'"
proof -
  assume up: "UpsertVersionRelation r db = Some (u, db')"
  then obtain rs where db': "db' = db\<lparr>relations := rs\<rparr>" by (auto simp: UpsertVersionRelation_def split: if_splits)
  have "\<exists>ms rs. db' = db\<lparr>mappings := ms, relations := rs\<rparr>"
    by (rule exI [of _ "mappings db"], rule exI [of _ rs]) (simp add: db')
  moreover have "silver_wf db \<longrightarrow> silver_wf db'" by (simp add: db' silver_wf_def parent_ok_def)
  ultimately show ?thesis by (simp add: grows_def edges_kept_refl db')
qed

lemma grow_stmts:
  "obeys pipe_grows (stmt fault e (on_corpus (UpsertControlMapping m)))"
  "obeys pipe_grows (stmt fault e (on_corpus ResolveControlMappings))"
  "obeys pipe_grows (stmt fault e (on_corpus ResolveAnnexPrefix))"
  "obeys pipe_grows (stmt fault e (on_corpus ResolveViaSupersession))"
  "obeys pipe_grows (stmt fault e (on_corpus (UpsertVersionRelation r)))"
  by (rule on_corpus_grows; blast intro: upsert_grows resolve_grows annex_grows successor_grows relation_grows)+

lemma read_grows: "(\<And>p x p'. f p = Some (x, p') \<Longrightarrow> p' = p) \<Longrightarrow> obeys pipe_grows (stmt fault e f)"
  by (rule obeys_stmt [where n = 0]) (metis growth.same)

lemma corpus_read_grows: "(\<And>db x db'. f db = Some (x, db') \<Longrightarrow> db' = db) \<Longrightarrow> obeys pipe_grows (stmt fault e (on_corpus f))"
  by (rule on_corpus_grows) (metis grown_refl)

section \<open>The emitters\<close>

lemma upsert_edge_grows: "obeys pipe_grows (upsert_edge ev m)"
  by (simp add: upsert_edge_def grow_stmts)

lemma resolve_edges_grows: "obeys pipe_grows (resolve_edges ev)"
  by (simp add: resolve_edges_def grow_stmts)

lemmas grow_parts = growth.obeys_intros upsert_edge_grows resolve_edges_grows

lemma iso_grows: "obeys pipe_grows (EmitISOStructuralEdges ev)"
  unfolding EmitISOStructuralEdges_def
  by (auto simp: emit_annex_def emit_guidance_def loadAnnexControls_def load27002Controls_def load_kind_def
      intro!: grow_parts corpus_read_grows)

lemma olir_grows: "obeys pipe_grows (EmitOLIREdges ev raw)"
  unfolding EmitOLIREdges_def
  by (auto simp: emit_olir_def loadControlIDsByNorm_def intro!: grow_parts corpus_read_grows split: option.split)

lemma emit_cis_grows: "obeys pipe_grows (emit_cis ev spec titles seen ps)"
  by (induction ps arbitrary: seen) (auto intro!: grow_parts split: option.split)

lemma cis_grows: "obeys pipe_grows (EmitCISMappingEdges ev spec raw)"
  unfolding EmitCISMappingEdges_def
  by (auto simp: loadCISSafeguardsByTitle_def intro!: grow_parts corpus_read_grows emit_cis_grows split: option.split)

lemma load_index_grows: "obeys pipe_grows (load_index ev ps idx)"
  by (induction ev ps idx rule: load_index.induct) (auto simp: list_version_def intro!: grow_parts corpus_read_grows)

lemma curated_grows: "obeys pipe_grows (EmitCuratedEdges ev)"
  unfolding EmitCuratedEdges_def Let_def loadFromControlIndex_def
  by (auto simp: loadCuratedEdges_def intro!: grow_parts read_grows load_index_grows split: prod.split)

lemma capture_grows: "obeys pipe_grows (find_capture ev rel)"
  unfolding find_capture_def
  by (rule growth.obeys_try, rule read_grows) (auto simp: latest_capture_def split: list.splits)

lemma run_specs_grows: "obeys pipe_grows (run_specs ev specs tot skipped)"
  by (induction specs arbitrary: tot skipped) (auto intro!: grow_parts capture_grows cis_grows split: sum.split)

end
