(* ===== verification/Map_Edges_Claims.thy ===== *)
theory Map_Edges_Claims
  imports Map_Edges_Props Normalize_Claims
begin

text \<open>
  The properties of the mapedges stage: what a run may change and when it declares the documents fresh, that
  ISO 27001 Annex A and ISO 27002 end up linked both ways, and that the OLIR pairs do not depend on the
  order in which Go visits the rows; and two cases where the order or a second run does matter.
\<close>

section \<open>The stage\<close>

definition marked_fresh :: "('v, 'sp) corpus \<Rightarrow> ('v, 'sp) corpus" where
  "marked_fresh db = db\<lparr>documents := map (\<lambda>d. d\<lparr>d_mapedged := True\<rparr>) (documents db)\<rparr>"

definition complete_run :: "map_err + stage_sum \<Rightarrow> bool" where
  "complete_run r \<longleftrightarrow> (case r of Inl _ \<Rightarrow> False | Inr s \<Rightarrow> ss_Skipped s = [])"

definition stage_outcome :: "('v, 'sp) pipe \<Rightarrow> (map_err + stage_sum) \<times> ('v, 'sp) pipe \<times> nat \<Rightarrow> bool" where
  "stage_outcome p out \<longleftrightarrow> (\<exists>db. grows (pp_corpus p) db
     \<and> fst (snd out) = p\<lparr>pp_corpus := (if complete_run (fst out) then marked_fresh db else db)\<rparr>)"

lemma failed_outcome: "pipe_grows (p, n) s1 \<Longrightarrow> stage_outcome p (Inl e, s1)"
  by (auto simp: stage_outcome_def pipe_grows_def complete_run_def)

lemma outcome_bind:
  assumes "obeys pipe_grows m" and "pipe_grows (p, n) s" and "\<And>x s1. pipe_grows (p, n) s1 \<Longrightarrow> stage_outcome p (f x s1)"
  shows "stage_outcome p (bind m f s)"
proof -
  obtain r s1 where m: "m s = (r, s1)" by (metis surj_pair)
  then have "pipe_grows (p, n) s1" using assms(1,2) growth.trans by (metis obeys_def snd_conv)
  then show ?thesis using assms(3) failed_outcome m by (cases r) (simp_all add: bind_def)
qed

lemma mark_outcome:
  assumes "pipe_grows (p, n) s1"
  shows "stage_outcome p (bind (if skipped \<noteq> [] then ret 0 else MarkMapEdgesFresh ev)
     (\<lambda>k. ret \<lparr>ss_Emitted = em, ss_Skipped = skipped, ss_Marked = k\<rparr>) s1)"
proof -
  obtain db where db: "fst s1 = p\<lparr>pp_corpus := db\<rparr>" "grows (pp_corpus p) db" using assms by (auto simp: pipe_grows_def)
  show ?thesis
  proof (cases "skipped = [] \<and> \<not> me_fault ev (snd s1)")
    case True
    then have "bind (if skipped \<noteq> [] then ret 0 else MarkMapEdgesFresh ev) (\<lambda>k. ret \<lparr>ss_Emitted = em, ss_Skipped = skipped, ss_Marked = k\<rparr>) s1
       = (Inr \<lparr>ss_Emitted = em, ss_Skipped = [], ss_Marked = length (documents db)\<rparr>, (p\<lparr>pp_corpus := marked_fresh db\<rparr>, Suc (snd s1)))"
      using db(1) by (cases s1) (simp add: MarkMapEdgesFresh_def bind_def ret_def stmt_def on_corpus_def MarkDocumentsMapEdged_def marked_fresh_def)
    then show ?thesis using db(2) by (auto simp: stage_outcome_def complete_run_def)
  next
    case False
    then show ?thesis using db
      by (cases s1) (auto simp: MarkMapEdgesFresh_def bind_def ret_def stmt_def stage_outcome_def complete_run_def)
  qed
qed

lemma runOLIR_grows: "obeys pipe_grows (runOLIREdges ev)"
  unfolding runOLIREdges_def by (auto intro!: grow_parts capture_grows olir_grows split: sum.split)

lemma runCIS_grows: "obeys pipe_grows (runCISMappingEdges ev)"
  unfolding runCISMappingEdges_def by (rule run_specs_grows)

lemma supersessions_grow: "obeys pipe_grows (EmitVersionSupersessions ev)"
  unfolding EmitVersionSupersessions_def by (auto intro!: grow_parts grow_stmts)

lemma runMapEdges_outcome: "stage_outcome p (runMapEdges ev (p, n))"
  unfolding runMapEdges_def split_def Let_def
  by (rule outcome_bind [OF iso_grows growth.same],
      intro outcome_bind [where n = n] mark_outcome [where n = n] runOLIR_grows runCIS_grows curated_grows
        grow_stmts supersessions_grow; assumption)

section \<open>Which sources are skipped\<close>

lemma capture_stable: "pipe_grows (p, n) s1 \<Longrightarrow> (latest_capture rel (fst s1) = None) = (latest_capture rel p = None)"
  by (auto simp: pipe_grows_def grows_def latest_capture_def split: list.splits)

lemma obeys_step: "obeys pipe_grows m \<Longrightarrow> pipe_grows s0 s \<Longrightarrow> m s = (r, s1) \<Longrightarrow> pipe_grows s0 s1"
  using growth.trans by (metis obeys_def snd_conv)

lemma find_capture_ok:
  assumes "\<forall>k. \<not> me_fault ev k" and "find_capture ev rel s = (Inr r, s1)" and "pipe_grows (p, n) s"
  shows "(\<exists>e. r = Inl e) = (latest_capture rel p = None)" "pipe_grows (p, n) s1"
proof -
  show "pipe_grows (p, n) s1" using obeys_step [OF capture_grows assms(3,2)] .
  have "(\<exists>e. r = Inl e) = (latest_capture rel (fst s) = None)"
    using assms(1,2) by (cases s) (auto simp: find_capture_def try_act_def stmt_def split: option.splits prod.splits)
  then show "(\<exists>e. r = Inl e) = (latest_capture rel p = None)" using capture_stable [OF assms(3)] by simp
qed

lemma runOLIR_skipped:
  assumes "\<forall>k. \<not> me_fault ev k" and "runOLIREdges ev s = (Inr (x, sk), s1)" and "pipe_grows (p, n) s"
  shows "sk = filter (\<lambda>rel. latest_capture rel p = None) [olirRelPath]"
proof -
  obtain r s2 where r: "find_capture ev olirRelPath s = (Inr r, s2)"
    and rest: "(case r of Inl _ \<Rightarrow> ret (\<lparr>ms_Emitted = 0, ms_Resolved = 0\<rparr>, [olirRelPath])
       | Inr raw \<Rightarrow> bind (EmitOLIREdges ev raw) (\<lambda>s. ret (s, []))) s2 = (Inr (x, sk), s1)"
    using assms(2) unfolding runOLIREdges_def bind_ok by blast
  show ?thesis using rest find_capture_ok(1) [OF assms(1) r assms(3)] by (cases r) (auto simp: ret_ok bind_ok)
qed

lemma run_specs_skipped:
  assumes "\<forall>k. \<not> me_fault ev k"
  shows "run_specs ev specs tot skipped s = (Inr (x, sk), s1) \<Longrightarrow> pipe_grows (p, n) s
     \<Longrightarrow> sk = skipped @ filter (\<lambda>rel. latest_capture rel p = None) (map cp_RelPath specs)"
proof (induction specs arbitrary: tot skipped s)
  case Nil
  then show ?case by (simp add: ret_ok)
next
  case (Cons spec specs)
  obtain r s2 where r: "find_capture ev (cp_RelPath spec) s = (Inr r, s2)"
    and rest: "(case r of Inl _ \<Rightarrow> run_specs ev specs tot (skipped @ [cp_RelPath spec])
       | Inr raw \<Rightarrow> bind (EmitCISMappingEdges ev spec raw) (\<lambda>y. run_specs ev specs
           \<lparr>ms_Emitted = ms_Emitted tot + ms_Emitted y, ms_Resolved = ms_Resolved tot + ms_Resolved y\<rparr> skipped)) s2
       = (Inr (x, sk), s1)"
    using Cons.prems(1) unfolding run_specs.simps bind_ok by blast
  note fc = find_capture_ok [OF assms r Cons.prems(2)]
  show ?case
  proof (cases r)
    case (Inl e)
    then have run: "run_specs ev specs tot (skipped @ [cp_RelPath spec]) s2 = (Inr (x, sk), s1)" using rest by simp
    show ?thesis using Cons.IH [OF run fc(2)] fc(1) Inl by auto
  next
    case (Inr raw)
    then obtain y s3 where y: "EmitCISMappingEdges ev spec raw s2 = (Inr y, s3)"
      "run_specs ev specs \<lparr>ms_Emitted = ms_Emitted tot + ms_Emitted y, ms_Resolved = ms_Resolved tot + ms_Resolved y\<rparr> skipped s3
         = (Inr (x, sk), s1)"
      using rest by (auto simp: bind_ok)
    show ?thesis using Cons.IH [OF y(2) obeys_step [OF cis_grows fc(2) y(1)]] fc(1) Inr by simp
  qed
qed

lemma runMapEdges_skipped:
  assumes ok: "\<forall>k. \<not> me_fault ev k" and run: "runMapEdges ev (p, n) = (Inr s, s')"
  shows "ss_Skipped s = filter (\<lambda>rel. latest_capture rel p = None) (olirRelPath # map cp_RelPath CISMappingSpecs)"
proof -
  obtain i s1 ol s2 ci s3 where 1: "EmitISOStructuralEdges ev (p, n) = (Inr i, s1)" and 2: "runOLIREdges ev s1 = (Inr ol, s2)"
    and 3: "runCISMappingEdges ev s2 = (Inr ci, s3)" and sk: "ss_Skipped s = snd ol @ snd ci"
    using run unfolding runMapEdges_def Let_def split_def by (auto simp: bind_ok ret_ok)
  have g1: "pipe_grows (p, n) s1" by (rule obeys_step [OF iso_grows growth.same 1])
  have g2: "pipe_grows (p, n) s2" by (rule obeys_step [OF runOLIR_grows g1 2])
  have "snd ol = filter (\<lambda>rel. latest_capture rel p = None) [olirRelPath]"
    using runOLIR_skipped [OF ok _ g1] 2 by (metis prod.collapse)
  moreover have "snd ci = filter (\<lambda>rel. latest_capture rel p = None) (map cp_RelPath CISMappingSpecs)"
    using run_specs_skipped [OF ok _ g2] 3 unfolding runCISMappingEdges_def by (metis append_Nil prod.collapse)
  ultimately show ?thesis by (simp add: sk)
qed

section \<open>ISO pairs\<close>

definition has_edge :: "mapping_row \<Rightarrow> ('v, 'sp) pipe \<times> nat \<Rightarrow> bool" where
  "has_edge q s \<longleftrightarrow> (\<exists>m \<in> set (mappings (pp_corpus (fst s))). mapping_key m = mapping_key q \<and> cm_relationship m = cm_relationship q)"

definition iso_edges :: "mapping_row set" where
  "iso_edges = {annex_edge i t | i t. True} \<union> {guidance_edge i t | i t. True}"

lemma iso_equivalent: "q \<in> iso_edges \<Longrightarrow> cm_relationship q = ''equivalent''"
  by (auto simp: iso_edges_def annex_edge_def guidance_edge_def edge_row_def)

lemma upsert_edge_has:
  assumes "upsert_edge ev a s = (Inr u, s1)" and "cm_relationship a = ''equivalent''"
  shows "has_edge a s1" "cm_relationship q = ''equivalent'' \<Longrightarrow> has_edge q s \<Longrightarrow> has_edge q s1"
proof -
  obtain p n where s: "s = (p, n)" by fastforce
  obtain db where up: "UpsertControlMapping a (pp_corpus p) = Some ((), db)" and s1: "s1 = (p\<lparr>pp_corpus := db\<rparr>, Suc n)"
    using assms(1) by (auto simp: upsert_edge_def s stmt_ok on_corpus_def)
  have db: "mappings db = (if mapping_key a \<in> mapping_key ` set (mappings (pp_corpus p))
         then map (\<lambda>m. if mapping_key m = mapping_key a
                       then m\<lparr>cm_relationship := cm_relationship a, cm_provenance := cm_provenance a\<rparr> else m) (mappings (pp_corpus p))
         else mappings (pp_corpus p) @ [a\<lparr>cm_to_control := None\<rparr>])"
    using up by (auto simp: UpsertControlMapping_def split: if_splits)
  show "has_edge a s1"
  proof (cases "mapping_key a \<in> mapping_key ` set (mappings (pp_corpus p))")
    case True
    then obtain m where m: "m \<in> set (mappings (pp_corpus p))" "mapping_key m = mapping_key a" by auto
    let ?m = "m\<lparr>cm_relationship := cm_relationship a, cm_provenance := cm_provenance a\<rparr>"
    have "?m \<in> set (mappings db)" using m True by (auto simp: db intro!: image_eqI [of _ _ m])
    then show ?thesis using m(2) unfolding has_edge_def s1 by (intro bexI [of _ ?m]) (auto simp: mapping_key_def)
  qed (simp add: has_edge_def s1 db mapping_key_def)
  show "has_edge q s1" if q: "cm_relationship q = ''equivalent''" "has_edge q s"
  proof -
    obtain m where m: "m \<in> set (mappings (pp_corpus p))" "mapping_key m = mapping_key q" "cm_relationship m = ''equivalent''"
      using q by (auto simp: has_edge_def s)
    let ?f = "\<lambda>m. if mapping_key m = mapping_key a
                 then m\<lparr>cm_relationship := cm_relationship a, cm_provenance := cm_provenance a\<rparr> else m"
    have "?f m \<in> set (mappings db) \<or> m \<in> set (mappings db)" using m(1) by (auto simp: db)
    moreover have "mapping_key (?f m) = mapping_key q" "cm_relationship (?f m) = ''equivalent''"
      using m(2,3) assms(2) by (auto simp: mapping_key_def)
    ultimately show ?thesis using m q(1) unfolding has_edge_def s1 by auto
  qed
qed


text \<open>What a loop of upserts leaves: every edge it was to write, and the ones that were there.\<close>

definition writes :: "('x \<Rightarrow> ('v, 'sp, nat) edges_act) \<Rightarrow> ('x \<Rightarrow> mapping_row option) \<Rightarrow> bool" where
  "writes f row \<longleftrightarrow> (\<forall>x s k s1. f x s = (Inr k, s1) \<longrightarrow>
     (\<forall>a. row x = Some a \<longrightarrow> cm_relationship a = ''equivalent'' \<and> has_edge a s1)
   \<and> (\<forall>q. cm_relationship q = ''equivalent'' \<longrightarrow> has_edge q s \<longrightarrow> has_edge q s1))"

lemma each_writes:
  assumes "writes f row"
  shows "each f xs s = (Inr ks, s1) \<Longrightarrow>
      (\<forall>x \<in> set xs. \<forall>a. row x = Some a \<longrightarrow> has_edge a s1)
    \<and> (\<forall>q. cm_relationship q = ''equivalent'' \<longrightarrow> has_edge q s \<longrightarrow> has_edge q s1)"
proof (induction xs arbitrary: s ks)
  case Nil
  then show ?case by (simp add: ret_ok)
next
  case (Cons x xs)
  from Cons.prems(1) obtain k s2 ys where k: "f x s = (Inr k, s2)" and ks: "each f xs s2 = (Inr ys, s1)"
    by (auto simp: bind_ok ret_ok)
  have "\<forall>a. row x = Some a \<longrightarrow> cm_relationship a = ''equivalent'' \<and> has_edge a s2"
    "\<forall>q. cm_relationship q = ''equivalent'' \<longrightarrow> has_edge q s \<longrightarrow> has_edge q s2"
    using assms(1) k unfolding writes_def by blast+
  then show ?case using Cons.IH [OF ks] by auto
qed

definition annex_row :: "int \<times> string \<Rightarrow> mapping_row option" where
  "annex_row ac = (if has_prefix ''A.'' (snd ac) then Some (annex_edge (fst ac) (drop 2 (snd ac))) else None)"

definition guidance_row :: "int \<times> string \<Rightarrow> mapping_row option" where
  "guidance_row c = Some (guidance_edge (fst c) (snd c))"

lemma edge_equivalent: "cm_relationship (annex_edge i t) = ''equivalent''" "cm_relationship (guidance_edge i t) = ''equivalent''"
  by (auto simp: annex_edge_def guidance_edge_def edge_row_def)

lemma iso_writes: "writes (emit_annex ev) annex_row" "writes (emit_guidance ev) guidance_row"
  unfolding writes_def emit_annex_def emit_guidance_def annex_row_def guidance_row_def
  using upsert_edge_has edge_equivalent by (auto simp: bind_ok ret_ok split: if_splits) blast+

lemma targets_by_key:
  assumes "mapping_key m = mapping_key q"
  shows "mapping_targets db m = mapping_targets db q"
proof -
  have "target_ok db m = target_ok db q" using assms
    by (intro ext) (simp add: target_ok_def mapping_key_def cong: option.case_cong)
  then show ?thesis by (simp add: mapping_targets_def)
qed

text \<open>Resolution gives every edge that has a target one.\<close>

lemma resolved_edge:
  assumes "resolve_edges ev s = (Inr k, s1)" and "has_edge q s" and "mapping_targets (pp_corpus (fst s)) q \<noteq> []"
  shows "\<exists>m \<in> set (mappings (pp_corpus (fst s1))). mapping_key m = mapping_key q \<and> cm_relationship m = cm_relationship q
     \<and> cm_to_control m \<noteq> None"
proof -
  obtain p n where s: "s = (p, n)" by fastforce
  let ?db = "pp_corpus p"
  obtain m where m: "m \<in> set (mappings ?db)" "mapping_key m = mapping_key q" "cm_relationship m = cm_relationship q"
    using assms(2) by (auto simp: has_edge_def s)
  have "mapping_targets ?db m = mapping_targets ?db q" by (rule targets_by_key [OF m(2)])
  then obtain c cs where c: "mapping_targets ?db m = c # cs" using assms(3) by (cases "mapping_targets ?db q") (auto simp: s)
  let ?m = "resolve_mapping (mapping_targets ?db) m"
  have s1: "mappings (pp_corpus (fst s1)) = map (resolve_mapping (mapping_targets ?db)) (mappings ?db)"
    using assms(1) by (auto simp: resolve_edges_def s stmt_ok on_corpus_def ResolveControlMappings_def)
  have "mapping_key ?m = mapping_key q" "cm_relationship ?m = cm_relationship q" "cm_to_control ?m \<noteq> None"
    using m(2,3) c by (auto simp: resolve_mapping_def mapping_key_def)
  then show ?thesis using m(1) unfolding s1 by (intro bexI [of _ ?m]) auto
qed

lemma targets_kept: "grows db db' \<Longrightarrow> mapping_targets db' q = mapping_targets db q"
proof -
  assume "grows db db'"
  then obtain ms rs where "db' = db\<lparr>mappings := ms, relations := rs\<rparr>" unfolding grows_def by blast
  moreover from this have "target_ok db' q = target_ok db q"
    by (intro ext) (simp add: target_ok_def is_current_version_def cong: option.case_cong)
  ultimately show ?thesis by (simp add: mapping_targets_def)
qed

lemma listed_controls:
  assumes "stmt fault e (on_corpus (load_kind col fw kind)) s = (Inr cs, s1)"
  shows "set cs = (\<lambda>c. (sc_id c, sc_norm c)) ` {c \<in> set (joined_controls (in_version fw ''2022'') (pp_corpus (fst s))). sc_kind c = kind}"
  using assms by (cases s) (auto simp: stmt_ok on_corpus_def load_kind_def)

lemma joined_kept: "grows db db' \<Longrightarrow> joined_controls P db' = joined_controls P db"
  by (auto simp: grows_def joined_controls_def)

lemma iso_parts:
  "obeys pipe_grows (stmt fault e (on_corpus (load_kind col fw kind)))"
  "obeys pipe_grows (each (emit_annex ev) xs)" "obeys pipe_grows (each (emit_guidance ev) xs)"
  by (auto simp: load_kind_def emit_annex_def emit_guidance_def intro!: grow_parts corpus_read_grows)

lemma annexes_written:
  assumes "each (emit_annex ev) xs s = (Inr ks, s1)" and "(i, ''A.'' @ t) \<in> set xs"
  shows "has_edge (annex_edge i t) s1"
proof -
  have "\<forall>x \<in> set xs. \<forall>a. annex_row x = Some a \<longrightarrow> has_edge a s1"
    using each_writes [OF iso_writes(1) assms(1)] by blast
  moreover have "annex_row (i, ''A.'' @ t) = Some (annex_edge i t)" by (simp add: annex_row_def has_prefix_def)
  ultimately show ?thesis using assms(2) by blast
qed

lemma guidance_written:
  assumes "each (emit_guidance ev) xs s = (Inr ks, s1)"
  shows "(i, t) \<in> set xs \<Longrightarrow> has_edge (guidance_edge i t) s1" "has_edge (annex_edge i t) s \<Longrightarrow> has_edge (annex_edge i t) s1"
proof -
  have w: "(\<forall>x \<in> set xs. \<forall>a. guidance_row x = Some a \<longrightarrow> has_edge a s1)
    \<and> (\<forall>q. cm_relationship q = ''equivalent'' \<longrightarrow> has_edge q s \<longrightarrow> has_edge q s1)"
    using each_writes [OF iso_writes(2) assms] by blast
  show "(i, t) \<in> set xs \<Longrightarrow> has_edge (guidance_edge i t) s1" using w by (force simp: guidance_row_def)
  show "has_edge (annex_edge i t) s \<Longrightarrow> has_edge (annex_edge i t) s1" using w edge_equivalent(1) by blast
qed

lemma iso_run:
  assumes run: "EmitISOStructuralEdges ev (p, n) = (Inr x, s')"
    and a: "a \<in> set (joined_controls (in_version ''iso27001'' ''2022'') (pp_corpus p))" "sc_kind a = ''annex-control''"
    and norm: "sc_norm a = ''A.'' @ sc_norm g"
    and g: "g \<in> set (joined_controls (in_version ''iso27002'' ''2022'') (pp_corpus p))" "sc_kind g = ''control''"
  shows "\<exists>s k. pipe_grows (p, n) s \<and> resolve_edges ev s = (Inr k, s') \<and> has_edge (annex_edge (sc_id a) (sc_norm g)) s
     \<and> has_edge (guidance_edge (sc_id g) (sc_norm g)) s"
proof -
  obtain annexes s1 where 1: "stmt (me_fault ev) (EdgeLoad ''annex controls'') (on_corpus (loadAnnexControls (me_col ev))) (p, n)
      = (Inr annexes, s1)"
    using run unfolding EmitISOStructuralEdges_def bind_ok by blast
  have in_a: "(sc_id a, sc_norm a) \<in> set annexes"
    using listed_controls [OF 1 [unfolded loadAnnexControls_def]] a by auto
  then have ne: "annexes \<noteq> []" by auto
  have g1: "pipe_grows (p, n) s1"
    by (rule obeys_step [OF iso_parts(1) growth.same 1 [unfolded loadAnnexControls_def]])
  obtain ns s2 cs s3 ks s4 k where 2: "each (emit_annex ev) annexes s1 = (Inr ns, s2)"
    and 3: "stmt (me_fault ev) (EdgeLoad ''27002 controls'') (on_corpus (load27002Controls (me_col ev))) s2 = (Inr cs, s3)"
    and 4: "each (emit_guidance ev) cs s3 = (Inr ks, s4)" and 5: "resolve_edges ev s4 = (Inr k, s')"
    using run 1 ne unfolding EmitISOStructuralEdges_def by (auto simp: bind_ok ret_ok)
  have g2: "pipe_grows (p, n) s2"
    by (rule obeys_step [OF iso_parts(2) g1 2])
  have g3: "pipe_grows (p, n) s3"
    by (rule obeys_step [OF iso_parts(1) g2 3 [unfolded load27002Controls_def]])
  have g4: "pipe_grows (p, n) s4"
    by (rule obeys_step [OF iso_parts(3) g3 4])
  obtain db where "fst s2 = p\<lparr>pp_corpus := db\<rparr>" "grows (pp_corpus p) db" using g2 by (auto simp: pipe_grows_def)
  then have "(sc_id g, sc_norm g) \<in> set cs"
    using listed_controls [OF 3 [unfolded load27002Controls_def]] g by (auto simp: joined_kept)
  then have "has_edge (guidance_edge (sc_id g) (sc_norm g)) s4" by (rule guidance_written(1) [OF 4])
  moreover have "has_edge (annex_edge (sc_id a) (sc_norm g)) s2" using annexes_written [OF 2] in_a norm by simp
  then have "has_edge (annex_edge (sc_id a) (sc_norm g)) s3"
    using 3 by (cases s2) (auto simp: stmt_ok on_corpus_def load27002Controls_def load_kind_def has_edge_def)
  then have "has_edge (annex_edge (sc_id a) (sc_norm g)) s4" by (rule guidance_written(2) [OF 4])
  ultimately show ?thesis using g4 5 by blast
qed


text \<open>
  C35.  However a run of the stage ends, and whatever statement fails, it has changed the edges and the
  version relations only, every edge that was there is still there under its key with any target it
  had, the silver tables stay well formed, and the documents are marked fresh exactly when the run
  returned with no workbook skipped.
\<close>

theorem mapedges_outcome:
  "case runMapEdges ev (p, n) of (r, (p', n')) \<Rightarrow>
     \<exists>db. grows (pp_corpus p) db \<and> p' = p\<lparr>pp_corpus := (if complete_run r then marked_fresh db else db)\<rparr>"
  using runMapEdges_outcome [of p ev n] by (auto simp: stage_outcome_def split: prod.split)

text \<open>
  When no statement fails and the run returns, the sources it reports as skipped are exactly the
  workbooks the database holds no capture of, and all documents are marked fresh if there are none, none
  otherwise.
\<close>

lemma mapedges_fresh:
  assumes "\<forall>k. \<not> me_fault ev k" and "runMapEdges ev (p, n) = (Inr s, (p', n'))"
  shows "ss_Skipped s = filter (\<lambda>rel. latest_capture rel p = None) (olirRelPath # map cp_RelPath CISMappingSpecs)
    \<and> documents (pp_corpus p') = (if ss_Skipped s = [] then map (\<lambda>d. d\<lparr>d_mapedged := True\<rparr>) (documents (pp_corpus p))
           else documents (pp_corpus p))"
proof (rule conjI [OF runMapEdges_skipped [OF assms]])
  have "stage_outcome p (Inr s, (p', n'))" using runMapEdges_outcome [of p ev n] assms(2) by simp
  then show "documents (pp_corpus p') = (if ss_Skipped s = [] then map (\<lambda>d. d\<lparr>d_mapedged := True\<rparr>) (documents (pp_corpus p))
      else documents (pp_corpus p))"
    by (auto simp: stage_outcome_def grows_def complete_run_def marked_fresh_def)
qed

text \<open>
  C36.  When the structural emitter returns, each Annex A control \<open>A.x\<close> of ISO 27001:2022 and the control
  \<open>x\<close> of ISO 27002:2022 are linked both ways by an edge of the relationship \<open>equivalent\<close> that is resolved.
\<close>

theorem iso_pairs_linked:
  assumes "EmitISOStructuralEdges ev (p, n) = (Inr x, (p', n'))"
    and a: "a \<in> set (joined_controls (in_version ''iso27001'' ''2022'') (pp_corpus p))" "sc_kind a = ''annex-control''"
    and norm: "sc_norm a = ''A.'' @ sc_norm g"
    and g: "g \<in> set (joined_controls (in_version ''iso27002'' ''2022'') (pp_corpus p))" "sc_kind g = ''control''"
  shows "(\<exists>m \<in> set (mappings (pp_corpus p')). mapping_key m = (sc_id a, ''iso27002'', Some ''2022'', sc_norm g, ''iso-structural'')
             \<and> cm_relationship m = ''equivalent'' \<and> cm_to_control m \<noteq> None)
    \<and> (\<exists>m \<in> set (mappings (pp_corpus p')). mapping_key m = (sc_id g, ''iso27001'', Some ''2022'', sc_norm a, ''iso-structural'')
             \<and> cm_relationship m = ''equivalent'' \<and> cm_to_control m \<noteq> None)"
proof -
  obtain s k where s: "pipe_grows (p, n) s" "resolve_edges ev s = (Inr k, (p', n'))"
    "has_edge (annex_edge (sc_id a) (sc_norm g)) s" "has_edge (guidance_edge (sc_id g) (sc_norm g)) s"
    using iso_run [OF assms] by blast
  have same: "mapping_targets (pp_corpus (fst s)) q = mapping_targets (pp_corpus p) q" for q
    using s(1) targets_kept by (auto simp: pipe_grows_def)
  have "g \<in> set (mapping_targets (pp_corpus p) (annex_edge (sc_id a) (sc_norm g)))"
    using g(1) by (auto simp: joined_controls_def in_version_def mapping_targets_def target_ok_def annex_edge_def edge_row_def list_ex_iff)
  then have 1: "mapping_targets (pp_corpus (fst s)) (annex_edge (sc_id a) (sc_norm g)) \<noteq> []" unfolding same by auto
  have "a \<in> set (mapping_targets (pp_corpus p) (guidance_edge (sc_id g) (sc_norm g)))"
    using a(1) norm by (auto simp: joined_controls_def in_version_def mapping_targets_def target_ok_def guidance_edge_def edge_row_def list_ex_iff)
  then have 2: "mapping_targets (pp_corpus (fst s)) (guidance_edge (sc_id g) (sc_norm g)) \<noteq> []" unfolding same by auto
  show ?thesis
    using resolved_edge [OF s(2,3) 1] resolved_edge [OF s(2,4) 2] norm
    by (auto simp: annex_edge_def guidance_edge_def edge_row_def mapping_key_def)
qed

section \<open>A run of the stage\<close>

definition demo_edges_env :: edges_env where
  "demo_edges_env = \<lparr>me_fault = (\<lambda>_. False), me_col = map of_char, me_order = (\<lambda>_ xs. xs)\<rparr>"

definition demo_annex :: control_row where
  "demo_annex = (plain_control 11 1 ''A.5.1'' ''active'')\<lparr>sc_kind := ''annex-control''\<rparr>"

definition demo_guidance :: control_row where
  "demo_guidance = plain_control 12 2 ''5.1'' ''active''"

definition demo_iso_pipe :: "(unit, unit) pipe" where
  "demo_iso_pipe =
     \<lparr>pp_corpus = empty_corpus\<lparr>documents := [plain_doc 1 ''iso27001'' ''2022'', plain_doc 2 ''iso27002'' ''2022''],
        controls := [demo_annex, demo_guidance], next_doc := 3, next_control := 13\<rparr>,
      pp_manifest = [], pp_rules = [], pp_next_source = 6, pp_next_file = 1, pp_raw = [], pp_titles = [], pp_refs = [], pp_curated = []\<rparr>"

lemma demo_iso_runs: "fst (EmitISOStructuralEdges demo_edges_env (demo_iso_pipe, 0)) = Inr \<lparr>ms_Emitted = 2, ms_Resolved = 2\<rparr>"
  by code_simp

lemma demo_stage_runs: "(case fst (runMapEdges demo_edges_env (demo_iso_pipe, 0)) of Inl _ \<Rightarrow> False | Inr s \<Rightarrow> length (ss_Skipped s) = 4)"
  by code_simp

lemma mapedges_fresh_witness:
  "\<exists>s p' n'. runMapEdges demo_edges_env (demo_iso_pipe, 0) = (Inr s, (p', n')) \<and> length (ss_Skipped s) = 4
     \<and> documents (pp_corpus p') = documents (pp_corpus demo_iso_pipe)"
proof -
  obtain r p' n' where run: "runMapEdges demo_edges_env (demo_iso_pipe, 0) = (r, (p', n'))" by (metis surj_pair)
  then obtain s where s: "r = Inr s" "length (ss_Skipped s) = 4" using demo_stage_runs by (cases r) auto
  have "\<forall>k. \<not> me_fault demo_edges_env k" by (simp add: demo_edges_env_def)
  from mapedges_fresh [OF this run [unfolded s(1)]] show ?thesis using run s by (cases "ss_Skipped s") auto
qed

theorem iso_pairs_linked_witness:
  "\<exists>x p' n'. EmitISOStructuralEdges demo_edges_env (demo_iso_pipe, 0) = (Inr x, (p', n'))
     \<and> (\<exists>m \<in> set (mappings (pp_corpus p')). mapping_key m = (11, ''iso27002'', Some ''2022'', ''5.1'', ''iso-structural'')
           \<and> cm_relationship m = ''equivalent'' \<and> cm_to_control m \<noteq> None)"
proof -
  obtain r p' n' where "EmitISOStructuralEdges demo_edges_env (demo_iso_pipe, 0) = (r, (p', n'))" by (metis surj_pair)
  then have run: "EmitISOStructuralEdges demo_edges_env (demo_iso_pipe, 0) = (Inr \<lparr>ms_Emitted = 2, ms_Resolved = 2\<rparr>, (p', n'))"
    using demo_iso_runs by simp
  have "demo_annex \<in> set (joined_controls (in_version ''iso27001'' ''2022'') (pp_corpus demo_iso_pipe))"
    "demo_guidance \<in> set (joined_controls (in_version ''iso27002'' ''2022'') (pp_corpus demo_iso_pipe))"
    "sc_kind demo_annex = ''annex-control''" "sc_kind demo_guidance = ''control''" "sc_norm demo_annex = ''A.'' @ sc_norm demo_guidance"
    "sc_id demo_annex = 11" "sc_norm demo_guidance = ''5.1''"
    by (simp_all add: demo_annex_def demo_guidance_def plain_control_def demo_iso_pipe_def joined_controls_def in_version_def plain_doc_def)
  then show ?thesis using run iso_pairs_linked [OF run, of demo_annex demo_guidance] by auto
qed

section \<open>The order of the rows\<close>

lemma enumerated: "sh \<in> set sheets \<longleftrightarrow> (\<exists>i. (i, sh) \<in> set (enumerate 0 sheets))"
  by (simp only: in_set_enumerate_eq) (auto simp: in_set_conv_nth)

lemma over_rows_mem:
  fixes o1 :: "nat \<Rightarrow> string list \<Rightarrow> string list"
  assumes "\<forall>i xs. set (o1 i xs) = set xs"
  shows "x \<in> set (over_rows o1 wanted f sheets)
    \<longleftrightarrow> (\<exists>sh \<in> set sheets. wanted (sh_Name sh) \<and> x \<in> f (sh_Name sh) (text_rows sh) ` fst ` set (text_rows sh))"
proof -
  have "x \<in> set (over_rows o1 wanted f sheets) \<longleftrightarrow> (\<exists>i sh. (i, sh) \<in> set (enumerate 0 sheets)
      \<and> x \<in> set (if wanted (sh_Name sh) then map (f (sh_Name sh) (text_rows sh)) (o1 i (map fst (text_rows sh))) else []))"
    by (simp add: over_rows_def Bex_def)
  also have "\<dots> \<longleftrightarrow> (\<exists>i sh. (i, sh) \<in> set (enumerate 0 sheets) \<and> wanted (sh_Name sh)
      \<and> x \<in> f (sh_Name sh) (text_rows sh) ` fst ` set (text_rows sh))"
    by (intro ex_cong1 conj_cong refl) (simp add: assms)
  finally show ?thesis using enumerated [of _ sheets] by blast
qed

lemma over_rows_set:
  fixes o1 o2 :: "nat \<Rightarrow> string list \<Rightarrow> string list"
  assumes "\<forall>i xs. set (o1 i xs) = set xs" and "\<forall>i xs. set (o2 i xs) = set xs"
  shows "set (over_rows o1 wanted f sheets) = set (over_rows o2 wanted f sheets)"
  by (rule set_eqI) (simp only: over_rows_mem [OF assms(1)] over_rows_mem [OF assms(2)])

text \<open>
  The crosswalk's pairs do not depend on the order in which the rows are visited: either order
  fails, or both give the same pairs of citations, each once.
\<close>

lemma olir_pairs_order_free:
  fixes o1 o2 :: "nat \<Rightarrow> string list \<Rightarrow> string list"
  assumes "\<forall>i xs. set (o1 i xs) = set xs" and "\<forall>i xs. set (o2 i xs) = set xs"
  shows "rel_option (\<lambda>ps qs. set (map olir_key ps) = set (map olir_key qs) \<and> distinct (map olir_key ps) \<and> distinct (map olir_key qs))
     (parseOLIRPairs o1 raw) (parseOLIRPairs o2 raw)"
proof (cases "Option.bind raw dec_workbook")
  case (Some sheets)
  let ?ps = "\<lambda>ord. List.map_filter id (over_rows ord (\<lambda>n. n \<noteq> ''Definitions'') olir_row sheets)"
  have "set (?ps o1) = set (?ps o2)"
    unfolding List.map_filter_def set_map set_filter over_rows_set [OF assms] ..
  then have "olir_key ` set (dedup_on olir_key {} (?ps o1)) = olir_key ` set (dedup_on olir_key {} (?ps o2))"
    by (simp add: keys_dedup_on)
  then show ?thesis
    by (simp add: parseOLIRPairs_def Some distinct_dedup_on)
qed (simp add: parseOLIRPairs_def)


definition json_rows :: "(string \<times> string) list \<Rightarrow> json" where
  "json_rows cells = JArr (map (\<lambda>(r, v). JObj [(''ref'', JStr r), (''value'', JStr v)]) cells)"

definition one_sheet :: "string \<Rightarrow> (string \<times> string) list \<Rightarrow> json" where
  "one_sheet name cells = JObj [(''sheets'', JArr [JObj [(''name'', JStr name), (''rows'', json_rows cells)]])]"

definition demo_olir :: json where
  "demo_olir = one_sheet ''Relationships'' [(''A1'', ''Focal''), (''A2'', ''AC-01''), (''D2'', ''A.5.1''), (''A3'', ''ac-01''), (''D3'', ''a.5.1'')]"

lemma demo_orders: "\<forall>i xs. set ((\<lambda>_ ys. ys) i xs) = set xs" "\<forall>i xs. set ((\<lambda>_. rev) i xs) = set xs"
  by simp_all

lemma demo_olir_parses: "parseOLIRPairs (\<lambda>_ xs. xs) (Some demo_olir)
  = Some [\<lparr>op_Focal = ''AC-01'', op_Ref = ''A.5.1'', op_Prov = ''sheet Relationships row 2''\<rparr>]"
  by code_simp

lemma olir_pairs_order_free_witness:
  "\<exists>ps. parseOLIRPairs (\<lambda>_. rev) (Some demo_olir) = Some ps \<and> set (map olir_key ps) = {(''AC-01'', ''A.5.1'')}"
  using olir_pairs_order_free [OF demo_orders, of "Some demo_olir"]
  by (cases "parseOLIRPairs (\<lambda>_. rev) (Some demo_olir)") (auto simp: demo_olir_parses olir_key_def)

text \<open>
  For the CIS workbooks the order shows.  The key of a loop tells edges apart by their relationship, the
  table's key does not: of two rows that give one pair different relationships, the one Go visits last
  is the one that stays.
\<close>

definition demo_cis_pipe :: "(unit, unit) pipe" where
  "demo_cis_pipe =
     \<lparr>pp_corpus = empty_corpus
        \<lparr>versions := [\<lparr>fv_framework = ''ciscontrols'', fv_version = ''v8.1'', fv_is_current = True, fv_note = []\<rparr>],
         documents := [plain_doc 1 ''ciscontrols'' ''v8.1''],
         controls := [(plain_control 7 1 ''1.1'' ''active'')\<lparr>sc_title := ''Inventory''\<rparr>], next_doc := 2, next_control := 8\<rparr>,
      pp_manifest = [], pp_rules = [], pp_next_source = 6, pp_next_file = 1, pp_raw = [], pp_titles = [], pp_refs = [], pp_curated = []\<rparr>"

definition demo_cis_rows :: json where
  "demo_cis_rows = one_sheet ''All CIS Controls'' [(''F2'', ''Inventory''), (''K2'', ''Subset''), (''L2'', ''A5.9''),
     (''F3'', ''Inventory''), (''K3'', ''Superset''), (''L3'', ''A5.9'')]"

definition cis_relationships_left :: "(nat \<Rightarrow> string list \<Rightarrow> string list) \<Rightarrow> (string \<times> string) list" where
  "cis_relationships_left order =
     map (\<lambda>m. (cm_to_norm m, cm_relationship m)) (mappings (pp_corpus (fst (snd (EmitCISMappingEdges
       (demo_edges_env\<lparr>me_order := order\<rparr>) (hd CISMappingSpecs) (Some demo_cis_rows) (demo_cis_pipe, 0))))))"

lemma cis_relationship_depends_on_order:
  "cis_relationships_left (\<lambda>_ xs. xs) = [(''A.5.9'', ''superset-of'')]"
  "cis_relationships_left (\<lambda>_. rev) = [(''A.5.9'', ''subset-of'')]"
  by code_simp+

text \<open>
  The note of how an edge was resolved does not survive a second run: the upsert writes the provenance
  afresh, and the pass that appended the note skips an edge that has its target.
\<close>

definition demo_annex_edge :: mapping_row where
  "demo_annex_edge = edge_row 12 ''iso27001'' (Some ''2022'') ''5.1'' ''curated'' ''related'' ''sheet X''"

definition upsert_then_resolve :: "(unit, unit) corpus \<Rightarrow> (unit, unit) corpus option" where
  "upsert_then_resolve db =
     (case UpsertControlMapping demo_annex_edge db of None \<Rightarrow> None
      | Some (_, db1) \<Rightarrow> map_option snd (ResolveAnnexPrefix db1))"

lemma note_lost_on_second_run:
  "map_option (\<lambda>db. map cm_provenance (mappings db)) (upsert_then_resolve (pp_corpus demo_iso_pipe))
     = Some [''sheet X; annex-prefix: resolved 5.1 as A.5.1'']"
  "map_option (\<lambda>db. map (\<lambda>m. (cm_provenance m, cm_to_control m)) (mappings db))
     (Option.bind (upsert_then_resolve (pp_corpus demo_iso_pipe)) upsert_then_resolve) = Some [(''sheet X'', Some 11)]"
  by code_simp+

end
