(* ===== verification/Go_Path.thy ===== *)
theory Go_Path
  imports Go_Std
begin

text \<open>
  \<open>filepath.Match\<close> on a system whose separator is the slash, over the bytes of pattern and name.  Its two
  results besides a match, a mismatch and a malformed pattern, are one here, as every caller treats them
  alike; a pattern that matches is well formed in all its parts.
\<close>

section \<open>Chunks\<close>

text \<open>\<open>getEsc\<close>: one character of a class, perhaps escaped; something must follow it.\<close>

definition get_esc :: "nat list \<Rightarrow> (nat \<times> nat list) option" where
  "get_esc chunk =
     (if chunk = [] \<or> hd chunk = 45 \<or> hd chunk = 93 then None
      else let c = (if hd chunk = 92 then tl chunk else chunk) in
        if c = [] then None
        else case first_rune c of (r, w) \<Rightarrow>
          if (r = 65533 \<and> w = 1) \<or> drop w c = [] then None else Some (r, drop w c))"

lemma get_esc_shorter: "get_esc chunk = Some (r, rest) \<Longrightarrow> length rest < length chunk"
proof -
  assume got: "get_esc chunk = Some (r, rest)"
  obtain c where c: "c = (if hd chunk = 92 then tl chunk else chunk)" "c \<noteq> []" "rest = drop (snd (first_rune c)) c" "chunk \<noteq> []"
    using got by (auto simp: get_esc_def Let_def split: if_splits prod.splits)
  then show ?thesis using first_rune_width [of c] by (cases chunk) (auto split: if_splits)
qed

lemma get_esc_twice: "get_esc chunk = Some (lo, c1) \<Longrightarrow> get_esc (tl c1) = Some (hi, c2) \<Longrightarrow> length c2 < length chunk"
  using get_esc_shorter [of chunk lo c1] get_esc_shorter [of "tl c1" hi c2] by simp

text \<open>The ranges of a class, for a character \<open>r\<close>; \<open>seen\<close> tells whether there was a range already.\<close>

function class_ranges :: "bool \<Rightarrow> nat \<Rightarrow> bool \<Rightarrow> nat list \<Rightarrow> (bool \<times> nat list) option" where
  "class_ranges seen r m chunk =
     (if seen \<and> chunk \<noteq> [] \<and> hd chunk = 93 then Some (m, tl chunk)
      else case get_esc chunk of
        None \<Rightarrow> None
      | Some (lo, c1) \<Rightarrow>
          if hd c1 = 45 then
            (case get_esc (tl c1) of
               None \<Rightarrow> None
             | Some (hi, c2) \<Rightarrow> class_ranges True r (m \<or> lo \<le> r \<and> r \<le> hi) c2)
          else class_ranges True r (m \<or> r = lo) c1)"
  by pat_completeness auto
termination
  by (relation "measure (\<lambda>(seen, r, m, chunk). length chunk)") (auto dest: get_esc_shorter get_esc_twice)

declare class_ranges.simps [simp del]

lemma class_ranges_shorter: "class_ranges seen r m chunk = Some (m', rest) \<Longrightarrow> length rest < length chunk"
proof (induction seen r m chunk rule: class_ranges.induct)
  case (1 seen r m chunk)
  show ?case
  proof (cases "seen \<and> chunk \<noteq> [] \<and> hd chunk = 93")
    case True
    then have "class_ranges seen r m chunk = Some (m, tl chunk)" by (subst class_ranges.simps) simp
    then show ?thesis using "1.prems" True by (cases chunk) auto
  next
    case False
    then obtain lo c1 where lo: "get_esc chunk = Some (lo, c1)"
      using "1.prems" by (auto simp: class_ranges.simps [of seen] split: option.splits)
    show ?thesis
    proof (cases "hd c1 = 45")
      case True
      then obtain hi c2 where hi: "get_esc (tl c1) = Some (hi, c2)"
        using "1.prems" False lo by (auto simp: class_ranges.simps [of seen] split: option.splits)
      have "length rest < length c2" using "1.IH"(1) [OF False lo refl True hi refl] "1.prems" False lo True hi
        by (simp add: class_ranges.simps [of seen])
      then show ?thesis using get_esc_shorter [OF lo] get_esc_shorter [OF hi] by simp
    next
      case nodash: False
      have "length rest < length c1" using "1.IH"(2) [OF False lo refl nodash] "1.prems" False lo nodash
        by (simp add: class_ranges.simps [of seen])
      then show ?thesis using get_esc_shorter [OF lo] by simp
    qed
  qed
qed

definition negation :: "nat list \<Rightarrow> bool \<times> nat list" where
  "negation c = (if c \<noteq> [] \<and> hd c = 94 then (True, tl c) else (False, c))"

lemma negation_shorter: "length (snd (negation c)) \<le> length c"
  by (simp add: negation_def)

text \<open>\<open>matchChunk\<close>: the name after the chunk.\<close>

function match_chunk :: "nat list \<Rightarrow> nat list \<Rightarrow> nat list option" where
  "match_chunk [] s = Some s"
| "match_chunk (b # c) s =
     (if s = [] then None
      else if b = 91 then
        (case class_ranges False (fst (first_rune s)) False (snd (negation c)) of
           None \<Rightarrow> None
         | Some (m, c2) \<Rightarrow> if m = fst (negation c) then None else match_chunk c2 (drop (snd (first_rune s)) s))
      else if b = 63 then (if hd s = 47 then None else match_chunk c (drop (snd (first_rune s)) s))
      else if b = 92 then (if c = [] then None else if hd c = hd s then match_chunk (tl c) (tl s) else None)
      else if b = hd s then match_chunk c (tl s) else None)"
  by pat_completeness auto
termination
  by (relation "measure (\<lambda>(chunk, s). length chunk)")
    (auto dest!: class_ranges_shorter intro: less_le_trans [OF _ le_SucI [OF negation_shorter]])

declare match_chunk.simps(2) [simp del]

text \<open>\<open>scanChunk\<close> without the leading stars: up to the next star outside a class.\<close>

fun scan_chunk :: "bool \<Rightarrow> nat list \<Rightarrow> nat list \<times> nat list" where
  "scan_chunk inrange [] = ([], [])"
| "scan_chunk inrange [b] = (if b = 42 \<and> \<not> inrange then ([], [b]) else ([b], []))"
| "scan_chunk inrange (b # x # p) =
     (if b = 42 \<and> \<not> inrange then ([], b # x # p)
      else if b = 92 then (b # x # fst (scan_chunk inrange p), snd (scan_chunk inrange p))
      else let inside = (if b = 91 then True else if b = 93 then False else inrange) in
        (b # fst (scan_chunk inside (x # p)), snd (scan_chunk inside (x # p))))"

lemma scan_chunk_split: "fst (scan_chunk i p) @ snd (scan_chunk i p) = p"
  by (induction i p rule: scan_chunk.induct) (simp_all add: Let_def)

lemma scan_chunk_ne: "p \<noteq> [] \<Longrightarrow> hd p \<noteq> 42 \<Longrightarrow> fst (scan_chunk False p) \<noteq> []"
  by (cases "(False, p)" rule: scan_chunk.cases) (simp_all add: Let_def)

section \<open>Match\<close>

text \<open>The positions a star tries, up to the next slash; the last chunk must reach the end.\<close>

fun seek_chunk :: "nat list \<Rightarrow> bool \<Rightarrow> nat list \<Rightarrow> nat list option" where
  "seek_chunk chunk final [] = None"
| "seek_chunk chunk final (b # name) =
     (if b = 47 then None
      else case match_chunk chunk name of
        None \<Rightarrow> seek_chunk chunk final name
      | Some t \<Rightarrow> if final \<and> t \<noteq> [] then seek_chunk chunk final name else Some t)"

lemma star_shorter: "length (snd (scan_chunk False (dropWhile ((=) 42) p))) < length p"
  if "p \<noteq> []"
proof (cases "hd p = 42")
  case True
  have "length (snd (scan_chunk False (dropWhile ((=) 42) p))) \<le> length (dropWhile ((=) 42) p)"
    using scan_chunk_split [of False "dropWhile ((=) 42) p"] by (metis length_append le_add2)
  moreover have "length (dropWhile ((=) 42) p) < length p"
    using that True by (cases p) (auto simp: le_imp_less_Suc length_dropWhile_le)
  ultimately show ?thesis by simp
next
  case False
  then have "dropWhile ((=) 42) p = p" using that by (cases p) auto
  moreover have "length (fst (scan_chunk False p)) + length (snd (scan_chunk False p)) = length p"
    using scan_chunk_split [of False p] by (metis length_append)
  ultimately show ?thesis using scan_chunk_ne [OF that False] by (cases "fst (scan_chunk False p)") auto
qed

function glob :: "nat list \<Rightarrow> nat list \<Rightarrow> bool" where
  "glob pattern name =
     (if pattern = [] then name = []
      else let star = (hd pattern = 42); (chunk, rest) = scan_chunk False (dropWhile ((=) 42) pattern) in
        if star \<and> chunk = [] then 47 \<notin> set name
        else case match_chunk chunk name of
          Some t \<Rightarrow>
            if t = [] \<or> rest \<noteq> [] then glob rest t
            else if star then (case seek_chunk chunk (rest = []) name of Some u \<Rightarrow> glob rest u | None \<Rightarrow> False)
            else False
        | None \<Rightarrow> if star then (case seek_chunk chunk (rest = []) name of Some u \<Rightarrow> glob rest u | None \<Rightarrow> False) else False)"
  by pat_completeness auto
termination
  by (relation "measure (\<lambda>(pattern, name). length pattern)") (simp_all, (metis snd_conv star_shorter)+)

declare glob.simps [simp del]

definition path_match :: "string \<Rightarrow> string \<Rightarrow> bool" where
  "path_match pattern name = glob (map of_char pattern) (map of_char name)"

section \<open>Patterns with one star\<close>

definition plain_byte :: "nat \<Rightarrow> bool" where
  "plain_byte b \<longleftrightarrow> b \<notin> {42, 63, 91, 92}"

lemma match_chunk_plain:
  "list_all plain_byte chunk \<Longrightarrow> match_chunk chunk s = (if take (length chunk) s = chunk then Some (drop (length chunk) s) else None)"
  by (induction chunk arbitrary: s; case_tac s) (auto simp: match_chunk.simps(2) plain_byte_def)

lemma scan_plain_byte:
  "plain_byte b \<Longrightarrow> scan_chunk False (b # p) = (b # fst (scan_chunk False p), snd (scan_chunk False p))"
  by (cases p) (auto simp: plain_byte_def Let_def)

lemma scan_chunk_plain: "list_all plain_byte p \<Longrightarrow> q = [] \<or> hd q = 42 \<Longrightarrow> scan_chunk False (p @ q) = (p, q)"
proof (induction p)
  case Nil
  then show ?case by (cases "(False, q)" rule: scan_chunk.cases) auto
next
  case (Cons b p)
  then show ?case using scan_plain_byte [of b "p @ q"] by simp
qed

lemma drop_no_stars: "list_all plain_byte p \<Longrightarrow> dropWhile ((=) 42) p = p"
  by (cases p) (auto simp: plain_byte_def)

lemma glob_plain_then:
  assumes "list_all plain_byte p" and "p \<noteq> []" and "q = [] \<or> hd q = 42"
  shows "glob (p @ q) name \<longleftrightarrow> (\<exists>t. name = p @ t \<and> (t = [] \<or> q \<noteq> []) \<and> glob q t)"
proof -
  have hd: "hd (p @ q) \<noteq> 42" using assms(1,2) by (cases p) (auto simp: plain_byte_def)
  then have "dropWhile ((=) 42) (p @ q) = p @ q" using assms(2) by (cases p) auto
  then have "glob (p @ q) name = (case match_chunk p name of Some t \<Rightarrow> (t = [] \<or> q \<noteq> []) \<and> glob q t | None \<Rightarrow> False)"
    using assms(2) hd by (subst glob.simps) (auto simp: scan_chunk_plain [OF assms(1,3)] split: option.split)
  also have "\<dots> \<longleftrightarrow> (\<exists>t. name = p @ t \<and> (t = [] \<or> q \<noteq> []) \<and> glob q t)"
    by (auto simp: match_chunk_plain [OF assms(1)]) (metis append_take_drop_id)
  finally show ?thesis .
qed

lemma glob_Nil: "glob [] t \<longleftrightarrow> t = []"
  by (simp add: glob.simps)

lemma glob_plain: "list_all plain_byte p \<Longrightarrow> glob p name \<longleftrightarrow> name = p"
  using glob_plain_then [of p "[]" name] by (cases "p = []") (auto simp: glob_Nil)

lemma seek_plain:
  assumes "list_all plain_byte p"
  shows "seek_chunk p True name = (if \<exists>m. m \<noteq> [] \<and> 47 \<notin> set m \<and> name = m @ p then Some [] else None)"
proof (induction name)
  case (Cons b name)
  have "(\<exists>m. m \<noteq> [] \<and> 47 \<notin> set m \<and> b # name = m @ p) \<longleftrightarrow> b \<noteq> 47 \<and> (name = p \<or> (\<exists>m. m \<noteq> [] \<and> 47 \<notin> set m \<and> name = m @ p))"
    (is "?l \<longleftrightarrow> ?r")
  proof
    assume ?l
    then obtain m where m: "m \<noteq> []" "47 \<notin> set m" "b # name = m @ p" by blast
    then obtain m' where "m = b # m'" "name = m' @ p" by (cases m) auto
    then show ?r using m by (cases "m' = []") auto
  next
    assume ?r
    then consider "b \<noteq> 47" "name = p" | m where "b \<noteq> 47" "m \<noteq> []" "47 \<notin> set m" "name = m @ p" by blast
    then show ?l
    proof cases
      case 1
      then show ?l by (intro exI [of _ "[b]"]) simp
    next
      case 2
      then show ?l by (intro exI [of _ "b # m"]) simp
    qed
  qed
  moreover have "match_chunk p name = Some t \<Longrightarrow> t = [] \<longleftrightarrow> name = p" for t
    by (auto simp: match_chunk_plain [OF assms] split: if_splits)
  moreover have "match_chunk p p = Some []" by (simp add: match_chunk_plain [OF assms])
  ultimately show ?case using Cons.IH by (auto split: option.split)
qed simp

lemma glob_star_plain:
  assumes "list_all plain_byte p" and "p \<noteq> []"
  shows "glob (42 # p) name \<longleftrightarrow> (\<exists>m. 47 \<notin> set m \<and> name = m @ p)"
proof -
  have "scan_chunk False p = (p, [])" using scan_chunk_plain [OF assms(1), of "[]"] by simp
  then have "glob (42 # p) name = (case match_chunk p name of
        Some t \<Rightarrow> if t = [] then True else seek_chunk p True name \<noteq> None | None \<Rightarrow> seek_chunk p True name \<noteq> None)"
    using assms(2) by (subst glob.simps) (auto simp: drop_no_stars [OF assms(1)] glob_Nil seek_plain [OF assms(1)] split: option.split)
  also have "\<dots> \<longleftrightarrow> name = p \<or> (\<exists>m. m \<noteq> [] \<and> 47 \<notin> set m \<and> name = m @ p)"
    by (auto simp: match_chunk_plain [OF assms(1)] seek_plain [OF assms(1)] split: if_splits)
  also have "\<dots> \<longleftrightarrow> (\<exists>m. 47 \<notin> set m \<and> name = m @ p)" by (metis append_Nil list.set(1) empty_iff)
  finally show ?thesis .
qed

lemma glob_one_star:
  assumes "list_all plain_byte p" and "list_all plain_byte q" and "q \<noteq> []"
  shows "glob (p @ 42 # q) name \<longleftrightarrow> (\<exists>m. 47 \<notin> set m \<and> name = p @ m @ q)"
  using glob_plain_then [OF assms(1), of "42 # q" name] glob_star_plain [OF assms(2,3)]
  by (cases "p = []") (auto simp: glob_star_plain [OF assms(2,3)])

end
