(* ===== verification/Manifest.thy ===== *)
theory Manifest
  imports Pipeline_Db Go_Path
begin

text \<open>
  The manifest stage (\<open>pkg/manifest/manifest.go\<close>): walk the data directory, hash each file, match it
  against the rules of \<open>config.file_rule\<close>, upsert its manifest row, record ambiguities and demote the rows of
  files that are gone.  The directory is a value: a file has the size and the content the system gives,
  None when it cannot be looked at or read.  An entry the walk cannot list is not in the value.  The
  map of identities is a list of its pairs; \<open>sc_order\<close> permutes the keys as Go's iteration does.
\<close>

section \<open>Rules\<close>

record match_result =
  mr_matched :: bool
  mr_framework :: "string option"
  mr_version :: "string option"
  mr_role :: "string option"
  mr_qualifier :: string
  mr_format :: "string option"
  mr_ignore :: bool
  mr_reason :: string

definition no_match :: match_result where
  "no_match = \<lparr>mr_matched = False, mr_framework = None, mr_version = None, mr_role = None, mr_qualifier = [],
               mr_format = None, mr_ignore = False, mr_reason = []\<rparr>"

definition matchRule :: "rule list \<Rightarrow> string \<Rightarrow> rule option" where
  "matchRule rules rel = List.find (\<lambda>r. path_match (rl_Pattern r) rel) rules"

definition Match :: "rule list \<Rightarrow> string \<Rightarrow> match_result" where
  "Match rules rel =
     (case matchRule rules rel of
        None \<Rightarrow> no_match
      | Some r \<Rightarrow>
          if rl_Ignore r then no_match\<lparr>mr_matched := True, mr_ignore := True, mr_reason := rl_Reason r\<rparr>
          else \<lparr>mr_matched = True, mr_framework = rl_Framework r, mr_version = rl_Version r, mr_role = rl_Role r,
                mr_qualifier = rl_Qualifier r, mr_format = rl_Format r, mr_ignore = False, mr_reason = []\<rparr>)"

section \<open>The walk\<close>

datatype fs_node = Folder "(string \<times> fs_node) list" | Leaf "int option" "string option"

record file_entry =
  fe_rel :: string
  fe_size :: int
  fe_content :: "string option"

definition under :: "string \<Rightarrow> string \<Rightarrow> string" where
  "under dir name = (if dir = [] then name else dir @ ''/'' @ name)"

fun walk_node :: "string \<Rightarrow> fs_node \<Rightarrow> file_entry list"
  and walk_list :: "string \<Rightarrow> (string \<times> fs_node) list \<Rightarrow> file_entry list" where
  "walk_node rel (Leaf sz content) =
     [\<lparr>fe_rel = rel, fe_size = (case sz of None \<Rightarrow> 0 | Some n \<Rightarrow> n), fe_content = content\<rparr>]"
| "walk_node rel (Folder es) = walk_list rel es"
| "walk_list dir [] = []"
| "walk_list dir ((name, node) # es) =
     (if name = ''.git'' then [] else walk_node (under dir name) node) @ walk_list dir es"

text \<open>The name and the entries of the data directory.\<close>

type_synonym data_dir = "string \<times> (string \<times> fs_node) list"

definition walkFiles :: "data_dir \<Rightarrow> file_entry list" where
  "walkFiles data = sort_key (\<lambda>e. map of_char (fe_rel e) :: nat list) (if fst data = ''.git'' then [] else walk_list [] (snd data))"

definition hex_digit :: "nat \<Rightarrow> char" where
  "hex_digit n = ''0123456789abcdef'' ! n"

definition sha256File :: "string \<Rightarrow> string" where
  "sha256File content =
     concat (map (\<lambda>b. [hex_digit (unat b div 16), hex_digit (unat b mod 16)]) (sha256 (map of_char content)))"

section \<open>The scan\<close>

definition isParseEligible :: "string \<Rightarrow> bool" where
  "isParseEligible role \<longleftrightarrow> role \<in> {''main'', ''amendment'', ''companion-workbook''}"

record scan_sum =
  sm_Total :: nat
  sm_Matched :: nat
  sm_Ignored :: nat
  sm_Unrecognized :: nat
  sm_Ambiguous :: nat
  sm_Demoted :: nat
  sm_Failed :: nat

type_synonym amb_key = "string \<times> string \<times> string \<times> string \<times> string"

record scan_env =
  sc_fault :: "nat \<Rightarrow> bool"
  sc_order :: "amb_key list \<Rightarrow> amb_key list"

datatype scan_err = ScanUpsert string | ScanNote string | ScanAmbiguity string | ScanDemote | RulesLoad | AmbiguousFiles nat | UnreadFiles nat

type_synonym ('v, 'sp, 'a) scan_act = "(('v, 'sp) pipe \<times> nat, scan_err, 'a) act"

record scan_state =
  st_Sum :: scan_sum
  st_Amb :: "(amb_key \<times> string \<times> int) list"

definition manifest_params :: "match_result \<Rightarrow> file_entry \<Rightarrow> manifest_row" where
  "manifest_params m e =
     \<lparr>mf_id = 0, mf_rel = fe_rel e, mf_sha = (case fe_content e of None \<Rightarrow> [] | Some c \<Rightarrow> sha256File c), mf_size = fe_size e,
      mf_framework = mr_framework m, mf_version = mr_version m, mf_role = mr_role m, mf_qualifier = mr_qualifier m,
      mf_format = mr_format m, mf_status = ''active'', mf_ignored = mr_ignore m, mf_reason = mr_reason m,
      mf_extracted = False, mf_normalized = False, mf_indexed = False, mf_error = []\<rparr>"

definition amb_key_of :: "match_result \<Rightarrow> amb_key" where
  "amb_key_of m = (deref (mr_framework m), deref (mr_version m), deref (mr_role m), mr_qualifier m, deref (mr_format m))"

definition read_note :: "file_entry \<Rightarrow> string" where
  "read_note e = ''read error: '' @ fe_rel e"

definition scan_file :: "scan_env \<Rightarrow> rule list \<Rightarrow> file_entry \<Rightarrow> scan_state \<Rightarrow> ('v, 'sp, scan_state) scan_act" where
  "scan_file ev rules e st =
     (let m = Match rules (fe_rel e) in
      bind (stmt (sc_fault ev) (ScanUpsert (fe_rel e)) (UpsertManifestFile (manifest_params m e))) (\<lambda>row.
      if fe_content e = None then
        bind (try_act (stmt (sc_fault ev) (ScanNote (fe_rel e)) (SetStageError (mf_id row) (read_note e)))) (\<lambda>_.
        ret (st\<lparr>st_Sum := (st_Sum st)\<lparr>sm_Failed := Suc (sm_Failed (st_Sum st))\<rparr>\<rparr>))
      else if mr_ignore m then ret (st\<lparr>st_Sum := (st_Sum st)\<lparr>sm_Ignored := Suc (sm_Ignored (st_Sum st))\<rparr>\<rparr>)
      else if \<not> mr_matched m then ret (st\<lparr>st_Sum := (st_Sum st)\<lparr>sm_Unrecognized := Suc (sm_Unrecognized (st_Sum st))\<rparr>\<rparr>)
      else ret (st\<lparr>st_Sum := (st_Sum st)\<lparr>sm_Matched := Suc (sm_Matched (st_Sum st))\<rparr>,
                   st_Amb := (if isParseEligible (deref (mr_role m))
                              then st_Amb st @ [(amb_key_of m, fe_rel e, mf_id row)] else st_Amb st)\<rparr>)))"

fun scan_files :: "scan_env \<Rightarrow> rule list \<Rightarrow> file_entry list \<Rightarrow> scan_state \<Rightarrow> ('v, 'sp, scan_state) scan_act" where
  "scan_files ev rules [] st = ret st"
| "scan_files ev rules (e # es) st = bind (scan_file ev rules e st) (\<lambda>st'. scan_files ev rules es st')"

text \<open>The entries of one identity, in the order of the scan.\<close>

definition amb_group :: "(amb_key \<times> string \<times> int) list \<Rightarrow> amb_key \<Rightarrow> (string \<times> int) list" where
  "amb_group amb k = map snd (filter (\<lambda>a. fst a = k) amb)"

definition amb_note :: "string list \<Rightarrow> string" where
  "amb_note paths = ''ambiguous: multiple files for same document identity: '' @ join '', '' paths"

definition note_group :: "scan_env \<Rightarrow> (string \<times> int) list \<Rightarrow> ('v, 'sp, nat) scan_act" where
  "note_group ev grp =
     (if length grp \<le> 1 then ret 0
      else bind (each (\<lambda>(rel, i). stmt (sc_fault ev) (ScanAmbiguity rel) (SetStageError i (amb_note (map fst grp)))) grp) (\<lambda>_.
           ret (length grp)))"

definition start_scan :: "nat \<Rightarrow> scan_state" where
  "start_scan k = \<lparr>st_Sum = \<lparr>sm_Total = k, sm_Matched = 0, sm_Ignored = 0, sm_Unrecognized = 0, sm_Ambiguous = 0,
                             sm_Demoted = 0, sm_Failed = 0\<rparr>, st_Amb = []\<rparr>"

definition Scan :: "scan_env \<Rightarrow> rule list \<Rightarrow> data_dir \<Rightarrow> ('v, 'sp, scan_sum) scan_act" where
  "Scan ev rules data =
     (let entries = walkFiles data in
      bind (scan_files ev rules entries (start_scan (length entries))) (\<lambda>st.
      bind (each (\<lambda>k. note_group ev (amb_group (st_Amb st) k)) (sc_order ev (remdups (map fst (st_Amb st))))) (\<lambda>ns.
      let sum1 = (st_Sum st)\<lparr>sm_Ambiguous := sum_list ns\<rparr> in
      if entries = [] then ret sum1
      else bind (stmt (sc_fault ev) ScanDemote (DemoteMissingManifestFiles (map fe_rel entries))) (\<lambda>d.
           ret (sum1\<lparr>sm_Demoted := d\<rparr>)))))"

section \<open>The stage (cmd/pipeline)\<close>

definition runManifest :: "scan_env \<Rightarrow> data_dir \<Rightarrow> ('v, 'sp, scan_sum) scan_act" where
  "runManifest ev data =
     bind (stmt (sc_fault ev) RulesLoad ListAllFileRules) (\<lambda>rules.
     bind (Scan ev rules data) (\<lambda>s.
     if 0 < sm_Ambiguous s then fail (AmbiguousFiles (sm_Ambiguous s))
     else if 0 < sm_Failed s then fail (UnreadFiles (sm_Failed s))
     else ret s))"

end
