(* ===== verification/Manifest_Props.thy ===== *)
theory Manifest_Props
  imports Manifest
begin

text \<open>
  The scan against a reference: the manifest it leaves is the old one with every row settled from the entry
  of its path, followed by a row for each new path.
\<close>

section \<open>The reference\<close>

definition row_for :: "rule list \<Rightarrow> file_entry \<Rightarrow> manifest_row" where
  "row_for rules e = manifest_params (Match rules (fe_rel e)) e"

definition refreshed :: "manifest_row \<Rightarrow> manifest_row \<Rightarrow> manifest_row" where
  "refreshed arg old =
     arg\<lparr>mf_id := mf_id old, mf_status := ''active'', mf_extracted := (mf_sha old = mf_sha arg \<and> mf_extracted old),
         mf_normalized := (mf_sha old = mf_sha arg \<and> mf_normalized old), mf_indexed := (mf_sha old = mf_sha arg \<and> mf_indexed old),
         mf_error := (if mf_sha old = mf_sha arg then mf_error old else [])\<rparr>"

definition enrolled :: "manifest_row \<Rightarrow> int \<Rightarrow> manifest_row" where
  "enrolled arg i = arg\<lparr>mf_id := i, mf_status := ''active'', mf_extracted := False, mf_normalized := False,
     mf_indexed := False, mf_error := []\<rparr>"

definition entry_at :: "file_entry list \<Rightarrow> string \<Rightarrow> file_entry option" where
  "entry_at es rel = List.find (\<lambda>e. fe_rel e = rel) es"

definition eligible :: "rule list \<Rightarrow> file_entry \<Rightarrow> bool" where
  "eligible rules e \<longleftrightarrow> (let m = Match rules (fe_rel e) in
     fe_content e \<noteq> None \<and> \<not> mr_ignore m \<and> mr_matched m \<and> isParseEligible (deref (mr_role m)))"

definition identity_key :: "rule list \<Rightarrow> file_entry \<Rightarrow> amb_key" where
  "identity_key rules e = amb_key_of (Match rules (fe_rel e))"

text \<open>The entries that claim the identity of an entry.\<close>

definition twins :: "rule list \<Rightarrow> file_entry list \<Rightarrow> amb_key \<Rightarrow> file_entry list" where
  "twins rules es k = filter (\<lambda>x. eligible rules x \<and> identity_key rules x = k) es"

definition ambiguous :: "rule list \<Rightarrow> file_entry list \<Rightarrow> file_entry \<Rightarrow> bool" where
  "ambiguous rules es e \<longleftrightarrow> eligible rules e \<and> 1 < length (twins rules es (identity_key rules e))"

definition read_noted :: "file_entry \<Rightarrow> manifest_row \<Rightarrow> manifest_row" where
  "read_noted e f = (if fe_content e = None then f\<lparr>mf_error := read_note e\<rparr> else f)"

definition settled :: "rule list \<Rightarrow> file_entry list \<Rightarrow> file_entry \<Rightarrow> manifest_row \<Rightarrow> manifest_row" where
  "settled rules es e f =
     (if ambiguous rules es e then f\<lparr>mf_error := amb_note (map fe_rel (twins rules es (identity_key rules e)))\<rparr>
      else read_noted e f)"

definition new_entries :: "manifest_row list \<Rightarrow> file_entry list \<Rightarrow> file_entry list" where
  "new_entries m es = filter (\<lambda>e. fe_rel e \<notin> mf_rel ` set m) es"

text \<open>The rows after the entries went in, \<open>fin\<close> applied to the row of each.\<close>

definition known_row :: "(file_entry \<Rightarrow> manifest_row \<Rightarrow> manifest_row) \<Rightarrow> rule list \<Rightarrow> file_entry list \<Rightarrow> manifest_row \<Rightarrow> manifest_row" where
  "known_row fin rules es f = (case entry_at es (mf_rel f) of None \<Rightarrow> f | Some e \<Rightarrow> fin e (refreshed (row_for rules e) f))"

fun new_rows :: "(file_entry \<Rightarrow> manifest_row \<Rightarrow> manifest_row) \<Rightarrow> rule list \<Rightarrow> int \<Rightarrow> file_entry list \<Rightarrow> manifest_row list" where
  "new_rows fin rules i [] = []"
| "new_rows fin rules i (e # es) = fin e (enrolled (row_for rules e) i) # new_rows fin rules (i + 1) es"

definition entered ::
  "(file_entry \<Rightarrow> manifest_row \<Rightarrow> manifest_row) \<Rightarrow> rule list \<Rightarrow> file_entry list \<Rightarrow> manifest_row list \<Rightarrow> int \<Rightarrow> manifest_row list" where
  "entered fin rules es m i = map (known_row fin rules es) m @ new_rows fin rules i (new_entries m es)"

definition left_behind :: "file_entry list \<Rightarrow> manifest_row \<Rightarrow> manifest_row" where
  "left_behind es f =
     (if es \<noteq> [] \<and> mf_status f = ''active'' \<and> mf_rel f \<notin> fe_rel ` set es then f\<lparr>mf_status := ''removed''\<rparr> else f)"

definition scanned :: "rule list \<Rightarrow> file_entry list \<Rightarrow> manifest_row list \<Rightarrow> int \<Rightarrow> manifest_row list" where
  "scanned rules es m i = map (left_behind es) (entered (settled rules es) rules es m i)"

definition table_ok :: "manifest_row list \<Rightarrow> int \<Rightarrow> bool" where
  "table_ok m i \<longleftrightarrow> distinct (map mf_rel m) \<and> distinct (map mf_id m) \<and> (\<forall>f \<in> set m. mf_id f < i)"

section \<open>One entry\<close>

lemma row_for_rel [simp]: "mf_rel (row_for rules e) = fe_rel e"
  by (simp add: row_for_def manifest_params_def)

lemma kept_rel [simp]:
  "mf_rel (refreshed a f) = mf_rel a" "mf_rel (enrolled a i) = mf_rel a" "mf_id (refreshed a f) = mf_id f" "mf_id (enrolled a i) = i"
  by (simp_all add: refreshed_def enrolled_def)

lemma row_for_ok: "\<forall>r \<in> set rules. rule_ok r \<Longrightarrow>
    (case mf_role (row_for rules e) of None \<Rightarrow> True | Some x \<Rightarrow> x \<in> set manifest_roles)
  \<and> (case mf_format (row_for rules e) of None \<Rightarrow> True | Some x \<Rightarrow> x \<in> set manifest_formats)"
proof -
  assume ok: "\<forall>r \<in> set rules. rule_ok r"
  have "rule_ok r" if "matchRule rules rel = Some r" for rel r
    using that ok by (auto simp: matchRule_def find_Some_iff)
  then show ?thesis
    by (fastforce simp: row_for_def manifest_params_def Match_def no_match_def rule_ok_def split: option.splits)
qed

lemma find_unique: "distinct (map g xs) \<Longrightarrow> x \<in> set xs \<Longrightarrow> g x = k \<Longrightarrow> List.find (\<lambda>y. g y = k) xs = Some x"
  by (induction xs) auto

lemma unique_row: "distinct (map mf_rel m) \<Longrightarrow> f \<in> set m \<Longrightarrow> x \<in> set m \<Longrightarrow> mf_rel x = mf_rel f \<Longrightarrow> x = f"
  by (simp add: distinct_map inj_on_def)

lemma upsert_found:
  assumes "case mf_role a of None \<Rightarrow> True | Some x \<Rightarrow> x \<in> set manifest_roles"
    and "case mf_format a of None \<Rightarrow> True | Some x \<Rightarrow> x \<in> set manifest_formats"
    and "List.find (\<lambda>x. mf_rel x = mf_rel a) (pp_manifest p) = Some f"
  shows "UpsertManifestFile a p = Some (refreshed a f,
     p\<lparr>pp_manifest := map (\<lambda>x. if mf_rel x = mf_rel a then refreshed a f else x) (pp_manifest p)\<rparr>)"
proof -
  have "\<not> ((case mf_role a of None \<Rightarrow> False | Some r \<Rightarrow> r \<notin> set manifest_roles)
      \<or> (case mf_format a of None \<Rightarrow> False | Some r \<Rightarrow> r \<notin> set manifest_formats))"
    using assms(1,2) by (auto split: option.splits)
  then show ?thesis using assms(3) by (simp add: UpsertManifestFile_def Let_def refreshed_def)
qed

lemma upsert_known:
  assumes "\<forall>r \<in> set rules. rule_ok r" and dist: "distinct (map mf_rel (pp_manifest p))"
    and f: "f \<in> set (pp_manifest p)" "mf_rel f = fe_rel e"
  shows "UpsertManifestFile (row_for rules e) p = Some (refreshed (row_for rules e) f,
     p\<lparr>pp_manifest := map (\<lambda>x. if mf_rel x = fe_rel e then refreshed (row_for rules e) x else x) (pp_manifest p)\<rparr>)"
proof -
  have "map (\<lambda>x. if mf_rel x = fe_rel e then refreshed (row_for rules e) f else x) (pp_manifest p)
      = map (\<lambda>x. if mf_rel x = fe_rel e then refreshed (row_for rules e) x else x) (pp_manifest p)"
    using unique_row [OF dist f(1)] f(2) by auto
  then show ?thesis using row_for_ok [OF assms(1), of e] find_unique [OF dist f] upsert_found [of "row_for rules e" p f]
    by simp
qed

lemma upsert_new:
  assumes "\<forall>r \<in> set rules. rule_ok r" and "fe_rel e \<notin> mf_rel ` set (pp_manifest p)"
  shows "UpsertManifestFile (row_for rules e) p = Some (enrolled (row_for rules e) (pp_next_file p),
     p\<lparr>pp_manifest := pp_manifest p @ [enrolled (row_for rules e) (pp_next_file p)], pp_next_file := pp_next_file p + 1\<rparr>)"
proof -
  have "List.find (\<lambda>x. mf_rel x = fe_rel e) (pp_manifest p) = None" using assms(2)
    by (force simp: find_None_iff)
  then show ?thesis using row_for_ok [OF assms(1), of e]
    by (auto simp: UpsertManifestFile_def Let_def enrolled_def split: option.splits)
qed

text \<open>The table after one entry, without and with the note of a read error.\<close>

lemma entered_known:
  assumes "f \<in> set m" and "mf_rel f = fe_rel e"
  shows "entered fin rules [e] m i = map (\<lambda>x. if mf_rel x = fe_rel e then fin e (refreshed (row_for rules e) x) else x) m"
  using assms by (force simp: entered_def known_row_def entry_at_def new_entries_def)

lemma entered_new:
  assumes "fe_rel e \<notin> mf_rel ` set m"
  shows "entered fin rules [e] m i = m @ [fin e (enrolled (row_for rules e) i)]"
proof -
  have "map (known_row fin rules [e]) m = m"
    by (rule map_idI) (use assms in \<open>auto simp: known_row_def entry_at_def\<close>)
  then show ?thesis using assms by (simp add: entered_def new_entries_def)
qed

definition next_id :: "manifest_row list \<Rightarrow> file_entry list \<Rightarrow> int \<Rightarrow> int" where
  "next_id m es i = i + int (length (new_entries m es))"

lemma entry_at_none: "entry_at es rel = None \<longleftrightarrow> rel \<notin> fe_rel ` set es"
  by (auto simp: entry_at_def find_None_iff)

lemma entry_at_some: "distinct (map fe_rel es) \<Longrightarrow> e \<in> set es \<Longrightarrow> entry_at es (fe_rel e) = Some e"
  unfolding entry_at_def by (rule find_unique) auto

lemma entry_at_in: "entry_at es rel = Some e \<Longrightarrow> e \<in> set es \<and> fe_rel e = rel"
  by (auto simp: entry_at_def find_Some_iff)

definition keeps_rel :: "(file_entry \<Rightarrow> manifest_row \<Rightarrow> manifest_row) \<Rightarrow> bool" where
  "keeps_rel fin \<longleftrightarrow> (\<forall>e f. mf_rel (fin e f) = mf_rel f \<and> mf_id (fin e f) = mf_id f)"

lemma known_row_keys:
  "keeps_rel fin \<Longrightarrow> mf_rel (known_row fin rules es f) = mf_rel f \<and> mf_id (known_row fin rules es f) = mf_id f"
  by (auto simp: known_row_def keeps_rel_def dest: entry_at_in split: option.split)

lemma new_rows_keys:
  "keeps_rel fin \<Longrightarrow> map mf_rel (new_rows fin rules i es) = map fe_rel es"
  "keeps_rel fin \<Longrightarrow> map mf_id (new_rows fin rules i es) = map (\<lambda>k. i + int k) [0..<length es]"
proof -
  show "keeps_rel fin \<Longrightarrow> map mf_rel (new_rows fin rules i es) = map fe_rel es"
    by (induction es arbitrary: i) (auto simp: keeps_rel_def)
  show "keeps_rel fin \<Longrightarrow> map mf_id (new_rows fin rules i es) = map (\<lambda>k. i + int k) [0..<length es]"
  proof (induction es arbitrary: i)
    case (Cons e es)
    have "map (\<lambda>k. i + int k) [0..<length (e # es)] = i # map (\<lambda>k. i + 1 + int k) [0..<length es]"
      by (simp add: upt_conv_Cons map_Suc_upt [symmetric] del: upt_Suc map_Suc_upt)
    then show ?case using Cons by (simp add: keeps_rel_def)
  qed simp
qed

text \<open>The entries one after the other, and all at once.\<close>

lemma entered_Cons:
  assumes fin: "keeps_rel fin" and new: "fe_rel e \<notin> fe_rel ` set es"
  shows "entered fin rules es (entered fin rules [e] m i) (next_id m [e] i) = entered fin rules (e # es) m i"
    and "next_id (entered fin rules [e] m i) es (next_id m [e] i) = next_id m (e # es) i"
proof -
  let ?m1 = "entered fin rules [e] m i"
  have none: "entry_at es (fe_rel e) = None" using new by (simp add: entry_at_none)
  have step: "known_row fin rules es (known_row fin rules [e] f) = known_row fin rules (e # es) f" for f
    using known_row_keys [OF fin, of rules "[e]" f] none
    by (auto simp: known_row_def entry_at_def split: option.splits)
  have stay: "known_row fin rules es (fin e (enrolled (row_for rules e) i)) = fin e (enrolled (row_for rules e) i)"
    using fin none by (simp add: known_row_def keeps_rel_def)
  have rels: "mf_rel ` set ?m1 = insert (fe_rel e) (mf_rel ` set m)"
  proof (cases "fe_rel e \<in> mf_rel ` set m")
    case True
    then obtain f where f: "f \<in> set m" "mf_rel f = fe_rel e" by auto
    have "map mf_rel ?m1 = map mf_rel m" unfolding entered_known [OF f] using fin by (auto simp: keeps_rel_def)
    then have "mf_rel ` set ?m1 = mf_rel ` set m" by (metis list.set_map)
    then show ?thesis using True by blast
  next
    case False
    then show ?thesis using fin by (simp add: entered_new keeps_rel_def)
  qed
  have new1: "new_entries ?m1 es = new_entries m es"
    using new unfolding new_entries_def rels by (intro filter_cong refl) (metis image_eqI insert_iff)
  show "entered fin rules es ?m1 (next_id m [e] i) = entered fin rules (e # es) m i"
  proof (cases "fe_rel e \<in> mf_rel ` set m")
    case True
    then have none_new: "new_entries m [e] = []" "new_entries m (e # es) = new_entries m es" by (auto simp: new_entries_def)
    then have "?m1 = map (known_row fin rules [e]) m" by (simp add: entered_def)
    then have "entered fin rules es ?m1 (next_id m [e] i) = map (known_row fin rules es) (map (known_row fin rules [e]) m)
        @ new_rows fin rules i (new_entries m es)"
      using new1 by (simp add: entered_def next_id_def none_new(1))
    then show ?thesis by (simp add: entered_def none_new step o_def)
  next
    case False
    then have one: "new_entries m [e] = [e]" "new_entries m (e # es) = e # new_entries m es" by (auto simp: new_entries_def)
    have m1: "?m1 = map (known_row fin rules [e]) m @ [fin e (enrolled (row_for rules e) i)]" by (simp add: entered_def one)
    show ?thesis
      unfolding entered_def [of fin rules es] new1 by (simp add: m1 step o_def stay next_id_def one entered_def)
  qed
  show "next_id ?m1 es (next_id m [e] i) = next_id m (e # es) i"
    unfolding next_id_def new1 by (simp add: new_entries_def)
qed

lemma entered_ok:
  assumes fin: "keeps_rel fin" and ok: "table_ok m i" and "distinct (map fe_rel es)"
  shows "table_ok (entered fin rules es m i) (next_id m es i)"
proof -
  let ?new = "new_entries m es"
  have rels: "map mf_rel (entered fin rules es m i) = map mf_rel m @ map fe_rel ?new"
    using fin by (simp add: entered_def new_rows_keys known_row_keys o_def)
  have ids: "map mf_id (entered fin rules es m i) = map mf_id m @ map (\<lambda>k. i + int k) [0..<length ?new]"
    using fin by (simp add: entered_def new_rows_keys known_row_keys o_def)
  have rel: "distinct (map mf_rel m)" and id: "distinct (map mf_id m)" and small: "f \<in> set m \<Longrightarrow> mf_id f < i" for f
    using ok by (auto simp: table_ok_def)
  have "distinct (map fe_rel ?new)" using assms(3) by (simp add: new_entries_def distinct_map_filter)
  moreover have "set (map mf_rel m) \<inter> set (map fe_rel ?new) = {}" by (auto simp: new_entries_def) (metis imageI)
  ultimately have "distinct (map mf_rel (entered fin rules es m i))" unfolding rels using rel by simp
  moreover have "distinct (map (\<lambda>k. i + int k) [0..<length ?new])" by (simp add: distinct_map inj_on_def)
  then have "distinct (map mf_id (entered fin rules es m i))" unfolding ids using id small by fastforce
  moreover have "x < next_id m es i" if "x \<in> set (map mf_id (entered fin rules es m i))" for x
    using that [unfolded ids] ok by (auto simp: table_ok_def next_id_def)
  ultimately show ?thesis by (simp add: table_ok_def)
qed


section \<open>The loop over the entries\<close>

definition id_at :: "manifest_row list \<Rightarrow> string \<Rightarrow> int" where
  "id_at m rel = mf_id (the (List.find (\<lambda>f. mf_rel f = rel) m))"

lemma id_at_row: "table_ok m i \<Longrightarrow> f \<in> set m \<Longrightarrow> id_at m (mf_rel f) = mf_id f"
  using find_unique [of mf_rel m f "mf_rel f"] by (simp add: id_at_def table_ok_def)

lemma same_id: "table_ok m i \<Longrightarrow> f \<in> set m \<Longrightarrow> x \<in> set m \<Longrightarrow> mf_id x = mf_id f \<longleftrightarrow> mf_rel x = mf_rel f"
  by (auto simp: table_ok_def distinct_map inj_on_def)

definition tally :: "rule list \<Rightarrow> file_entry \<Rightarrow> scan_sum \<Rightarrow> scan_sum" where
  "tally rules e s =
     (let m = Match rules (fe_rel e) in
      if fe_content e = None then s\<lparr>sm_Failed := Suc (sm_Failed s)\<rparr>
      else if mr_ignore m then s\<lparr>sm_Ignored := Suc (sm_Ignored s)\<rparr>
      else if \<not> mr_matched m then s\<lparr>sm_Unrecognized := Suc (sm_Unrecognized s)\<rparr>
      else s\<lparr>sm_Matched := Suc (sm_Matched s)\<rparr>)"

definition claim :: "rule list \<Rightarrow> manifest_row list \<Rightarrow> file_entry \<Rightarrow> amb_key \<times> string \<times> int" where
  "claim rules m e = (identity_key rules e, fe_rel e, id_at m (fe_rel e))"

definition with_table :: "manifest_row list \<Rightarrow> int \<Rightarrow> ('v, 'sp) pipe \<Rightarrow> ('v, 'sp) pipe" where
  "with_table m i p = p\<lparr>pp_manifest := m, pp_next_file := i\<rparr>"

lemma with_table_simps [simp]:
  "pp_manifest (with_table m i p) = m" "pp_next_file (with_table m i p) = i" "with_table m i (with_table m' i' p) = with_table m i p"
  "pp_corpus (with_table m i p) = pp_corpus p" "pp_raw (with_table m i p) = pp_raw p"
  by (simp_all add: with_table_def)

lemma with_own_table: "with_table (pp_manifest p) (pp_next_file p) p = p"
  by (simp add: with_table_def)

text \<open>What the upsert of an entry does to the table.\<close>

lemma upsert_entry:
  fixes p :: "('v, 'sp) pipe" and e :: file_entry
  assumes "\<forall>r \<in> set rules. rule_ok r" and ok: "table_ok (pp_manifest p) (pp_next_file p)"
  defines "m1 \<equiv> entered (\<lambda>e f. f) rules [e] (pp_manifest p) (pp_next_file p)"
  shows "\<exists>row \<in> set m1. mf_rel row = fe_rel e \<and> UpsertManifestFile (manifest_params (Match rules (fe_rel e)) e) p
     = Some (row, with_table m1 (next_id (pp_manifest p) [e] (pp_next_file p)) p)"
proof (cases "fe_rel e \<in> mf_rel ` set (pp_manifest p)")
  case True
  then obtain f where f: "f \<in> set (pp_manifest p)" "mf_rel f = fe_rel e" by auto
  have "next_id (pp_manifest p) [e] (pp_next_file p) = pp_next_file p" using True by (simp add: next_id_def new_entries_def)
  moreover have "m1 = map (\<lambda>x. if mf_rel x = fe_rel e then refreshed (row_for rules e) x else x) (pp_manifest p)"
    unfolding m1_def by (rule entered_known [OF f])
  moreover have "refreshed (row_for rules e) f \<in> set m1" using f calculation(2) by (auto intro!: image_eqI [of _ _ f])
  ultimately show ?thesis using upsert_known [OF assms(1) _ f] ok
    by (intro bexI [of _ "refreshed (row_for rules e) f"]) (simp_all add: table_ok_def with_table_def row_for_def [symmetric])
next
  case False
  then have "m1 = pp_manifest p @ [enrolled (row_for rules e) (pp_next_file p)]" unfolding m1_def by (rule entered_new)
  then show ?thesis using upsert_new [OF assms(1) False] False
    by (intro bexI [of _ "enrolled (row_for rules e) (pp_next_file p)"])
      (simp_all add: with_table_def next_id_def new_entries_def row_for_def [symmetric])
qed

lemma entered_fin:
  assumes fin: "keeps_rel fin" and "table_ok m i"
  shows "entered fin rules [e] m i = map (\<lambda>x. if mf_rel x = fe_rel e then fin e x else x) (entered (\<lambda>e f. f) rules [e] m i)"
proof (cases "fe_rel e \<in> mf_rel ` set m")
  case True
  then obtain f where f: "f \<in> set m" "mf_rel f = fe_rel e" by auto
  show ?thesis unfolding entered_known [OF f] by auto
next
  case False
  then show ?thesis unfolding entered_new [OF False] by (force intro!: map_idI [symmetric])
qed

lemma read_noted_keeps: "keeps_rel read_noted" "keeps_rel (\<lambda>e f. f)"
  by (simp_all add: keeps_rel_def read_noted_def)

lemma scan_file_spec:
  fixes p :: "('v, 'sp) pipe" and e :: file_entry
  assumes quiet: "\<forall>k. \<not> sc_fault ev k" and rules: "\<forall>r \<in> set rules. rule_ok r"
    and ok: "table_ok (pp_manifest p) (pp_next_file p)"
  defines "m1 \<equiv> entered read_noted rules [e] (pp_manifest p) (pp_next_file p)"
  shows "\<exists>n'. scan_file ev rules e st (p, n) =
     (Inr \<lparr>st_Sum = tally rules e (st_Sum st), st_Amb = st_Amb st @ (if eligible rules e then [claim rules m1 e] else [])\<rparr>,
      (with_table m1 (next_id (pp_manifest p) [e] (pp_next_file p)) p, n'))"
proof -
  let ?m0 = "entered (\<lambda>e f. f) rules [e] (pp_manifest p) (pp_next_file p)" and ?i = "next_id (pp_manifest p) [e] (pp_next_file p)"
  obtain row where row: "row \<in> set ?m0" "mf_rel row = fe_rel e"
    and up: "UpsertManifestFile (manifest_params (Match rules (fe_rel e)) e) p = Some (row, with_table ?m0 ?i p)"
    using upsert_entry [OF rules ok] by blast
  have m1: "m1 = map (\<lambda>x. if mf_rel x = fe_rel e then read_noted e x else x) ?m0"
    unfolding m1_def by (rule entered_fin [OF read_noted_keeps(1) ok])
  have ok0: "table_ok ?m0 ?i" by (rule entered_ok [OF read_noted_keeps(2) ok]) simp
  show ?thesis
  proof (cases "fe_content e")
    case None
    have "map (\<lambda>x. if mf_id x = mf_id row then x\<lparr>mf_error := read_note e\<rparr> else x) ?m0 = m1"
      unfolding m1 using same_id [OF ok0 row(1)] row(2) by (auto simp: read_noted_def None)
    then show ?thesis using quiet up None
      by (simp add: scan_file_def Let_def bind_def stmt_def try_act_def SetStageError_def upd_file_def ret_def tally_def
          eligible_def with_table_def)
  next
    case (Some c)
    have same: "m1 = ?m0" unfolding m1 by (rule map_idI) (simp add: read_noted_def Some)
    have "mf_id row = id_at m1 (fe_rel e)" using id_at_row [OF ok0 row(1)] row(2) same by simp
    then show ?thesis using quiet up Some
      by (simp add: scan_file_def Let_def bind_def stmt_def ret_def tally_def eligible_def same claim_def identity_key_def)
  qed
qed

lemma entered_rels:
  assumes "keeps_rel fin" and "e \<in> set es"
  shows "fe_rel e \<in> mf_rel ` set (entered fin rules es m i)"
proof (cases "fe_rel e \<in> mf_rel ` set m")
  case True
  then have "fe_rel e \<in> mf_rel ` known_row fin rules es ` set m" using known_row_keys [OF assms(1)] by (auto simp: image_image)
  then show ?thesis by (auto simp: entered_def)
next
  case False
  then have "fe_rel e \<in> set (map fe_rel (new_entries m es))" using assms(2) by (auto simp: new_entries_def)
  then have "fe_rel e \<in> set (map mf_rel (new_rows fin rules i (new_entries m es)))" using new_rows_keys(1) [OF assms(1)] by metis
  then show ?thesis by (auto simp: entered_def)
qed

lemma find_after:
  assumes "keeps_rel fin" and "table_ok m i" and "distinct (map fe_rel es)" and "f \<in> set m" and "mf_rel f \<notin> fe_rel ` set es"
  shows "id_at (entered fin rules es m i) (mf_rel f) = id_at m (mf_rel f)"
proof -
  have "known_row fin rules es f = f" using assms(5) by (simp add: known_row_def entry_at_none [THEN iffD2])
  then have "f \<in> set (entered fin rules es m i)" using assms(4) by (force simp: entered_def)
  then show ?thesis using id_at_row [OF entered_ok [OF assms(1-3)]] id_at_row [OF assms(2,4)] by simp
qed

lemma scan_files_spec:
  assumes quiet: "\<forall>k. \<not> sc_fault ev k" and rules: "\<forall>r \<in> set rules. rule_ok r"
  shows "table_ok (pp_manifest p) (pp_next_file p) \<Longrightarrow> distinct (map fe_rel es) \<Longrightarrow>
    \<exists>n'. scan_files ev rules es st (p, n) =
      (Inr \<lparr>st_Sum = fold (tally rules) es (st_Sum st),
            st_Amb = st_Amb st @ map (claim rules (entered read_noted rules es (pp_manifest p) (pp_next_file p))) (filter (eligible rules) es)\<rparr>,
       (with_table (entered read_noted rules es (pp_manifest p) (pp_next_file p)) (next_id (pp_manifest p) es (pp_next_file p)) p, n'))"
proof (induction es arbitrary: p n st)
  case Nil
  have "entered read_noted rules [] (pp_manifest p) (pp_next_file p) = pp_manifest p"
    by (auto simp: entered_def new_entries_def known_row_def entry_at_def intro!: map_idI)
  then show ?case by (simp add: ret_def next_id_def new_entries_def with_own_table)
next
  case (Cons e es)
  let ?m = "pp_manifest p" and ?i = "pp_next_file p"
  let ?m1 = "entered read_noted rules [e] ?m ?i" and ?i1 = "next_id ?m [e] ?i"
  have new: "fe_rel e \<notin> fe_rel ` set es" "distinct (map fe_rel es)" using Cons.prems(2) by auto
  have ok1: "table_ok ?m1 ?i1" by (rule entered_ok [OF read_noted_keeps(1) Cons.prems(1)]) simp
  obtain n1 where one: "scan_file ev rules e st (p, n) =
      (Inr \<lparr>st_Sum = tally rules e (st_Sum st), st_Amb = st_Amb st @ (if eligible rules e then [claim rules ?m1 e] else [])\<rparr>,
       (with_table ?m1 ?i1 p, n1))"
    using scan_file_spec [OF quiet rules Cons.prems(1)] by blast
  note all = entered_Cons [OF read_noted_keeps(1) new(1)]
  have "fe_rel e \<in> mf_rel ` set ?m1" by (rule entered_rels [OF read_noted_keeps(1)]) simp
  then obtain f where "f \<in> set ?m1" "mf_rel f = fe_rel e" by auto
  then have "claim rules (entered read_noted rules (e # es) ?m ?i) e = claim rules ?m1 e"
    using find_after [OF read_noted_keeps(1) ok1 new(2), of f rules] new(1) by (simp add: claim_def all)
  then have amb: "(if eligible rules e then [claim rules ?m1 e] else [])
      @ map (claim rules (entered read_noted rules (e # es) ?m ?i)) (filter (eligible rules) es)
      = map (claim rules (entered read_noted rules (e # es) ?m ?i)) (filter (eligible rules) (e # es))"
    by simp
  let ?st1 = "\<lparr>st_Sum = tally rules e (st_Sum st), st_Amb = st_Amb st @ (if eligible rules e then [claim rules ?m1 e] else [])\<rparr>"
  obtain n2 where "scan_files ev rules es ?st1 (with_table ?m1 ?i1 p, n1) =
      (Inr \<lparr>st_Sum = fold (tally rules) es (st_Sum ?st1),
            st_Amb = st_Amb ?st1 @ map (claim rules (entered read_noted rules (e # es) ?m ?i)) (filter (eligible rules) es)\<rparr>,
       (with_table (entered read_noted rules (e # es) ?m ?i) (next_id ?m (e # es) ?i) p, n2))"
    using Cons.IH [of "with_table ?m1 ?i1 p" ?st1 n1] ok1 new(2) by (auto simp: all)
  then have "scan_files ev rules (e # es) st (p, n) =
      (Inr \<lparr>st_Sum = fold (tally rules) (e # es) (st_Sum st),
            st_Amb = st_Amb st @ map (claim rules (entered read_noted rules (e # es) ?m ?i)) (filter (eligible rules) (e # es))\<rparr>,
       (with_table (entered read_noted rules (e # es) ?m ?i) (next_id ?m (e # es) ?i) p, n2))"
    unfolding amb [symmetric] by (simp add: bind_def one)
  then show ?case by blast
qed


section \<open>The ambiguities\<close>

lemma note_rows:
  fixes p :: "('v, 'sp) pipe"
  assumes "\<forall>k. \<not> sc_fault ev k"
  shows "\<exists>us n'. each (\<lambda>(rel, i). stmt (sc_fault ev) (ScanAmbiguity rel) (SetStageError i t)) grp (p, n)
    = (Inr us, (p\<lparr>pp_manifest := map (\<lambda>f. if mf_id f \<in> snd ` set grp then f\<lparr>mf_error := t\<rparr> else f) (pp_manifest p)\<rparr>, n'))"
proof (induction grp arbitrary: p n)
  case Nil
  then show ?case by (simp add: ret_def)
next
  case (Cons g grp)
  obtain rel i where g: "g = (rel, i)" by (cases g)
  let ?p1 = "p\<lparr>pp_manifest := map (\<lambda>f. if mf_id f = i then f\<lparr>mf_error := t\<rparr> else f) (pp_manifest p)\<rparr>"
  obtain us n' where rest: "each (\<lambda>(rel, i). stmt (sc_fault ev) (ScanAmbiguity rel) (SetStageError i t)) grp (?p1, Suc n)
      = (Inr us, (?p1\<lparr>pp_manifest := map (\<lambda>f. if mf_id f \<in> snd ` set grp then f\<lparr>mf_error := t\<rparr> else f) (pp_manifest ?p1)\<rparr>, n'))"
    using Cons.IH [of ?p1 "Suc n"] by blast
  have "map (\<lambda>f. if mf_id f \<in> snd ` set grp then f\<lparr>mf_error := t\<rparr> else f) (pp_manifest ?p1)
      = map (\<lambda>f. if mf_id f \<in> snd ` set (g # grp) then f\<lparr>mf_error := t\<rparr> else f) (pp_manifest p)"
    by (auto simp: g)
  then show ?case using rest assms by (simp add: g bind_def stmt_def SetStageError_def upd_file_def ret_def)
qed

definition hit :: "(amb_key \<times> string \<times> int) list \<Rightarrow> amb_key \<Rightarrow> manifest_row \<Rightarrow> bool" where
  "hit amb k f \<longleftrightarrow> 1 < length (amb_group amb k) \<and> mf_id f \<in> snd ` set (amb_group amb k)"

definition marked_by :: "(amb_key \<times> string \<times> int) list \<Rightarrow> amb_key \<Rightarrow> manifest_row \<Rightarrow> manifest_row" where
  "marked_by amb k f = (if hit amb k f then f\<lparr>mf_error := amb_note (map fst (amb_group amb k))\<rparr> else f)"

definition group_size :: "(amb_key \<times> string \<times> int) list \<Rightarrow> amb_key \<Rightarrow> nat" where
  "group_size amb k = (if length (amb_group amb k) \<le> 1 then 0 else length (amb_group amb k))"

lemma note_groups:
  fixes p :: "('v, 'sp) pipe"
  assumes "\<forall>k. \<not> sc_fault ev k"
  shows "\<exists>n'. each (\<lambda>k. note_group ev (amb_group amb k)) ks (p, n)
    = (Inr (map (group_size amb) ks), (p\<lparr>pp_manifest := map (fold (marked_by amb) ks) (pp_manifest p)\<rparr>, n'))"
proof (induction ks arbitrary: p n)
  case Nil
  then show ?case by (simp add: ret_def)
next
  case (Cons k ks)
  let ?grp = "amb_group amb k"
  let ?p1 = "p\<lparr>pp_manifest := map (marked_by amb k) (pp_manifest p)\<rparr>"
  have "\<exists>n1. note_group ev ?grp (p, n) = (Inr (group_size amb k), (?p1, n1))"
  proof (cases "length ?grp \<le> 1")
    case True
    then have "map (marked_by amb k) (pp_manifest p) = pp_manifest p"
      by (intro map_idI) (simp add: marked_by_def hit_def)
    then show ?thesis using True by (simp add: note_group_def group_size_def ret_def)
  next
    case False
    have "(\<lambda>f. if mf_id f \<in> snd ` set ?grp then f\<lparr>mf_error := amb_note (map fst ?grp)\<rparr> else f) = marked_by amb k"
      using False by (auto simp: marked_by_def hit_def)
    then show ?thesis
      using note_rows [OF assms, of "amb_note (map fst ?grp)" ?grp p n] False
      by (auto simp: note_group_def group_size_def bind_def ret_def)
  qed
  then obtain n1 where one: "note_group ev ?grp (p, n) = (Inr (group_size amb k), (?p1, n1))" by blast
  show ?case using Cons.IH [of ?p1 n1] one by (auto simp: bind_def ret_def o_def)
qed

lemma marked_again:
  "marked_by amb k (if P then f\<lparr>mf_error := t\<rparr> else f)
     = (if hit amb k f then f\<lparr>mf_error := amb_note (map fst (amb_group amb k))\<rparr> else if P then f\<lparr>mf_error := t\<rparr> else f)"
  by (simp add: marked_by_def hit_def)

lemma fold_marks:
  assumes "\<forall>k \<in> set ks. hit amb k f \<longrightarrow> k = k0"
  shows "fold (marked_by amb) ks f = (if k0 \<in> set ks \<and> hit amb k0 f then f\<lparr>mf_error := amb_note (map fst (amb_group amb k0))\<rparr> else f)"
  using assms
proof (induction ks rule: rev_induct)
  case (snoc k ks)
  have IH: "fold (marked_by amb) ks f = (if k0 \<in> set ks \<and> hit amb k0 f then f\<lparr>mf_error := amb_note (map fst (amb_group amb k0))\<rparr> else f)"
    by (rule snoc.IH) (use snoc.prems in auto)
  have only: "hit amb k f \<Longrightarrow> k = k0" using snoc.prems by simp
  have "fold (marked_by amb) (ks @ [k]) f = marked_by amb k (fold (marked_by amb) ks f)" by simp
  also have "\<dots> = (if hit amb k f then f\<lparr>mf_error := amb_note (map fst (amb_group amb k))\<rparr> else fold (marked_by amb) ks f)"
    unfolding IH by (rule marked_again)
  also have "\<dots> = (if k0 \<in> set (ks @ [k]) \<and> hit amb k0 f then f\<lparr>mf_error := amb_note (map fst (amb_group amb k0))\<rparr> else f)"
    unfolding IH using only by auto
  finally show ?case .
qed simp

lemma claimed_groups:
  "amb_group (map (claim rules m) (filter (eligible rules) es)) k = map (\<lambda>e. (fe_rel e, id_at m (fe_rel e))) (twins rules es k)"
  by (induction es) (auto simp: amb_group_def claim_def twins_def)

lemma hit_row:
  assumes ok: "table_ok m i" and f: "f \<in> set m" and rels: "\<forall>e \<in> set es. fe_rel e \<in> mf_rel ` set m"
    and dist: "distinct (map fe_rel es)"
  shows "hit (map (claim rules m) (filter (eligible rules) es)) k f
    \<longleftrightarrow> (case entry_at es (mf_rel f) of None \<Rightarrow> False | Some e \<Rightarrow> ambiguous rules es e \<and> identity_key rules e = k)"
proof -
  have id: "id_at m (fe_rel e) = mf_id f \<longleftrightarrow> fe_rel e = mf_rel f" if "e \<in> set es" for e
  proof -
    have "fe_rel e \<in> mf_rel ` set m" using rels that by blast
    then obtain x where "x \<in> set m" "mf_rel x = fe_rel e" by auto
    then show ?thesis using id_at_row [OF ok, of x] same_id [OF ok f, of x] by auto
  qed
  have "mf_id f \<in> snd ` set (amb_group (map (claim rules m) (filter (eligible rules) es)) k)
      \<longleftrightarrow> (\<exists>e \<in> set es. fe_rel e = mf_rel f \<and> eligible rules e \<and> identity_key rules e = k)"
    unfolding claimed_groups using id by (force simp: twins_def)
  also have "\<dots> \<longleftrightarrow> (case entry_at es (mf_rel f) of None \<Rightarrow> False | Some e \<Rightarrow> eligible rules e \<and> identity_key rules e = k)"
  proof (cases "entry_at es (mf_rel f)")
    case None
    then show ?thesis using entry_at_none [of es "mf_rel f"] by force
  next
    case (Some x)
    then have "e \<in> set es \<and> fe_rel e = mf_rel f \<longleftrightarrow> e = x" for e
      using entry_at_in [OF Some] entry_at_some [OF dist, of e] by auto
    then show ?thesis unfolding Some by simp metis
  qed
  finally show ?thesis by (auto simp: hit_def claimed_groups ambiguous_def split: option.splits)
qed

end
