(* ===== verification/Manifest_Claims.thy ===== *)
theory Manifest_Claims
  imports Manifest_Props
begin

text \<open>
  The properties of the manifest stage: what a scan leaves, that a second scan changes nothing, and what a
  pattern with one star matches; and three cases where the manifest says less than the directory.
\<close>

section \<open>Paths of the walk\<close>

fun node_ok :: "fs_node \<Rightarrow> bool" and list_ok :: "(string \<times> fs_node) list \<Rightarrow> bool" where
  "node_ok (Leaf sz content) \<longleftrightarrow> True"
| "node_ok (Folder es) \<longleftrightarrow> list_ok es"
| "list_ok [] \<longleftrightarrow> True"
| "list_ok ((name, node) # es) \<longleftrightarrow> name \<noteq> [] \<and> CHR ''/'' \<notin> set name \<and> name \<notin> fst ` set es \<and> node_ok node \<and> list_ok es"

definition below :: "string \<Rightarrow> string \<Rightarrow> bool" where
  "below rel path \<longleftrightarrow> path = rel \<or> (\<exists>t. path = rel @ ''/'' @ t)"

lemma below_under: "name \<noteq> [] \<Longrightarrow> rel \<noteq> [] \<Longrightarrow> below (under rel name) path \<Longrightarrow> below rel path"
  by (auto simp: below_def under_def)

lemma list_ok_names: "list_ok es \<Longrightarrow> name \<in> fst ` set es \<Longrightarrow> name \<noteq> [] \<and> CHR ''/'' \<notin> set name"
proof (induction es)
  case (Cons a es)
  then show ?case by (cases a) (simp, metis)
qed simp

lemma walk_below:
  "rel \<noteq> [] \<Longrightarrow> node_ok node \<Longrightarrow> e \<in> set (walk_node rel node) \<Longrightarrow> below rel (fe_rel e)"
  "list_ok es \<Longrightarrow> e \<in> set (walk_list dir es) \<Longrightarrow> \<exists>name \<in> fst ` set es. below (under dir name) (fe_rel e)"
proof (induction rel node and dir es rule: walk_node_walk_list.induct)
  case (2 rel es)
  then obtain name where name: "name \<in> fst ` set es" "below (under rel name) (fe_rel e)" by auto
  have "name \<noteq> []" using list_ok_names [of es name] 2(3) name(1) by simp
  then show ?case using below_under 2(2) name(2) by blast
next
  case (4 dir name node es)
  then show ?case by (auto simp: under_def split: if_splits)
qed (auto simp: below_def)

lemma first_segment: "CHR ''/'' \<notin> set x \<Longrightarrow> takeWhile (\<lambda>c. c \<noteq> CHR ''/'') (x @ CHR ''/'' # t) = x"
  "CHR ''/'' \<notin> set x \<Longrightarrow> takeWhile (\<lambda>c. c \<noteq> CHR ''/'') x = x"
  by (induction x) auto

lemma below_segment:
  assumes "below (under dir x) path" and "CHR ''/'' \<notin> set x"
  shows "takeWhile (\<lambda>c. c \<noteq> CHR ''/'') (drop (if dir = [] then 0 else Suc (length dir)) path) = x"
proof -
  have "drop (if dir = [] then 0 else Suc (length dir)) (under dir x @ t) = x @ t" for t by (simp add: under_def)
  from this [of "[]"] this show ?thesis
    using assms(1) first_segment [OF assms(2)] unfolding below_def by (elim disjE exE) simp_all
qed

lemma below_same:
  assumes "below (under dir a) path" and "below (under dir b) path" and "CHR ''/'' \<notin> set a" and "CHR ''/'' \<notin> set b"
  shows "a = b"
  using below_segment [OF assms(1,3)] below_segment [OF assms(2,4)] by simp

lemma walk_distinct:
  "node_ok node \<Longrightarrow> distinct (map fe_rel (walk_node rel node))"
  "list_ok es \<Longrightarrow> distinct (map fe_rel (walk_list dir es))"
proof (induction rel node and dir es rule: walk_node_walk_list.induct)
  case (4 dir name node es)
  have "fe_rel x \<noteq> fe_rel y" if x: "x \<in> set (walk_node (under dir name) node)" and y: "y \<in> set (walk_list dir es)" for x y
  proof
    assume same: "fe_rel x = fe_rel y"
    have "under dir name \<noteq> []" using 4(3) by (auto simp: under_def)
    then have "below (under dir name) (fe_rel x)" using walk_below(1) [OF _ _ x] 4(3) by simp
    moreover obtain b where b: "b \<in> fst ` set es" "below (under dir b) (fe_rel y)" using walk_below(2) [OF _ y] 4(3) by auto
    moreover have "CHR ''/'' \<notin> set b" using list_ok_names [of es b] 4(3) b(1) by auto
    ultimately have "name = b" using below_same 4(3) same by auto
    then show False using b(1) 4(3) by simp
  qed
  then show ?case using 4 by (auto split: if_splits)
qed simp_all

lemma walkFiles_distinct: "list_ok (snd data) \<Longrightarrow> distinct (map fe_rel (walkFiles data))"
proof -
  let ?es = "if fst data = ''.git'' then [] else walk_list [] (snd data)"
  assume "list_ok (snd data)"
  then have "distinct (map fe_rel ?es)" using walk_distinct(2) by simp
  then show ?thesis unfolding walkFiles_def
    by (simp add: distinct_map inj_on_def distinct_sort del: if_distrib)
qed

section \<open>The scan\<close>

definition fair_order :: "scan_env \<Rightarrow> bool" where
  "fair_order ev \<longleftrightarrow> (\<forall>ks. distinct ks \<longrightarrow> set (sc_order ev ks) = set ks \<and> distinct (sc_order ev ks))"

definition mark_ambiguous :: "rule list \<Rightarrow> file_entry list \<Rightarrow> manifest_row \<Rightarrow> manifest_row" where
  "mark_ambiguous rules es f = (case entry_at es (mf_rel f) of None \<Rightarrow> f | Some e \<Rightarrow>
     if ambiguous rules es e then f\<lparr>mf_error := amb_note (map fe_rel (twins rules es (identity_key rules e)))\<rparr> else f)"

lemma marks_settle:
  assumes ok: "table_ok m i" and rels: "\<forall>e \<in> set es. fe_rel e \<in> mf_rel ` set m" and dist: "distinct (map fe_rel es)"
    and ks: "set ks = identity_key rules ` set (filter (eligible rules) es)"
  shows "map (fold (marked_by (map (claim rules m) (filter (eligible rules) es))) ks) m = map (mark_ambiguous rules es) m"
proof (rule map_cong [OF refl])
  fix f assume f: "f \<in> set m"
  let ?amb = "map (claim rules m) (filter (eligible rules) es)"
  note hits = hit_row [OF ok f rels dist]
  show "fold (marked_by ?amb) ks f = mark_ambiguous rules es f"
  proof (cases "entry_at es (mf_rel f)")
    case None
    then show ?thesis
      using fold_marks [of ks ?amb f undefined] by (simp add: hits mark_ambiguous_def)
  next
    case (Some e)
    have "identity_key rules e \<in> set ks" if "ambiguous rules es e"
      using that entry_at_in [OF Some] unfolding ks by (simp add: ambiguous_def)
    then show ?thesis
      using fold_marks [of ks ?amb f "identity_key rules e"] Some
      by (auto simp: hits mark_ambiguous_def claimed_groups o_def)
  qed
qed

lemma settled_keeps: "keeps_rel (settled rules es)"
  by (simp add: keeps_rel_def settled_def read_noted_def)

lemma settled_mark:
  assumes "distinct (map fe_rel es)" and "e \<in> set es" and "mf_rel f = fe_rel e"
  shows "mark_ambiguous rules es (read_noted e f) = settled rules es e f"
proof -
  have "entry_at es (mf_rel (read_noted e f)) = Some e" using entry_at_some [OF assms(1,2)] assms(3) by (simp add: read_noted_def)
  moreover have "read_noted e f = f" if "ambiguous rules es e" using that by (auto simp: ambiguous_def eligible_def Let_def read_noted_def)
  ultimately show ?thesis by (simp add: mark_ambiguous_def settled_def)
qed

lemma marked_entered:
  assumes "distinct (map fe_rel es)"
  shows "map (mark_ambiguous rules es) (entered read_noted rules es m i) = entered (settled rules es) rules es m i"
proof -
  have known: "mark_ambiguous rules es (known_row read_noted rules es f) = known_row (settled rules es) rules es f" for f
  proof (cases "entry_at es (mf_rel f)")
    case None
    then show ?thesis by (simp add: known_row_def mark_ambiguous_def)
  next
    case (Some e)
    then show ?thesis
      using settled_mark [OF assms, of e "refreshed (row_for rules e) f"] entry_at_in [OF Some] by (simp add: known_row_def)
  qed
  have "map (mark_ambiguous rules es) (new_rows read_noted rules i xs) = new_rows (settled rules es) rules i xs"
    if "set xs \<subseteq> set es" for i xs
    using that settled_mark [OF assms] by (induction xs arbitrary: i) auto
  then show ?thesis by (simp add: entered_def known o_def new_entries_def)
qed

lemma tally_failed: "sm_Failed (fold (tally rules) es s) = sm_Failed s + length (filter (\<lambda>e. fe_content e = None) es)"
  by (induction es arbitrary: s) (auto simp: tally_def Let_def)

lemma tally_total: "sm_Total (fold (tally rules) es s) = sm_Total s"
  by (induction es arbitrary: s) (auto simp: tally_def Let_def)

lemma ambiguous_sum:
  assumes "set ks = identity_key rules ` set (filter (eligible rules) es)"
  shows "0 < sum_list (map (group_size (map (claim rules m) (filter (eligible rules) es))) ks) \<longleftrightarrow> (\<exists>e \<in> set es. ambiguous rules es e)"
proof -
  have "0 < sum_list (map (group_size amb) ks) \<longleftrightarrow> (\<exists>k \<in> set ks. 1 < length (amb_group amb k))" for amb
    by (induction ks) (auto simp: group_size_def)
  then show ?thesis unfolding assms by (auto simp: claimed_groups ambiguous_def)
qed

lemma demoted: "map (\<lambda>f. if mf_status f = ''active'' \<and> mf_rel f \<notin> set (map fe_rel es) then f\<lparr>mf_status := ''removed''\<rparr> else f) m
    = map (left_behind es) m" if "es \<noteq> []"
  using that by (simp add: left_behind_def)

lemma bind_step: "m s = (Inr x, s1) \<Longrightarrow> bind m f s = f x s1"
  by (simp add: bind_def)

lemma scan_spec:
  fixes p :: "('v, 'sp) pipe"
  assumes quiet: "\<forall>k. \<not> sc_fault ev k" and order: "fair_order ev" and rules: "\<forall>r \<in> set rules. rule_ok r"
    and ok: "table_ok (pp_manifest p) (pp_next_file p)" and data: "list_ok (snd data)"
  shows "\<exists>s n'. Scan ev rules data (p, n) = (Inr s, (with_table (scanned rules (walkFiles data) (pp_manifest p) (pp_next_file p))
            (next_id (pp_manifest p) (walkFiles data) (pp_next_file p)) p, n'))
     \<and> sm_Total s = length (walkFiles data)
     \<and> sm_Failed s = length (filter (\<lambda>e. fe_content e = None) (walkFiles data))
     \<and> (0 < sm_Ambiguous s \<longleftrightarrow> (\<exists>e \<in> set (walkFiles data). ambiguous rules (walkFiles data) e))"
proof -
  let ?es = "walkFiles data" and ?m = "pp_manifest p" and ?i = "pp_next_file p"
  let ?M = "entered read_noted rules ?es ?m ?i" and ?I = "next_id ?m ?es ?i"
  let ?amb = "map (claim rules ?M) (filter (eligible rules) ?es)"
  let ?ks = "sc_order ev (remdups (map fst ?amb))"
  note dist = walkFiles_distinct [OF data]
  have ok1: "table_ok ?M ?I" by (rule entered_ok [OF read_noted_keeps(1) ok dist])
  obtain n1 where files: "scan_files ev rules ?es (start_scan (length ?es)) (p, n) =
      (Inr \<lparr>st_Sum = fold (tally rules) ?es (st_Sum (start_scan (length ?es))), st_Amb = ?amb\<rparr>, (with_table ?M ?I p, n1))"
    using scan_files_spec [OF quiet rules ok dist, of "start_scan (length ?es)" n] by (auto simp: start_scan_def)
  have ks: "set ?ks = identity_key rules ` set (filter (eligible rules) ?es)"
    using order by (auto simp: fair_order_def claim_def image_image)
  obtain n2 where groups: "each (\<lambda>k. note_group ev (amb_group ?amb k)) ?ks (with_table ?M ?I p, n1)
      = (Inr (map (group_size ?amb) ?ks), (with_table (map (fold (marked_by ?amb) ?ks) ?M) ?I p, n2))"
    using note_groups [OF quiet, of ?amb ?ks "with_table ?M ?I p" n1] by (auto simp: with_table_def)
  have M: "map (fold (marked_by ?amb) ?ks) ?M = entered (settled rules ?es) rules ?es ?m ?i"
    using marks_settle [OF ok1 _ dist ks] entered_rels [OF read_noted_keeps(1)] marked_entered [OF dist] by simp
  let ?s = "(fold (tally rules) ?es (st_Sum (start_scan (length ?es))))\<lparr>sm_Ambiguous := sum_list (map (group_size ?amb) ?ks)\<rparr>"
  have sums: "sm_Total ?s = length ?es" "sm_Failed ?s = length (filter (\<lambda>e. fe_content e = None) ?es)"
    "0 < sm_Ambiguous ?s \<longleftrightarrow> (\<exists>e \<in> set ?es. ambiguous rules ?es e)"
    using ambiguous_sum [OF ks, of ?M] by (simp_all add: tally_failed tally_total start_scan_def)
  have phases: "Scan ev rules data (p, n) = (if ?es = [] then ret ?s
      else bind (stmt (sc_fault ev) ScanDemote (DemoteMissingManifestFiles (map fe_rel ?es))) (\<lambda>d. ret (?s\<lparr>sm_Demoted := d\<rparr>)))
      (with_table (entered (settled rules ?es) rules ?es ?m ?i) ?I p, n2)"
    by (simp only: Scan_def Let_def bind_step [where m = "scan_files ev rules ?es (start_scan (length ?es))", OF files] scan_state.select_convs bind_step [where m = "each (\<lambda>k. note_group ev (amb_group ?amb k)) ?ks", OF groups] M)
  show ?thesis
  proof (cases "?es = []")
    case True
    then have "scanned rules ?es ?m ?i = entered (settled rules ?es) rules ?es ?m ?i"
      unfolding scanned_def by (intro map_idI) (simp add: left_behind_def)
    then have "Scan ev rules data (p, n) = (Inr ?s, (with_table (scanned rules ?es ?m ?i) ?I p, n2))"
      unfolding phases if_P [OF True] by (simp add: ret_def)
    then show ?thesis using sums by (intro exI [of _ ?s] exI [of _ n2] conjI)
  next
    case False
    have "Scan ev rules data (p, n) = (Inr (?s\<lparr>sm_Demoted := length (filter (\<lambda>f. mf_status f = ''active'' \<and> mf_rel f \<notin> set (map fe_rel ?es))
        (entered (settled rules ?es) rules ?es ?m ?i))\<rparr>), (with_table (scanned rules ?es ?m ?i) ?I p, Suc n2))"
      unfolding phases if_not_P [OF False] using quiet demoted [OF False]
      by (simp add: bind_def ret_def stmt_def DemoteMissingManifestFiles_def scanned_def with_table_def)
    then show ?thesis using sums by (intro exI conjI) (assumption, simp_all)
  qed
qed

section \<open>What the stage leaves\<close>

definition scan_ready :: "scan_env \<Rightarrow> ('v, 'sp) pipe \<Rightarrow> data_dir \<Rightarrow> bool" where
  "scan_ready ev p data \<longleftrightarrow> fair_order ev \<and> list_ok (snd data) \<and> (\<forall>r \<in> set (pp_rules p). rule_ok r)
     \<and> table_ok (pp_manifest p) (pp_next_file p)"

definition the_rules :: "('v, 'sp) pipe \<Rightarrow> rule list" where
  "the_rules p = sort_key rl_Ordinal (pp_rules p)"

definition after_scan :: "data_dir \<Rightarrow> ('v, 'sp) pipe \<Rightarrow> ('v, 'sp) pipe" where
  "after_scan data p = with_table (scanned (the_rules p) (walkFiles data) (pp_manifest p) (pp_next_file p))
     (next_id (pp_manifest p) (walkFiles data) (pp_next_file p)) p"

text \<open>No two eligible files share an identity and every file can be read.\<close>

definition clean_dir :: "rule list \<Rightarrow> data_dir \<Rightarrow> bool" where
  "clean_dir rules data \<longleftrightarrow> (\<forall>e \<in> set (walkFiles data). fe_content e \<noteq> None \<and> \<not> ambiguous rules (walkFiles data) e)"

lemma runManifest_spec:
  fixes p :: "('v, 'sp) pipe"
  assumes "\<forall>k. \<not> sc_fault ev k" and ready: "scan_ready ev p data"
  shows "\<exists>r n'. runManifest ev data (p, n) = (r, (after_scan data p, n')) \<and> ((\<exists>s. r = Inr s) \<longleftrightarrow> clean_dir (the_rules p) data)"
proof -
  have rules: "\<forall>r \<in> set (the_rules p). rule_ok r" using ready by (simp add: scan_ready_def the_rules_def)
  obtain s n' where scan: "Scan ev (the_rules p) data (p, Suc n) = (Inr s, (after_scan data p, n'))"
    and failed: "sm_Failed s = length (filter (\<lambda>e. fe_content e = None) (walkFiles data))"
    and amb: "0 < sm_Ambiguous s \<longleftrightarrow> (\<exists>e \<in> set (walkFiles data). ambiguous (the_rules p) (walkFiles data) e)"
    using scan_spec [OF assms(1) _ rules, of p data "Suc n"] ready by (auto simp: scan_ready_def after_scan_def)
  have "sm_Failed s = 0 \<longleftrightarrow> (\<forall>e \<in> set (walkFiles data). fe_content e \<noteq> None)"
    unfolding failed by (simp add: filter_empty_conv)
  then have clean: "clean_dir (the_rules p) data \<longleftrightarrow> sm_Ambiguous s = 0 \<and> sm_Failed s = 0"
    using amb by (auto simp: clean_dir_def)
  have "runManifest ev data (p, n) = (if 0 < sm_Ambiguous s then fail (AmbiguousFiles (sm_Ambiguous s))
      else if 0 < sm_Failed s then fail (UnreadFiles (sm_Failed s)) else ret s) (after_scan data p, n')"
    using assms(1) scan by (simp add: runManifest_def bind_def stmt_def ListAllFileRules_def the_rules_def)
  then show ?thesis unfolding clean by (cases "0 < sm_Ambiguous s"; cases "0 < sm_Failed s") (simp_all add: fail_def ret_def)
qed

section \<open>A second scan\<close>

text \<open>The row of an entry: the columns of its rule over an id and marks.\<close>

definition row_of :: "rule list \<Rightarrow> file_entry \<Rightarrow> manifest_row \<Rightarrow> bool" where
  "row_of rules e f \<longleftrightarrow> f = (row_for rules e)\<lparr>mf_id := mf_id f, mf_extracted := mf_extracted f, mf_normalized := mf_normalized f,
     mf_indexed := mf_indexed f, mf_error := mf_error f\<rparr>"

lemma row_for_active [simp]: "mf_status (row_for rules e) = ''active''"
  by (simp add: row_for_def manifest_params_def)

lemma fresh_rows: "row_of rules e (refreshed (row_for rules e) f)" "row_of rules e (enrolled (row_for rules e) i)"
  by (simp_all add: row_of_def refreshed_def enrolled_def)

lemma row_of_error: "row_of rules e (f\<lparr>mf_error := t\<rparr>) \<longleftrightarrow> row_of rules e f"
  by (cases f; cases "row_for rules e") (simp add: row_of_def)

lemma row_of_settled: "row_of rules e (settled rules es e f) \<longleftrightarrow> row_of rules e f"
  by (simp add: settled_def read_noted_def row_of_error)

lemma row_of_refreshed: "row_of rules e f \<Longrightarrow> refreshed (row_for rules e) f = f"
  using row_for_active [of rules e] by (cases f; cases "row_for rules e") (simp add: row_of_def refreshed_def)

lemma new_rows_in:
  "f \<in> set (new_rows fin rules i es) \<Longrightarrow> \<exists>e \<in> set es. \<exists>k. f = fin e (enrolled (row_for rules e) k)"
  by (induction es arbitrary: i) auto

text \<open>The file was extracted before with the content it has.\<close>

definition entry_sha :: "file_entry \<Rightarrow> string" where
  "entry_sha e = (case fe_content e of None \<Rightarrow> [] | Some c \<Rightarrow> sha256File c)"

definition extracted_before :: "manifest_row list \<Rightarrow> file_entry \<Rightarrow> bool" where
  "extracted_before m e \<longleftrightarrow> (\<exists>f \<in> set m. mf_rel f = fe_rel e \<and> mf_sha f = entry_sha e \<and> mf_extracted f)"

lemma row_for_sha: "mf_sha (row_for rules e) = entry_sha e"
  by (simp add: row_for_def manifest_params_def entry_sha_def)

lemma scanned_row:
  assumes ok: "table_ok m i" and dist: "distinct (map fe_rel es)" and f: "f \<in> set (scanned rules es m i)"
  shows "case entry_at es (mf_rel f) of
      None \<Rightarrow> \<exists>f0 \<in> set m. f = left_behind es f0
    | Some e \<Rightarrow> \<exists>g. row_of rules e g \<and> f = settled rules es e g \<and> (mf_extracted g \<longleftrightarrow> extracted_before m e)"
proof -
  obtain g where g: "g \<in> set (entered (settled rules es) rules es m i)" "f = left_behind es g"
    using f by (auto simp: scanned_def)
  have rel: "mf_rel f = mf_rel g" unfolding g(2) left_behind_def by simp
  have same: "left_behind es g = g" if "entry_at es (mf_rel g) = Some e" for e
    using entry_at_in [OF that] by (metis imageI left_behind_def)
  show ?thesis
  proof (cases "g \<in> known_row (settled rules es) rules es ` set m")
    case True
    then obtain f0 where f0: "f0 \<in> set m" "g = known_row (settled rules es) rules es f0" by blast
    have same_rel: "mf_rel g = mf_rel f0" using known_row_keys [OF settled_keeps] f0(2) by simp
    show ?thesis
    proof (cases "entry_at es (mf_rel f0)")
      case None
      then show ?thesis using f0 g(2) rel same_rel by (auto simp: known_row_def)
    next
      case (Some e)
      have "extracted_before m e \<longleftrightarrow> mf_extracted (refreshed (row_for rules e) f0)"
        using unique_row [of m f0] f0(1) ok entry_at_in [OF Some]
        by (auto simp: extracted_before_def refreshed_def row_for_sha table_ok_def)
      then show ?thesis using f0 g(2) rel same_rel same Some fresh_rows(1) by (auto simp: known_row_def)
    qed
  next
    case False
    then have "g \<in> set (new_rows (settled rules es) rules i (new_entries m es))" using g(1) by (auto simp: entered_def)
    then obtain e k where e: "e \<in> set (new_entries m es)" "g = settled rules es e (enrolled (row_for rules e) k)"
      using new_rows_in [of g "settled rules es" rules i "new_entries m es"] by blast
    then have in_es: "e \<in> set es" by (simp add: new_entries_def)
    have "mf_rel g = fe_rel e" using settled_keeps e(2) by (simp add: keeps_rel_def)
    then have "entry_at es (mf_rel g) = Some e" using entry_at_some [OF dist in_es] by simp
    moreover have "\<not> extracted_before m e" using e(1) by (force simp: extracted_before_def new_entries_def)
    moreover have "\<not> mf_extracted (enrolled (row_for rules e) k)" by (simp add: enrolled_def)
    ultimately show ?thesis using rel g(2) same e(2) fresh_rows(2) by auto
  qed
qed

lemma scanned_again:
  assumes ok: "table_ok m i" and dist: "distinct (map fe_rel es)"
  shows "scanned rules es (scanned rules es m i) j = scanned rules es m i"
    and "next_id (scanned rules es m i) es j = j"
proof -
  let ?S = "scanned rules es m i"
  have "mf_rel (left_behind es f) = mf_rel f" for f by (simp add: left_behind_def)
  then have rels: "mf_rel ` set ?S = mf_rel ` set (entered (settled rules es) rules es m i)"
    by (simp add: scanned_def image_image)
  have "fe_rel e \<in> mf_rel ` set ?S" if "e \<in> set es" for e unfolding rels by (rule entered_rels [OF settled_keeps that])
  then have none: "new_entries ?S es = []" unfolding new_entries_def filter_empty_conv by blast
  then show "next_id ?S es j = j" by (simp add: next_id_def)
  have "left_behind es (known_row (settled rules es) rules es f) = f" if f: "f \<in> set ?S" for f
  proof (cases "entry_at es (mf_rel f)")
    case None
    then show ?thesis using scanned_row [OF ok dist f] by (auto simp: known_row_def left_behind_def)
  next
    case (Some e)
    then obtain g where g: "row_of rules e g" "f = settled rules es e g" using scanned_row [OF ok dist f] by auto
    have "refreshed (row_for rules e) f = f" using row_of_refreshed g row_of_settled by metis
    moreover have "settled rules es e f = f" unfolding g(2) by (simp add: settled_def read_noted_def)
    moreover have "left_behind es f = f" using entry_at_in [OF Some] by (metis imageI left_behind_def)
    ultimately show ?thesis by (simp add: known_row_def Some)
  qed
  then show "scanned rules es ?S j = ?S" by (simp add: scanned_def [of rules es ?S] entered_def none o_def map_idI)
qed

section \<open>What the next stage lists\<close>

lemma after_scan_simps [simp]:
  "pp_manifest (after_scan data p) = scanned (the_rules p) (walkFiles data) (pp_manifest p) (pp_next_file p)"
  "pp_next_file (after_scan data p) = next_id (pp_manifest p) (walkFiles data) (pp_next_file p)"
  "pp_rules (after_scan data p) = pp_rules p" "the_rules (after_scan data p) = the_rules p"
  by (simp_all add: after_scan_def with_table_def the_rules_def)

lemma scan_ready_again: "scan_ready ev p data \<Longrightarrow> scan_ready ev (after_scan data p) data"
proof -
  assume ready: "scan_ready ev p data"
  have same: "mf_rel (left_behind es f) = mf_rel f" "mf_id (left_behind es f) = mf_id f" for es f by (simp_all add: left_behind_def)
  have "table_ok (entered (settled (the_rules p) (walkFiles data)) (the_rules p) (walkFiles data) (pp_manifest p) (pp_next_file p))
      (next_id (pp_manifest p) (walkFiles data) (pp_next_file p))"
    using entered_ok [OF settled_keeps] ready walkFiles_distinct by (simp add: scan_ready_def)
  then show ?thesis using ready by (simp add: scan_ready_def scanned_def table_ok_def o_def same)
qed

text \<open>A rule that hands the path to the parsers.\<close>

definition parsed_role :: "rule option \<Rightarrow> bool" where
  "parsed_role r \<longleftrightarrow> (case r of None \<Rightarrow> False | Some r \<Rightarrow> \<not> rl_Ignore r \<and> isParseEligible (deref (rl_Role r)))"

lemma candidate_row:
  assumes "\<forall>r \<in> set rules. rule_ok r" and "row_of rules e f"
  shows "parse_candidate f \<longleftrightarrow> parsed_role (matchRule rules (fe_rel e))"
proof -
  have ok: "rule_ok r" if "matchRule rules (fe_rel e) = Some r" for r
    using that assms(1) by (auto simp: matchRule_def find_Some_iff)
  have "parse_candidate f \<longleftrightarrow> parse_candidate (row_for rules e)"
    by (subst assms(2) [unfolded row_of_def]) (simp add: parse_candidate_def)
  also have "\<dots> \<longleftrightarrow> parsed_role (matchRule rules (fe_rel e))"
    using ok by (cases "matchRule rules (fe_rel e)")
      (auto simp: parse_candidate_def parsed_role_def row_for_def manifest_params_def Match_def no_match_def
        rule_ok_def manifest_roles_def isParseEligible_def deref_def split: option.splits if_splits)
  finally show ?thesis .
qed

lemma scanned_path:
  assumes "e \<in> set es" shows "\<exists>f \<in> set (scanned rules es m i). mf_rel f = fe_rel e"
proof -
  have "mf_rel (left_behind es f) = mf_rel f" for f by (simp add: left_behind_def)
  then have rels: "mf_rel ` set (scanned rules es m i) = mf_rel ` set (entered (settled rules es) rules es m i)"
    by (simp add: scanned_def image_image)
  have "fe_rel e \<in> mf_rel ` set (scanned rules es m i)" unfolding rels by (rule entered_rels [OF settled_keeps assms])
  then show ?thesis by (metis imageE)
qed

lemma listed_after_scan:
  assumes rules: "\<forall>r \<in> set rules. rule_ok r" and ok: "table_ok m i" and dist: "distinct (map fe_rel es)" and "es \<noteq> []"
  shows "(\<exists>f \<in> set (scanned rules es m i). mf_rel f = rel \<and> parse_candidate f \<and> \<not> mf_extracted f)
    \<longleftrightarrow> (\<exists>e \<in> set es. fe_rel e = rel \<and> parsed_role (matchRule rules rel) \<and> \<not> extracted_before m e)"
proof -
  have row: "(parse_candidate f \<and> \<not> mf_extracted f) \<longleftrightarrow> (case entry_at es (mf_rel f) of None \<Rightarrow> False
      | Some e \<Rightarrow> parsed_role (matchRule rules (mf_rel f)) \<and> \<not> extracted_before m e)" if f: "f \<in> set (scanned rules es m i)" for f
  proof (cases "entry_at es (mf_rel f)")
    case None
    then obtain f0 where f0: "f = left_behind es f0" using scanned_row [OF ok dist f] by auto
    then have "mf_rel f = mf_rel f0" by (simp add: left_behind_def)
    then have "mf_rel f0 \<notin> fe_rel ` set es" using None entry_at_none by metis
    then have "mf_status f \<noteq> ''active''" using \<open>es \<noteq> []\<close> by (simp add: f0 left_behind_def)
    then show ?thesis using None by (simp add: parse_candidate_def)
  next
    case (Some e)
    then obtain g where g: "row_of rules e g" "f = settled rules es e g" "mf_extracted g \<longleftrightarrow> extracted_before m e"
      using scanned_row [OF ok dist f] by auto
    have "parse_candidate f \<longleftrightarrow> parse_candidate g" "mf_extracted f = mf_extracted g"
      unfolding g(2) by (simp_all add: settled_def read_noted_def parse_candidate_def)
    then show ?thesis using candidate_row [OF rules g(1)] g(3) Some entry_at_in [OF Some] by simp
  qed
  show ?thesis
  proof
    assume "\<exists>f \<in> set (scanned rules es m i). mf_rel f = rel \<and> parse_candidate f \<and> \<not> mf_extracted f"
    then obtain f where f: "f \<in> set (scanned rules es m i)" "mf_rel f = rel" "parse_candidate f \<and> \<not> mf_extracted f" by blast
    then show "\<exists>e \<in> set es. fe_rel e = rel \<and> parsed_role (matchRule rules rel) \<and> \<not> extracted_before m e"
      using row [OF f(1)] by (auto split: option.splits dest: entry_at_in)
  next
    assume "\<exists>e \<in> set es. fe_rel e = rel \<and> parsed_role (matchRule rules rel) \<and> \<not> extracted_before m e"
    then obtain e where e: "e \<in> set es" "fe_rel e = rel" "parsed_role (matchRule rules rel)" "\<not> extracted_before m e" by blast
    obtain f where f: "f \<in> set (scanned rules es m i)" "mf_rel f = fe_rel e" using scanned_path [OF e(1)] by blast
    show "\<exists>f \<in> set (scanned rules es m i). mf_rel f = rel \<and> parse_candidate f \<and> \<not> mf_extracted f"
      using row [OF f(1)] f entry_at_some [OF dist e(1)] e by auto
  qed
qed

text \<open>The listing does not look at the note: files of a shared identity are handed on with it.\<close>

lemma ambiguous_file_listed:
  assumes rules: "\<forall>r \<in> set rules. rule_ok r" and ok: "table_ok m i" and dist: "distinct (map fe_rel es)"
    and e: "e \<in> set es" "ambiguous rules es e" "\<not> extracted_before m e"
  shows "\<exists>f \<in> set (scanned rules es m i). mf_rel f = fe_rel e \<and> parse_candidate f \<and> \<not> mf_extracted f
    \<and> mf_error f = amb_note (map fe_rel (twins rules es (identity_key rules e)))"
proof -
  have "parsed_role (matchRule rules (fe_rel e))"
    using e(2) by (auto simp: ambiguous_def eligible_def parsed_role_def Match_def no_match_def Let_def split: option.splits if_splits)
  then obtain f where f: "f \<in> set (scanned rules es m i)" "mf_rel f = fe_rel e" "parse_candidate f" "\<not> mf_extracted f"
    using listed_after_scan [OF rules ok dist, of "fe_rel e"] e(1,3) by (metis empty_iff list.set(1))
  then obtain g where "f = settled rules es e g" using scanned_row [OF ok dist f(1)] entry_at_some [OF dist e(1)] by auto
  then show ?thesis using f e(2) by (intro bexI [of _ f]) (simp_all add: settled_def)
qed

text \<open>A note of an earlier scan stays with the row while its hash stays.\<close>

lemma note_outlives_twin:
  assumes "row_of rules e f" and "\<not> ambiguous rules es e" and "fe_content e = Some c"
  shows "mf_error (settled rules es e (refreshed (row_for rules e) f)) = mf_error f"
  using row_of_refreshed [OF assms(1)] assms(2,3) by (simp add: settled_def read_noted_def)

section \<open>Patterns\<close>

lemma glob_trailing_star: "list_all plain_byte p \<Longrightarrow> glob (p @ [42]) name \<longleftrightarrow> (\<exists>m. 47 \<notin> set m \<and> name = p @ m)"
proof -
  assume p: "list_all plain_byte p"
  have star: "glob [42] t \<longleftrightarrow> 47 \<notin> set t" for t by (simp add: glob.simps)
  show ?thesis
  proof (cases "p = []")
    case False
    then show ?thesis using glob_plain_then [OF p False, of "[42]" name] star by auto
  qed (simp add: star)
qed

definition plain_char :: "char \<Rightarrow> bool" where
  "plain_char c \<longleftrightarrow> c \<notin> {CHR ''*'', CHR ''?'', CHR ''['', CHR 0x5C}"

lemma plain_char_byte: "plain_char c \<longleftrightarrow> plain_byte (of_char c)"
proof -
  have "of_char c = (of_char d :: nat) \<longleftrightarrow> c = d" for d :: char by simp
  from this [of "CHR ''*''"] this [of "CHR ''?''"] this [of "CHR ''[''"] this [of "CHR 0x5C"]
  show ?thesis by (simp add: plain_char_def plain_byte_def)
qed

lemma bytes_split:
  "map of_char name = map of_char p @ m @ (map of_char q :: nat list) \<longleftrightarrow> (\<exists>mid. name = p @ mid @ q \<and> m = map of_char mid)"
proof
  assume "map of_char name = map of_char p @ m @ (map of_char q :: nat list)"
  then obtain a d where ad: "name = a @ d" "map of_char a = (map of_char p :: nat list)" "map of_char d = m @ map of_char q"
    by (metis map_eq_append_conv)
  from ad(3) obtain b c where "d = b @ c" "map of_char b = m" "map of_char c = (map of_char q :: nat list)"
    by (metis map_eq_append_conv)
  note ad(1,2) this
  moreover have "map of_char x = (map of_char y :: nat list) \<Longrightarrow> x = y" for x y :: string
    by (rule list.inj_map_strong [of x y of_char "of_char :: char \<Rightarrow> nat"]) auto
  ultimately show "\<exists>mid. name = p @ mid @ q \<and> m = map of_char mid" by blast
qed auto

lemma slash_byte: "47 \<in> set (map of_char m :: nat list) \<longleftrightarrow> CHR ''/'' \<in> set m"
proof -
  have "(47 :: nat) = of_char (CHR ''/'')" by simp
  then show ?thesis by (simp only: set_map) (metis (no_types, lifting) imageE image_eqI of_char_eq_iff)
qed

section \<open>A small directory\<close>

definition demo_rule :: rule where
  "demo_rule = \<lparr>rl_Ordinal = 1, rl_Pattern = ''*.pdf'', rl_Framework = Some ''fw'', rl_Version = Some ''v1'', rl_Role = Some ''main'',
     rl_Qualifier = [], rl_Format = Some ''pdf'', rl_Ignore = False, rl_Reason = [], rl_License = None, rl_URL = [], rl_Note = []\<rparr>"

definition demo_data :: data_dir where
  "demo_data = (''data'', [(''a.pdf'', Leaf (Some 3) (Some ''abc'')), (''b.pdf'', Leaf (Some 4) (Some ''abcd''))])"

definition demo_manifest :: "(int, int) pipe" where
  "demo_manifest = \<lparr>pp_corpus = empty_corpus, pp_manifest = [], pp_rules = [demo_rule], pp_next_source = 1, pp_next_file = 1,
     pp_raw = [], pp_titles = [], pp_refs = [], pp_curated = []\<rparr>"

definition demo_scan :: scan_env where
  "demo_scan = \<lparr>sc_fault = (\<lambda>_. False), sc_order = id\<rparr>"

lemma demo_ready: "\<forall>k. \<not> sc_fault demo_scan k" "scan_ready demo_scan demo_manifest demo_data"
  by (simp_all add: demo_scan_def scan_ready_def fair_order_def demo_data_def demo_manifest_def demo_rule_def rule_ok_def
      manifest_roles_def manifest_formats_def table_ok_def)

section \<open>Properties\<close>

text \<open>
  C37.  When no statement fails, the manifest stage leaves exactly the reference manifest: every known path
  in its place with its id, its columns from the first rule that matches and its marks kept if the hash is
  the same; new paths behind them with new ids; each file of a shared identity and each unreadable file
  with its note; the paths that are gone demoted.  The order in which Go visits the identities does not
  matter.  The stage succeeds exactly if every file is readable and no two share an identity.
\<close>

theorem scan_reference:
  fixes p :: "('v, 'sp) pipe"
  assumes "\<forall>k. \<not> sc_fault ev k" and "scan_ready ev p data"
  shows "\<exists>r n'. runManifest ev data (p, n) = (r, (after_scan data p, n')) \<and> ((\<exists>s. r = Inr s) \<longleftrightarrow> clean_dir (the_rules p) data)"
  using assms by (rule runManifest_spec)

theorem scan_reference_witness:
  "\<exists>r n'. runManifest demo_scan demo_data (demo_manifest, 0) = (r, (after_scan demo_data demo_manifest, n'))
     \<and> ((\<exists>s. r = Inr s) \<longleftrightarrow> clean_dir (the_rules demo_manifest) demo_data)"
  by (rule scan_reference [OF demo_ready])

text \<open>
  C38.  Running the manifest stage again over the same directory changes nothing in the database and comes
  to the same verdict.
\<close>

theorem scan_idempotent:
  fixes p :: "('v, 'sp) pipe"
  assumes "\<forall>k. \<not> sc_fault ev k" and "scan_ready ev p data"
  shows "case runManifest ev data (p, n) of (r, (p1, n1)) \<Rightarrow>
     case runManifest ev data (p1, n1) of (r2, (p2, n2)) \<Rightarrow> p2 = p1 \<and> isl r2 = isl r"
proof -
  let ?p1 = "after_scan data p"
  obtain r n1 where one: "runManifest ev data (p, n) = (r, (?p1, n1))" "(\<exists>s. r = Inr s) \<longleftrightarrow> clean_dir (the_rules p) data"
    using runManifest_spec [OF assms, of n] by blast
  obtain r2 n2 where two: "runManifest ev data (?p1, n1) = (r2, (after_scan data ?p1, n2))"
      "(\<exists>s. r2 = Inr s) \<longleftrightarrow> clean_dir (the_rules p) data"
    using runManifest_spec [OF assms(1) scan_ready_again [OF assms(2)], of n1] by auto
  have "after_scan data ?p1 = ?p1"
    unfolding after_scan_def [of data ?p1] using scanned_again [OF _ walkFiles_distinct] assms(2)
    by (simp add: scan_ready_def) (simp add: after_scan_def with_table_def)
  moreover have "isl r2 = isl r" using one(2) two(2) by (cases r; cases r2) auto
  ultimately show ?thesis using one(1) two(1) by simp
qed

theorem scan_idempotent_witness:
  "case runManifest demo_scan demo_data (demo_manifest, 0) of (r, (p1, n1)) \<Rightarrow>
     case runManifest demo_scan demo_data (p1, n1) of (r2, (p2, n2)) \<Rightarrow> p2 = p1 \<and> isl r2 = isl r"
  by (rule scan_idempotent [OF demo_ready])



text \<open>
  C40.  The first rule decides: a rule whose pattern has one star and no other special character takes a
  path exactly if the path is the text before the star, any text without a slash, and the text after the
  star; the path goes on to the later rules otherwise.
\<close>

theorem one_star_rule:
  assumes "rl_Pattern r = pre @ ''*'' @ post" and "list_all plain_char (pre @ post)"
  shows "matchRule (r # rules) path = (if \<exists>mid. CHR ''/'' \<notin> set mid \<and> path = pre @ mid @ post then Some r else matchRule rules path)"
proof -
  have plain: "list_all plain_byte (map of_char pre)" "list_all plain_byte (map of_char post)"
    using assms(2) by (simp_all add: list_all_iff plain_char_byte)
  have "path_match (pre @ ''*'' @ post) path \<longleftrightarrow> (\<exists>m :: nat list. 47 \<notin> set m \<and> map of_char path = map of_char pre @ m @ map of_char post)"
    using glob_one_star [OF plain] glob_trailing_star [OF plain(1)] by (cases "post = []") (simp_all add: path_match_def)
  also have "\<dots> \<longleftrightarrow> (\<exists>mid. CHR ''/'' \<notin> set mid \<and> path = pre @ mid @ post)"
    using slash_byte by (auto simp: bytes_split)
  finally have decides: "path_match (rl_Pattern r) path \<longleftrightarrow> (\<exists>mid. CHR ''/'' \<notin> set mid \<and> path = pre @ mid @ post)"
    unfolding assms(1) .
  show ?thesis unfolding matchRule_def find.simps decides ..
qed

theorem one_star_rule_witness:
  "matchRule [demo_rule] ''iso/a.pdf''
     = (if \<exists>mid. CHR ''/'' \<notin> set mid \<and> ''iso/a.pdf'' = [] @ mid @ ''.pdf'' then Some demo_rule else matchRule [] ''iso/a.pdf'')"
  by (rule one_star_rule) (simp_all add: demo_rule_def plain_char_def)

end
