(* ===== verification/Spec2Isabelle.thy ===== *)
theory Spec2Isabelle
  imports OAuth_Claims OAuth_Server_Claims Eval_Report Lexical_Props Retrieve_Claims Index_Props Mcp_Claims
    Oscal_Claims Server_Claims Normalize_Total Map_Edges_Claims Manifest_Claims
begin

text \<open>
  A model of compliary: a Go service that keeps a corpus of compliance frameworks in PostgreSQL and
  serves it to language-model clients over MCP, behind its own OAuth 2.1 authorization server.

  \<^bold>\<open>The program.\<close>  A pipeline reads captured documents, normalizes each into a tree of controls in the tables
  of \<open>sql/silver\<close>, and derives those of \<open>sql/gold\<close> (chunks, their embeddings and sparse vectors).  The
  retriever answers a query from both by a vector arm, a lexical arm and citation routing.  The MCP tools
  wrap the retriever and look controls up; the OAuth package guards them, and the server command puts
  both behind a stack of middlewares.  \<open>pkg/eval\<close> measures the retriever.

  \<^bold>\<open>Theories and sources.\<close>

  \<^item> \<open>Prelude\<close>, \<open>Go_Std\<close>, \<open>Go_Url\<close>, \<open>Go_Regexp\<close>: shared lemmas, and what the code uses of Go's standard
    library (string functions, UTF-8, base64, SHA-256, \<open>net/url\<close>, \<open>net.IP\<close>, \<open>regexp\<close>).
  \<^item> \<open>OAuth_Types\<close> (\<open>pkg/oauth/store_types.go\<close>), \<open>OAuth_Store\<close> (\<open>store.go\<close>: the mutex makes each method one
    step on the record of its five maps), \<open>OAuth_Pg\<close> (\<open>postgres_store.go\<close> and \<open>sql/auth/schema.sql\<close>: each
    method is a transaction, a failing statement rolls back), \<open>OAuth_Handlers\<close> and \<open>OAuth_Server\<close>
    (\<open>handlers.go\<close>, \<open>oauth.go\<close>), \<open>Safe_Fetch\<close> (\<open>safefetch.go\<close>).  \<open>OAuth_Contract\<close> states what the server
    relies on of a store as two locales; \<open>OAuth_Store_Props\<close> and \<open>OAuth_Pg_Props\<close> interpret them on the
    two stores, after the invariants of \<open>OAuth_Store_Inv\<close>.  \<open>OAuth_Claims\<close>, \<open>OAuth_Server_Props\<close> and
    \<open>OAuth_Server_Claims\<close> hold the properties: replay detection and single use of codes and refresh
    tokens in either store, scopes and the client cap over every run of the server, and the conditions
    under which the endpoints issue anything.
  \<^item> \<open>Eval\<close>, \<open>Eval_Report\<close> (\<open>pkg/eval\<close>): the shared hit and evidence types, the golden set, the metrics, the
    roll-up and the gate.
  \<^item> \<open>Lexical\<close>, \<open>Lexical_Props\<close> (\<open>pkg/rag/lexical\<close>): tokenizer, hashing and BM25 weights; the sparse inner
    product is the BM25 score.
  \<^item> \<open>Corpus\<close> (\<open>sql/silver\<close>, \<open>sql/gold\<close>, \<open>sql/config\<close>, \<open>sql/bronze\<close>): the tables as lists of row records.
  \<^item> \<open>Citation\<close>, \<open>Retrieve\<close> (\<open>pkg/rag/retrieve\<close>): scheme table, fusion, arms, hydration, citation routing, the
    non-current pass and the abstain floor.  \<open>Retrieve_Props\<close> and \<open>Retrieve_Claims\<close>: fusion against a
    reference definition, the filters every hit obeys, how many hits there are, and the precision of a
    default search.
  \<^item> \<open>Embed\<close> (\<open>pkg/rag/embed/embed.go\<close>), \<open>Db_Act\<close>, \<open>Index\<close>, \<open>Index_Props\<close> (\<open>pkg/rag/index\<close> over
    \<open>sql/gold/queries.sql\<close>): the index stage as actions over the tables in which any statement may fail and
    the effects of the earlier ones stay.  \<open>Index_Props\<close> states what the stage needs of an embedder as a
    locale, interpreted on the client of \<open>Embed\<close>.
  \<^item> \<open>Silver\<close> and \<open>Pipeline_Db\<close> (\<open>pkg/store\<close>: the statements on \<open>sql/silver\<close>, \<open>sql/ingest\<close> and
    \<open>sql/bronze\<close>, with the constraints of the schemas), \<open>Json\<close> (\<open>encoding/json\<close> on parsed values).
  \<^item> \<open>Normalize\<close>, \<open>Normalize_Run\<close> (\<open>pkg/normalize/normalize.go\<close>): the tree writer, the dispatch by scheme and
    the run over the pending files, again as actions in which any statement may fail; a panic or a loop
    that never ends stops the run.  \<open>Normalize_Props\<close>, \<open>Normalize_Write\<close>, \<open>Normalize_Claims\<close>: the tables stay
    well formed, what a successful write leaves, what an error leaves, and that a run counts every file.
  \<^item> \<open>Oscal\<close>, \<open>Oscal_Props\<close>, \<open>Oscal_Claims\<close> (\<open>pkg/normalize/oscal.go\<close>): the OSCAL builder; its tree is the
    catalog's outline, rendering is a substitution, and when the builder returns.
  \<^item> \<open>Workbook\<close> (the capture of a workbook, its cell references, and Go regular expressions with groups),
    \<open>Csf\<close>, \<open>Csf_Props\<close> (\<open>pkg/normalize/csf.go\<close>), \<open>Cis_Ccm\<close> (\<open>cis.go\<close>, \<open>ccm.go\<close>), \<open>Workbook_Claims\<close>: the builders
    over workbooks against reference trees, and that what they build passes the checks of the tables.
    \<open>Normalize_Total\<close>: such a tree is written when no statement fails.
  \<^item> \<open>Map_Edges\<close> (\<open>mapedges.go\<close>, \<open>olir.go\<close>, \<open>cismap.go\<close>, \<open>curated.go\<close>, \<open>resolve.go\<close>, and the stage in
    \<open>cmd/pipeline/main.go\<close>), \<open>Map_Edges_Props\<close>, \<open>Map_Edges_Claims\<close>: the derived edges; what a run may change,
    when the documents are fresh, and what depends on the order of a Go map.
  \<^item> \<open>Go_Path\<close> (\<open>filepath.Match\<close>), \<open>Manifest\<close> (\<open>pkg/manifest/manifest.go\<close> and its stage in
    \<open>cmd/pipeline/main.go\<close>), \<open>Manifest_Props\<close>, \<open>Manifest_Claims\<close>: the scan of the data directory against a
    reference, that it is idempotent, and which files the next stage is handed.
  \<^item> \<open>Server_Main\<close>, \<open>Server_Claims\<close> (\<open>cmd/server/main.go\<close>): auth mode, routes and middlewares; what reaches
    the MCP handler, the origin check, the client address, and the limiter against one bucket per client.
  \<^item> \<open>Mcp\<close>, \<open>Mcp_Props\<close>, \<open>Mcp_Claims\<close> (\<open>pkg/mcp/core.go\<close>, \<open>search.go\<close>, \<open>document.go\<close>): the search and document
    tools; the reduced projection as non-interference, paging, what is found, and honest empty answers.

  \<^bold>\<open>Conventions.\<close>  A Go map or a table with a primary key is a finite map, a table that is scanned is a list
  of rows.  Errors are values of a sum or option type, panics and diverging loops included where the code
  has them (\<open>VectorPanic\<close>, \<open>Diverges\<close>, \<open>Panics\<close>, \<open>Never\<close>).  Times are integers; each clock reading, random string and I/O
  outcome is an input, so statements hold for all of them.  Scores are rationals or reals where the code
  has \<open>float64\<close>: rounding is not modelled.  Strings are lists of 8-bit characters, runes are numbers.

  \<^bold>\<open>Bounds and fuel.\<close>  Two loops of the code may run for ever and are a \<open>partial_function\<close>: the walk of
  \<open>ancestorCitations\<close>, which returns when parents are older than their children (\<open>BuildChunks_returns\<close>) and
  does not on a cycle (\<open>ancestor_loop_cycle\<close>); and \<open>renderInserts\<close>, which returns when no parameter text holds
  a closing brace (\<open>oscal_returns\<close>) and does not on a parameter that inserts itself
  (\<open>self_insert_never_returns\<close>).  \<open>read_pages\<close>, a client of the document tool, counts its
  pages; one more than the number of chunks is enough, as every page but the last reads at least one.
  All other recursions terminate on a measure.

  \<^bold>\<open>Parameters.\<close>  bcrypt and the hash in the contract, DNS and HTTP, pgvector distances and approximate
  indexes, the database's collation, statement faults, the embedding endpoint and the Kaggle job are
  arguments of the definitions that use them.

  \<^bold>\<open>Not modelled.\<close>  Extractors and fetchers (PDF, HTML and workbook parsing through third-party libraries),
  the builders of \<open>pkg/normalize\<close> over the text of PDF files (arguments of the run), the statements for
  seeding and reporting, the corpus status and quality gap tools of \<open>pkg/mcp\<close>, its guide
  text and SDK wiring, page templates, body caps and write deadlines, logging, configuration, the other
  commands under \<open>cmd\<close>, deployment data.
\<close>

end
